(* ===== verification/Prelude.thy ===== *)
theory Prelude
  imports Main
begin

text \<open>
  What every component of the exchange backend shares: the error classes of
  \<open>lib/errors.ts\<close> as values, and service calls as functions on an explicit state that
  return either an error or a result.  An \<open>async\<close> handler of the source is a \<open>svc\<close>; a
  \<open>throw\<close> is \<open>Inl\<close> together with the state reached so far, because a write already
  committed by the handler stays committed when a later statement throws.  Only
  \<open>transactionS\<close> (a \<open>prisma.$transaction\<close>) undoes writes.

  The combinators come with two collections: \<open>svc_simps\<close> evaluates calls, and
  \<open>preserves_intros\<close> proves that a call keeps an invariant of the state whatever its
  outcome, from the same fact about the calls it makes.
\<close>

named_theorems svc_simps "evaluation of service calls"
named_theorems preserves_intros "a service call keeps an invariant, success or error"

section \<open>Errors\<close>

text \<open>
  One constructor per class of \<open>lib/errors.ts\<close>, with the fields a subclass leaves open
  (messages and \<open>details\<close> are text for people and are left out); \<open>PrismaError\<close> is a
  \<open>PrismaClientKnownRequestError\<close> with its code, \<open>DbCheckError\<close> a violated CHECK constraint
  or trigger of the migrations, \<open>JsError\<close> a plain \<open>Error\<close>.
\<close>

datatype err =
    AppError nat string
  | BadRequestError
  | ValidationError
  | UnauthorizedError string
  | ForbiddenError string
  | NotFoundError string
  | ConflictError string
  | TooManyRequestsError string
  | ServiceUnavailableError
  | PrismaError string
  | DbCheckError string
  | JsError string

fun statusCode :: "err \<Rightarrow> nat" where
  "statusCode (AppError n c) = n"
| "statusCode BadRequestError = 400"
| "statusCode ValidationError = 422"
| "statusCode (UnauthorizedError c) = 401"
| "statusCode (ForbiddenError c) = 403"
| "statusCode (NotFoundError c) = 404"
| "statusCode (ConflictError c) = 409"
| "statusCode (TooManyRequestsError c) = 429"
| "statusCode ServiceUnavailableError = 503"
| "statusCode _ = 500"

fun errorCode :: "err \<Rightarrow> string" where
  "errorCode (AppError n c) = c"
| "errorCode BadRequestError = ''BAD_REQUEST''"
| "errorCode ValidationError = ''VALIDATION_ERROR''"
| "errorCode (UnauthorizedError c) = c"
| "errorCode (ForbiddenError c) = c"
| "errorCode (NotFoundError c) = c"
| "errorCode (ConflictError c) = c"
| "errorCode (TooManyRequestsError c) = c"
| "errorCode ServiceUnavailableError = ''SERVICE_UNAVAILABLE''"
| "errorCode _ = ''INTERNAL_ERROR''"

text \<open>The codes the constructors of the classes fill in when none is given.\<close>

abbreviation not_found :: err where
  "not_found \<equiv> NotFoundError ''NOT_FOUND''"

section \<open>Service calls\<close>

type_synonym ('s, 'a) svc = "'s \<Rightarrow> (err + 'a) \<times> 's"

definition returnS :: "'a \<Rightarrow> ('s, 'a) svc" where
  "returnS a = (\<lambda>s. (Inr a, s))"

definition throwS :: "err \<Rightarrow> ('s, 'a) svc" where
  "throwS e = (\<lambda>s. (Inl e, s))"

definition bindS :: "('s, 'a) svc \<Rightarrow> ('a \<Rightarrow> ('s, 'b) svc) \<Rightarrow> ('s, 'b) svc" where
  "bindS m f = (\<lambda>s. case m s of (Inl e, s') \<Rightarrow> (Inl e, s') | (Inr a, s') \<Rightarrow> f a s')"

definition readS :: "('s \<Rightarrow> 'a) \<Rightarrow> ('s, 'a) svc" where
  "readS f = (\<lambda>s. (Inr (f s), s))"

definition writeS :: "('s \<Rightarrow> 's) \<Rightarrow> ('s, unit) svc" where
  "writeS f = (\<lambda>s. (Inr (), f s))"

definition requireS :: "bool \<Rightarrow> err \<Rightarrow> ('s, unit) svc" where
  "requireS b e = (if b then returnS () else throwS e)"

text \<open>\<open>try { m } catch (err) { h err }\<close>: the handler runs in the state the throw left.\<close>

definition catchS :: "('s, 'a) svc \<Rightarrow> (err \<Rightarrow> ('s, 'a) svc) \<Rightarrow> ('s, 'a) svc" where
  "catchS m h = (\<lambda>s. case m s of (Inl e, s') \<Rightarrow> h e s' | (Inr a, s') \<Rightarrow> (Inr a, s'))"

text \<open>\<open>prisma.$transaction\<close>: all writes of the body, or none when it throws.\<close>

definition transactionS :: "('s, 'a) svc \<Rightarrow> ('s, 'a) svc" where
  "transactionS m = (\<lambda>s. case m s of (Inl e, s') \<Rightarrow> (Inl e, s) | (Inr a, s') \<Rightarrow> (Inr a, s'))"

primrec mapS :: "('x \<Rightarrow> ('s, 'a) svc) \<Rightarrow> 'x list \<Rightarrow> ('s, 'a list) svc" where
  "mapS f [] = returnS []"
| "mapS f (x # xs) = bindS (f x) (\<lambda>a. bindS (mapS f xs) (\<lambda>as. returnS (a # as)))"

definition whenS :: "bool \<Rightarrow> ('s, unit) svc \<Rightarrow> ('s, unit) svc" where
  "whenS b m = (if b then m else returnS ())"

lemma returnS_apply [svc_simps]: "returnS a s = (Inr a, s)"
  by (simp add: returnS_def)

lemma throwS_apply [svc_simps]: "throwS e s = (Inl e, s)"
  by (simp add: throwS_def)

lemma readS_apply [svc_simps]: "readS f s = (Inr (f s), s)"
  by (simp add: readS_def)

lemma writeS_apply [svc_simps]: "writeS f s = (Inr (), f s)"
  by (simp add: writeS_def)

lemma requireS_apply [svc_simps]:
  "requireS b e s = (if b then (Inr (), s) else (Inl e, s))"
  by (simp add: requireS_def svc_simps)

lemma whenS_apply [svc_simps]: "whenS b m s = (if b then m s else (Inr (), s))"
  by (simp add: whenS_def svc_simps)

lemma bindS_apply [svc_simps]:
  "bindS m f s = (case m s of (Inl e, s') \<Rightarrow> (Inl e, s') | (Inr a, s') \<Rightarrow> f a s')"
  by (simp add: bindS_def)

lemma catchS_apply [svc_simps]:
  "catchS m h s = (case m s of (Inl e, s') \<Rightarrow> h e s' | (Inr a, s') \<Rightarrow> (Inr a, s'))"
  by (simp add: catchS_def)

lemma transactionS_apply [svc_simps]:
  "transactionS m s = (case m s of (Inl e, s') \<Rightarrow> (Inl e, s) | (Inr a, s') \<Rightarrow> (Inr a, s'))"
  by (simp add: transactionS_def)

text \<open>
  For evaluation: a call unfolds to nested case distinctions once its state is there.
  \<open>run_code\<close> rewrites the definition of an operation, applied to a state, to that form.
\<close>

lemmas svc_code [code] = returnS_apply throwS_apply readS_apply writeS_apply requireS_apply
  whenS_apply bindS_apply catchS_apply transactionS_apply

lemma run_let: "(let a = e in f a) s = (let a = e in f a s)"
  by (simp add: Let_def)

lemma run_if: "(if b then m else n) s = (if b then m s else n s)"
  by simp

lemma run_option: "(case x of None \<Rightarrow> m | Some a \<Rightarrow> f a) s = (case x of None \<Rightarrow> m s | Some a \<Rightarrow> f a s)"
  by (cases x) simp_all

lemma run_sum: "(case x of Inl a \<Rightarrow> m a | Inr b \<Rightarrow> f b) s = (case x of Inl a \<Rightarrow> m a s | Inr b \<Rightarrow> f b s)"
  by (cases x) simp_all

lemma run_prod: "(case x of (a, b) \<Rightarrow> f a b) s = (case x of (a, b) \<Rightarrow> f a b s)"
  by (cases x) simp

lemmas run_code = returnS_apply throwS_apply readS_apply writeS_apply requireS_apply
  whenS_apply bindS_apply catchS_apply transactionS_apply run_let run_if run_option run_sum run_prod

lemma bindS_Inr_iff:
  "bindS m f s = (Inr b, t) \<longleftrightarrow> (\<exists>a u. m s = (Inr a, u) \<and> f a u = (Inr b, t))"
  by (auto simp: bindS_def split: prod.splits sum.splits)

lemma bindS_Inr_elim [elim]:
  assumes "bindS m f s = (Inr b, t)"
  obtains a u where "m s = (Inr a, u)" and "f a u = (Inr b, t)"
  using assms by (auto simp: bindS_Inr_iff)

lemma transactionS_Inr_iff: "transactionS m s = (Inr a, t) \<longleftrightarrow> m s = (Inr a, t)"
  by (auto simp: transactionS_def split: prod.splits sum.splits)

lemma transactionS_Inl: "transactionS m s = (Inl e, t) \<Longrightarrow> t = s"
  by (auto simp: transactionS_def split: prod.splits sum.splits)

lemma mapS_Inr_length: "mapS f xs s = (Inr ys, t) \<Longrightarrow> length ys = length xs"
  by (induction xs arbitrary: ys s)
     (auto simp: returnS_def bindS_Inr_iff)

lemma run_Inr:
  assumes "\<not> isl (fst (m s))" obtains r t where "m s = (Inr r, t)"
  using assms by (cases "m s", cases "fst (m s)") auto

section \<open>Invariants of service calls\<close>

definition preserves :: "('s \<Rightarrow> bool) \<Rightarrow> ('s, 'a) svc \<Rightarrow> bool" where
  "preserves I m \<longleftrightarrow> (\<forall>s. I s \<longrightarrow> I (snd (m s)))"

lemma preservesI: "(\<And>s. I s \<Longrightarrow> I (snd (m s))) \<Longrightarrow> preserves I m"
  by (simp add: preserves_def)

lemma preservesD: "preserves I m \<Longrightarrow> I s \<Longrightarrow> I (snd (m s))"
  by (simp add: preserves_def)

lemma preserves_run: "preserves I m \<Longrightarrow> I s \<Longrightarrow> m s = (r, t) \<Longrightarrow> I t"
  by (auto dest: preservesD)

lemma preserves_return [preserves_intros]: "preserves I (returnS a)"
  by (simp add: preserves_def returnS_def)

lemma preserves_throw [preserves_intros]: "preserves I (throwS e)"
  by (simp add: preserves_def throwS_def)

lemma preserves_read [preserves_intros]: "preserves I (readS f)"
  by (simp add: preserves_def readS_def)

lemma preserves_require [preserves_intros]: "preserves I (requireS b e)"
  by (simp add: preserves_def requireS_def returnS_def throwS_def)

lemma preserves_write: "(\<And>s. I s \<Longrightarrow> I (f s)) \<Longrightarrow> preserves I (writeS f)"
  by (simp add: preserves_def writeS_def)

lemma preserves_bind [preserves_intros]:
  "preserves I m \<Longrightarrow> (\<And>a. preserves I (f a)) \<Longrightarrow> preserves I (bindS m f)"
  by (fastforce simp: preserves_def bindS_def split: prod.splits sum.splits)

lemma preserves_catch [preserves_intros]:
  "preserves I m \<Longrightarrow> (\<And>e. preserves I (h e)) \<Longrightarrow> preserves I (catchS m h)"
  by (fastforce simp: preserves_def catchS_def split: prod.splits sum.splits)

lemma preserves_transaction [preserves_intros]:
  "preserves I m \<Longrightarrow> preserves I (transactionS m)"
  by (fastforce simp: preserves_def transactionS_def split: prod.splits sum.splits)

lemma preserves_when [preserves_intros]: "preserves I m \<Longrightarrow> preserves I (whenS b m)"
  by (simp add: whenS_def preserves_return)

lemma preserves_if [preserves_intros]:
  "(b \<Longrightarrow> preserves I m) \<Longrightarrow> (\<not> b \<Longrightarrow> preserves I n) \<Longrightarrow> preserves I (if b then m else n)"
  by simp

lemma preserves_option [preserves_intros]:
  "preserves I m \<Longrightarrow> (\<And>x. preserves I (f x)) \<Longrightarrow>
    preserves I (case a of None \<Rightarrow> m | Some x \<Rightarrow> f x)"
  by (cases a) auto

lemma preserves_map [preserves_intros]:
  "(\<And>x. preserves I (f x)) \<Longrightarrow> preserves I (mapS f xs)"
  by (induction xs) (auto intro!: preserves_intros)

lemma preserves_prod [preserves_intros]:
  "(\<And>a b. preserves I (f a b)) \<Longrightarrow> preserves I (case p of (a, b) \<Rightarrow> f a b)"
  by (cases p) simp

lemma preserves_sum [preserves_intros]:
  "(\<And>a. preserves I (f a)) \<Longrightarrow> (\<And>b. preserves I (g b)) \<Longrightarrow>
    preserves I (case x of Inl a \<Rightarrow> f a | Inr b \<Rightarrow> g b)"
  by (cases x) auto

section \<open>Hoare triples of service calls\<close>

text \<open>
  \<open>hoare P m Q E\<close>: from a state with \<open>P\<close>, a result \<open>a\<close> comes with a state that has \<open>Q a\<close> and an
  error with a state that has \<open>E\<close>.  The rules take a handler apart along its statements.
\<close>

definition hoare :: "('s \<Rightarrow> bool) \<Rightarrow> ('s, 'a) svc \<Rightarrow> ('a \<Rightarrow> 's \<Rightarrow> bool) \<Rightarrow> ('s \<Rightarrow> bool) \<Rightarrow> bool" where
  "hoare P m Q E \<longleftrightarrow> (\<forall>s. P s \<longrightarrow> (case m s of (Inl e, t) \<Rightarrow> E t | (Inr a, t) \<Rightarrow> Q a t))"

lemma hoareI:
  "(\<And>s a t. P s \<Longrightarrow> m s = (Inr a, t) \<Longrightarrow> Q a t) \<Longrightarrow> (\<And>s e t. P s \<Longrightarrow> m s = (Inl e, t) \<Longrightarrow> E t) \<Longrightarrow>
     hoare P m Q E"
  by (auto simp: hoare_def split: prod.splits sum.splits)

lemma hoareD: "hoare P m Q E \<Longrightarrow> P s \<Longrightarrow> m s = (Inr a, t) \<Longrightarrow> Q a t"
  by (fastforce simp: hoare_def)

lemma hoareD_error: "hoare P m Q E \<Longrightarrow> P s \<Longrightarrow> m s = (Inl e, t) \<Longrightarrow> E t"
  by (fastforce simp: hoare_def)

lemma hoare_snd: "hoare P m (\<lambda>_. Q) Q \<Longrightarrow> P s \<Longrightarrow> Q (snd (m s))"
  by (cases "m s", cases "fst (m s)") (auto dest: hoareD hoareD_error)

lemma preserves_hoare: "preserves I m \<longleftrightarrow> hoare I m (\<lambda>_. I) I"
  by (auto intro!: preservesI hoareI dest: hoare_snd preserves_run)

lemma hoare_bind:
  "hoare P m R E \<Longrightarrow> (\<And>a. hoare (R a) (f a) Q E) \<Longrightarrow> hoare P (bindS m f) Q E"
  unfolding hoare_def bindS_def by (fastforce split: prod.splits sum.splits)

lemma hoare_catch:
  "hoare P m Q R \<Longrightarrow> (\<And>e. hoare R (h e) Q E) \<Longrightarrow> hoare P (catchS m h) Q E"
  unfolding hoare_def catchS_def by (fastforce split: prod.splits sum.splits)

lemma hoare_return: "(\<And>s. P s \<Longrightarrow> Q a s) \<Longrightarrow> hoare P (returnS a) Q E"
  by (simp add: hoare_def returnS_def)

lemma hoare_throw: "(\<And>s. P s \<Longrightarrow> E s) \<Longrightarrow> hoare P (throwS e) Q E"
  by (simp add: hoare_def throwS_def)

lemma hoare_read: "(\<And>s. P s \<Longrightarrow> Q (f s) s) \<Longrightarrow> hoare P (readS f) Q E"
  by (simp add: hoare_def readS_def)

lemma hoare_if: "(b \<Longrightarrow> hoare P m Q E) \<Longrightarrow> (\<not> b \<Longrightarrow> hoare P n Q E) \<Longrightarrow> hoare P (if b then m else n) Q E"
  by simp

lemma hoare_seq:
  "hoare P m (\<lambda>_. P) E \<Longrightarrow> (\<And>a. hoare P (f a) Q E) \<Longrightarrow> hoare P (bindS m f) Q E"
  by (rule hoare_bind)

lemma hoare_option:
  "hoare P m Q E \<Longrightarrow> (\<And>x. hoare P (f x) Q E) \<Longrightarrow> hoare P (case a of None \<Rightarrow> m | Some x \<Rightarrow> f x) Q E"
  by (cases a) simp_all

lemma hoare_sum:
  "(\<And>a. hoare P (f a) Q E) \<Longrightarrow> (\<And>b. hoare P (g b) Q E) \<Longrightarrow>
     hoare P (case x of Inl a \<Rightarrow> f a | Inr b \<Rightarrow> g b) Q E"
  by (cases x) simp_all

lemma hoare_keep: "preserves P m \<Longrightarrow> (\<And>s. P s \<Longrightarrow> E s) \<Longrightarrow> hoare P m (\<lambda>_. P) E"
  by (auto intro!: hoareI dest: preserves_run)

lemma hoare_weaken:
  "hoare P' m Q' E' \<Longrightarrow> (\<And>s. P s \<Longrightarrow> P' s) \<Longrightarrow> (\<And>a s. Q' a s \<Longrightarrow> Q a s) \<Longrightarrow> (\<And>s. E' s \<Longrightarrow> E s) \<Longrightarrow>
     hoare P m Q E"
  unfolding hoare_def by (fastforce split: prod.splits sum.splits)

section \<open>Lists and options\<close>

lemma find_SomeD: "find P xs = Some x \<Longrightarrow> x \<in> set xs \<and> P x"
  by (induction xs) (auto split: if_splits)

lemma find_NoneD: "find P xs = None \<Longrightarrow> x \<in> set xs \<Longrightarrow> \<not> P x"
  by (auto simp: find_None_iff)

lemma find_unique:
  assumes "x \<in> set xs" and "P x" and "\<And>y. y \<in> set xs \<Longrightarrow> P y \<Longrightarrow> y = x"
  shows "find P xs = Some x"
proof (cases "find P xs")
  case None
  then show ?thesis using assms(1,2) by (auto simp: find_None_iff)
next
  case (Some y)
  then show ?thesis using assms(3) by (auto dest: find_SomeD)
qed

lemma find_append: "find P (xs @ ys) = (case find P xs of None \<Rightarrow> find P ys | Some x \<Rightarrow> Some x)"
  by (induction xs) auto

section \<open>Text\<close>

text \<open>\<open>toUpperCase\<close> of the ASCII letters, and a number in decimal digits.\<close>

definition upperChar :: "char \<Rightarrow> char" where
  "upperChar c = (let n = of_char c :: nat in if 97 \<le> n \<and> n \<le> 122 then char_of (n - 32) else c)"

definition toUpperCase :: "string \<Rightarrow> string" where
  "toUpperCase = map upperChar"

fun nat_text :: "nat \<Rightarrow> string" where
  "nat_text n = (if n < 10 then [char_of (48 + n)] else nat_text (n div 10) @ [char_of (48 + n mod 10)])"

declare nat_text.simps [simp del]

text \<open>\<open>toLowerCase\<close> of the ASCII letters, an integer in decimal, and \<open>padStart(n, '0')\<close>.\<close>

definition lowerChar :: "char \<Rightarrow> char" where
  "lowerChar c = (let n = of_char c :: nat in if 65 \<le> n \<and> n \<le> 90 then char_of (n + 32) else c)"

definition toLowerCase :: "string \<Rightarrow> string" where
  "toLowerCase = map lowerChar"

definition int_text :: "int \<Rightarrow> string" where
  "int_text n = (if n < 0 then ''-'' else []) @ nat_text (nat \<bar>n\<bar>)"

definition padStart :: "nat \<Rightarrow> string \<Rightarrow> string" where
  "padStart n x = replicate (n - length x) (CHR ''0'') @ x"

text \<open>The number a text of digits stands for, in a base up to sixteen.\<close>

definition digit_value :: "char \<Rightarrow> nat" where
  "digit_value c = (let n = of_char (lowerChar c) :: nat
     in if 48 \<le> n \<and> n \<le> 57 then n - 48 else if 97 \<le> n \<and> n \<le> 102 then n - 87 else 16)"

fun digits_value :: "nat \<Rightarrow> nat \<Rightarrow> string \<Rightarrow> nat option" where
  "digits_value base acc [] = Some acc"
| "digits_value base acc (c # cs) =
     (if digit_value c < base then digits_value base (acc * base + digit_value c) cs else None)"

definition digits_of :: "nat \<Rightarrow> string \<Rightarrow> nat option" where
  "digits_of base cs = (if cs = [] then None else digits_value base 0 cs)"

text \<open>The filter \<open>contains\<close> of Prisma, and the same on the CITEXT column of e-mail addresses.\<close>

definition contains_text :: "string \<Rightarrow> string \<Rightarrow> bool" where
  "contains_text needle hay \<longleftrightarrow>
     (\<exists>i \<in> {0..length hay}. take (length needle) (drop i hay) = needle)"

definition contains_ci :: "string \<Rightarrow> string \<Rightarrow> bool" where
  "contains_ci needle hay \<longleftrightarrow> contains_text (toUpperCase needle) (toUpperCase hay)"

text \<open>\<open>trim()\<close> of ASCII white space, and \<open>slice(-n)\<close>.\<close>

definition white_space :: "char \<Rightarrow> bool" where
  "white_space c \<longleftrightarrow> (of_char c :: nat) \<in> {9, 10, 11, 12, 13, 32}"

definition trim :: "string \<Rightarrow> string" where
  "trim x = rev (dropWhile white_space (rev (dropWhile white_space x)))"

definition slice_last :: "nat \<Rightarrow> string \<Rightarrow> string" where
  "slice_last n x = drop (length x - n) x"

text \<open>A call of \<open>.trim()\<close> on a field that is missing throws a \<open>TypeError\<close>.\<close>

definition trim_field :: "string option \<Rightarrow> ('s, string) svc" where
  "trim_field x = (case x of None \<Rightarrow> throwS (JsError ''TypeError'') | Some v \<Rightarrow> returnS (trim v))"

section \<open>Calls that keep an invariant\<close>

text \<open>
  A triple of a precondition, a call and a postcondition for the calls that return; whatever the
  outcome the call keeps the invariant and the two states are related.
\<close>

locale kept_calls =
  fixes inv :: "'s \<Rightarrow> bool"
    and rel :: "'s \<Rightarrow> 's \<Rightarrow> bool"
  assumes rel_refl: "inv s \<Longrightarrow> rel s s"
    and rel_trans: "rel s t \<Longrightarrow> rel t u \<Longrightarrow> rel s u"
begin

definition triple :: "('s \<Rightarrow> bool) \<Rightarrow> ('s, 'a) svc \<Rightarrow> ('a \<Rightarrow> 's \<Rightarrow> bool) \<Rightarrow> bool" where
  "triple P m Q \<longleftrightarrow> (\<forall>s r t. inv s \<longrightarrow> P s \<longrightarrow> m s = (r, t) \<longrightarrow>
     inv t \<and> rel s t \<and> (\<forall>x. r = Inr x \<longrightarrow> Q x t))"

lemma tripleI:
  assumes "\<And>s r t. inv s \<Longrightarrow> P s \<Longrightarrow> m s = (r, t) \<Longrightarrow> inv t \<and> rel s t \<and> (\<forall>x. r = Inr x \<longrightarrow> Q x t)"
  shows "triple P m Q"
  using assms unfolding triple_def by blast

lemma tripleD:
  assumes "triple P m Q" and "inv s" and "P s" and "m s = (r, t)"
  shows "inv t" and "rel s t" and "r = Inr x \<Longrightarrow> Q x t"
  using assms unfolding triple_def by blast+

lemma triple_return: "(\<And>s. inv s \<Longrightarrow> P s \<Longrightarrow> Q x s) \<Longrightarrow> triple P (returnS x) Q"
  by (rule tripleI) (auto simp: svc_simps rel_refl)

lemma triple_throw: "triple P (throwS e) Q"
  by (rule tripleI) (auto simp: svc_simps rel_refl)

lemma triple_read: "(\<And>s. inv s \<Longrightarrow> P s \<Longrightarrow> Q (f s) s) \<Longrightarrow> triple P (readS f) Q"
  by (rule tripleI) (auto simp: svc_simps rel_refl)

lemma triple_require: "(\<And>s. inv s \<Longrightarrow> b \<Longrightarrow> P s \<Longrightarrow> Q () s) \<Longrightarrow> triple P (requireS b e) Q"
  by (rule tripleI) (auto simp: svc_simps rel_refl split: if_splits)

lemma triple_bind:
  assumes m: "triple P m R" and f: "\<And>x. triple (R x) (f x) Q"
  shows "triple P (bindS m f) Q"
proof (rule tripleI)
  fix s r t assume s: "inv s" "P s" and run: "bindS m f s = (r, t)"
  obtain r1 s1 where 1: "m s = (r1, s1)" by (cases "m s")
  note k = tripleD [OF m s 1]
  show "inv t \<and> rel s t \<and> (\<forall>x. r = Inr x \<longrightarrow> Q x t)"
  proof (cases r1)
    case (Inl e)
    then show ?thesis using run 1 k by (auto simp: svc_simps)
  next
    case (Inr x)
    then have "f x s1 = (r, t)" using run 1 by (simp add: svc_simps)
    then show ?thesis using tripleD [OF f k(1) k(3) [OF Inr]] k(2) rel_trans by blast
  qed
qed

lemma triple_weaken:
  "triple P' m Q' \<Longrightarrow> (\<And>s. inv s \<Longrightarrow> P s \<Longrightarrow> P' s) \<Longrightarrow> (\<And>x s. inv s \<Longrightarrow> Q' x s \<Longrightarrow> Q x s) \<Longrightarrow> triple P m Q"
  unfolding triple_def by blast

lemma triple_catch:
  assumes "triple P m Q" and "\<And>e. triple (\<lambda>_. True) (h e) Q"
  shows "triple P (catchS m h) Q"
proof (rule tripleI)
  fix s r t assume s: "inv s" "P s" and run: "catchS m h s = (r, t)"
  obtain r1 s1 where 1: "m s = (r1, s1)" by (cases "m s")
  note k = tripleD [OF assms(1) s 1]
  show "inv t \<and> rel s t \<and> (\<forall>x. r = Inr x \<longrightarrow> Q x t)"
  proof (cases r1)
    case (Inl e)
    then have "h e s1 = (r, t)" using run 1 by (simp add: svc_simps)
    then show ?thesis using tripleD [OF assms(2) k(1) TrueI] k(2) rel_trans by blast
  next
    case (Inr x)
    then show ?thesis using run 1 k by (auto simp: svc_simps)
  qed
qed

text \<open>What every related state keeps, a call keeps.\<close>

lemma triple_frame:
  assumes "triple P m (\<lambda>_ _. True)" and "\<And>s t. inv s \<Longrightarrow> rel s t \<Longrightarrow> P s \<Longrightarrow> P t"
  shows "triple P m (\<lambda>_. P)"
  using assms unfolding triple_def by blast

lemma triple_seq:
  assumes "triple P m (\<lambda>_ _. True)" and "\<And>s t. inv s \<Longrightarrow> rel s t \<Longrightarrow> P s \<Longrightarrow> P t"
    and "\<And>x. triple P (f x) Q"
  shows "triple P (bindS m f) Q"
  by (rule triple_bind [OF triple_frame [OF assms(1,2)] assms(3)])

lemma triple_bind_require:
  "(b \<Longrightarrow> triple P m Q) \<Longrightarrow> triple P (bindS (requireS b e) (\<lambda>_. m)) Q"
  unfolding triple_def by (auto simp: svc_simps rel_refl split: if_splits)

lemma triple_bind_read:
  "(\<And>x. triple (\<lambda>s. P s \<and> f s = x) (g x) Q) \<Longrightarrow> triple P (bindS (readS f) g) Q"
  unfolding triple_def by (auto simp: svc_simps)

lemma triple_pure: "(b \<Longrightarrow> triple P m Q) \<Longrightarrow> triple (\<lambda>s. P s \<and> b) m Q"
  unfolding triple_def by blast

lemmas triple_intros = triple_return triple_throw triple_bind_require triple_bind_read

end

end
