(* ===== verification/Decimals.thy ===== *)
theory Decimals
  imports Complex_Main Prelude
begin

text \<open>
  Decimal amounts.  The source computes with \<open>Prisma.Decimal\<close>, a third-party package; an
  amount is the rational number it denotes, and an amount that crosses an interface as a
  string is the number the string denotes.  What the package does to the result of an
  addition, subtraction, multiplication or division (it rounds to a number of significant
  digits) is the parameter \<open>D\<close> of every operation below; its documented behaviour is
  \<open>decimal_context D\<close>: no change on a number of at most twenty significant digits, monotone,
  relative error below \<open>10 ^ -19\<close>.  Comparison, \<open>toDecimalPlaces\<close> and \<open>toFixed\<close> are exact
  functions of the number.

  \<open>grid s x\<close> says that \<open>x\<close> has at most \<open>s\<close> decimals; the lemmas show that the rounding
  functions land on the grid, and that sums and differences of grid numbers below \<open>10 ^ 20\<close>
  units are computed exactly.
\<close>

named_theorems grid_intros "numbers on a decimal grid"

section \<open>Operations\<close>

type_synonym rounding = "rat \<Rightarrow> rat"

definition dadd :: "rounding \<Rightarrow> rat \<Rightarrow> rat \<Rightarrow> rat" where
  "dadd D a b = D (a + b)"

definition dsub :: "rounding \<Rightarrow> rat \<Rightarrow> rat \<Rightarrow> rat" where
  "dsub D a b = D (a - b)"

definition dmul :: "rounding \<Rightarrow> rat \<Rightarrow> rat \<Rightarrow> rat" where
  "dmul D a b = D (a * b)"

definition ddiv :: "rounding \<Rightarrow> rat \<Rightarrow> rat \<Rightarrow> rat" where
  "ddiv D a b = D (a / b)"

text \<open>\<open>toDecimalPlaces(s, ROUND_DOWN)\<close>: towards zero.\<close>

definition floorTo :: "rat \<Rightarrow> nat \<Rightarrow> rat" where
  "floorTo x s =
     (if 0 \<le> x then of_int \<lfloor>x * 10 ^ s\<rfloor> / 10 ^ s else of_int \<lceil>x * 10 ^ s\<rceil> / 10 ^ s)"

text \<open>\<open>toDecimalPlaces(s, ROUND_UP)\<close>: away from zero.\<close>

definition ceilTo :: "rat \<Rightarrow> nat \<Rightarrow> rat" where
  "ceilTo x s =
     (if 0 \<le> x then of_int \<lceil>x * 10 ^ s\<rceil> / 10 ^ s else of_int \<lfloor>x * 10 ^ s\<rfloor> / 10 ^ s)"

text \<open>\<open>toFixed(s)\<close>: the package's default mode, half away from zero.\<close>

definition toFixed :: "rat \<Rightarrow> nat \<Rightarrow> rat" where
  "toFixed x s =
     (if 0 \<le> x then of_int \<lfloor>x * 10 ^ s + 1 / 2\<rfloor> / 10 ^ s
      else of_int \<lceil>x * 10 ^ s - 1 / 2\<rceil> / 10 ^ s)"

text \<open>\<open>a.mod(b).isZero()\<close>: the remainder by zero is NaN, which is not zero.\<close>

definition dmodIsZero :: "rat \<Rightarrow> rat \<Rightarrow> bool" where
  "dmodIsZero a b \<longleftrightarrow> b \<noteq> 0 \<and> of_int \<lfloor>a / b\<rfloor> = a / b"

text \<open>
  For evaluation: on the numerator and denominator, so that nothing unfolds before the number
  is known.
\<close>

lemma floor_quotient:
  assumes "quotient_of x = (a, b)"
  shows "\<lfloor>x * 10 ^ s\<rfloor> = (a * 10 ^ s) div b" and "\<lfloor>- (x * 10 ^ s)\<rfloor> = (- (a * 10 ^ s)) div b"
    and "\<lfloor>x * 10 ^ s + 1 / 2\<rfloor> = (2 * a * 10 ^ s + b) div (2 * b)"
    and "\<lfloor>1 / 2 - x * 10 ^ s\<rfloor> = (b - 2 * a * 10 ^ s) div (2 * b)"
    and "0 \<le> x \<longleftrightarrow> 0 \<le> a"
proof -
  have x: "x = of_int a / of_int b" and b: "0 < b"
    using quotient_of_div [OF assms] quotient_of_denom_pos [OF assms] by simp_all
  have "x * 10 ^ s = of_int (a * 10 ^ s) / of_int b" by (simp add: x)
  then show "\<lfloor>x * 10 ^ s\<rfloor> = (a * 10 ^ s) div b" by (simp only: floor_divide_of_int_eq)
  have "- (x * 10 ^ s) = of_int (- (a * 10 ^ s)) / of_int b" by (simp add: x)
  then show "\<lfloor>- (x * 10 ^ s)\<rfloor> = (- (a * 10 ^ s)) div b" by (simp only: floor_divide_of_int_eq)
  have "x * 10 ^ s + 1 / 2 = of_int (2 * a * 10 ^ s + b) / of_int (2 * b)"
    using b by (simp add: x field_simps)
  then show "\<lfloor>x * 10 ^ s + 1 / 2\<rfloor> = (2 * a * 10 ^ s + b) div (2 * b)"
    by (simp only: floor_divide_of_int_eq)
  have "1 / 2 - x * 10 ^ s = of_int (b - 2 * a * 10 ^ s) / of_int (2 * b)"
    using b by (simp add: x field_simps)
  then show "\<lfloor>1 / 2 - x * 10 ^ s\<rfloor> = (b - 2 * a * 10 ^ s) div (2 * b)"
    by (simp only: floor_divide_of_int_eq)
  show "0 \<le> x \<longleftrightarrow> 0 \<le> a" using b by (simp add: x zero_le_divide_iff)
qed

lemma floorTo_code [code]:
  "floorTo x s = (case quotient_of x of (a, b) \<Rightarrow>
     if 0 \<le> a then of_int ((a * 10 ^ s) div b) / 10 ^ s
     else of_int (- ((- a * 10 ^ s) div b)) / 10 ^ s)"
  by (cases "quotient_of x") (simp add: floorTo_def ceiling_def floor_quotient)

lemma ceilTo_code [code]:
  "ceilTo x s = (case quotient_of x of (a, b) \<Rightarrow>
     if 0 \<le> a then of_int (- ((- a * 10 ^ s) div b)) / 10 ^ s
     else of_int ((a * 10 ^ s) div b) / 10 ^ s)"
  by (cases "quotient_of x") (simp add: ceilTo_def ceiling_def floor_quotient)

lemma toFixed_code [code]:
  "toFixed x s = (case quotient_of x of (a, b) \<Rightarrow>
     if 0 \<le> a then of_int ((2 * a * 10 ^ s + b) div (2 * b)) / 10 ^ s
     else of_int (- ((b - 2 * a * 10 ^ s) div (2 * b))) / 10 ^ s)"
  by (cases "quotient_of x") (simp add: toFixed_def ceiling_def floor_quotient)

section \<open>The decimal grid\<close>

definition grid :: "nat \<Rightarrow> rat \<Rightarrow> bool" where
  "grid s x \<longleftrightarrow> of_int \<lfloor>x * 10 ^ s\<rfloor> = x * 10 ^ s"

lemma grid_alt: "grid s x \<longleftrightarrow> (\<exists>k::int. x = of_int k / 10 ^ s)"
proof
  assume "grid s x"
  then have "of_int \<lfloor>x * 10 ^ s\<rfloor> = x * 10 ^ s"
    by (simp only: grid_def)
  then have "x = of_int \<lfloor>x * 10 ^ s\<rfloor> / 10 ^ s"
    by (simp only: eq_divide_eq) simp
  then show "\<exists>k::int. x = of_int k / 10 ^ s" ..
next
  assume "\<exists>k::int. x = of_int k / 10 ^ s"
  then obtain k :: int where "x = of_int k / 10 ^ s" ..
  then have "x * 10 ^ s = of_int k" by simp
  then show "grid s x" by (simp add: grid_def)
qed

lemma gridI: "x = of_int k / 10 ^ s \<Longrightarrow> grid s x"
  by (auto simp: grid_alt)

lemma gridE:
  assumes "grid s x" obtains k :: int where "x = of_int k / 10 ^ s"
  using assms by (auto simp: grid_alt)

lemma grid_0 [grid_intros, simp]: "grid s 0"
  by (simp add: grid_def)

lemma grid_add [grid_intros]: "grid s a \<Longrightarrow> grid s b \<Longrightarrow> grid s (a + b)"
  unfolding grid_alt by (metis add_divide_distrib of_int_add)

lemma grid_minus [grid_intros]: "grid s a \<Longrightarrow> grid s (- a)"
  unfolding grid_alt by (metis minus_divide_left of_int_minus)

lemma grid_diff [grid_intros]: "grid s a \<Longrightarrow> grid s b \<Longrightarrow> grid s (a - b)"
  using grid_add [OF _ grid_minus, of s a b] by simp

lemma grid_floorTo [grid_intros]: "grid s (floorTo x s)"
  by (auto simp: floorTo_def intro: gridI)

lemma grid_ceilTo [grid_intros]: "grid s (ceilTo x s)"
  by (auto simp: ceilTo_def intro: gridI)

lemma grid_toFixed [grid_intros]: "grid s (toFixed x s)"
  by (auto simp: toFixed_def intro: gridI)

lemma grid_min [grid_intros]: "grid s a \<Longrightarrow> grid s b \<Longrightarrow> grid s (min a b)"
  by (simp add: min_def)

lemma grid_mult: "grid s a \<Longrightarrow> grid t b \<Longrightarrow> grid (s + t) (a * b)"
  unfolding grid_alt by (metis of_int_mult power_add times_divide_times_eq)

lemma grid_sum_list [grid_intros]: "(\<And>x. x \<in> set xs \<Longrightarrow> grid s x) \<Longrightarrow> grid s (sum_list xs)"
  by (induction xs) (auto intro: grid_intros)

lemma scaled_less:
  fixes a b c :: rat
  assumes "b * 10 ^ sc < c" and "a \<le> b" shows "a * 10 ^ sc < c"
  by (rule le_less_trans [OF mult_right_mono [OF assms(2)] assms(1)]) simp

lemma grid_mono: "grid s x \<Longrightarrow> s \<le> t \<Longrightarrow> grid t x"
proof (elim gridE)
  fix k :: int assume x: "x = of_int k / 10 ^ s" and "s \<le> t"
  then have "(10::rat) ^ t = 10 ^ s * 10 ^ (t - s)" by (simp flip: power_add)
  then have "x = of_int (k * 10 ^ (t - s)) / 10 ^ t" by (simp add: x)
  then show "grid t x" by (rule gridI)
qed

lemma floorTo_grid: "grid s x \<Longrightarrow> floorTo x s = x"
  by (auto elim!: gridE simp: floorTo_def)

lemma ceilTo_grid: "grid s x \<Longrightarrow> ceilTo x s = x"
  by (auto elim!: gridE simp: ceilTo_def)

lemma toFixed_grid: "grid s x \<Longrightarrow> toFixed x s = x"
proof (elim gridE)
  fix k :: int assume x: "x = of_int k / 10 ^ s"
  have "\<lfloor>of_int k + (1 / 2 :: rat)\<rfloor> = k" by (rule floor_unique) simp_all
  moreover have "\<lceil>of_int k - (1 / 2 :: rat)\<rceil> = k" by (rule ceiling_unique) simp_all
  ultimately show ?thesis by (simp add: x toFixed_def)
qed

lemma floorTo_le: "0 \<le> x \<Longrightarrow> floorTo x s \<le> x"
  by (simp add: floorTo_def divide_le_eq)

lemma floorTo_nonneg [simp]: "0 \<le> x \<Longrightarrow> 0 \<le> floorTo x s"
  by (simp add: floorTo_def)

lemma floorTo_gt:
  assumes "0 \<le> x" shows "x - 1 / 10 ^ s < floorTo x s"
proof -
  have "x * 10 ^ s < of_int \<lfloor>x * 10 ^ s\<rfloor> + 1" by linarith
  then have "x < (of_int \<lfloor>x * 10 ^ s\<rfloor> + 1) / 10 ^ s" by (simp add: less_divide_eq)
  then show ?thesis using assms by (simp add: floorTo_def add_divide_distrib)
qed

lemma floorTo_mono: "0 \<le> x \<Longrightarrow> x \<le> y \<Longrightarrow> floorTo x s \<le> floorTo y s"
  by (simp add: floorTo_def divide_right_mono floor_mono)

lemma le_floorTo_iff:
  assumes "grid s g" and "0 \<le> x" shows "g \<le> floorTo x s \<longleftrightarrow> g \<le> x"
proof
  assume "g \<le> floorTo x s" then show "g \<le> x" using floorTo_le [OF assms(2)] by (rule order_trans)
next
  assume "g \<le> x"
  obtain k :: int where k: "g = of_int k / 10 ^ s" using assms(1) by (rule gridE)
  then have "of_int k \<le> x * 10 ^ s" using \<open>g \<le> x\<close> by (simp add: divide_le_eq)
  then have "k \<le> \<lfloor>x * 10 ^ s\<rfloor>" by (simp add: le_floor_iff)
  then show "g \<le> floorTo x s" using assms(2) k by (simp add: floorTo_def divide_right_mono)
qed

lemma ceilTo_ge: "0 \<le> x \<Longrightarrow> x \<le> ceilTo x s"
  by (simp add: ceilTo_def le_divide_eq)

lemma ceilTo_less: "0 \<le> x \<Longrightarrow> ceilTo x s < x + 1 / 10 ^ s"
proof -
  assume "0 \<le> x"
  have "of_int \<lceil>x * 10 ^ s\<rceil> < x * 10 ^ s + 1" by linarith
  then have "of_int \<lceil>x * 10 ^ s\<rceil> / 10 ^ s < x + 1 / 10 ^ s"
    by (simp add: divide_less_eq algebra_simps)
  then show ?thesis using \<open>0 \<le> x\<close> by (simp add: ceilTo_def)
qed

lemma grid_pos_ge: "grid s x \<Longrightarrow> 0 < x \<Longrightarrow> 1 / 10 ^ s \<le> x"
proof (elim gridE)
  fix k :: int assume "0 < x" and x: "x = of_int k / 10 ^ s"
  then have "1 \<le> k" by (simp add: zero_less_divide_iff)
  then have "(1::rat) \<le> of_int k" by simp
  then show ?thesis by (simp add: x divide_right_mono)
qed

section \<open>The documented behaviour of the package\<close>

definition fits20 :: "nat \<Rightarrow> rat \<Rightarrow> bool" where
  "fits20 s x \<longleftrightarrow> grid s x \<and> \<bar>x\<bar> * 10 ^ s < 10 ^ 20"

definition decimal_context :: "rounding \<Rightarrow> bool" where
  "decimal_context D \<longleftrightarrow>
     (\<forall>s x. fits20 s x \<longrightarrow> D x = x) \<and>
     (\<forall>x y. x \<le> y \<longrightarrow> D x \<le> D y) \<and>
     (\<forall>x. \<bar>D x - x\<bar> \<le> \<bar>x\<bar> / 10 ^ 19)"

lemma decimal_context_id: "decimal_context (\<lambda>x. x)"
  by (simp add: decimal_context_def)

text \<open>A package that never rounds, for evaluation.\<close>

definition exact :: rounding where
  "exact x = x"

lemma decimal_context_exact: "decimal_context exact"
  by (simp add: decimal_context_def exact_def)

lemma decimal_exact: "decimal_context D \<Longrightarrow> fits20 s x \<Longrightarrow> D x = x"
  by (auto simp: decimal_context_def)

lemma decimal_mono: "decimal_context D \<Longrightarrow> x \<le> y \<Longrightarrow> D x \<le> D y"
  by (auto simp: decimal_context_def)

lemma decimal_error: "decimal_context D \<Longrightarrow> \<bar>D x - x\<bar> \<le> \<bar>x\<bar> / 10 ^ 19"
  by (auto simp: decimal_context_def)

lemma decimal_0 [simp]: "decimal_context D \<Longrightarrow> D 0 = 0"
  by (rule decimal_exact [where s = 0]) (simp_all add: fits20_def)

lemma decimal_nonneg: "decimal_context D \<Longrightarrow> 0 \<le> x \<Longrightarrow> 0 \<le> D x"
  using decimal_mono [of D 0 x] by simp

lemma fits20_mono: "fits20 s x \<Longrightarrow> grid s y \<Longrightarrow> \<bar>y\<bar> \<le> \<bar>x\<bar> \<Longrightarrow> fits20 s y"
  by (auto simp: fits20_def intro: le_less_trans [OF mult_right_mono])

lemma dsub_exact:
  assumes "decimal_context D" and "fits20 s a" and "grid s b" and "0 \<le> b" and "b \<le> a"
  shows "dsub D a b = a - b"
proof -
  have "fits20 s (a - b)"
    using assms(2) by (rule fits20_mono) (use assms in \<open>auto intro: grid_diff simp: fits20_def\<close>)
  then show ?thesis using assms(1) by (simp add: dsub_def decimal_exact)
qed

end
