(* ===== verification/Database.thy ===== *)
theory Database
  imports Decimals
begin

text \<open>
  The tables of \<open>prisma/schema.prisma\<close> the modelled services read and write, the state every
  service call runs on.  A row is a record with the columns the services use; a UUID column
  is a number, a \<open>NUMERIC\<close> column a rational, a timestamp a number of milliseconds.  Tables
  are lists in insertion order.  \<open>db\<close> also holds what a handler reads or writes outside
  PostgreSQL: the clock, the Redis snapshots of price quotes with the time they vanish and
  whether Redis answers, the transactions the offline signer has broadcast, the events
  published on the realtime bus, and \<open>conflicts\<close>, the write conflicts (P2034) PostgreSQL will
  report for the next serializable transactions, one flag each.
\<close>

section \<open>Enums\<close>

datatype account_kind =
    USER_AVAILABLE | USER_LOCKED | FEE_REVENUE | TDS_PAYABLE | HOT_WALLET | COLD_WALLET
  | GATEWAY_CLEARING | MANUAL_BANK_CLEARING | SWEEP_CLEARING | LIQUIDITY | SYSTEM

datatype entry_direction = DEBIT | CREDIT

datatype user_status = USER_ACTIVE | USER_FROZEN | USER_LOCKED_OUT | USER_CLOSED

datatype kyc_status = KYC_NOT_STARTED | KYC_PENDING | KYC_IN_REVIEW | KYC_MANUAL_REVIEW
  | KYC_NEEDS_MORE_INFO | KYC_APPROVED | KYC_REJECTED

datatype risk_level = RISK_LOW | RISK_MEDIUM | RISK_HIGH

datatype order_side = BUY | SELL

datatype order_type = LIMIT | MARKET | STOP_LIMIT

datatype order_status =
    PENDING | OPEN | PARTIALLY_FILLED | FILLED | ORDER_CANCELLED | ORDER_REJECTED | EXPIRED

datatype market_status = MARKET_ACTIVE | MARKET_HALTED | MARKET_POST_ONLY

datatype withdrawal_status =
    REQUESTED | RISK_CHECK | PENDING_APPROVAL | APPROVED | QUEUED | SIGNING | BROADCAST
  | CONFIRMING | COMPLETED | W_REJECTED | FAILED | W_CANCELLED

datatype inr_txn_type = INR_DEPOSIT | INR_WITHDRAWAL

datatype inr_txn_status =
    INR_INITIATED | INR_PENDING | INR_SUCCESS | INR_FAILED | INR_REVERSED

datatype inr_withdrawal_status = IW_PENDING | IW_APPROVED | IW_REJECTED | IW_PAID | IW_FAILED

datatype payout_method = PAY_UPI | PAY_BANK

datatype conversion_side = INR_TO_USDT | USDT_TO_INR

datatype actor_type = ACTOR_USER | ACTOR_ADMIN | ACTOR_SYSTEM

section \<open>Rows\<close>

record account =
  acc_id :: nat
  acc_kind :: account_kind
  acc_user :: "nat option"
  acc_asset :: string

record account_balance =
  balance :: rat
  version :: nat

record ledger_transaction =
  txn_id :: nat
  txn_kind :: string
  txn_reference_type :: "string option"
  txn_reference_id :: "nat option"

record ledger_entry =
  entry_id :: nat
  entry_txn :: nat
  entry_account :: nat
  entry_direction :: entry_direction
  entry_amount :: rat
  entry_asset :: string
  entry_created :: nat

record inr_transaction =
  inr_id :: nat
  inr_user :: nat
  inr_type :: inr_txn_type
  inr_amount :: rat
  inr_fee :: rat
  inr_status :: inr_txn_status
  inr_provider :: "string option"
  provider_order_id :: "string option"
  provider_payment_id :: "string option"
  inr_ledger_txn :: "nat option"
  inr_utr :: "string option"
  inr_method :: "string option"
  proof_key :: "string option"
  first_approved_by :: "nat option"
  first_approved_at :: "nat option"
  reviewed_by :: "nat option"
  reviewed_at :: "nat option"
  rejection_reason :: "string option"
  inr_created :: nat
  inr_updated :: nat

text \<open>The payload of a stored event is kept for people only.\<close>

record payment_webhook_event =
  we_id :: nat
  we_provider :: string
  we_event :: string
  we_type :: string
  we_signature_ok :: bool
  we_processed :: "nat option"

datatype master_deposit_status =
  MD_SUBMITTED | MD_PENDING_CONFIRMATION | MD_CONFIRMED | MD_REJECTED | MD_DUPLICATE | MD_FAILED

text \<open>A transfer of USDT to the master wallet that a user claims; the summary of the verification is left out.\<close>

record master_deposit =
  md_id :: nat
  md_user :: nat
  md_asset :: string
  md_chain :: string
  md_master :: string
  md_from :: "string option"
  md_tx :: string
  md_log :: "int option"
  md_amount :: rat
  md_confirmations :: int
  md_status :: master_deposit_status
  md_reason :: "string option"
  md_txn :: "nat option"
  md_credited_at :: "nat option"
  md_created :: nat
  md_updated :: nat

record network_config =
  nc_asset :: string
  nc_chain :: string
  nc_name :: string
  nc_master :: "string option"
  nc_contract :: "string option"
  nc_decimals :: int
  nc_confirmations :: int
  nc_enabled :: bool

text \<open>\<open>account_number_enc\<close> is a list of bytes, each a number below 256.\<close>

record inr_withdrawal =
  iw_id :: nat
  iw_user :: nat
  iw_amount :: rat
  iw_status :: inr_withdrawal_status
  iw_method :: payout_method
  iw_upi :: "string option"
  iw_account_enc :: "nat list option"
  iw_last4 :: "string option"
  iw_ifsc :: "string option"
  iw_holder :: "string option"
  iw_bank :: "string option"
  iw_lock_txn :: "nat option"
  iw_final_txn :: "nat option"
  iw_approved_by :: "nat option"
  iw_approved_at :: "nat option"
  iw_reviewed_by :: "nat option"
  iw_reviewed_at :: "nat option"
  iw_paid_by :: "nat option"
  iw_paid_at :: "nat option"
  iw_utr :: "string option"
  iw_note :: "string option"
  iw_reason :: "string option"
  iw_created :: nat
  iw_updated :: nat

record user =
  user_id :: nat
  user_email :: string
  user_status :: user_status
  kyc_status :: kyc_status
  kyc_tier :: nat
  withdrawals_blocked :: bool
  risk_level :: risk_level
  risk_note :: "string option"

record asset_row =
  asset_symbol :: string
  asset_decimals :: nat

record market =
  market_id :: nat
  market_symbol :: string
  base_asset :: string
  quote_asset :: string
  market_status :: market_status
  tick_size :: rat
  step_size :: rat
  min_notional :: rat
  maker_fee_bps :: nat
  taker_fee_bps :: nat

record order =
  order_id :: nat
  order_user :: nat
  order_market :: nat
  client_order_id :: "string option"
  order_side :: order_side
  order_type :: order_type
  order_price :: "rat option"
  order_quantity :: "rat option"
  quote_budget :: "rat option"
  filled_quantity :: rat
  quote_spent :: rat
  locked_asset :: "string option"
  locked_amount :: "rat option"
  order_status :: order_status
  lock_txn :: "nat option"
  order_created :: nat
  order_closed :: "nat option"

record trade =
  trade_id :: nat
  fill_id :: string
  trade_market :: nat
  maker_order :: nat
  taker_order :: nat
  maker_user :: nat
  taker_user :: nat
  trade_price :: rat
  trade_quantity :: rat
  trade_quote_amount :: rat
  maker_fee :: rat
  taker_fee :: rat
  maker_side :: order_side
  settle_txn :: nat
  trade_seq :: nat
  executed_at :: nat

record withdrawal_address =
  wa_id :: nat
  wa_user :: nat
  wa_chain :: string
  wa_address :: string
  wa_label :: "string option"
  whitelisted_at :: "nat option"
  wa_created :: nat
  wa_deleted :: "nat option"

text \<open>The JSON of \<open>withdrawalRiskFlags\<close>.\<close>

record withdrawal_flags =
  large_withdrawal :: bool
  flag_risk_level :: risk_level
  flag_status :: user_status
  flag_blocked :: bool
  flag_kyc_tier :: nat

record crypto_withdrawal =
  w_id :: nat
  w_user :: nat
  w_chain :: string
  w_asset :: string
  to_address :: string
  from_address :: "string option"
  hot_wallet_id :: "nat option"
  w_amount :: rat
  w_fee :: rat
  net_amount :: rat
  w_status :: withdrawal_status
  hold_txn :: "nat option"
  final_txn :: "nat option"
  tx_hash :: "string option"
  w_nonce :: "nat option"
  approved_by :: "nat option"
  approved_by2 :: "nat option"
  risk_flags :: "withdrawal_flags option"
  failure_reason :: "string option"
  requested_at :: nat
  broadcast_at :: "nat option"
  completed_at :: "nat option"
  w_updated :: nat

record asset_chain =
  ac_asset :: string
  ac_chain :: string
  contract_addr :: "string option"
  ac_decimals :: nat
  min_confirmations :: nat
  ac_active :: bool

record chain_signer =
  signer_id :: nat
  kms_key_ref :: string
  signer_public_key :: "string option"

record hot_wallet =
  hw_id :: nat
  hw_chain :: string
  hw_address :: string
  hw_tier_hot :: bool
  hw_active :: bool
  hw_signer :: "chain_signer option"
  hw_created :: nat

record tier_limit =
  tl_tier :: nat
  usdt_daily_withdrawal :: "rat option"

text \<open>What the offline signer keeps of a transaction it has broadcast.\<close>

record tx_state =
  tx_confirmations :: nat
  tx_success :: bool

record price_quote =
  quote_id :: nat
  quote_user :: nat
  quote_side :: conversion_side
  quote_rate :: rat
  spread_bps :: nat
  expires_at :: nat

text \<open>\<open>ConversionPlan\<close> of \<open>conversion.types.ts\<close>, stored with a quote.\<close>

record conversion_plan =
  plan_side :: conversion_side
  plan_rate :: rat
  plan_inr :: rat
  plan_usdt :: rat
  plan_fee :: rat
  plan_tds :: rat
  plan_gross :: rat
  liquidity_asset :: string
  liquidity_need :: rat

record quote_snapshot =
  snap_quote :: nat
  snap_user :: nat
  snap_plan :: conversion_plan

record conversion =
  conv_id :: nat
  conv_user :: nat
  conv_quote :: "nat option"
  conv_side :: conversion_side
  conv_inr :: rat
  conv_usdt :: rat
  conv_rate :: rat
  conv_fee :: rat
  conv_tds :: rat
  conv_txn :: "nat option"
  conv_created :: nat

record audit_log =
  audit_actor_type :: actor_type
  audit_actor :: "nat option"
  audit_action :: string
  audit_entity_type :: "string option"
  audit_entity :: "nat option"

record admin_log =
  al_admin :: nat
  al_action :: string
  al_target_type :: "string option"
  al_target :: "nat option"

record notification =
  note_user :: nat
  note_type :: string

datatype realtime_event =
    Orderbook_Changed string
  | Trade_Executed string nat
  | Order_Updated nat nat
  | Balance_Changed nat

section \<open>The state\<close>

record db =
  accounts :: "account list"
  balances :: "nat \<Rightarrow> account_balance option"
  ledger_transactions :: "ledger_transaction list"
  ledger_entries :: "ledger_entry list"
  inr_transactions :: "inr_transaction list"
  payment_webhook_events :: "payment_webhook_event list"
  inr_withdrawals :: "inr_withdrawal list"
  master_deposits :: "master_deposit list"
  network_configs :: "network_config list"
  users :: "user list"
  assets :: "asset_row list"
  markets :: "market list"
  orders :: "order list"
  trades :: "trade list"
  withdrawal_addresses :: "withdrawal_address list"
  crypto_withdrawals :: "crypto_withdrawal list"
  asset_chains :: "asset_chain list"
  hot_wallets :: "hot_wallet list"
  wallet_nonces :: "nat \<Rightarrow> nat option"
  tier_limits :: "tier_limit list"
  withdrawals_frozen :: bool
  chain_txs :: "(string \<times> tx_state) list"
  price_quotes :: "price_quote list"
  conversions :: "conversion list"
  quote_snapshots :: "(nat \<times> quote_snapshot \<times> nat) list"
  redis_down :: bool
  audit_logs :: "audit_log list"
  admin_logs :: "admin_log list"
  notifications :: "notification list"
  published :: "realtime_event list"
  now :: nat
  next_uuid :: nat
  conflicts :: "bool list"

text \<open>\<open>@default(uuid())\<close>: an identifier no row has.\<close>

definition fresh_uuid :: "(db, nat) svc" where
  "fresh_uuid = (\<lambda>s. (Inr (next_uuid s), s\<lparr>next_uuid := Suc (next_uuid s)\<rparr>))"

text \<open>
  \<open>prisma.$transaction(fn, { isolationLevel: Serializable })\<close>: PostgreSQL may abort it with
  a write conflict, which leaves every table as it was; otherwise it is all or nothing.
\<close>

definition serializable_tx :: "(db, 'a) svc \<Rightarrow> (db, 'a) svc" where
  "serializable_tx m = (\<lambda>s.
     case conflicts s of
       [] \<Rightarrow> transactionS m s
     | c # cs \<Rightarrow>
         let s' = s\<lparr>conflicts := cs\<rparr>
         in if c then (Inl (PrismaError ''P2034''), s') else transactionS m s')"

text \<open>\<open>recordAudit\<close> (\<open>lib/audit.ts\<close>) appends one row and never throws.\<close>

definition recordAudit ::
  "actor_type \<Rightarrow> nat option \<Rightarrow> string \<Rightarrow> string option \<Rightarrow> nat option \<Rightarrow> (db, unit) svc" where
  "recordAudit actorType actorId action entityType entityId =
     writeS (\<lambda>s. s\<lparr>audit_logs := audit_logs s @
       [\<lparr>audit_actor_type = actorType, audit_actor = actorId, audit_action = action,
         audit_entity_type = entityType, audit_entity = entityId\<rparr>]\<rparr>)"

text \<open>The \<open>writeAdminLog\<close> of every repository.\<close>

definition writeAdminLog ::
  "nat \<Rightarrow> string \<Rightarrow> string option \<Rightarrow> nat option \<Rightarrow> (db, unit) svc" where
  "writeAdminLog adminId action targetType targetId =
     writeS (\<lambda>s. s\<lparr>admin_logs := admin_logs s @
       [\<lparr>al_admin = adminId, al_action = action, al_target_type = targetType,
         al_target = targetId\<rparr>]\<rparr>)"

text \<open>\<open>publish...\<close> of \<open>realtime/events.ts\<close>: hand the event to the bus, never throw.\<close>

definition publish :: "realtime_event \<Rightarrow> (db, unit) svc" where
  "publish e = writeS (\<lambda>s. s\<lparr>published := published s @ [e]\<rparr>)"

text \<open>
  \<open>notificationService.notify\<close>: one row in \<open>notifications\<close>, never throws (the e-mail channel
  and the texts of the templates are left out).
\<close>

definition notify :: "nat \<Rightarrow> string \<Rightarrow> (db, unit) svc" where
  "notify userId type =
     writeS (\<lambda>s. s\<lparr>notifications := notifications s @
       [\<lparr>note_user = userId, note_type = type\<rparr>]\<rparr>)"

lemma conflicts_self: "conflicts s = cs \<Longrightarrow> s\<lparr>conflicts := cs\<rparr> = s"
  by (cases s) simp

lemma serializable_tx_Inr:
  assumes "serializable_tx m s = (Inr a, t)"
  obtains cs where "m (s\<lparr>conflicts := cs\<rparr>) = (Inr a, t)"
proof (cases "conflicts s")
  case Nil
  then have "m (s\<lparr>conflicts := []\<rparr>) = (Inr a, t)"
    using assms by (simp add: serializable_tx_def transactionS_Inr_iff conflicts_self)
  then show ?thesis by (rule that)
next
  case (Cons c cs)
  then have "m (s\<lparr>conflicts := cs\<rparr>) = (Inr a, t)"
    using assms by (auto simp: serializable_tx_def transactionS_Inr_iff Let_def split: if_splits)
  then show ?thesis by (rule that)
qed

lemma serializable_tx_Inl:
  assumes "serializable_tx m s = (Inl e, t)"
  obtains cs where "t = s\<lparr>conflicts := cs\<rparr>"
proof (cases "conflicts s")
  case Nil
  then have "t = s\<lparr>conflicts := []\<rparr>"
    using assms by (auto simp: serializable_tx_def conflicts_self dest: transactionS_Inl)
  then show ?thesis by (rule that)
next
  case (Cons c cs)
  then have "t = s\<lparr>conflicts := cs\<rparr>"
    using assms
    by (auto simp: serializable_tx_def Let_def split: if_splits dest: transactionS_Inl)
  then show ?thesis by (rule that)
qed

lemma preserves_serializable [preserves_intros]:
  assumes "preserves I m" and "\<And>s cs. I s \<Longrightarrow> I (s\<lparr>conflicts := cs\<rparr>)"
  shows "preserves I (serializable_tx m)"
proof (rule preservesI)
  fix s assume "I s"
  show "I (snd (serializable_tx m s))"
  proof (cases "serializable_tx m s")
    case (Pair r t)
    show ?thesis
    proof (cases r)
      case (Inl e)
      then show ?thesis using Pair \<open>I s\<close> assms(2) by (auto elim: serializable_tx_Inl)
    next
      case (Inr a)
      then obtain cs where "m (s\<lparr>conflicts := cs\<rparr>) = (Inr a, t)"
        using Pair by (auto elim: serializable_tx_Inr)
      then show ?thesis
        using Pair preserves_run [OF assms(1) assms(2) [OF \<open>I s\<close>]] by simp
    qed
  qed
qed

end
