(* ===== verification/Paging.thy ===== *)
theory Paging
  imports Prelude "HOL-Library.Product_Lexorder"
begin

text \<open>
  Cursor pagination, the way every listing of the backend does it: the repository reads
  \<open>limit + 1\<close> rows that come after the cursor in descending order of a key, the service cuts
  the page and hands out the cursor of the next one.  Two ways of choosing that cursor occur
  in the source: the key of the last row of the page (\<open>page_last\<close>), and the key of the first
  row behind it (\<open>page_behind\<close>).  \<open>crawl\<close> is a client that follows the cursors to the end.
\<close>

section \<open>Reading a page\<close>

definition before_cursor :: "('r \<Rightarrow> nat) \<Rightarrow> nat option \<Rightarrow> 'r \<Rightarrow> bool" where
  "before_cursor key cursor r \<longleftrightarrow> (case cursor of None \<Rightarrow> True | Some c \<Rightarrow> key r < c)"

text \<open>\<open>findMany({ where, orderBy: { key: 'desc' }, take: limit + 1 })\<close>.\<close>

definition find_page :: "('r \<Rightarrow> nat) \<Rightarrow> 'r list \<Rightarrow> nat option \<Rightarrow> nat \<Rightarrow> 'r list" where
  "find_page key table cursor limit =
     take (limit + 1) (rev (sort_key key (filter (before_cursor key cursor) table)))"

text \<open>The same ordered by creation time, with the cursor still on the key.\<close>

definition find_page_by :: "('r \<Rightarrow> nat) \<Rightarrow> ('r \<Rightarrow> nat) \<Rightarrow> 'r list \<Rightarrow> nat option \<Rightarrow> nat \<Rightarrow> 'r list" where
  "find_page_by created key table cursor limit =
     take (limit + 1) (rev (sort_key created (filter (before_cursor key cursor) table)))"

definition page_last :: "('r \<Rightarrow> nat) \<Rightarrow> 'r list \<Rightarrow> nat \<Rightarrow> 'r list \<times> nat option" where
  "page_last key rows limit =
     (let hasMore = limit < length rows;
          slice = (if hasMore then take limit rows else rows)
      in (slice, if hasMore then Some (key (last slice)) else None))"

definition page_behind :: "('r \<Rightarrow> nat) \<Rightarrow> 'r list \<Rightarrow> nat \<Rightarrow> 'r list \<times> nat option" where
  "page_behind key rows limit =
     (take limit rows, if limit < length rows then Some (key (rows ! limit)) else None)"

text \<open>A client that asks for the next page as long as it is given a cursor.\<close>

fun crawl :: "(nat option \<Rightarrow> 'r list \<times> nat option) \<Rightarrow> nat \<Rightarrow> nat option \<Rightarrow> 'r list" where
  "crawl page 0 cursor = []"
| "crawl page (Suc n) cursor =
     (case page cursor of
        (items, None) \<Rightarrow> items
      | (items, Some c) \<Rightarrow> items @ crawl page n (Some c))"

section \<open>The rows in descending order\<close>

definition descending :: "('r \<Rightarrow> nat) \<Rightarrow> 'r list \<Rightarrow> 'r list" where
  "descending key table = rev (sort_key key table)"

lemma set_descending [simp]: "set (descending key table) = set table"
  by (simp add: descending_def)

lemma length_descending [simp]: "length (descending key table) = length table"
  by (simp add: descending_def)

lemma find_page_descending:
  "find_page key table cursor limit =
     take (limit + 1) (filter (before_cursor key cursor) (descending key table))"
  by (simp add: find_page_def descending_def filter_sort [symmetric] rev_filter)

definition strictly_desc :: "('r \<Rightarrow> nat) \<Rightarrow> 'r list \<Rightarrow> bool" where
  "strictly_desc key rs \<longleftrightarrow> sorted_wrt (\<lambda>a b. key b < key a) rs"

lemma strictly_desc_descending:
  assumes "distinct (map key table)" shows "strictly_desc key (descending key table)"
proof -
  have "distinct (map key (sort_key key table))"
    using assms by (metis distinct_map distinct_sort set_sort)
  then have "sorted_wrt (<) (map key (sort_key key table))"
    by (simp add: strict_sorted_iff)
  then show ?thesis
    by (simp add: strictly_desc_def descending_def sorted_wrt_rev sorted_wrt_map)
qed

lemma filter_before_last:
  assumes "strictly_desc key (xs @ [x] @ ys)"
  shows "filter (before_cursor key (Some (key x))) (xs @ [x] @ ys) = ys"
  using assms
  by (auto simp: strictly_desc_def sorted_wrt_append before_cursor_def
      intro!: filter_id_conv [THEN iffD2] simp: filter_empty_conv)


section \<open>What a crawl returns\<close>

lemma strictly_desc_filter: "strictly_desc key rs \<Longrightarrow> strictly_desc key (filter P rs)"
  by (simp add: strictly_desc_def sorted_wrt_filter)

lemma narrower_cursor:
  assumes "x \<in> set (filter (before_cursor key cursor) rs)"
  shows "filter (before_cursor key (Some (key x))) (filter (before_cursor key cursor) rs) =
           filter (before_cursor key (Some (key x))) rs"
  using assms by (auto simp: before_cursor_def split: option.splits intro!: filter_cong)

lemma after_cursor:
  assumes "strictly_desc key D" and "filter (before_cursor key cursor) D = xs @ [x] @ ys"
  shows "filter (before_cursor key (Some (key x))) D = ys"
proof -
  have "x \<in> set (filter (before_cursor key cursor) D)" using assms(2) by simp
  then have "filter (before_cursor key (Some (key x))) D =
      filter (before_cursor key (Some (key x))) (xs @ [x] @ ys)"
    using narrower_cursor assms(2) by metis
  moreover have "strictly_desc key (xs @ [x] @ ys)"
    using strictly_desc_filter [OF assms(1)] assms(2) by metis
  ultimately show ?thesis using filter_before_last by metis
qed

text \<open>With \<open>page_last\<close> a crawl returns every row exactly once, in order.\<close>

lemma crawl_page_last:
  assumes desc: "strictly_desc key (descending key table)" and "0 < limit"
  shows "length (filter (before_cursor key cursor) (descending key table)) < n \<Longrightarrow>
    crawl (\<lambda>c. page_last key (find_page key table c limit) limit) n cursor =
      filter (before_cursor key cursor) (descending key table)"
proof (induction n arbitrary: cursor)
  case 0
  then show ?case by simp
next
  case (Suc n)
  let ?R = "filter (before_cursor key cursor) (descending key table)"
  show ?case
  proof (cases "limit < length ?R")
    case False
    then show ?thesis by (simp add: find_page_descending page_last_def Let_def)
  next
    case True
    let ?x = "?R ! (limit - 1)"
    have split: "?R = take (limit - 1) ?R @ [?x] @ drop limit ?R"
      using True \<open>0 < limit\<close> id_take_nth_drop [of "limit - 1" ?R] by simp
    have tl: "take limit ?R = take (limit - 1) ?R @ [?x]"
      using True \<open>0 < limit\<close> take_Suc_conv_app_nth [of "limit - 1" ?R] by simp
    have page: "page_last key (find_page key table cursor limit) limit =
        (take limit ?R, Some (key ?x))"
      using True tl by (simp add: find_page_descending page_last_def Let_def)
    have nxt: "filter (before_cursor key (Some (key ?x))) (descending key table) = drop limit ?R"
      using after_cursor [OF desc split] .
    have "length (drop limit ?R) < n" using Suc.prems True \<open>0 < limit\<close> by simp
    then have "crawl (\<lambda>c. page_last key (find_page key table c limit) limit) n (Some (key ?x)) =
        drop limit ?R"
      using Suc.IH [of "Some (key ?x)"] nxt by simp
    then show ?thesis using page by simp
  qed
qed

text \<open>With \<open>page_behind\<close> the first row behind a page is on no page at all.\<close>

lemma crawl_page_behind_before:
  "r \<in> set (crawl (\<lambda>c. page_behind key (find_page key table c limit) limit) n cursor) \<Longrightarrow>
     before_cursor key cursor r"
proof (induction n arbitrary: cursor)
  case 0
  then show ?case by simp
next
  case (Suc n)
  let ?rows = "find_page key table cursor limit"
  have rows: "r' \<in> set ?rows \<Longrightarrow> before_cursor key cursor r'" for r'
    by (auto simp: find_page_descending dest: in_set_takeD)
  show ?case
  proof (cases "limit < length ?rows")
    case False
    then show ?thesis using Suc.prems rows by (auto simp: page_behind_def dest: in_set_takeD)
  next
    case True
    then have "?rows ! limit \<in> set ?rows" by simp
    then have "before_cursor key (Some (key (?rows ! limit))) r \<Longrightarrow> before_cursor key cursor r"
      using rows by (fastforce simp: before_cursor_def split: option.splits)
    then show ?thesis using Suc.prems Suc.IH rows True
      by (auto simp: page_behind_def dest: in_set_takeD)
  qed
qed

lemma crawl_page_behind_skips:
  assumes desc: "strictly_desc key (descending key table)"
    and long: "limit < length (filter (before_cursor key cursor) (descending key table))"
  shows "filter (before_cursor key cursor) (descending key table) ! limit
           \<notin> set (crawl (\<lambda>c. page_behind key (find_page key table c limit) limit) n cursor)"
proof (cases n)
  case 0
  then show ?thesis by simp
next
  case (Suc m)
  let ?R = "filter (before_cursor key cursor) (descending key table)"
  have page: "page_behind key (find_page key table cursor limit) limit =
      (take limit ?R, Some (key (?R ! limit)))"
    using long by (simp add: find_page_descending page_behind_def)
  have "sorted_wrt (\<lambda>a b. key b < key a) ?R"
    using strictly_desc_filter [OF desc] by (simp add: strictly_desc_def)
  then have "?R ! limit \<notin> set (take limit ?R)"
    using long by (fastforce simp: in_set_conv_nth sorted_wrt_iff_nth_less)
  moreover have "?R ! limit \<notin>
      set (crawl (\<lambda>c. page_behind key (find_page key table c limit) limit) m (Some (key (?R ! limit))))"
    by (auto dest!: crawl_page_behind_before simp: before_cursor_def)
  ultimately show ?thesis using Suc page by simp
qed

end
