(* ===== verification/Ledger.thy ===== *)
theory Ledger
  imports Database Paging "HOL-Library.AList" "HOL-Library.List_Lexorder" "HOL-Library.Char_ord"
begin

text \<open>
  The double-entry ledger: \<open>modules/ledger/ledger.service.ts\<close> and \<open>ledger.repository.ts\<close>.
  A posting is a list of lines; \<open>post\<close> checks that it balances, and in one serializable
  transaction either returns the posting already recorded under the same reference or moves
  the balance of every line's account and appends the transaction with its entries.  The
  triggers and CHECK constraints that the migrations put on these tables are part of the
  writes.

  The invariant \<open>ledger_inv\<close> says what the tables promise each other: the projection
  \<open>account_balances\<close> is the sum of the entries of each account, user accounts are never
  negative, every transaction nets to zero in every asset, a reference is posted at most
  once.  \<open>post\<close> preserves it on success and on every error.
\<close>

section \<open>Data\<close>

record posting_line =
  line_user :: "nat option"
  line_asset :: string
  line_kind :: account_kind
  line_direction :: entry_direction
  line_amount :: rat

record posting_input =
  post_kind :: string
  post_reference_type :: "string option"
  post_reference_id :: "nat option"
  post_lines :: "posting_line list"

record posted_entry =
  pe_id :: nat
  pe_direction :: entry_direction
  pe_amount :: rat
  pe_asset :: string

record posted =
  posted_id :: nat
  posted_kind :: string
  posted_entries :: "posted_entry list"

record wallet_dto =
  wallet_asset :: string
  wallet_available :: rat
  wallet_locked :: rat
  wallet_total :: rat

definition isUserAccount :: "account_kind \<Rightarrow> bool" where
  "isUserAccount kind \<longleftrightarrow> kind \<in> {USER_AVAILABLE, USER_LOCKED}"

definition isSystemAccount :: "account_kind \<Rightarrow> bool" where
  "isSystemAccount kind \<longleftrightarrow> \<not> isUserAccount kind"

section \<open>The balance check\<close>

text \<open>\<open>totals\<close> is the JavaScript \<open>Map\<close> of the source: one running total per asset.\<close>

fun posting_totals ::
  "rounding \<Rightarrow> posting_line list \<Rightarrow> (string \<times> rat) list \<Rightarrow> err + (string \<times> rat) list" where
  "posting_totals D [] totals = Inr totals"
| "posting_totals D (line # ls) totals =
     (if line_amount line \<le> 0 then Inl BadRequestError
      else
        let current = (case map_of totals (line_asset line) of None \<Rightarrow> 0 | Some t \<Rightarrow> t)
        in posting_totals D ls
             (AList.update (line_asset line)
               (if line_direction line = CREDIT then dadd D current (line_amount line)
                else dsub D current (line_amount line)) totals))"

definition assertPostingBalanced :: "rounding \<Rightarrow> posting_input \<Rightarrow> (db, unit) svc" where
  "assertPostingBalanced D inp =
     bindS (requireS (\<not> length (post_lines inp) < 2) BadRequestError) (\<lambda>_.
     case posting_totals D (post_lines inp) [] of
       Inl e \<Rightarrow> throwS e
     | Inr totals \<Rightarrow> requireS (\<forall>(asset, total) \<in> set totals. total = 0) BadRequestError)"

section \<open>The repository\<close>

definition findExistingPosting ::
  "string option \<Rightarrow> nat option \<Rightarrow> (db, ledger_transaction option) svc" where
  "findExistingPosting referenceType referenceId =
     (if referenceType = None \<or> referenceType = Some [] \<or> referenceId = None then returnS None
      else readS (\<lambda>s. find (\<lambda>t. txn_reference_type t = referenceType \<and>
                               txn_reference_id t = referenceId) (ledger_transactions s)))"

text \<open>The insert carries the CHECK constraint \<open>accounts_kind_user_chk\<close>.\<close>

definition findOrCreateAccount ::
  "nat option \<Rightarrow> string \<Rightarrow> account_kind \<Rightarrow> (db, account) svc" where
  "findOrCreateAccount userId asset kind =
     bindS (readS (\<lambda>s. find (\<lambda>a. acc_user a = userId \<and> acc_asset a = asset \<and> acc_kind a = kind)
                            (accounts s))) (\<lambda>existing.
     case existing of
       Some a \<Rightarrow> returnS a
     | None \<Rightarrow>
         bindS (requireS (isUserAccount kind \<longleftrightarrow> userId \<noteq> None)
                  (DbCheckError ''accounts_kind_user_chk'')) (\<lambda>_.
         bindS fresh_uuid (\<lambda>i.
         let a = \<lparr>acc_id = i, acc_kind = kind, acc_user = userId, acc_asset = asset\<rparr>
         in bindS (writeS (\<lambda>s. s\<lparr>accounts := accounts s @ [a]\<rparr>)) (\<lambda>_. returnS a))))"

definition ensureBalance :: "nat \<Rightarrow> (db, unit) svc" where
  "ensureBalance accountId = writeS (\<lambda>s.
     case balances s accountId of
       Some b \<Rightarrow> s
     | None \<Rightarrow> s\<lparr>balances := (balances s)(accountId \<mapsto> \<lparr>balance = 0, version = 0\<rparr>)\<rparr>)"

definition creditBalance :: "nat \<Rightarrow> rat \<Rightarrow> (db, unit) svc" where
  "creditBalance accountId amount = (\<lambda>s.
     case balances s accountId of
       None \<Rightarrow> (Inl (PrismaError ''P2025''), s)
     | Some b \<Rightarrow> (Inr (), s\<lparr>balances := (balances s)
         (accountId \<mapsto> \<lparr>balance = balance b + amount, version = Suc (version b)\<rparr>)\<rparr>))"

text \<open>\<open>updateMany\<close>: the number of rows that matched and were updated.\<close>

definition debitBalance :: "nat \<Rightarrow> rat \<Rightarrow> bool \<Rightarrow> (db, nat) svc" where
  "debitBalance accountId amount allowNegative = (\<lambda>s.
     case balances s accountId of
       None \<Rightarrow> (Inr 0, s)
     | Some b \<Rightarrow>
         if allowNegative \<or> amount \<le> balance b
         then (Inr 1, s\<lparr>balances := (balances s)
                (accountId \<mapsto> \<lparr>balance = balance b - amount, version = Suc (version b)\<rparr>)\<rparr>)
         else (Inr 0, s))"

definition signed_amount :: "entry_direction \<Rightarrow> rat \<Rightarrow> rat" where
  "signed_amount dir x = (if dir = CREDIT then x else - x)"

text \<open>
  The trigger \<open>assert_ledger_balanced\<close>, run at commit for the transaction of every new entry:
  PostgreSQL adds exactly.
\<close>

definition txn_net :: "ledger_entry list \<Rightarrow> nat \<Rightarrow> string \<Rightarrow> rat" where
  "txn_net es t asset =
     sum_list (map (\<lambda>e. signed_amount (entry_direction e) (entry_amount e))
       (filter (\<lambda>e. entry_txn e = t \<and> entry_asset e = asset) es))"

definition ledger_entries_balanced :: "ledger_entry list \<Rightarrow> nat \<Rightarrow> bool" where
  "ledger_entries_balanced es t \<longleftrightarrow>
     (\<forall>e \<in> set es. entry_txn e = t \<longrightarrow> txn_net es t (entry_asset e) = 0)"

fun make_entries :: "nat \<Rightarrow> nat \<Rightarrow> nat \<Rightarrow> (posting_line \<times> nat) list \<Rightarrow> ledger_entry list" where
  "make_entries n t created [] = []"
| "make_entries n t created ((line, accountId) # ls) =
     \<lparr>entry_id = n, entry_txn = t, entry_account = accountId,
       entry_direction = line_direction line, entry_amount = line_amount line,
       entry_asset = line_asset line, entry_created = created\<rparr>
     # make_entries (Suc n) t created ls"

text \<open>
  The insert carries the CHECK constraint \<open>ledger_entries_amount_chk\<close> and, at the commit of
  the transaction it ends, the trigger above.
\<close>

definition createLedgerTransaction ::
  "posting_input \<Rightarrow> (posting_line \<times> nat) list \<Rightarrow> (db, ledger_transaction) svc" where
  "createLedgerTransaction inp ls =
     bindS fresh_uuid (\<lambda>t.
     let txn = \<lparr>txn_id = t, txn_kind = post_kind inp,
                 txn_reference_type = post_reference_type inp,
                 txn_reference_id = post_reference_id inp\<rparr>
     in bindS (requireS (\<forall>(line, a) \<in> set ls. 0 < line_amount line)
                (DbCheckError ''ledger_entries_amount_chk'')) (\<lambda>_.
        bindS (writeS (\<lambda>s. s\<lparr>ledger_transactions := ledger_transactions s @ [txn],
           ledger_entries := ledger_entries s @
             make_entries (length (ledger_entries s)) t (now s) ls\<rparr>)) (\<lambda>_.
        bindS (readS ledger_entries) (\<lambda>es.
        bindS (requireS (ledger_entries_balanced es t)
                (DbCheckError ''ledger_entries_balanced'')) (\<lambda>_.
        returnS txn)))))"

section \<open>Posting\<close>

definition post_line :: "posting_line \<Rightarrow> (db, posting_line \<times> nat) svc" where
  "post_line line =
     bindS (requireS (\<not> (isUserAccount (line_kind line) \<and> line_user line = None))
       BadRequestError) (\<lambda>_.
     bindS (requireS (\<not> (isSystemAccount (line_kind line) \<and> line_user line \<noteq> None))
       BadRequestError) (\<lambda>_.
     bindS (findOrCreateAccount (line_user line) (line_asset line) (line_kind line)) (\<lambda>account.
     bindS (ensureBalance (acc_id account)) (\<lambda>_.
     bindS (if line_direction line = CREDIT
            then creditBalance (acc_id account) (line_amount line)
            else bindS (debitBalance (acc_id account) (line_amount line)
                         (isSystemAccount (line_kind line)))
                   (\<lambda>count. requireS (count = 1) (ConflictError ''INSUFFICIENT_BALANCE''))) (\<lambda>_.
     returnS (line, acc_id account))))))"

definition posted_of :: "ledger_transaction \<Rightarrow> db \<Rightarrow> posted" where
  "posted_of txn s =
     \<lparr>posted_id = txn_id txn, posted_kind = txn_kind txn,
      posted_entries = map (\<lambda>e. \<lparr>pe_id = entry_id e, pe_direction = entry_direction e,
          pe_amount = entry_amount e, pe_asset = entry_asset e\<rparr>)
        (filter (\<lambda>e. entry_txn e = txn_id txn) (ledger_entries s))\<rparr>"

definition post_tx :: "posting_input \<Rightarrow> (db, ledger_transaction) svc" where
  "post_tx inp =
     bindS (findExistingPosting (post_reference_type inp) (post_reference_id inp)) (\<lambda>existing.
     case existing of
       Some txn \<Rightarrow> returnS txn
     | None \<Rightarrow> bindS (mapS post_line (post_lines inp)) (\<lambda>ls. createLedgerTransaction inp ls))"

definition post :: "rounding \<Rightarrow> posting_input \<Rightarrow> nat option \<Rightarrow> (db, posted) svc" where
  "post D inp ctxUser =
     bindS (assertPostingBalanced D inp) (\<lambda>_.
     bindS (serializable_tx (post_tx inp)) (\<lambda>txn.
     bindS (recordAudit (if ctxUser \<noteq> None then ACTOR_USER else ACTOR_SYSTEM) ctxUser
              ''ledger.post'' (Some ''ledger_transaction'') (Some (txn_id txn))) (\<lambda>_.
     readS (posted_of txn))))"

text \<open>
  \<open>postWithRetry\<close> (the same function in the trading, withdrawal and conversion services):
  run again on a write conflict, \<open>attempts\<close> times in all.
\<close>

fun postWithRetry :: "nat \<Rightarrow> err \<Rightarrow> ('s, 'a) svc \<Rightarrow> ('s, 'a) svc" where
  "postWithRetry 0 lastErr fn = throwS lastErr"
| "postWithRetry (Suc n) lastErr fn =
     catchS fn (\<lambda>e. if e = PrismaError ''P2034'' then postWithRetry n e fn else throwS e)"

abbreviation retry_post :: "('s, 'a) svc \<Rightarrow> ('s, 'a) svc" where
  "retry_post \<equiv> postWithRetry 5 (JsError ''undefined'')"

definition internalTransfer ::
  "rounding \<Rightarrow> nat \<Rightarrow> nat option \<Rightarrow> string \<Rightarrow> rat \<Rightarrow> account_kind \<Rightarrow> account_kind \<Rightarrow>
    string option \<Rightarrow> nat option \<Rightarrow> (db, posted) svc" where
  "internalTransfer D userId toUserId asset amount fromKind toKind refType refId =
     bindS (requireS (isUserAccount fromKind \<and> isUserAccount toKind) BadRequestError) (\<lambda>_.
     post D \<lparr>post_kind = ''INTERNAL_TRANSFER'', post_reference_type = refType,
             post_reference_id = refId,
             post_lines =
               [\<lparr>line_user = (if isUserAccount fromKind then Some userId else None),
                 line_asset = asset, line_kind = fromKind, line_direction = DEBIT,
                 line_amount = amount\<rparr>,
                \<lparr>line_user = (if isUserAccount toKind
                   then Some (case toUserId of None \<Rightarrow> userId | Some u \<Rightarrow> u) else None),
                 line_asset = asset, line_kind = toKind, line_direction = CREDIT,
                 line_amount = amount\<rparr>]\<rparr> (Some userId))"

section \<open>What the tables promise each other\<close>

definition bal_of :: "db \<Rightarrow> nat \<Rightarrow> rat" where
  "bal_of s i = (case balances s i of None \<Rightarrow> 0 | Some b \<Rightarrow> balance b)"

definition entries_sum :: "ledger_entry list \<Rightarrow> nat \<Rightarrow> rat" where
  "entries_sum es i =
     sum_list (map (\<lambda>e. signed_amount (entry_direction e) (entry_amount e))
       (filter (\<lambda>e. entry_account e = i) es))"

definition acc_key :: "account \<Rightarrow> nat option \<times> string \<times> account_kind" where
  "acc_key a = (acc_user a, acc_asset a, acc_kind a)"

definition accounts_inv :: "db \<Rightarrow> bool" where
  "accounts_inv s \<longleftrightarrow>
     distinct (map acc_id (accounts s)) \<and> distinct (map acc_key (accounts s)) \<and>
     (\<forall>a \<in> set (accounts s). acc_id a < next_uuid s \<and>
        (isUserAccount (acc_kind a) \<longleftrightarrow> acc_user a \<noteq> None)) \<and>
     (\<forall>i. balances s i \<noteq> None \<longrightarrow> i \<in> acc_id ` set (accounts s))"

definition nonneg_inv :: "db \<Rightarrow> bool" where
  "nonneg_inv s \<longleftrightarrow>
     (\<forall>a \<in> set (accounts s). isUserAccount (acc_kind a) \<longrightarrow> 0 \<le> bal_of s (acc_id a))"

definition projection_inv :: "db \<Rightarrow> bool" where
  "projection_inv s \<longleftrightarrow> (\<forall>i. bal_of s i = entries_sum (ledger_entries s) i)"

definition has_ref :: "string \<Rightarrow> nat \<Rightarrow> ledger_transaction \<Rightarrow> bool" where
  "has_ref rt ri t \<longleftrightarrow> txn_reference_type t = Some rt \<and> txn_reference_id t = Some ri"

definition txns_inv :: "db \<Rightarrow> bool" where
  "txns_inv s \<longleftrightarrow>
     distinct (map txn_id (ledger_transactions s)) \<and>
     (\<forall>t \<in> set (ledger_transactions s). txn_id t < next_uuid s) \<and>
     (\<forall>e \<in> set (ledger_entries s). entry_txn e \<in> txn_id ` set (ledger_transactions s) \<and>
        0 < entry_amount e \<and>
        (\<exists>a \<in> set (accounts s). acc_id a = entry_account e \<and> acc_asset a = entry_asset e)) \<and>
     (\<forall>t asset. txn_net (ledger_entries s) t asset = 0)"

definition refs_inv :: "db \<Rightarrow> bool" where
  "refs_inv s \<longleftrightarrow>
     (\<forall>rt ri. rt \<noteq> [] \<longrightarrow> length (filter (has_ref rt ri) (ledger_transactions s)) \<le> 1)"

definition ledger_inv :: "db \<Rightarrow> bool" where
  "ledger_inv s \<longleftrightarrow> accounts_inv s \<and> nonneg_inv s \<and> projection_inv s \<and> txns_inv s \<and> refs_inv s"

text \<open>The balance of an account named by its key, 0 when it does not exist.\<close>

definition bal :: "db \<Rightarrow> nat option \<Rightarrow> string \<Rightarrow> account_kind \<Rightarrow> rat" where
  "bal s u asset k =
     (case find (\<lambda>a. acc_user a = u \<and> acc_asset a = asset \<and> acc_kind a = k) (accounts s) of
        None \<Rightarrow> 0 | Some a \<Rightarrow> bal_of s (acc_id a))"

text \<open>What the lines of a posting do to the account of a key, and to an asset as a whole.\<close>

definition line_delta ::
  "posting_line \<Rightarrow> nat option \<Rightarrow> string \<Rightarrow> account_kind \<Rightarrow> rat" where
  "line_delta line u asset k =
     (if line_user line = u \<and> line_asset line = asset \<and> line_kind line = k
      then signed_amount (line_direction line) (line_amount line) else 0)"

definition delta :: "posting_line list \<Rightarrow> nat option \<Rightarrow> string \<Rightarrow> account_kind \<Rightarrow> rat" where
  "delta ls u asset k = sum_list (map (\<lambda>l. line_delta l u asset k) ls)"

definition net :: "posting_line list \<Rightarrow> string \<Rightarrow> rat" where
  "net ls asset =
     sum_list (map (\<lambda>l. signed_amount (line_direction l) (line_amount l))
       (filter (\<lambda>l. line_asset l = asset) ls))"

lemma entries_sum_append: "entries_sum (es @ fs) i = entries_sum es i + entries_sum fs i"
  by (simp add: entries_sum_def)

lemma txn_net_append: "txn_net (es @ fs) t a = txn_net es t a + txn_net fs t a"
  by (simp add: txn_net_def)

lemma find_key_account:
  assumes "distinct (map acc_key as)" and "a \<in> set as"
  shows "find (\<lambda>b. acc_user b = acc_user a \<and> acc_asset b = acc_asset a \<and> acc_kind b = acc_kind a) as
           = Some a"
  by (rule find_unique) (use assms in \<open>auto simp: acc_key_def distinct_map inj_on_def\<close>)

section \<open>One line\<close>

text \<open>
  A line of a posting touches accounts, balances and the identifier supply only; the account
  it ends up with has the key of the line, and its balance moves by the signed amount.
\<close>

definition same_but_accounts :: "db \<Rightarrow> db \<Rightarrow> bool" where
  "same_but_accounts s t \<longleftrightarrow>
     t = s\<lparr>accounts := accounts t, balances := balances t, next_uuid := next_uuid t\<rparr>"

lemma same_but_accounts_refl [simp]: "same_but_accounts s s"
  by (simp add: same_but_accounts_def)

lemma same_but_accounts_trans:
  "same_but_accounts s t \<Longrightarrow> same_but_accounts t u \<Longrightarrow> same_but_accounts s u"
  by (cases s, cases t, cases u) (simp add: same_but_accounts_def)

lemma same_but_accounts_simps:
  "same_but_accounts s t \<Longrightarrow> ledger_entries t = ledger_entries s \<and>
     ledger_transactions t = ledger_transactions s \<and> now t = now s \<and> conflicts t = conflicts s"
  unfolding same_but_accounts_def by (cases s, cases t) simp

lemma findOrCreateAccount_spec:
  assumes run: "findOrCreateAccount u asset k s = (Inr a, t)" and inv: "accounts_inv s"
  shows "same_but_accounts s t \<and> balances t = balances s \<and> accounts_inv t \<and>
    a \<in> set (accounts t) \<and> acc_key a = (u, asset, k) \<and>
    (accounts t = accounts s \<and> next_uuid t = next_uuid s \<or>
     accounts t = accounts s @ [a] \<and> acc_id a = next_uuid s \<and> next_uuid t = Suc (next_uuid s))"
proof (cases "find (\<lambda>a. acc_user a = u \<and> acc_asset a = asset \<and> acc_kind a = k) (accounts s)")
  case (Some b)
  then have "t = s" and "a = b"
    using run by (auto simp: findOrCreateAccount_def svc_simps)
  then show ?thesis using Some inv by (auto simp: acc_key_def dest: find_SomeD)
next
  case None
  let ?a = "\<lparr>acc_id = next_uuid s, acc_kind = k, acc_user = u, acc_asset = asset\<rparr>"
  from None run have a: "a = ?a" and user: "isUserAccount k \<longleftrightarrow> u \<noteq> None"
    and t: "t = s\<lparr>next_uuid := Suc (next_uuid s), accounts := accounts s @ [?a]\<rparr>"
    by (auto simp: findOrCreateAccount_def svc_simps fresh_uuid_def Let_def split: if_splits)
  have "next_uuid s \<notin> acc_id ` set (accounts s)" and "acc_key ?a \<notin> acc_key ` set (accounts s)"
    using inv None by (auto simp: accounts_inv_def acc_key_def find_None_iff)
  then have "accounts_inv t"
    using inv user by (auto simp: accounts_inv_def t less_Suc_eq)
  then show ?thesis
    by (simp add: a t same_but_accounts_def acc_key_def)
qed

lemma ensureBalance_spec:
  assumes "ensureBalance i s = (r, t)" and "accounts_inv s" and "i \<in> acc_id ` set (accounts s)"
  shows "same_but_accounts s t \<and> accounts t = accounts s \<and> next_uuid t = next_uuid s \<and>
    bal_of t = bal_of s \<and> balances t i \<noteq> None \<and> accounts_inv t"
proof (cases "balances s i")
  case (Some b)
  then show ?thesis using assms by (auto simp: ensureBalance_def svc_simps)
next
  case None
  then have "t = s\<lparr>balances := (balances s)(i \<mapsto> \<lparr>balance = 0, version = 0\<rparr>)\<rparr>"
    using assms(1) by (auto simp: ensureBalance_def svc_simps)
  then show ?thesis using assms(2,3) None
    by (auto simp: same_but_accounts_def bal_of_def accounts_inv_def fun_eq_iff)
qed


lemma post_line_spec:
  assumes run: "post_line line s = (Inr r, t)" and inv: "accounts_inv s"
  shows "\<exists>a. r = (line, acc_id a) \<and> a \<in> set (accounts t) \<and>
    acc_key a = (line_user line, line_asset line, line_kind line) \<and>
    same_but_accounts s t \<and> accounts_inv t \<and> next_uuid s \<le> next_uuid t \<and>
    set (accounts s) \<subseteq> set (accounts t) \<and>
    (\<forall>b \<in> set (accounts t) - set (accounts s). b = a \<and> bal_of s (acc_id b) = 0) \<and>
    bal_of t = (bal_of s)(acc_id a := bal_of s (acc_id a) +
                            signed_amount (line_direction line) (line_amount line)) \<and>
    (isUserAccount (line_kind line) \<longrightarrow> line_direction line = DEBIT \<longrightarrow> 0 \<le> bal_of t (acc_id a))"
proof -
  from run obtain a s1 where r: "r = (line, acc_id a)"
    and s1: "findOrCreateAccount (line_user line) (line_asset line) (line_kind line) s = (Inr a, s1)"
    and rest: "bindS (ensureBalance (acc_id a)) (\<lambda>_.
     bindS (if line_direction line = CREDIT
            then creditBalance (acc_id a) (line_amount line)
            else bindS (debitBalance (acc_id a) (line_amount line)
                         (isSystemAccount (line_kind line)))
                   (\<lambda>count. requireS (count = 1) (ConflictError ''INSUFFICIENT_BALANCE''))) (\<lambda>_.
     returnS (line, acc_id a))) s1 = (Inr r, t)"
    by (auto simp: post_line_def bindS_Inr_iff requireS_apply returnS_apply split: if_splits)
  note f = findOrCreateAccount_spec [OF s1 inv]
  from rest obtain u s2 where s2: "ensureBalance (acc_id a) s1 = (Inr u, s2)"
    and rest2: "bindS (if line_direction line = CREDIT
            then creditBalance (acc_id a) (line_amount line)
            else bindS (debitBalance (acc_id a) (line_amount line)
                         (isSystemAccount (line_kind line)))
                   (\<lambda>count. requireS (count = 1) (ConflictError ''INSUFFICIENT_BALANCE''))) (\<lambda>_.
     returnS (line, acc_id a)) s2 = (Inr r, t)"
    by (auto simp: bindS_Inr_iff)
  have "accounts_inv s1" and a1: "a \<in> set (accounts s1)" using f by auto
  note e = ensureBalance_spec [OF s2 this(1) imageI [OF this(2)]]
  then obtain b where b: "balances s2 (acc_id a) = Some b" by auto
  have t: "t = s2\<lparr>balances := (balances s2)(acc_id a \<mapsto>
      \<lparr>balance = balance b + signed_amount (line_direction line) (line_amount line), version = Suc (version b)\<rparr>)\<rparr>"
    and deb: "line_direction line = DEBIT \<longrightarrow> isUserAccount (line_kind line) \<longrightarrow> line_amount line \<le> balance b"
    using rest2 b
    by (cases "line_direction line";
        auto simp: bindS_Inr_iff creditBalance_def debitBalance_def requireS_apply returnS_apply
          signed_amount_def isSystemAccount_def split: if_splits)+
  have bal_s1: "bal_of s1 = bal_of s" using f by (auto simp: bal_of_def fun_eq_iff)
  have bt: "bal_of t = (bal_of s)(acc_id a := bal_of s (acc_id a) +
                            signed_amount (line_direction line) (line_amount line))"
  proof -
    have s2b: "bal_of s2 = bal_of s" using e bal_s1 by simp
    have "bal_of s2 (acc_id a) = balance b" using b by (simp add: bal_of_def)
    then have "bal_of s (acc_id a) = balance b" by (simp add: s2b)
    moreover have "bal_of t = (bal_of s2)(acc_id a := balance b +
                            signed_amount (line_direction line) (line_amount line))"
      by (simp add: t bal_of_def fun_eq_iff)
    ultimately show ?thesis by (simp add: s2b)
  qed
  have "same_but_accounts s2 t" by (simp add: t same_but_accounts_def)
  then have same: "same_but_accounts s t"
    using f e same_but_accounts_trans by blast
  have "accounts_inv t"
    using e b by (auto simp: accounts_inv_def t)
  moreover have acc: "accounts t = accounts s1" using e by (simp add: t)
  moreover have "next_uuid s \<le> next_uuid t" using e f by (auto simp: t)
  moreover have "set (accounts s) \<subseteq> set (accounts t)" using f acc by auto
  moreover have "\<forall>b \<in> set (accounts t) - set (accounts s). b = a \<and> bal_of s (acc_id b) = 0"
  proof
    fix c assume c: "c \<in> set (accounts t) - set (accounts s)"
    then have "c = a" and "acc_id a = next_uuid s" using f acc by auto
    moreover have "next_uuid s \<notin> acc_id ` set (accounts s)"
      using inv by (auto simp: accounts_inv_def)
    ultimately have "balances s (acc_id c) = None"
      using inv by (auto simp: accounts_inv_def)
    then show "c = a \<and> bal_of s (acc_id c) = 0" using \<open>c = a\<close> by (simp add: bal_of_def)
  qed
  moreover have "isUserAccount (line_kind line) \<longrightarrow> line_direction line = DEBIT \<longrightarrow> 0 \<le> bal_of t (acc_id a)"
    using deb b by (auto simp: t bal_of_def signed_amount_def)
  ultimately show ?thesis using r f a1 bt same acc by (intro exI [of _ a]) auto
qed

lemma bal_eq:
  assumes "accounts_inv s" and "a \<in> set (accounts s)" and "acc_key a = (u, as, k)"
  shows "bal s u as k = bal_of s (acc_id a)"
  using assms find_key_account [of "accounts s" a]
  by (auto simp: bal_def accounts_inv_def acc_key_def)

lemma bal_missing:
  "(u, as, k) \<notin> acc_key ` set (accounts s) \<Longrightarrow> bal s u as k = 0"
  by (auto simp: bal_def acc_key_def image_iff split: option.splits dest: find_SomeD)

lemma account_eq_iff:
  assumes "accounts_inv s" and "a \<in> set (accounts s)" and "b \<in> set (accounts s)"
  shows "acc_id a = acc_id b \<longleftrightarrow> acc_key a = acc_key b"
  using assms by (auto simp: accounts_inv_def distinct_map inj_on_def)

text \<open>Seen through the keys: the line moves its own key by its signed amount.\<close>

lemma post_line_bal:
  assumes run: "post_line line s = (Inr r, t)" and inv: "accounts_inv s"
  shows "bal t u as k = bal s u as k + line_delta line u as k"
proof -
  obtain a where a: "a \<in> set (accounts t)"
    "acc_key a = (line_user line, line_asset line, line_kind line)"
    and t: "accounts_inv t" "set (accounts s) \<subseteq> set (accounts t)"
    and new: "\<forall>b \<in> set (accounts t) - set (accounts s). b = a \<and> bal_of s (acc_id b) = 0"
    and bt: "bal_of t = (bal_of s)(acc_id a := bal_of s (acc_id a) +
                            signed_amount (line_direction line) (line_amount line))"
    using post_line_spec [OF run inv] by blast
  show ?thesis
  proof (cases "(u, as, k) \<in> acc_key ` set (accounts t)")
    case False
    then have "(u, as, k) \<notin> acc_key ` set (accounts s)" using t(2) by auto
    moreover have "line_delta line u as k = 0" using False a by (auto simp: line_delta_def image_iff)
    ultimately show ?thesis using False by (simp add: bal_missing)
  next
    case True
    then obtain b where b: "b \<in> set (accounts t)" "acc_key b = (u, as, k)" by auto
    have same: "acc_id b = acc_id a \<longleftrightarrow> (line_user line = u \<and> line_asset line = as \<and> line_kind line = k)"
      using account_eq_iff [OF t(1) b(1) a(1)] a(2) b(2) by auto
    have "bal s u as k = bal_of s (acc_id b)"
    proof (cases "b \<in> set (accounts s)")
      case True then show ?thesis using bal_eq [OF inv] b(2) by simp
    next
      case False
      then have "(u, as, k) \<notin> acc_key ` set (accounts s)"
        using b t account_eq_iff [OF t(1) b(1)] by (auto simp: image_iff) (metis accounts_inv_def distinct_map inj_on_def subsetD t(1))
      then show ?thesis using False b new by (simp add: bal_missing)
    qed
    moreover have "bal t u as k = bal_of t (acc_id b)" using bal_eq [OF t(1) b] .
    ultimately show ?thesis using same by (auto simp: bt line_delta_def)
  qed
qed

lemma post_line_nonneg:
  assumes run: "post_line line s = (Inr r, t)" and inv: "accounts_inv s" and "nonneg_inv s"
    and "0 < line_amount line"
  shows "nonneg_inv t"
proof -
  obtain a where a: "a \<in> set (accounts t)"
    "acc_key a = (line_user line, line_asset line, line_kind line)"
    and t: "accounts_inv t" "set (accounts s) \<subseteq> set (accounts t)"
    and new: "\<forall>b \<in> set (accounts t) - set (accounts s). b = a \<and> bal_of s (acc_id b) = 0"
    and bt: "bal_of t = (bal_of s)(acc_id a := bal_of s (acc_id a) +
                            signed_amount (line_direction line) (line_amount line))"
    and deb: "isUserAccount (line_kind line) \<longrightarrow> line_direction line = DEBIT \<longrightarrow> 0 \<le> bal_of t (acc_id a)"
    using post_line_spec [OF run inv] by blast
  show ?thesis unfolding nonneg_inv_def
  proof (intro ballI impI)
    fix b assume b: "b \<in> set (accounts t)" "isUserAccount (acc_kind b)"
    have old: "0 \<le> bal_of s (acc_id b)"
    proof (cases "b \<in> set (accounts s)")
      case True then show ?thesis using b(2) assms(3) by (auto simp: nonneg_inv_def)
    next
      case False then show ?thesis using b(1) new by simp
    qed
    show "0 \<le> bal_of t (acc_id b)"
    proof (cases "acc_id b = acc_id a")
      case True
      then have "b = a" using b(1) a(1) t(1) by (auto simp: accounts_inv_def distinct_map inj_on_def)
      then have "isUserAccount (line_kind line)" using b(2) a(2) by (simp add: acc_key_def)
      then show ?thesis using deb old assms(4) \<open>b = a\<close>
        by (cases "line_direction line") (auto simp: bt signed_amount_def)
    next
      case False then show ?thesis using old by (simp add: bt)
    qed
  qed
qed


section \<open>All lines\<close>

definition lines_sum :: "(posting_line \<times> nat) list \<Rightarrow> nat \<Rightarrow> rat" where
  "lines_sum rs i =
     sum_list (map (\<lambda>r. signed_amount (line_direction (fst r)) (line_amount (fst r)))
       (filter (\<lambda>r. snd r = i) rs))"

lemma post_lines_spec:
  assumes "mapS post_line ls s = (Inr rs, t)" and "accounts_inv s"
  shows "map fst rs = ls \<and> accounts_inv t \<and> same_but_accounts s t \<and>
    next_uuid s \<le> next_uuid t \<and> set (accounts s) \<subseteq> set (accounts t) \<and>
    (\<forall>u as k. bal t u as k = bal s u as k + delta ls u as k) \<and>
    (\<forall>i. bal_of t i = bal_of s i + lines_sum rs i) \<and>
    (\<forall>r \<in> set rs. \<exists>a \<in> set (accounts t). acc_id a = snd r \<and> acc_asset a = line_asset (fst r)) \<and>
    (nonneg_inv s \<longrightarrow> (\<forall>l \<in> set ls. 0 < line_amount l) \<longrightarrow> nonneg_inv t)"
  using assms
proof (induction ls arbitrary: rs s)
  case Nil
  then show ?case by (simp add: returnS_apply delta_def lines_sum_def)
next
  case (Cons l ls)
  then obtain r rs' s1 where r: "post_line l s = (Inr r, s1)"
    and rs': "mapS post_line ls s1 = (Inr rs', t)" and rs: "rs = r # rs'"
    by (auto simp: bindS_Inr_iff returnS_apply)
  obtain a where a: "r = (l, acc_id a)" "a \<in> set (accounts s1)"
    "acc_key a = (line_user l, line_asset l, line_kind l)"
    and s1: "same_but_accounts s s1" "accounts_inv s1" "set (accounts s) \<subseteq> set (accounts s1)"
      "next_uuid s \<le> next_uuid s1"
    and b1: "bal_of s1 = (bal_of s)(acc_id a := bal_of s (acc_id a) +
                            signed_amount (line_direction l) (line_amount l))"
    using post_line_spec [OF r Cons.prems(2)] by blast
  note ih = Cons.IH [OF rs' s1(2)]
  have "acc_asset a = line_asset l" using a(3) by (simp add: acc_key_def)
  then have "\<forall>r \<in> set rs. \<exists>a \<in> set (accounts t). acc_id a = snd r \<and> acc_asset a = line_asset (fst r)"
    using ih a rs by auto
  moreover have "bal_of t i = bal_of s i + lines_sum rs i" for i
    using ih b1 by (simp add: rs a(1) lines_sum_def)
  moreover have "bal t u as k = bal s u as k + delta (l # ls) u as k" for u as k
    using ih post_line_bal [OF r Cons.prems(2)] by (simp add: delta_def)
  moreover have "nonneg_inv s \<longrightarrow> (\<forall>l \<in> set (l # ls). 0 < line_amount l) \<longrightarrow> nonneg_inv t"
    using ih post_line_nonneg [OF r Cons.prems(2)] by simp
  moreover have "same_but_accounts s t" using s1(1) ih same_but_accounts_trans by blast
  ultimately show ?case using ih s1 rs a(1) by auto
qed

section \<open>Recording the transaction\<close>

lemma make_entries_sum: "entries_sum (make_entries n t c rs) i = lines_sum rs i"
  by (induction n t c rs rule: make_entries.induct) (auto simp: entries_sum_def lines_sum_def)

lemma make_entries_net:
  "txn_net (make_entries n t c rs) t' asset = (if t' = t then net (map fst rs) asset else 0)"
  by (induction n t c rs rule: make_entries.induct) (auto simp: txn_net_def net_def)

lemma make_entries_set:
  "e \<in> set (make_entries n t c rs) \<Longrightarrow> entry_txn e = t \<and>
     (\<exists>r \<in> set rs. entry_account e = snd r \<and> entry_asset e = line_asset (fst r) \<and>
        entry_amount e = line_amount (fst r))"
  by (induction n t c rs rule: make_entries.induct) auto

lemma txn_net_outside:
  "t \<notin> entry_txn ` set es \<Longrightarrow> txn_net es t asset = 0"
proof -
  assume "t \<notin> entry_txn ` set es"
  then have "filter (\<lambda>e. entry_txn e = t \<and> entry_asset e = asset) es = []"
    by (auto simp: filter_empty_conv)
  then show ?thesis by (simp add: txn_net_def)
qed

lemma ledger_entries_balanced_net:
  assumes "ledger_entries_balanced es t" shows "txn_net es t asset = 0"
proof (cases "\<exists>e \<in> set es. entry_txn e = t \<and> entry_asset e = asset")
  case True then show ?thesis using assms by (auto simp: ledger_entries_balanced_def)
next
  case False
  then have "filter (\<lambda>e. entry_txn e = t \<and> entry_asset e = asset) es = []"
    by (auto simp: filter_empty_conv)
  then show ?thesis by (simp add: txn_net_def)
qed

lemma createLedgerTransaction_spec:
  assumes "createLedgerTransaction inp rs s = (Inr txn, t)"
  shows "txn = \<lparr>txn_id = next_uuid s, txn_kind = post_kind inp,
                 txn_reference_type = post_reference_type inp,
                 txn_reference_id = post_reference_id inp\<rparr> \<and>
    t = s\<lparr>next_uuid := Suc (next_uuid s), ledger_transactions := ledger_transactions s @ [txn],
          ledger_entries := ledger_entries s @
            make_entries (length (ledger_entries s)) (next_uuid s) (now s) rs\<rparr> \<and>
    (\<forall>r \<in> set rs. 0 < line_amount (fst r)) \<and>
    ledger_entries_balanced (ledger_entries t) (next_uuid s)"
  using assms
  by (auto simp: createLedgerTransaction_def fresh_uuid_def svc_simps Let_def split: if_splits)


definition already_posted :: "posting_input \<Rightarrow> db \<Rightarrow> bool" where
  "already_posted inp s \<longleftrightarrow>
     (\<exists>rt ri. post_reference_type inp = Some rt \<and> rt \<noteq> [] \<and> post_reference_id inp = Some ri \<and>
        (\<exists>t \<in> set (ledger_transactions s). has_ref rt ri t))"

text \<open>The same for a reference given by its two columns.\<close>

definition posted_as :: "string \<Rightarrow> nat \<Rightarrow> db \<Rightarrow> bool" where
  "posted_as rt i s \<longleftrightarrow> (\<exists>txn \<in> set (ledger_transactions s). has_ref rt i txn)"

lemma already_posted_as:
  "post_reference_type inp = Some rt \<Longrightarrow> rt \<noteq> [] \<Longrightarrow> post_reference_id inp = Some i \<Longrightarrow>
     already_posted inp s \<longleftrightarrow> posted_as rt i s"
  by (simp add: already_posted_def posted_as_def)

lemma findExistingPosting_spec:
  assumes "findExistingPosting (post_reference_type inp) (post_reference_id inp) s = (Inr r, t)"
  shows "t = s \<and> (r = None \<longleftrightarrow> \<not> already_posted inp s) \<and>
     (\<forall>x. r = Some x \<longrightarrow> x \<in> set (ledger_transactions s))"
proof (cases "post_reference_type inp = None \<or> post_reference_type inp = Some [] \<or>
    post_reference_id inp = None")
  case True
  then show ?thesis using assms
    by (auto simp: findExistingPosting_def svc_simps already_posted_def)
next
  case False
  then obtain rt ri where rt: "post_reference_type inp = Some rt" "rt \<noteq> []"
    and ri: "post_reference_id inp = Some ri" by auto
  then have "r = find (has_ref rt ri) (ledger_transactions s)" and "t = s"
    using assms by (auto simp: findExistingPosting_def svc_simps has_ref_def [abs_def])
  then show ?thesis using rt ri
    by (auto simp: already_posted_def find_None_iff dest: find_SomeD)
qed

lemma findExistingPosting_total:
  "\<exists>r. findExistingPosting rt ri s = (Inr r, s)"
  by (auto simp: findExistingPosting_def svc_simps)

definition post_effect :: "posting_input \<Rightarrow> db \<Rightarrow> db \<Rightarrow> bool" where
  "post_effect inp s t \<longleftrightarrow>
     (\<forall>u as k. bal t u as k =
        bal s u as k + (if already_posted inp s then 0 else delta (post_lines inp) u as k))"

lemma bal_cong:
  "accounts t = accounts s \<Longrightarrow> balances t = balances s \<Longrightarrow> bal t u as k = bal s u as k"
  by (simp add: bal_def bal_of_def split: option.split)

text \<open>The ledger tables, which the rest of the state does not influence.\<close>

definition ledger_tables where
  "ledger_tables s = (accounts s, balances s, ledger_transactions s, ledger_entries s)"

lemma ledger_inv_cong:
  "ledger_tables t = ledger_tables s \<Longrightarrow> next_uuid s \<le> next_uuid t \<Longrightarrow>
     ledger_inv s \<Longrightarrow> ledger_inv t"
  by (auto simp: ledger_tables_def ledger_inv_def accounts_inv_def nonneg_inv_def
      projection_inv_def txns_inv_def refs_inv_def bal_of_def)

lemma posted_as_tables: "ledger_tables t = ledger_tables s \<Longrightarrow> posted_as rt i t = posted_as rt i s"
  by (simp add: ledger_tables_def posted_as_def)

lemma bal_tables: "ledger_tables t = ledger_tables s \<Longrightarrow> bal t = bal s"
  by (intro ext bal_cong) (auto simp: ledger_tables_def)

lemma new_posting_inv:
  assumes inv: "ledger_inv s" and new: "\<not> already_posted inp s"
    and pos: "\<forall>l \<in> set (post_lines inp). 0 < line_amount l"
    and lines: "mapS post_line (post_lines inp) s = (Inr rs, s1)"
    and create: "createLedgerTransaction inp rs s1 = (Inr txn, t)"
  shows "ledger_inv t"
proof -
  have inv': "accounts_inv s" "nonneg_inv s" "projection_inv s" "txns_inv s" "refs_inv s"
    using inv by (auto simp: ledger_inv_def)
  note l = post_lines_spec [OF lines inv'(1)]
  note c = createLedgerTransaction_spec [OF create]
  from l have s1: "ledger_entries s1 = ledger_entries s"
    "ledger_transactions s1 = ledger_transactions s"
    by (auto dest: same_but_accounts_simps)
  have mono: "next_uuid s \<le> next_uuid s1" and sub: "set (accounts s) \<subseteq> set (accounts s1)"
    using l by auto
  let ?es = "make_entries (length (ledger_entries s1)) (next_uuid s1) (now s1) rs"
  have t: "t = s1\<lparr>next_uuid := Suc (next_uuid s1), ledger_transactions := ledger_transactions s @ [txn],
          ledger_entries := ledger_entries s @ ?es\<rparr>"
    using c s1 by simp
  have fresh: "next_uuid s1 \<notin> txn_id ` set (ledger_transactions s)"
    using inv'(4) mono by (auto simp: txns_inv_def)
  then have fresh_e: "next_uuid s1 \<notin> entry_txn ` set (ledger_entries s)"
    using inv'(4) by (auto simp: txns_inv_def)
  have txn: "txn_id txn = next_uuid s1" using c by simp
  have "accounts_inv t" using l by (auto simp: t accounts_inv_def)
  moreover have "nonneg_inv t"
  proof -
    have "nonneg_inv s1" using l inv'(2) pos by blast
    then show ?thesis by (simp add: t nonneg_inv_def bal_of_def)
  qed
  moreover have "projection_inv t"
  proof -
    have "bal_of t = bal_of s1" by (simp add: t bal_of_def fun_eq_iff)
    then show ?thesis using l inv'(3)
      by (simp add: projection_inv_def t entries_sum_append make_entries_sum)
  qed
  moreover have "txns_inv t"
  proof -
    have "ledger_entries_balanced (ledger_entries t) (next_uuid s1)" using c by blast
    then have bal0: "txn_net (ledger_entries t) (next_uuid s1) as = 0" for as
      by (rule ledger_entries_balanced_net)
    have "txn_net (ledger_entries t) i as = 0" for i as
    proof (cases "i = next_uuid s1")
      case True then show ?thesis using bal0 by simp
    next
      case False then show ?thesis
        using inv'(4) by (simp add: t txn_net_append make_entries_net txns_inv_def)
    qed
    moreover have "\<forall>e \<in> set ?es. entry_txn e = next_uuid s1 \<and> 0 < entry_amount e \<and>
        (\<exists>a \<in> set (accounts s1). acc_id a = entry_account e \<and> acc_asset a = entry_asset e)"
      using l c by (fastforce dest: make_entries_set)
    ultimately show ?thesis
      using inv'(4) txn fresh mono sub by (fastforce simp: txns_inv_def t less_Suc_eq)
  qed
  moreover have "refs_inv t"
    unfolding refs_inv_def
  proof (intro allI impI)
    fix rt :: string and ri :: nat assume "rt \<noteq> []"
    show "length (filter (has_ref rt ri) (ledger_transactions t)) \<le> 1"
    proof (cases "has_ref rt ri txn")
      case True
      then have "filter (has_ref rt ri) (ledger_transactions s) = []"
        using new c \<open>rt \<noteq> []\<close> by (auto simp: already_posted_def has_ref_def filter_empty_conv)
      then show ?thesis by (simp add: t)
    next
      case False
      then show ?thesis using inv'(5) \<open>rt \<noteq> []\<close> by (simp add: t refs_inv_def)
    qed
  qed
  ultimately show ?thesis by (simp add: ledger_inv_def)
qed


lemma posting_totals_pos:
  "posting_totals D ls tot = Inr tot' \<Longrightarrow> \<forall>l \<in> set ls. 0 < line_amount l"
  by (induction D ls tot arbitrary: tot' rule: posting_totals.induct)
     (auto simp: Let_def split: if_splits)

lemma assertPostingBalanced_spec:
  assumes "assertPostingBalanced D inp s = (r, t)"
  shows "t = s \<and> (\<forall>u. r = Inr u \<longrightarrow> 2 \<le> length (post_lines inp) \<and>
     (\<forall>l \<in> set (post_lines inp). 0 < line_amount l))"
  using assms
  by (auto simp: assertPostingBalanced_def svc_simps split: if_splits sum.splits
      dest: posting_totals_pos)

lemma post_tx_spec:
  assumes run: "post_tx inp s = (Inr txn, t)" and inv: "ledger_inv s"
    and pos: "\<forall>l \<in> set (post_lines inp). 0 < line_amount l"
  shows "ledger_inv t \<and> post_effect inp s t \<and> next_uuid s \<le> next_uuid t \<and>
    txn \<in> set (ledger_transactions t) \<and>
    (\<exists>new. ledger_transactions t = ledger_transactions s @ new \<and>
      (\<forall>x \<in> set new. txn_reference_type x = post_reference_type inp \<and>
        txn_reference_id x = post_reference_id inp)) \<and>
    (already_posted inp s \<longrightarrow> t = s) \<and>
    (\<not> already_posted inp s \<longrightarrow> txn_reference_type txn = post_reference_type inp \<and>
        txn_reference_id txn = post_reference_id inp) \<and>
    t = s\<lparr>accounts := accounts t, balances := balances t, next_uuid := next_uuid t,
      ledger_transactions := ledger_transactions t, ledger_entries := ledger_entries t\<rparr>"
proof -
  obtain ex where ex: "findExistingPosting (post_reference_type inp) (post_reference_id inp) s
      = (Inr ex, s)" using findExistingPosting_total by blast
  note f = findExistingPosting_spec [OF ex]
  show ?thesis
  proof (cases ex)
    case (Some x)
    then have "already_posted inp s" "x \<in> set (ledger_transactions s)" using f by auto
    moreover have "t = s" "txn = x"
      using run ex Some by (auto simp: post_tx_def svc_simps)
    ultimately show ?thesis using inv by (simp add: post_effect_def)
  next
    case None
    then have new: "\<not> already_posted inp s" using f by simp
    from run ex None obtain rs s1 where rs: "mapS post_line (post_lines inp) s = (Inr rs, s1)"
      and c: "createLedgerTransaction inp rs s1 = (Inr txn, t)"
      by (auto simp: post_tx_def bindS_apply split: prod.splits sum.splits)
    have l: "same_but_accounts s s1"
      "\<forall>u as k. bal s1 u as k = bal s u as k + delta (post_lines inp) u as k"
      "next_uuid s \<le> next_uuid s1"
      using post_lines_spec [OF rs] inv by (auto simp: ledger_inv_def)
    note cs = createLedgerTransaction_spec [OF c]
    have tt: "accounts t = accounts s1" "balances t = balances s1" using cs by auto
    have bal: "bal t u as k = bal s1 u as k" for u as k by (rule bal_cong [OF tt])
    have lt: "ledger_transactions t = ledger_transactions s @ [txn]"
      "ledger_transactions s1 = ledger_transactions s"
      using cs same_but_accounts_simps [OF l(1)] by auto
    have "t = s\<lparr>accounts := accounts t, balances := balances t, next_uuid := next_uuid t,
      ledger_transactions := ledger_transactions t, ledger_entries := ledger_entries t\<rparr>"
      using cs l(1) unfolding same_but_accounts_def by (cases s; cases s1) simp
    moreover have "ledger_inv t" by (rule new_posting_inv [OF inv new pos rs c])
    moreover have "next_uuid s \<le> next_uuid t" using l(3) cs by simp
    ultimately show ?thesis using new bal l(2) lt cs by (simp add: post_effect_def)
  qed
qed

text \<open>
  The three outcomes of a posting: nothing but the supply of write conflicts changed; the
  posting was recorded before and only the audit trail grows; a new posting whose lines move
  the balances.
\<close>

lemma post_Inl:
  assumes "post D inp c s = (Inl e, t)"
  shows "\<exists>cs. t = s\<lparr>conflicts := cs\<rparr>"
proof (cases "assertPostingBalanced D inp s")
  case (Pair r s')
  then have s': "s' = s" using assertPostingBalanced_spec by blast
  show ?thesis
  proof (cases r)
    case (Inl e')
    then have "t = s\<lparr>conflicts := conflicts s\<rparr>"
      using assms Pair s' conflicts_self [OF refl, of s] by (simp add: post_def svc_simps)
    then show ?thesis ..
  next
    case (Inr x)
    then have "serializable_tx (post_tx inp) s = (Inl e, t)"
      using assms Pair s'
      by (auto simp: post_def svc_simps recordAudit_def split: prod.splits sum.splits)
    then show ?thesis by (auto elim: serializable_tx_Inl)
  qed
qed

lemma post_Inr:
  assumes "post D inp c s = (Inr r, t)"
  obtains txn s1 cs where "post_tx inp (s\<lparr>conflicts := cs\<rparr>) = (Inr txn, s1)"
    and "2 \<le> length (post_lines inp)" and "\<forall>l \<in> set (post_lines inp). 0 < line_amount l"
    and "t = s1\<lparr>audit_logs := audit_logs t\<rparr>" and "r = posted_of txn t"
    and "posted_id r = txn_id txn"
proof -
  obtain x where a: "assertPostingBalanced D inp s = (Inr x, s)"
    using assms assertPostingBalanced_spec
    by (fastforce simp: post_def bindS_Inr_iff)
  then obtain txn s1 where tx: "serializable_tx (post_tx inp) s = (Inr txn, s1)"
    and t: "t = s1\<lparr>audit_logs := audit_logs t\<rparr>" and r: "r = posted_of txn t"
    using assms by (auto simp: post_def svc_simps recordAudit_def split: prod.splits sum.splits)
  obtain cs where "post_tx inp (s\<lparr>conflicts := cs\<rparr>) = (Inr txn, s1)"
    using tx by (rule serializable_tx_Inr)
  then show ?thesis using that a t r assertPostingBalanced_spec [OF a] by (simp add: posted_of_def)
qed

section \<open>The interface other services use\<close>

definition only_ledger :: "db \<Rightarrow> db \<Rightarrow> bool" where
  "only_ledger s t \<longleftrightarrow> t = s\<lparr>accounts := accounts t, balances := balances t,
     ledger_transactions := ledger_transactions t, ledger_entries := ledger_entries t,
     next_uuid := next_uuid t, conflicts := conflicts t, audit_logs := audit_logs t\<rparr>"

lemma only_ledger_refl [simp]: "only_ledger s s"
  by (simp add: only_ledger_def)

lemma only_ledger_trans: "only_ledger s t \<Longrightarrow> only_ledger t u \<Longrightarrow> only_ledger s u"
  by (cases s, cases t, cases u) (simp add: only_ledger_def)

lemma only_ledger_simps:
  assumes "only_ledger s t"
  shows "orders t = orders s" "trades t = trades s" "markets t = markets s"
    "assets t = assets s" "users t = users s" "crypto_withdrawals t = crypto_withdrawals s"
    "withdrawal_addresses t = withdrawal_addresses s" "asset_chains t = asset_chains s"
    "hot_wallets t = hot_wallets s" "wallet_nonces t = wallet_nonces s"
    "tier_limits t = tier_limits s" "withdrawals_frozen t = withdrawals_frozen s"
    "published t = published s" "notifications t = notifications s"
    "admin_logs t = admin_logs s" "now t = now s" "inr_transactions t = inr_transactions s"
    "chain_txs t = chain_txs s" "price_quotes t = price_quotes s" "conversions t = conversions s"
    "quote_snapshots t = quote_snapshots s" "redis_down t = redis_down s"
    "payment_webhook_events t = payment_webhook_events s" "inr_withdrawals t = inr_withdrawals s"
    "master_deposits t = master_deposits s" "network_configs t = network_configs s"
  using assms unfolding only_ledger_def by (cases s, cases t, simp)+

lemma already_posted_cong:
  "ledger_transactions t = ledger_transactions s \<Longrightarrow> already_posted inp t = already_posted inp s"
  by (simp add: already_posted_def)

text \<open>What \<open>post\<close> promises.\<close>

lemma post_spec:
  assumes "post D inp c s = (Inr r, t)" and "ledger_inv s"
  shows "ledger_inv t \<and> post_effect inp s t \<and> only_ledger s t \<and>
    next_uuid s \<le> next_uuid t \<and>
    (already_posted inp s \<longrightarrow> ledger_tables t = ledger_tables s) \<and>
    (\<exists>new. ledger_transactions t = ledger_transactions s @ new \<and>
      (\<forall>x \<in> set new. txn_reference_type x = post_reference_type inp \<and>
        txn_reference_id x = post_reference_id inp)) \<and>
    (\<exists>txn \<in> set (ledger_transactions t). posted_id r = txn_id txn \<and>
      (\<not> already_posted inp s \<longrightarrow> txn_reference_type txn = post_reference_type inp \<and>
        txn_reference_id txn = post_reference_id inp))"
proof -
  obtain txn s1 cs where tx: "post_tx inp (s\<lparr>conflicts := cs\<rparr>) = (Inr txn, s1)"
    and pos: "\<forall>l \<in> set (post_lines inp). 0 < line_amount l"
    and t: "t = s1\<lparr>audit_logs := audit_logs t\<rparr>" and id: "posted_id r = txn_id txn"
    using assms(1) by (rule post_Inr)
  let ?s = "s\<lparr>conflicts := cs\<rparr>"
  have tab: "ledger_tables ?s = ledger_tables s" by (simp add: ledger_tables_def)
  have inv: "ledger_inv ?s" using assms(2) by (auto intro: ledger_inv_cong [OF tab])
  have tab1: "ledger_tables t = ledger_tables s1" "next_uuid t = next_uuid s1"
    by (subst t, simp add: ledger_tables_def)+
  note p = post_tx_spec [OF tx inv pos]
  have "ledger_inv t" using p tab1 by (auto intro: ledger_inv_cong [OF tab1(1)])
  moreover have "bal ?s = bal s" "bal t = bal s1" using tab tab1 by (auto intro: bal_tables)
  moreover have "already_posted inp ?s = already_posted inp s"
    by (rule already_posted_cong) simp
  moreover have "only_ledger s t"
  proof -
    have "only_ledger s ?s" by (cases s) (simp add: only_ledger_def)
    moreover have "only_ledger ?s s1" using p unfolding only_ledger_def by (cases s, cases s1) simp
    moreover have "only_ledger s1 t" using t unfolding only_ledger_def by (cases s1, cases t) simp
    ultimately show ?thesis by (blast intro: only_ledger_trans)
  qed
  moreover have "next_uuid s \<le> next_uuid t" using p tab1 by simp
  moreover have "ledger_transactions t = ledger_transactions s1"
    using tab1 by (simp add: ledger_tables_def)
  ultimately show ?thesis using p tab tab1 id by (auto simp: post_effect_def)
qed

text \<open>
  The ledger as the other services see it: a call that posts, the balances by account key,
  the invariant, and whether a reference was posted.  The laws are what the services rely on:
  an error moves nothing, a success moves the balances by the lines exactly once per
  reference, and the invariant is kept either way.
\<close>

definition has_reference :: "posting_input \<Rightarrow> bool" where
  "has_reference inp \<longleftrightarrow> post_reference_type inp \<noteq> None \<and> post_reference_type inp \<noteq> Some [] \<and>
     post_reference_id inp \<noteq> None"

definition same_reference :: "posting_input \<Rightarrow> posting_input \<Rightarrow> bool" where
  "same_reference inp inp' \<longleftrightarrow> post_reference_type inp = post_reference_type inp' \<and>
     post_reference_id inp = post_reference_id inp'"

text \<open>The two lines of a move between two accounts of a user, which most services post.\<close>

definition move_lines ::
  "nat option \<Rightarrow> string \<Rightarrow> account_kind \<Rightarrow> account_kind \<Rightarrow> rat \<Rightarrow> posting_line list" where
  "move_lines u asset from_kind to_kind amount =
     [\<lparr>line_user = u, line_asset = asset, line_kind = from_kind, line_direction = DEBIT,
       line_amount = amount\<rparr>,
      \<lparr>line_user = u, line_asset = asset, line_kind = to_kind, line_direction = CREDIT,
       line_amount = amount\<rparr>]"

locale ledger =
  fixes posting :: "posting_input \<Rightarrow> nat option \<Rightarrow> ('s, 'r) svc"
    and inv :: "'s \<Rightarrow> bool"
    and balance_at :: "'s \<Rightarrow> nat option \<Rightarrow> string \<Rightarrow> account_kind \<Rightarrow> rat"
    and posted_before :: "posting_input \<Rightarrow> 's \<Rightarrow> bool"
  assumes error_moves_nothing:
      "posting inp c s = (Inl e, t) \<Longrightarrow> balance_at t = balance_at s \<and>
         posted_before inp' t = posted_before inp' s"
    and error_keeps_inv: "posting inp c s = (Inl e, t) \<Longrightarrow> inv s \<Longrightarrow> inv t"
    and success_keeps_inv: "posting inp c s = (Inr r, t) \<Longrightarrow> inv s \<Longrightarrow> inv t"
    and success_moves:
      "posting inp c s = (Inr r, t) \<Longrightarrow> inv s \<Longrightarrow> balance_at t u as k =
         balance_at s u as k + (if posted_before inp s then 0 else delta (post_lines inp) u as k)"
    and success_marks:
      "posting inp c s = (Inr r, t) \<Longrightarrow> inv s \<Longrightarrow> has_reference inp \<Longrightarrow> posted_before inp t"
    and marks_stay:
      "posting inp c s = (Inr r, t) \<Longrightarrow> inv s \<Longrightarrow> posted_before inp' s \<Longrightarrow> posted_before inp' t"
    and marks_only:
      "posting inp c s = (Inr r, t) \<Longrightarrow> inv s \<Longrightarrow> posted_before inp' t \<Longrightarrow>
         posted_before inp' s \<or> same_reference inp inp'"
    and marks_by_reference:
      "same_reference inp inp' \<Longrightarrow> posted_before inp s = posted_before inp' s"
begin

lemma preserves_posting: "preserves inv (posting inp c)"
proof (rule preservesI)
  fix s assume "inv s"
  obtain r t where rt: "posting inp c s = (r, t)" by (cases "posting inp c s")
  show "inv (snd (posting inp c s))"
    using rt \<open>inv s\<close> by (cases r) (auto intro: error_keeps_inv success_keeps_inv)
qed

lemma replay_moves_nothing:
  assumes "posting inp c s = (Inr r, t)" and "inv s" and "has_reference inp"
    and "same_reference inp inp'" and "posting inp' c' t = (Inr r', u)"
  shows "balance_at u = balance_at t"
proof (intro ext)
  fix us as k
  have "posted_before inp' t"
    using success_marks [OF assms(1-3)] marks_by_reference [OF assms(4)] by simp
  then show "balance_at u us as k = balance_at t us as k"
    using success_moves [OF assms(5) success_keeps_inv [OF assms(1,2)]] by simp
qed

text \<open>Moving an amount between two accounts of one user leaves the user's total alone.\<close>

lemma transfer_moves:
  assumes run: "posting inp c s = (Inr r, t)"
    and "inv s" and "k1 \<noteq> k2" and "\<not> posted_before inp s"
    and lines: "post_lines inp = move_lines u as k1 k2 x"
  shows "balance_at t u as k1 = balance_at s u as k1 - x"
    and "balance_at t u as k2 = balance_at s u as k2 + x"
    and "(u', as', k') \<noteq> (u, as, k1) \<Longrightarrow> (u', as', k') \<noteq> (u, as, k2) \<Longrightarrow>
      balance_at t u' as' k' = balance_at s u' as' k'"
  using success_moves [OF run assms(2)] assms(3,4)
  by (auto simp: lines move_lines_def delta_def line_delta_def signed_amount_def)

text \<open>Retrying on write conflicts is again such a ledger.\<close>

lemma retried_error:
  "postWithRetry n e0 (posting inp c) s = (Inl e, t) \<Longrightarrow>
     balance_at t = balance_at s \<and> posted_before inp' t = posted_before inp' s \<and> (inv s \<longrightarrow> inv t)"
proof (induction n arbitrary: e0 s)
  case 0
  then show ?case by (simp add: throwS_apply)
next
  case (Suc n)
  then obtain e1 s1 where "posting inp c s = (Inl e1, s1)"
    and "s1 = t \<or> postWithRetry n e1 (posting inp c) s1 = (Inl e, t)"
    by (auto simp: catchS_apply throwS_apply split: prod.splits sum.splits if_splits)
  then show ?case
    using Suc.IH error_moves_nothing [of inp c s e1 s1] error_keeps_inv [of inp c s e1 s1] by metis
qed

lemma retried_success:
  "postWithRetry n e0 (posting inp c) s = (Inr r, t) \<Longrightarrow> \<exists>s'. posting inp c s' = (Inr r, t) \<and>
     balance_at s' = balance_at s \<and> (\<forall>inp'. posted_before inp' s' = posted_before inp' s) \<and>
     (inv s \<longrightarrow> inv s')"
proof (induction n arbitrary: e0 s)
  case 0
  then show ?case by (simp add: throwS_apply)
next
  case (Suc n)
  show ?case
  proof (cases "posting inp c s")
    case (Pair r1 s1)
    show ?thesis
    proof (cases r1)
      case (Inl e1)
      then have "postWithRetry n e1 (posting inp c) s1 = (Inr r, t)"
        using Suc.prems Pair by (auto simp: catchS_apply throwS_apply split: if_splits)
      then show ?thesis
        using Suc.IH Pair Inl error_moves_nothing [of inp c s e1 s1]
          error_keeps_inv [of inp c s e1 s1] by metis
    next
      case (Inr x)
      then show ?thesis using Suc.prems Pair by (auto simp: catchS_apply)
    qed
  qed
qed

lemma retried: "ledger (\<lambda>inp c. postWithRetry n e0 (posting inp c)) inv balance_at posted_before"
proof
  fix inp c s r t inp'
  assume run: "postWithRetry n e0 (posting inp c) s = (Inr r, t)" and inv: "inv s"
  obtain s' where s': "posting inp c s' = (Inr r, t)" "balance_at s' = balance_at s"
    "\<forall>inp'. posted_before inp' s' = posted_before inp' s" "inv s'"
    using retried_success [OF run] inv by blast
  show "inv t" using success_keeps_inv s' by blast
  show "balance_at t u as k =
         balance_at s u as k + (if posted_before inp s then 0 else delta (post_lines inp) u as k)"
    for u as k using success_moves [OF s'(1,4)] s' by simp
  show "posted_before inp t" if "has_reference inp" using success_marks [OF s'(1,4) that] .
  show "posted_before inp' t" if "posted_before inp' s" using marks_stay [OF s'(1,4)] that s' by simp
  show "posted_before inp' s \<or> same_reference inp inp'" if "posted_before inp' t"
    using marks_only [OF s'(1,4) that] s' by simp
next
  show "posted_before inp s = posted_before inp' s" if "same_reference inp inp'" for inp inp' s
    using marks_by_reference [OF that] .
qed (auto dest: retried_error)

end

interpretation posting: ledger "post D" ledger_inv bal already_posted for D
proof
  fix inp c s e t inp'
  assume "post D inp c s = (Inl e, t)"
  then obtain cs where t: "t = s\<lparr>conflicts := cs\<rparr>" using post_Inl by blast
  then have tab: "ledger_tables t = ledger_tables s" by (simp add: ledger_tables_def)
  then show "bal t = bal s \<and> already_posted inp' t = already_posted inp' s"
    using bal_tables [OF tab] already_posted_cong [of t s inp'] by (simp add: t)
  show "ledger_inv t" if "ledger_inv s" by (rule ledger_inv_cong [OF tab _ that]) (simp add: t)
next
  fix inp c s r t inp'
  assume run: "post D inp c s = (Inr r, t)" and inv: "ledger_inv s"
  note p = post_spec [OF run inv]
  show "ledger_inv t" using p by simp
  show "bal t u as k =
         bal s u as k + (if already_posted inp s then 0 else delta (post_lines inp) u as k)" for u as k
    using p by (simp add: post_effect_def)
  show "already_posted inp t" if "has_reference inp"
    using p that by (cases "already_posted inp s")
      (auto simp: already_posted_def has_reference_def has_ref_def)
  show "already_posted inp' t" if "already_posted inp' s"
    using p that by (auto simp: already_posted_def)
  show "already_posted inp' s \<or> same_reference inp inp'" if "already_posted inp' t"
    using p that by (auto simp: already_posted_def same_reference_def has_ref_def)
next
  show "already_posted inp s = already_posted inp' s" if "same_reference inp inp'" for inp inp' s
    using that by (simp add: already_posted_def same_reference_def)
qed

interpretation retried: ledger "\<lambda>inp c. retry_post (post D inp c)" ledger_inv bal already_posted for D
  by (rule posting.retried)

section \<open>Reading the ledger\<close>

definition walletDto :: "rounding \<Rightarrow> string \<Rightarrow> rat \<Rightarrow> rat \<Rightarrow> wallet_dto" where
  "walletDto D asset available locked =
     \<lparr>wallet_asset = asset, wallet_available = available, wallet_locked = locked,
      wallet_total = dadd D available locked\<rparr>"

definition listWalletAccounts :: "nat \<Rightarrow> db \<Rightarrow> account list" where
  "listWalletAccounts userId s =
     sort_key acc_asset
       (filter (\<lambda>a. acc_user a = Some userId \<and> acc_kind a \<in> {USER_AVAILABLE, USER_LOCKED})
         (accounts s))"

definition getWalletAccounts :: "nat \<Rightarrow> string \<Rightarrow> db \<Rightarrow> account list" where
  "getWalletAccounts userId asset s =
     filter (\<lambda>a. acc_user a = Some userId \<and> acc_asset a = asset \<and>
                 acc_kind a \<in> {USER_AVAILABLE, USER_LOCKED}) (accounts s)"

text \<open>The \<open>byAsset\<close> map: (available, locked) per asset, in order of first appearance.\<close>

fun wallets_by_asset ::
  "rounding \<Rightarrow> db \<Rightarrow> account list \<Rightarrow> (string \<times> rat \<times> rat) list \<Rightarrow> (string \<times> rat \<times> rat) list" where
  "wallets_by_asset D s [] byAsset = byAsset"
| "wallets_by_asset D s (a # as) byAsset =
     (let item = (case map_of byAsset (acc_asset a) of None \<Rightarrow> (0, 0) | Some i \<Rightarrow> i);
          b = bal_of s (acc_id a);
          item' = (if acc_kind a = USER_AVAILABLE then dadd D (fst item) b else fst item,
                   if acc_kind a = USER_LOCKED then dadd D (snd item) b else snd item)
      in wallets_by_asset D s as (AList.update (acc_asset a) item' byAsset))"

definition listWallets :: "rounding \<Rightarrow> nat \<Rightarrow> (db, wallet_dto list) svc" where
  "listWallets D userId = readS (\<lambda>s.
     map (\<lambda>(asset, available, locked). walletDto D asset available locked)
       (wallets_by_asset D s (listWalletAccounts userId s) []))"

definition sum_balances :: "rounding \<Rightarrow> db \<Rightarrow> account_kind \<Rightarrow> account list \<Rightarrow> rat" where
  "sum_balances D s k as =
     foldl (\<lambda>sum a. dadd D sum (bal_of s (acc_id a))) 0 (filter (\<lambda>a. acc_kind a = k) as)"

definition getWallet :: "rounding \<Rightarrow> nat \<Rightarrow> string \<Rightarrow> (db, wallet_dto) svc" where
  "getWallet D userId asset =
     bindS (readS (getWalletAccounts userId asset)) (\<lambda>as.
     bindS (requireS (as \<noteq> []) not_found) (\<lambda>_.
     readS (\<lambda>s. walletDto D asset (sum_balances D s USER_AVAILABLE as)
                  (sum_balances D s USER_LOCKED as))))"

definition getInrWallet :: "rounding \<Rightarrow> nat \<Rightarrow> (db, wallet_dto) svc" where
  "getInrWallet D userId =
     bindS (readS (getWalletAccounts userId ''INR'')) (\<lambda>as.
     readS (\<lambda>s. walletDto D ''INR'' (sum_balances D s USER_AVAILABLE as)
                  (sum_balances D s USER_LOCKED as)))"

record ledger_entry_dto =
  led_id :: nat
  led_txn :: nat
  led_direction :: entry_direction
  led_amount :: rat
  led_asset :: string
  led_kind :: string
  led_created :: nat

definition ledgerEntryDto :: "db \<Rightarrow> ledger_entry \<Rightarrow> ledger_entry_dto" where
  "ledgerEntryDto s e =
     \<lparr>led_id = entry_id e, led_txn = entry_txn e, led_direction = entry_direction e,
      led_amount = entry_amount e, led_asset = entry_asset e,
      led_kind = (case find (\<lambda>t. txn_id t = entry_txn e) (ledger_transactions s) of
                    None \<Rightarrow> [] | Some t \<Rightarrow> txn_kind t),
      led_created = entry_created e\<rparr>"

text \<open>The rows of \<open>ledgerEntry.findMany({ where: { asset, account: { userId } } })\<close>.\<close>

definition user_entries :: "nat \<Rightarrow> string \<Rightarrow> db \<Rightarrow> ledger_entry list" where
  "user_entries userId asset s =
     filter (\<lambda>e. entry_asset e = asset \<and>
       (\<exists>a \<in> set (accounts s). acc_id a = entry_account e \<and> acc_user a = Some userId))
       (ledger_entries s)"

definition listLedgerEntries_rows ::
  "nat \<Rightarrow> string \<Rightarrow> nat \<Rightarrow> nat option \<Rightarrow> db \<Rightarrow> ledger_entry list \<times> nat option" where
  "listLedgerEntries_rows userId asset limit cursor s =
     page_behind entry_id (find_page entry_id (user_entries userId asset s) cursor limit) limit"

definition listLedgerEntries ::
  "nat \<Rightarrow> string \<Rightarrow> nat option \<Rightarrow> nat \<Rightarrow> (db, ledger_entry_dto list \<times> nat option) svc" where
  "listLedgerEntries userId asset cursor limit = readS (\<lambda>s.
     let (page, nextCursor) = listLedgerEntries_rows userId asset limit cursor s
     in (map (ledgerEntryDto s) page, nextCursor))"

record inr_transaction_dto =
  it_id :: nat
  it_type :: inr_txn_type
  it_amount :: rat
  it_fee :: rat
  it_status :: inr_txn_status
  it_created :: nat

definition inrTransactionDto :: "inr_transaction \<Rightarrow> inr_transaction_dto" where
  "inrTransactionDto r = \<lparr>it_id = inr_id r, it_type = inr_type r, it_amount = inr_amount r,
     it_fee = inr_fee r, it_status = inr_status r, it_created = inr_created r\<rparr>"

text \<open>Here the rows are ordered by creation time while the cursor is an identifier.\<close>

definition listInrTransactions ::
  "nat \<Rightarrow> inr_txn_type option \<Rightarrow> nat option \<Rightarrow> nat \<Rightarrow>
    (db, inr_transaction_dto list \<times> nat option) svc" where
  "listInrTransactions userId type cursor limit = readS (\<lambda>s.
     let rows = take (limit + 1) (rev (sort_key inr_created
           (filter (\<lambda>r. inr_user r = userId \<and> (type = None \<or> type = Some (inr_type r)) \<and>
                        before_cursor inr_id cursor r) (inr_transactions s))));
         (page, nextCursor) = page_behind inr_id rows limit
     in (map inrTransactionDto page, nextCursor))"

record reconciliation =
  rec_account :: nat
  rec_projection :: rat
  rec_entries :: rat
  rec_diff :: rat
  rec_balanced :: bool

definition entriesBalanceForAccount :: "rounding \<Rightarrow> nat \<Rightarrow> db \<Rightarrow> rat" where
  "entriesBalanceForAccount D i s =
     foldl (\<lambda>sum e. if entry_direction e = CREDIT then dadd D sum (entry_amount e)
                    else dsub D sum (entry_amount e)) 0
       (filter (\<lambda>e. entry_account e = i) (ledger_entries s))"

definition reconcileAccount :: "rounding \<Rightarrow> nat \<Rightarrow> (db, reconciliation) svc" where
  "reconcileAccount D accountId = readS (\<lambda>s.
     let projection = bal_of s accountId; entries = entriesBalanceForAccount D accountId s;
         diff = dsub D projection entries
     in \<lparr>rec_account = accountId, rec_projection = projection, rec_entries = entries,
         rec_diff = diff, rec_balanced = (diff = 0)\<rparr>)"

section \<open>Conservation\<close>

lemma sum_accounts_entries:
  assumes "distinct (map acc_id as)"
    and "\<forall>e \<in> set es. \<exists>a \<in> set as. acc_id a = entry_account e \<and> acc_asset a = entry_asset e"
  shows "sum_list (map (\<lambda>a. entries_sum es (acc_id a)) (filter (\<lambda>a. acc_asset a = asset) as)) =
    sum_list (map (\<lambda>e. signed_amount (entry_direction e) (entry_amount e))
      (filter (\<lambda>e. entry_asset e = asset) es))"
  using assms(2)
proof (induction es)
  case Nil
  then show ?case by (simp add: entries_sum_def)
next
  case (Cons e es)
  let ?x = "signed_amount (entry_direction e) (entry_amount e)"
  obtain a where a: "a \<in> set as" "acc_id a = entry_account e" "acc_asset a = entry_asset e"
    using Cons.prems by auto
  have uniq: "b = a" if "b \<in> set as" "acc_id b = entry_account e" for b
    using that a assms(1) by (auto simp: distinct_map inj_on_def)
  have one: "sum_list (map (\<lambda>b. if acc_id b = entry_account e then ?x else 0)
      (filter (\<lambda>b. acc_asset b = asset) bs)) =
      (if a \<in> set bs \<and> entry_asset e = asset then ?x else 0)"
    if "set bs \<subseteq> set as" "distinct bs" for bs
    using that
  proof (induction bs)
    case (Cons b bs)
    then have ih: "sum_list (map (\<lambda>b. if acc_id b = entry_account e then ?x else 0)
        (filter (\<lambda>b. acc_asset b = asset) bs)) =
        (if a \<in> set bs \<and> entry_asset e = asset then ?x else 0)" by simp
    have "acc_id b = entry_account e \<longleftrightarrow> b = a" using uniq a(2) Cons.prems by auto
    then show ?case using Cons.prems(2) a(3) by (simp only: list.map filter.simps) (auto simp: ih)
  qed simp
  have "distinct as" using assms(1) by (simp add: distinct_map)
  have "entries_sum (e # es) i = (if i = entry_account e then ?x else 0) + entries_sum es i" for i
    by (simp add: entries_sum_def)
  then have "sum_list (map (\<lambda>a. entries_sum (e # es) (acc_id a)) (filter (\<lambda>a. acc_asset a = asset) as))
      = sum_list (map (\<lambda>b. if acc_id b = entry_account e then ?x else 0)
          (filter (\<lambda>b. acc_asset b = asset) as)) +
        sum_list (map (\<lambda>a. entries_sum es (acc_id a)) (filter (\<lambda>a. acc_asset a = asset) as))"
    by (simp add: sum_list_addf)
  then show ?case using Cons one [OF order_refl \<open>distinct as\<close>] a(1) by auto
qed

lemma sum_txns_entries:
  assumes "distinct ts" and "\<forall>e \<in> set es. entry_txn e \<in> set ts"
  shows "sum_list (map (\<lambda>t. txn_net es t asset) ts) =
    sum_list (map (\<lambda>e. signed_amount (entry_direction e) (entry_amount e))
      (filter (\<lambda>e. entry_asset e = asset) es))"
  using assms(2)
proof (induction es)
  case Nil
  then show ?case by (simp add: txn_net_def)
next
  case (Cons e es)
  let ?x = "if entry_asset e = asset then signed_amount (entry_direction e) (entry_amount e) else 0"
  have one: "sum_list (map (\<lambda>t. if t = entry_txn e then ?x else 0) us) =
      (if entry_txn e \<in> set us then ?x else 0)" if "distinct us" for us
    using that by (induction us) auto
  have "txn_net (e # es) t asset = (if t = entry_txn e then ?x else 0) + txn_net es t asset" for t
    by (simp add: txn_net_def)
  then have "sum_list (map (\<lambda>t. txn_net (e # es) t asset) ts) =
      sum_list (map (\<lambda>t. if t = entry_txn e then ?x else 0) ts) +
      sum_list (map (\<lambda>t. txn_net es t asset) ts)"
    by (simp add: sum_list_addf)
  then show ?case using Cons one [OF assms(1)] by simp
qed

text \<open>The money of an asset held by all accounts together, users and system.\<close>

definition asset_total :: "db \<Rightarrow> string \<Rightarrow> rat" where
  "asset_total s asset =
     sum_list (map (\<lambda>a. bal_of s (acc_id a)) (filter (\<lambda>a. acc_asset a = asset) (accounts s)))"

lemma asset_total_0:
  assumes "ledger_inv s" shows "asset_total s asset = 0"
proof -
  have inv: "accounts_inv s" "projection_inv s" "txns_inv s"
    using assms by (auto simp: ledger_inv_def)
  have "asset_total s asset =
      sum_list (map (\<lambda>a. entries_sum (ledger_entries s) (acc_id a))
        (filter (\<lambda>a. acc_asset a = asset) (accounts s)))"
    using inv(2) by (simp add: asset_total_def projection_inv_def)
  also have "\<dots> = sum_list (map (\<lambda>e. signed_amount (entry_direction e) (entry_amount e))
      (filter (\<lambda>e. entry_asset e = asset) (ledger_entries s)))"
    by (rule sum_accounts_entries) (use inv in \<open>auto simp: accounts_inv_def txns_inv_def\<close>)
  also have "\<dots> = sum_list (map (\<lambda>t. txn_net (ledger_entries s) t asset)
      (map txn_id (ledger_transactions s)))"
    by (rule sum_txns_entries [symmetric]) (use inv in \<open>auto simp: txns_inv_def\<close>)
  also have "\<dots> = 0"
    using inv(3) by (intro sum_list_0 [THEN trans [rotated]] arg_cong [where f = sum_list])
      (simp add: txns_inv_def comp_def)
  finally show ?thesis .
qed

section \<open>Exact sums\<close>

lemma foldl_dadd_exact:
  assumes "decimal_context D" and "grid sc a" and "\<forall>x \<in> set xs. grid sc x"
    and "(\<bar>a\<bar> + sum_list (map abs xs)) * 10 ^ sc < 10 ^ 20"
  shows "foldl (dadd D) a xs = a + sum_list xs"
  using assms(2-4)
proof (induction xs arbitrary: a)
  case Nil
  then show ?case by simp
next
  case (Cons x xs)
  have g: "grid sc (a + x)" using Cons.prems by (auto intro: grid_add)
  have abs: "\<bar>a + x\<bar> \<le> \<bar>a\<bar> + \<bar>x\<bar>" by (rule abs_triangle_ineq)
  have pos: "0 \<le> sum_list (map abs xs)" by (rule sum_list_nonneg) auto
  have bnd: "(\<bar>a + x\<bar> + sum_list (map abs xs)) * 10 ^ sc < 10 ^ 20"
    by (rule scaled_less [OF Cons.prems(3)]) (use abs in simp)
  have "\<bar>a + x\<bar> * 10 ^ sc < 10 ^ 20"
    by (rule scaled_less [OF bnd]) (use pos in simp)
  then have "dadd D a x = a + x"
    using assms(1) g by (simp add: dadd_def decimal_exact [of D sc] fits20_def)
  then show ?case using Cons.IH [OF g _ bnd] Cons.prems(2) by simp
qed

definition amounts_fit :: "nat \<Rightarrow> rat list \<Rightarrow> bool" where
  "amounts_fit sc xs \<longleftrightarrow> (\<forall>x \<in> set xs. grid sc x) \<and> sum_list (map abs xs) * 10 ^ sc < 10 ^ 20"

lemma entriesBalance_exact:
  assumes "decimal_context D"
    and "amounts_fit sc (map entry_amount (filter (\<lambda>e. entry_account e = i) (ledger_entries s)))"
  shows "entriesBalanceForAccount D i s = entries_sum (ledger_entries s) i"
proof -
  let ?es = "filter (\<lambda>e. entry_account e = i) (ledger_entries s)"
  let ?xs = "map (\<lambda>e. signed_amount (entry_direction e) (entry_amount e)) ?es"
  have fold: "foldl (\<lambda>sum e. if entry_direction e = CREDIT then dadd D sum (entry_amount e)
                    else dsub D sum (entry_amount e)) a es =
      foldl (dadd D) a (map (\<lambda>e. signed_amount (entry_direction e) (entry_amount e)) es)" for a es
    by (induction es arbitrary: a) (auto simp: signed_amount_def dadd_def dsub_def)
  have "map abs ?xs = map abs (map entry_amount ?es)"
    by (simp add: signed_amount_def)
  then have "sum_list (map abs ?xs) * 10 ^ sc < 10 ^ 20"
    using assms(2) unfolding amounts_fit_def by (simp only:)
  moreover have "\<forall>x \<in> set ?xs. grid sc x"
    using assms(2) by (auto simp: amounts_fit_def signed_amount_def intro: grid_minus)
  ultimately have "foldl (dadd D) 0 ?xs = 0 + sum_list ?xs"
    using assms(1) by (intro foldl_dadd_exact [of D sc]) simp_all
  then show ?thesis
    by (simp add: entriesBalanceForAccount_def fold entries_sum_def)
qed

section \<open>The balance check decides balance\<close>

definition tot_at :: "(string \<times> rat) list \<Rightarrow> string \<Rightarrow> rat" where
  "tot_at tot a = (case map_of tot a of None \<Rightarrow> 0 | Some t \<Rightarrow> t)"

lemma posting_totals_exact:
  assumes "decimal_context D" and "\<forall>l \<in> set ls. 0 < line_amount l"
    and "\<forall>l \<in> set ls. grid sc (line_amount l)" and "\<forall>a. grid sc (tot_at tot a)"
    and "\<forall>a. (\<bar>tot_at tot a\<bar> + sum_list (map (\<lambda>l. \<bar>line_amount l\<bar>) ls)) * 10 ^ sc < 10 ^ 20"
    and "distinct (map fst tot)"
  shows "\<exists>tot'. posting_totals D ls tot = Inr tot' \<and> distinct (map fst tot') \<and>
    fst ` set tot' = fst ` set tot \<union> line_asset ` set ls \<and>
    (\<forall>a. tot_at tot' a = tot_at tot a + net ls a)"
  using assms(2-6)
proof (induction ls arbitrary: tot)
  case Nil
  then show ?case by (simp add: net_def)
next
  case (Cons l ls)
  let ?a = "line_asset l"
  let ?x = "signed_amount (line_direction l) (line_amount l)"
  let ?tot = "AList.update ?a (tot_at tot ?a + ?x) tot"
  let ?rest = "sum_list (map (\<lambda>l. \<bar>line_amount l\<bar>) ls)"
  have absx: "\<bar>?x\<bar> = \<bar>line_amount l\<bar>" by (simp add: signed_amount_def)
  have pos: "0 \<le> ?rest" by (rule sum_list_nonneg) auto
  have g: "grid sc (tot_at tot ?a + ?x)"
    using Cons.prems(2,3) by (auto simp: signed_amount_def intro: grid_add grid_diff)
  have tri: "\<bar>tot_at tot ?a + ?x\<bar> \<le> \<bar>tot_at tot ?a\<bar> + \<bar>line_amount l\<bar>"
    using abs_triangle_ineq [of "tot_at tot ?a" ?x] absx by simp
  have old: "(\<bar>tot_at tot ?a\<bar> + (\<bar>line_amount l\<bar> + ?rest)) * 10 ^ sc < 10 ^ 20"
    using Cons.prems(4) by (simp add: add.assoc)
  have bnd: "(\<bar>tot_at tot ?a + ?x\<bar> + ?rest) * 10 ^ sc < 10 ^ 20"
    by (rule scaled_less [OF old]) (use tri in simp)
  have "\<bar>tot_at tot ?a + ?x\<bar> * 10 ^ sc < 10 ^ 20"
    by (rule scaled_less [OF bnd]) (use pos in simp)
  then have D: "D (tot_at tot ?a + ?x) = tot_at tot ?a + ?x"
    using assms(1) g by (simp add: decimal_exact [of D sc] fits20_def)
  have at: "tot_at ?tot b = (if b = ?a then tot_at tot ?a + ?x else tot_at tot b)" for b
    by (simp add: tot_at_def update_conv)
  have step: "posting_totals D (l # ls) tot = posting_totals D ls ?tot"
    using D Cons.prems(1)
    by (auto simp: Let_def dadd_def dsub_def signed_amount_def tot_at_def)
  have "\<exists>tot'. posting_totals D ls ?tot = Inr tot' \<and> distinct (map fst tot') \<and>
    fst ` set tot' = fst ` set ?tot \<union> line_asset ` set ls \<and>
    (\<forall>a. tot_at tot' a = tot_at ?tot a + net ls a)"
  proof (rule Cons.IH)
    show "\<forall>b. (\<bar>tot_at ?tot b\<bar> + ?rest) * 10 ^ sc < 10 ^ 20"
    proof
      fix b show "(\<bar>tot_at ?tot b\<bar> + ?rest) * 10 ^ sc < 10 ^ 20"
      proof (cases "b = ?a")
        case True then show ?thesis using bnd by (simp add: at)
      next
        case False
        have "(\<bar>tot_at tot b\<bar> + (\<bar>line_amount l\<bar> + ?rest)) * 10 ^ sc < 10 ^ 20"
          using Cons.prems(4) by (simp add: add.assoc)
        then have "(\<bar>tot_at tot b\<bar> + ?rest) * 10 ^ sc < 10 ^ 20"
          by (rule scaled_less) simp
        then show ?thesis using False by (simp add: at)
      qed
    qed
    show "\<forall>b. grid sc (tot_at ?tot b)" using Cons.prems(3) g by (simp add: at)
  qed (use Cons.prems in \<open>auto simp: distinct_update\<close>)
  then obtain tot' where t: "posting_totals D ls ?tot = Inr tot'" "distinct (map fst tot')"
    "fst ` set tot' = fst ` set ?tot \<union> line_asset ` set ls"
    "\<forall>a. tot_at tot' a = tot_at ?tot a + net ls a" by blast
  moreover have "fst ` set ?tot = insert ?a (fst ` set tot)" by (simp add: dom_update)
  moreover have "tot_at ?tot b + net ls b = tot_at tot b + net (l # ls) b" for b
    by (simp add: at net_def)
  ultimately show ?case using step by (intro exI [of _ tot']) auto
qed

lemma assertPostingBalanced_iff:
  assumes "decimal_context D" and "amounts_fit sc (map line_amount (post_lines inp))"
  shows "assertPostingBalanced D inp s = (Inr (), s) \<longleftrightarrow>
    2 \<le> length (post_lines inp) \<and> (\<forall>l \<in> set (post_lines inp). 0 < line_amount l) \<and>
    (\<forall>a. net (post_lines inp) a = 0)"
proof (cases "\<forall>l \<in> set (post_lines inp). 0 < line_amount l")
  case False
  then show ?thesis by (auto dest!: assertPostingBalanced_spec)
next
  case True
  let ?ls = "post_lines inp"
  obtain tot where t: "posting_totals D ?ls [] = Inr tot" "distinct (map fst tot)"
    "fst ` set tot = line_asset ` set ?ls" "\<forall>a. tot_at tot a = net ?ls a"
    using posting_totals_exact [OF assms(1) True, of sc "[]"] assms(2)
    by (auto simp: amounts_fit_def tot_at_def comp_def)
  have at: "tot_at tot a = x" if "(a, x) \<in> set tot" for a x
    using that t(2) by (simp add: tot_at_def)
  have "net ?ls a = 0" if "a \<notin> line_asset ` set ?ls" for a
    using that by (auto simp: net_def filter_empty_conv image_iff
        intro!: arg_cong [where f = sum_list, of _ "[]", simplified])
  then have "(\<forall>(a, x) \<in> set tot. x = 0) \<longleftrightarrow> (\<forall>a. net ?ls a = 0)"
    using t(3,4) at by (fastforce simp: image_iff)
  then show ?thesis using True t(1)
    by (auto simp: assertPostingBalanced_def svc_simps)
qed


section \<open>A funded, balanced posting goes through\<close>

definition debits :: "posting_line list \<Rightarrow> nat option \<Rightarrow> string \<Rightarrow> account_kind \<Rightarrow> rat" where
  "debits ls u as k = sum_list (map (\<lambda>l. if line_user l = u \<and> line_asset l = as \<and>
     line_kind l = k \<and> line_direction l = DEBIT then line_amount l else 0) ls)"

definition well_addressed :: "posting_line \<Rightarrow> bool" where
  "well_addressed l \<longleftrightarrow> (isUserAccount (line_kind l) \<longleftrightarrow> line_user l \<noteq> None)"

lemma findOrCreateAccount_total:
  assumes "isUserAccount k \<longleftrightarrow> u \<noteq> None"
  shows "\<exists>a t. findOrCreateAccount u as k s = (Inr a, t)"
  using assms
  by (auto simp: findOrCreateAccount_def svc_simps fresh_uuid_def Let_def split: option.splits)

lemma post_line_total:
  assumes "well_addressed l" and inv: "accounts_inv s"
    and funds: "isUserAccount (line_kind l) \<Longrightarrow> line_direction l = DEBIT \<Longrightarrow>
      line_amount l \<le> bal s (line_user l) (line_asset l) (line_kind l)"
  shows "\<exists>r t. post_line l s = (Inr r, t)"
proof -
  obtain a s1 where a: "findOrCreateAccount (line_user l) (line_asset l) (line_kind l) s = (Inr a, s1)"
    using findOrCreateAccount_total assms(1) unfolding well_addressed_def by blast
  note f = findOrCreateAccount_spec [OF a inv]
  obtain r2 s2 where e: "ensureBalance (acc_id a) s1 = (r2, s2)" by (cases "ensureBalance (acc_id a) s1")
  have r2: "r2 = Inr ()" using e by (simp add: ensureBalance_def svc_simps)
  have e': "bal_of s2 = bal_of s1 \<and> balances s2 (acc_id a) \<noteq> None"
    using ensureBalance_spec [OF e] f by auto
  then obtain b where b: "balances s2 (acc_id a) = Some b" by auto
  have bb: "balance b = bal_of s (acc_id a)"
  proof -
    have "bal_of s2 (acc_id a) = balance b" using b by (simp add: bal_of_def)
    moreover have "bal_of s1 = bal_of s" using f by (auto simp: bal_of_def fun_eq_iff)
    ultimately show ?thesis using e' by simp
  qed
  have "bal s1 (line_user l) (line_asset l) (line_kind l) = bal_of s1 (acc_id a)"
    by (rule bal_eq) (use f in auto)
  moreover have "bal s (line_user l) (line_asset l) (line_kind l) \<le> bal_of s (acc_id a)"
  proof (cases "a \<in> set (accounts s)")
    case True then show ?thesis using bal_eq [OF inv True] f by simp
  next
    case False
    then have "accounts s1 = accounts s @ [a]" "acc_id a = next_uuid s" using f by auto
    then have "acc_key a \<notin> acc_key ` set (accounts s)" "bal_of s (acc_id a) = 0"
      using f inv by (auto simp: accounts_inv_def bal_of_def split: option.split)
    then show ?thesis using f by (simp add: bal_missing)
  qed
  ultimately have funds': "isSystemAccount (line_kind l) \<or> line_direction l = CREDIT \<or>
      line_amount l \<le> balance b"
    using funds bb by (cases "line_direction l") (auto simp: isSystemAccount_def)
  show ?thesis
    using assms(1) a e r2 b funds'
    by (cases "line_direction l") (auto simp: post_line_def svc_simps creditBalance_def
        debitBalance_def well_addressed_def isSystemAccount_def)
qed

lemma post_lines_total:
  assumes "\<forall>l \<in> set ls. well_addressed l \<and> 0 < line_amount l" and "accounts_inv s"
    and "\<forall>u as k. isUserAccount k \<longrightarrow> debits ls u as k = 0 \<or> debits ls u as k \<le> bal s u as k"
  shows "\<exists>rs t. mapS post_line ls s = (Inr rs, t)"
  using assms
proof (induction ls arbitrary: s)
  case Nil
  then show ?case by (simp add: returnS_apply)
next
  case (Cons l ls)
  have nonneg: "0 \<le> debits ls u as k" for u as k
    using Cons.prems(1) by (auto simp: debits_def less_imp_le intro!: sum_list_nonneg)
  have step: "debits (l # ls) u as k = (if line_user l = u \<and> line_asset l = as \<and>
     line_kind l = k \<and> line_direction l = DEBIT then line_amount l else 0) + debits ls u as k" for u as k
    by (simp add: debits_def)
  have "line_amount l \<le> bal s (line_user l) (line_asset l) (line_kind l)"
    if "isUserAccount (line_kind l)" "line_direction l = DEBIT"
    using Cons.prems(3) [rule_format, OF that(1), of "line_user l" "line_asset l"]
      nonneg [of "line_user l" "line_asset l" "line_kind l"] Cons.prems(1) that(2)
    by (auto simp: step)
  then obtain r t where r: "post_line l s = (Inr r, t)"
    using post_line_total [of l s] Cons.prems(1,2) by auto
  have inv: "accounts_inv t" using post_line_spec [OF r Cons.prems(2)] by blast
  have "debits ls u as k = 0 \<or> debits ls u as k \<le> bal t u as k" if "isUserAccount k" for u as k
    using Cons.prems(3) [rule_format, OF that, of u as] nonneg [of u as k] Cons.prems(1)
    by (cases "line_direction l")
      (auto simp: step post_line_bal [OF r Cons.prems(2)] line_delta_def signed_amount_def split: if_splits)
  then obtain rs u where "mapS post_line ls t = (Inr rs, u)"
    using Cons.IH [of t] Cons.prems(1) inv by auto
  then show ?case using r by (simp add: bindS_apply returnS_apply)
qed

section \<open>Whole postings\<close>

text \<open>
  The accounts a posting debits can pay for it: no line of a user account takes out more than
  the account held before.
\<close>

definition covered :: "posting_line list \<Rightarrow> db \<Rightarrow> bool" where
  "covered ls s \<longleftrightarrow> (\<forall>u as k. isUserAccount k \<longrightarrow>
     debits ls u as k = 0 \<or> debits ls u as k \<le> bal s u as k)"

definition balanced_lines :: "nat \<Rightarrow> posting_line list \<Rightarrow> bool" where
  "balanced_lines sc ls \<longleftrightarrow> 2 \<le> length ls \<and> (\<forall>l \<in> set ls. well_addressed l \<and> 0 < line_amount l) \<and>
     (\<forall>a. net ls a = 0) \<and> amounts_fit sc (map line_amount ls)"

lemma assertPostingBalanced_balanced:
  "decimal_context D \<Longrightarrow> balanced_lines sc (post_lines inp) \<Longrightarrow>
     assertPostingBalanced D inp s = (Inr (), s)"
  using assertPostingBalanced_iff [of D sc inp s] by (simp add: balanced_lines_def)

lemma createLedgerTransaction_total:
  assumes "\<forall>l \<in> set (map fst rs). 0 < line_amount l" and "\<forall>a. net (map fst rs) a = 0"
    and "next_uuid s \<notin> entry_txn ` set (ledger_entries s)"
  shows "\<exists>txn t. createLedgerTransaction inp rs s = (Inr txn, t)"
proof -
  have "ledger_entries_balanced (ledger_entries s @
      make_entries n (next_uuid s) c rs) (next_uuid s)" for n c
    using assms(2,3)
    by (auto simp: ledger_entries_balanced_def txn_net_append make_entries_net txn_net_outside)
  then show ?thesis using assms(1)
    by (auto simp: createLedgerTransaction_def fresh_uuid_def svc_simps Let_def split_beta)
qed

lemma post_tx_total:
  assumes lines: "balanced_lines sc (post_lines inp)" and inv: "ledger_inv s"
    and funds: "covered (post_lines inp) s"
  shows "\<exists>txn t. post_tx inp s = (Inr txn, t)"
proof -
  obtain ex where ex: "findExistingPosting (post_reference_type inp) (post_reference_id inp) s
      = (Inr ex, s)" using findExistingPosting_total by blast
  show ?thesis
  proof (cases ex)
    case (Some x)
    then show ?thesis using ex by (simp add: post_tx_def svc_simps)
  next
    case None
    have acc: "accounts_inv s" and tx: "txns_inv s" using inv by (simp_all add: ledger_inv_def)
    obtain rs s1 where rs: "mapS post_line (post_lines inp) s = (Inr rs, s1)"
      using post_lines_total [OF _ acc, of "post_lines inp"] lines funds
      unfolding balanced_lines_def covered_def by blast
    note l = post_lines_spec [OF rs acc]
    have e: "ledger_entries s1 = ledger_entries s" "next_uuid s \<le> next_uuid s1"
      using l same_but_accounts_simps by auto
    have "entry_txn e < next_uuid s" if "e \<in> set (ledger_entries s)" for e
      using tx that unfolding txns_inv_def by force
    then have "next_uuid s1 \<notin> entry_txn ` set (ledger_entries s1)"
      using e by force
    then obtain txn t where "createLedgerTransaction inp rs s1 = (Inr txn, t)"
      using createLedgerTransaction_total [of rs s1 inp] l lines unfolding balanced_lines_def by metis
    then show ?thesis using ex None rs by (simp add: post_tx_def svc_simps)
  qed
qed

lemma post_total:
  assumes "decimal_context D" and "balanced_lines sc (post_lines inp)" and "ledger_inv s"
    and "covered (post_lines inp) s" and "conflicts s = [] \<or> \<not> hd (conflicts s)"
  shows "\<exists>r t. post D inp c s = (Inr r, t)"
proof -
  let ?s = "s\<lparr>conflicts := tl (conflicts s)\<rparr>"
  have inv: "ledger_inv ?s"
    by (rule ledger_inv_cong [OF _ _ assms(3)]) (simp_all add: ledger_tables_def)
  have "bal ?s = bal s" by (rule bal_tables) (simp add: ledger_tables_def)
  then have cov: "covered (post_lines inp) ?s" using assms(4) by (simp add: covered_def)
  obtain txn t where "post_tx inp ?s = (Inr txn, t)"
    using post_tx_total [OF assms(2) inv cov] by blast
  then have "serializable_tx (post_tx inp) s = (Inr txn, t)"
    using assms(5)
    by (cases "conflicts s") (auto simp: serializable_tx_def svc_simps conflicts_self)
  then show ?thesis using assertPostingBalanced_balanced [OF assms(1,2)]
    by (simp add: post_def svc_simps recordAudit_def)
qed

section \<open>Retrying\<close>

lemma post_conflict:
  assumes "assertPostingBalanced D inp s = (Inr (), s)" and "conflicts s = True # cs"
  shows "post D inp c s = (Inl (PrismaError ''P2034''), s\<lparr>conflicts := cs\<rparr>)"
  using assms by (simp add: post_def svc_simps serializable_tx_def)

lemma assertPostingBalanced_state:
  "assertPostingBalanced D inp s = (Inr (), s) \<Longrightarrow>
     assertPostingBalanced D inp t = (Inr (), t)"
  by (auto simp: assertPostingBalanced_def svc_simps split: sum.splits if_splits)

lemma retry_conflicts:
  assumes "assertPostingBalanced D inp s = (Inr (), s)"
    and "conflicts s = replicate k True @ cs" and "k \<le> n" 
  shows "postWithRetry n e0 (post D inp c) s =
    postWithRetry (n - k) (if k = 0 then e0 else PrismaError ''P2034'') (post D inp c)
      (s\<lparr>conflicts := cs\<rparr>)"
  using assms
proof (induction k arbitrary: n e0 s)
  case 0
  then show ?case by (simp add: conflicts_self)
next
  case (Suc k)
  then obtain m where n: "n = Suc m" by (cases n) auto
  let ?s = "s\<lparr>conflicts := replicate k True @ cs\<rparr>"
  have "post D inp c s = (Inl (PrismaError ''P2034''), ?s)"
    by (rule post_conflict) (use Suc.prems in auto)
  then have "postWithRetry n e0 (post D inp c) s =
      postWithRetry m (PrismaError ''P2034'') (post D inp c) ?s"
    by (simp add: n catchS_apply)
  also have "\<dots> = postWithRetry (m - k) (PrismaError ''P2034'') (post D inp c) (s\<lparr>conflicts := cs\<rparr>)"
    using Suc.IH [of ?s m "PrismaError ''P2034''"] Suc.prems
      assertPostingBalanced_state [OF Suc.prems(1)] n by simp
  finally show ?case by (simp add: n)
qed

section \<open>A small exchange to evaluate on\<close>

lemmas ledger_code [code] =
  fun_cong [OF post_def, unfolded run_code] fun_cong [OF post_tx_def, unfolded run_code]
  fun_cong [OF post_line_def, unfolded run_code]
  fun_cong [OF createLedgerTransaction_def, unfolded run_code]
  fun_cong [OF findOrCreateAccount_def, unfolded run_code]
  fun_cong [OF findExistingPosting_def, unfolded run_code]
  fun_cong [OF assertPostingBalanced_def, unfolded run_code]
  fun_cong [OF ensureBalance_def, unfolded run_code]
  fun_cong [OF creditBalance_def] fun_cong [OF debitBalance_def]
  fun_cong [OF internalTransfer_def, unfolded run_code]
  fun_cong [OF serializable_tx_def, unfolded run_code] fun_cong [OF fresh_uuid_def]
  fun_cong [OF recordAudit_def, unfolded run_code] fun_cong [OF publish_def, unfolded run_code]

lemma mapS_code [code]:
  "mapS f xs s = (case xs of [] \<Rightarrow> (Inr [], s) | x # ys \<Rightarrow>
     (case f x s of (Inl e, s') \<Rightarrow> (Inl e, s') | (Inr a, s') \<Rightarrow>
       (case mapS f ys s' of (Inl e, t) \<Rightarrow> (Inl e, t) | (Inr as, t) \<Rightarrow> (Inr (a # as), t))))"
  by (cases xs) (auto simp: svc_simps split: sum.split prod.split)

lemma postWithRetry_code [code]:
  "postWithRetry n e fn s = (case n of 0 \<Rightarrow> (Inl e, s) | Suc m \<Rightarrow>
     (case fn s of
        (Inr a, s') \<Rightarrow> (Inr a, s')
      | (Inl e', s') \<Rightarrow> if e' = PrismaError ''P2034'' then postWithRetry m e' fn s' else (Inl e', s')))"
  by (cases n) (auto simp: svc_simps split: prod.split sum.split)

lemma already_posted_code [code]:
  "already_posted inp s \<longleftrightarrow>
     (case (post_reference_type inp, post_reference_id inp) of
        (Some rt, Some ri) \<Rightarrow> rt \<noteq> [] \<and> (\<exists>t \<in> set (ledger_transactions s). has_ref rt ri t)
      | _ \<Rightarrow> False)"
  by (auto simp: already_posted_def split: option.splits)

definition empty_db :: db where
  "empty_db = \<lparr>accounts = [], balances = (\<lambda>_. None), ledger_transactions = [],
     ledger_entries = [], inr_transactions = [], payment_webhook_events = [],
     inr_withdrawals = [], master_deposits = [], network_configs = [], users = [], assets = [],
     markets = [], orders = [], trades = [], withdrawal_addresses = [], crypto_withdrawals = [],
     asset_chains = [], hot_wallets = [], wallet_nonces = (\<lambda>_. None), tier_limits = [],
     withdrawals_frozen = False, chain_txs = [], price_quotes = [], conversions = [],
     quote_snapshots = [], redis_down = False, audit_logs = [], admin_logs = [], notifications = [],
     published = [], now = 0, next_uuid = 0, conflicts = []\<rparr>"

lemma empty_db_inv: "ledger_inv empty_db"
  by (simp add: empty_db_def ledger_inv_def accounts_inv_def nonneg_inv_def projection_inv_def
      txns_inv_def refs_inv_def bal_of_def entries_sum_def txn_net_def)

definition verified_user :: "nat \<Rightarrow> user" where
  "verified_user i = \<lparr>user_id = i, user_email = [], user_status = USER_ACTIVE,
     kyc_status = KYC_APPROVED, kyc_tier = 1, withdrawals_blocked = False, risk_level = RISK_LOW,
     risk_note = None\<rparr>"

text \<open>User 7 deposits 100 INR; user 7 locks 40 of them.\<close>

definition deposit_100 :: posting_input where
  "deposit_100 = \<lparr>post_kind = ''INR_DEPOSIT'', post_reference_type = Some ''inr_deposit'',
     post_reference_id = Some 77, post_lines =
     [\<lparr>line_user = None, line_asset = ''INR'', line_kind = GATEWAY_CLEARING,
       line_direction = DEBIT, line_amount = 100\<rparr>,
      \<lparr>line_user = Some 7, line_asset = ''INR'', line_kind = USER_AVAILABLE,
       line_direction = CREDIT, line_amount = 100\<rparr>]\<rparr>"

definition lock_40 :: posting_input where
  "lock_40 = \<lparr>post_kind = ''ORDER_LOCK'', post_reference_type = Some ''order_lock'',
     post_reference_id = Some 78,
     post_lines = move_lines (Some 7) ''INR'' USER_AVAILABLE USER_LOCKED 40\<rparr>"

definition funded_db :: db where
  "funded_db = snd (post (\<lambda>x. x) deposit_100 None empty_db)"

lemma funded_db_inv: "ledger_inv funded_db"
  unfolding funded_db_def by (rule preservesD [OF posting.preserves_posting empty_db_inv])


lemma funded_db_balance [simp]: "bal funded_db (Some 7) ''INR'' USER_AVAILABLE = 100"
  by code_simp

lemma funded_db_tables [simp]: "conflicts funded_db = []" "already_posted lock_40 funded_db = False"
  by code_simp+

lemma lock_40_fields [simp]: "post_lines lock_40 = move_lines (Some 7) ''INR'' USER_AVAILABLE USER_LOCKED 40"
  "post_reference_type lock_40 = Some ''order_lock''" "post_reference_id lock_40 = Some 78"
  by (simp_all add: lock_40_def)

lemma delta_move_lines:
  "k1 \<noteq> k2 \<Longrightarrow> delta (move_lines u as k1 k2 x) u' as' k =
     (if u' = u \<and> as' = as then (if k = k1 then - x else if k = k2 then x else 0) else 0)"
  by (auto simp: delta_def move_lines_def line_delta_def signed_amount_def)

section \<open>Consequences for the properties\<close>

lemma bal_nonneg:
  assumes "ledger_inv s" and "isUserAccount k" shows "0 \<le> bal s u as k"
  using assms
  by (auto simp: bal_def ledger_inv_def nonneg_inv_def split: option.splits dest: find_SomeD)

lemma post_state:
  assumes "post D inp c s = (r, t)" and "ledger_inv s"
  shows "ledger_inv t" and "isl r \<Longrightarrow> ledger_tables t = ledger_tables s"
  using preserves_run [OF posting.preserves_posting assms(2,1)] post_Inl [of D inp c s _ t] assms(1)
  by (auto simp: isl_def ledger_tables_def)

lemma find_reference:
  assumes "ledger_inv t" and "x \<in> set (ledger_transactions t)" and "has_ref rt ri x" and "rt \<noteq> []"
  shows "find (has_ref rt ri) (ledger_transactions t) = Some x"
proof (rule find_unique)
  have len: "length (filter (has_ref rt ri) (ledger_transactions t)) \<le> 1"
    using assms(1,4) by (simp add: ledger_inv_def refs_inv_def)
  have x: "x \<in> set (filter (has_ref rt ri) (ledger_transactions t))" using assms(2,3) by simp
  fix y assume "y \<in> set (ledger_transactions t)" and "has_ref rt ri y"
  then have "y \<in> set (filter (has_ref rt ri) (ledger_transactions t))" by simp
  then show "y = x" using len x
    by (cases "filter (has_ref rt ri) (ledger_transactions t)") auto
qed (use assms in auto)

lemma findExistingPosting_find:
  "rt \<noteq> [] \<Longrightarrow> findExistingPosting (Some rt) (Some ri) s =
     (Inr (find (has_ref rt ri) (ledger_transactions s)), s)"
  by (simp add: findExistingPosting_def readS_apply has_ref_def [abs_def])

lemma post_reference:
  assumes run: "post D inp c s = (Inr r, t)" and inv: "ledger_inv s"
    and ref: "post_reference_type inp = Some rt" "rt \<noteq> []" "post_reference_id inp = Some ri"
  shows "\<exists>txn. find (has_ref rt ri) (ledger_transactions t) = Some txn \<and> r = posted_of txn t"
proof -
  obtain txn s1 cs where tx: "post_tx inp (s\<lparr>conflicts := cs\<rparr>) = (Inr txn, s1)"
    and pos: "\<forall>l \<in> set (post_lines inp). 0 < line_amount l"
    and t: "t = s1\<lparr>audit_logs := audit_logs t\<rparr>" and r: "r = posted_of txn t"
    using run by (rule post_Inr)
  let ?s = "s\<lparr>conflicts := cs\<rparr>"
  have inv': "ledger_inv ?s" by (rule ledger_inv_cong [OF _ _ inv]) (simp_all add: ledger_tables_def)
  note p = post_tx_spec [OF tx inv' pos]
  have "has_ref rt ri txn"
  proof (cases "find (has_ref rt ri) (ledger_transactions ?s)")
    case (Some x)
    then have "txn = x" using tx ref
      by (simp add: post_tx_def findExistingPosting_find bindS_apply returnS_apply)
    then show ?thesis using Some by (auto dest: find_SomeD)
  next
    case None
    then have "\<not> already_posted inp ?s" using ref by (auto simp: already_posted_def find_None_iff)
    then show ?thesis using p ref by (simp add: has_ref_def)
  qed
  moreover have lt: "ledger_transactions t = ledger_transactions s1" by (subst t) simp
  ultimately show ?thesis
    using find_reference [of s1 txn rt ri] p r ref(2) by auto
qed

lemma wallet_sum:
  assumes "accounts_inv s" and "decimal_context D"
  shows "sum_balances D s k (getWalletAccounts userId as s) =
    (if k \<in> {USER_AVAILABLE, USER_LOCKED} then D (bal s (Some userId) as k) else 0)"
proof -
  let ?P = "\<lambda>a. acc_user a = Some userId \<and> acc_asset a = as \<and> acc_kind a = k"
  have f: "filter (\<lambda>a. acc_kind a = k) (getWalletAccounts userId as s) =
      (if k \<in> {USER_AVAILABLE, USER_LOCKED} then filter ?P (accounts s) else [])"
    by (auto simp: getWalletAccounts_def filter_empty_conv intro!: filter_cong)
  have one: "filter ?P bs = (case find ?P bs of None \<Rightarrow> [] | Some a \<Rightarrow> [a])"
    if "distinct (map acc_key bs)" for bs
    using that
  proof (induction bs)
    case (Cons b bs)
    have "filter ?P bs = []" if "?P b"
      using Cons.prems that by (auto simp: filter_empty_conv acc_key_def image_iff)
    then show ?case using Cons by auto
  qed simp
  have "distinct (map acc_key (accounts s))" using assms(1) by (simp add: accounts_inv_def)
  from one [OF this] show ?thesis using assms(2)
    by (simp add: sum_balances_def f bal_def dadd_def split: option.split)
qed

section \<open>Invariants the ledger leaves alone\<close>

text \<open>
  An invariant of the other tables survives a posting when it does not look at the ledger
  tables, the conflicts and the audit trail, and identifiers may have been drawn.
\<close>

definition ledger_frame :: "(db \<Rightarrow> bool) \<Rightarrow> bool" where
  "ledger_frame I \<longleftrightarrow>
     (\<forall>s t. I s \<longrightarrow> only_ledger s t \<longrightarrow> next_uuid s \<le> next_uuid t \<longrightarrow> I t)"

definition with_ledger :: "(db \<Rightarrow> bool) \<Rightarrow> db \<Rightarrow> bool" where
  "with_ledger I s \<longleftrightarrow> ledger_inv s \<and> I s"

lemma with_ledgerD: "with_ledger I s \<Longrightarrow> ledger_inv s" "with_ledger I s \<Longrightarrow> I s"
  by (simp_all add: with_ledger_def)

lemma post_only_ledger:
  assumes "post D inp c s = (r, t)" and "ledger_inv s"
  shows "only_ledger s t \<and> next_uuid s \<le> next_uuid t"
proof (cases r)
  case (Inl e)
  then obtain cs where "t = s\<lparr>conflicts := cs\<rparr>" using post_Inl assms(1) by blast
  then show ?thesis by (cases s) (simp add: only_ledger_def)
next
  case (Inr p)
  then show ?thesis using post_spec assms by blast
qed

lemma preserves_post:
  assumes "ledger_frame I" shows "preserves (with_ledger I) (post D inp c)"
proof (rule preservesI)
  fix s assume s: "with_ledger I s"
  obtain r t where rt: "post D inp c s = (r, t)" by (cases "post D inp c s")
  have inv: "ledger_inv s" using s by (rule with_ledgerD)
  have "ledger_inv t" using post_state(1) [OF rt inv] .
  moreover have "I t"
    using post_only_ledger [OF rt inv] assms with_ledgerD(2) [OF s] unfolding ledger_frame_def by blast
  ultimately show "with_ledger I (snd (post D inp c s))" by (simp add: rt with_ledger_def)
qed

lemma preserves_postWithRetry [preserves_intros]:
  "preserves I fn \<Longrightarrow> preserves I (postWithRetry n e fn)"
proof (induction n arbitrary: e)
  case 0
  then show ?case by (simp add: preserves_throw)
next
  case (Suc n)
  then show ?case by (auto intro!: preserves_intros)
qed

lemma preserves_retry_post [preserves_intros]:
  "ledger_frame I \<Longrightarrow> preserves (with_ledger I) (retry_post (post D inp c))"
  by (intro preserves_postWithRetry preserves_post)

text \<open>A write outside the ledger tables keeps the ledger.\<close>

lemma with_ledger_write:
  assumes "with_ledger I s" and "ledger_tables t = ledger_tables s" and "next_uuid s \<le> next_uuid t"
    and "I t"
  shows "with_ledger I t"
  using assms ledger_inv_cong [OF assms(2,3)] by (simp add: with_ledger_def)

lemma retry_post_only_ledger:
  assumes "postWithRetry n e (post D inp c) s = (r, t)" and "ledger_inv s"
  shows "only_ledger s t \<and> next_uuid s \<le> next_uuid t \<and> ledger_inv t"
  using assms
proof (induction n arbitrary: e s)
  case 0
  then show ?case by (simp add: throwS_apply)
next
  case (Suc n)
  obtain r1 s1 where 1: "post D inp c s = (r1, s1)" by (cases "post D inp c s")
  note p = post_only_ledger [OF 1 Suc.prems(2)] post_state(1) [OF 1 Suc.prems(2)]
  show ?case
  proof (cases "r1 = Inl (PrismaError ''P2034'')")
    case True
    then have "postWithRetry n (PrismaError ''P2034'') (post D inp c) s1 = (r, t)"
      using Suc.prems(1) 1 by (simp add: catchS_apply)
    from Suc.IH [OF this p(2)] show ?thesis using p(1) by (auto intro: only_ledger_trans)
  next
    case False
    then have "t = s1" using Suc.prems(1) 1
      by (auto simp: catchS_apply throwS_apply split: sum.splits)
    then show ?thesis using p by simp
  qed
qed

lemma retry_post_error:
  assumes "postWithRetry n e0 (post D inp c) s = (Inl e, t)"
  shows "\<exists>cs. t = s\<lparr>conflicts := cs\<rparr>"
  using assms
proof (induction n arbitrary: e0 s)
  case 0
  then have "t = s\<lparr>conflicts := conflicts s\<rparr>" by (simp add: throwS_apply conflicts_self)
  then show ?case ..
next
  case (Suc n)
  obtain r1 s1 where 1: "post D inp c s = (r1, s1)" by (cases "post D inp c s")
  then obtain e1 where r1: "r1 = Inl e1" using Suc.prems
    by (cases r1) (auto simp: catchS_apply)
  then obtain cs where s1: "s1 = s\<lparr>conflicts := cs\<rparr>" using post_Inl 1 by blast
  show ?case
  proof (cases "e1 = PrismaError ''P2034''")
    case True
    then have "postWithRetry n e1 (post D inp c) s1 = (Inl e, t)"
      using Suc.prems 1 r1 by (simp add: catchS_apply)
    from Suc.IH [OF this] show ?thesis using s1 by auto
  next
    case False
    then have "t = s1" using Suc.prems 1 r1 by (simp add: catchS_apply throwS_apply)
    then show ?thesis using s1 by blast
  qed
qed

section \<open>The errors of a posting\<close>

definition posting_errors :: "err set" where
  "posting_errors = {BadRequestError, ConflictError ''INSUFFICIENT_BALANCE'', PrismaError ''P2034'',
     PrismaError ''P2025'', DbCheckError ''accounts_kind_user_chk'',
     DbCheckError ''ledger_entries_amount_chk'', DbCheckError ''ledger_entries_balanced''}"

lemma posting_totals_errors:
  "posting_totals D ls tot = Inl e \<Longrightarrow> e = BadRequestError"
  by (induction D ls tot rule: posting_totals.induct) (auto simp: Let_def split: if_splits)

lemma post_line_errors: "post_line l s = (Inl e, t) \<Longrightarrow> e \<in> posting_errors"
  by (auto simp: post_line_def svc_simps findOrCreateAccount_def fresh_uuid_def ensureBalance_def
      creditBalance_def debitBalance_def posting_errors_def Let_def
      split: option.splits if_splits)

lemma post_lines_errors: "mapS post_line ls s = (Inl e, t) \<Longrightarrow> e \<in> posting_errors"
proof (induction ls arbitrary: s)
  case Nil
  then show ?case by (simp add: returnS_apply)
next
  case (Cons l ls)
  then show ?case
    by (auto simp: bindS_apply returnS_apply split: prod.splits sum.splits dest: post_line_errors)
qed

lemma createLedgerTransaction_errors:
  "createLedgerTransaction inp rs s = (Inl e, t) \<Longrightarrow> e \<in> posting_errors"
  by (auto simp: createLedgerTransaction_def svc_simps fresh_uuid_def Let_def posting_errors_def
      split: if_splits)

lemma post_tx_errors:
  assumes "post_tx inp s = (Inl e, t)" shows "e \<in> posting_errors"
proof -
  obtain ex where "findExistingPosting (post_reference_type inp) (post_reference_id inp) s
      = (Inr ex, s)" using findExistingPosting_total by blast
  then show ?thesis using assms
    by (auto simp: post_tx_def bindS_apply returnS_apply split: prod.splits sum.splits option.splits
        dest: post_lines_errors createLedgerTransaction_errors)
qed

lemma serializable_errors:
  "serializable_tx m s = (Inl e, t) \<Longrightarrow> e = PrismaError ''P2034'' \<or> (\<exists>u v. m u = (Inl e, v))"
  by (auto simp: serializable_tx_def transactionS_apply Let_def
      split: list.splits if_splits prod.splits sum.splits)

lemma post_errors:
  assumes "post D inp c s = (Inl e, t)" shows "e \<in> posting_errors"
proof (cases "assertPostingBalanced D inp s")
  case (Pair r s')
  show ?thesis
  proof (cases r)
    case (Inl e')
    then have "e' = e" using assms Pair by (simp add: post_def svc_simps)
    moreover have "e' = BadRequestError" using Pair Inl
      by (auto simp: assertPostingBalanced_def svc_simps split: if_splits sum.splits
          dest: posting_totals_errors)
    ultimately show ?thesis by (simp add: posting_errors_def)
  next
    case (Inr x)
    then have "serializable_tx (post_tx inp) s' = (Inl e, t)"
      using assms Pair
      by (auto simp: post_def svc_simps recordAudit_def split: prod.splits sum.splits)
    from serializable_errors [OF this] show ?thesis
      by (auto simp: posting_errors_def dest: post_tx_errors [unfolded posting_errors_def])
  qed
qed

lemma postWithRetry_errors:
  "postWithRetry n e0 (post D inp c) s = (Inl e, t) \<Longrightarrow> e \<in> posting_errors \<or> n = 0 \<and> e = e0"
proof (induction n arbitrary: e0 s)
  case 0
  then show ?case by (simp add: throwS_apply)
next
  case (Suc n)
  obtain r1 s1 where 1: "post D inp c s = (r1, s1)" by (cases "post D inp c s")
  then obtain e1 where r1: "r1 = Inl e1" using Suc.prems by (cases r1) (auto simp: catchS_apply)
  have e1: "e1 \<in> posting_errors" using post_errors 1 r1 by blast
  show ?case
  proof (cases "e1 = PrismaError ''P2034''")
    case True
    then have "postWithRetry n e1 (post D inp c) s1 = (Inl e, t)"
      using Suc.prems 1 r1 by (simp add: catchS_apply)
    from Suc.IH [OF this] show ?thesis using e1 by auto
  next
    case False
    then have "e = e1" using Suc.prems 1 r1 by (simp add: catchS_apply throwS_apply)
    then show ?thesis using e1 by simp
  qed
qed

lemma retry_post_errors:
  "retry_post (post D inp c) s = (Inl e, t) \<Longrightarrow> e \<in> posting_errors"
  using postWithRetry_errors [of 5 "JsError ''undefined''" D inp c s e t] by simp

section \<open>Moves between two accounts of a user\<close>

lemma balanced_move:
  assumes "isUserAccount k1" and "isUserAccount k2" and "0 < x" and "amounts_fit sc [x, x]"
  shows "balanced_lines sc (move_lines (Some u) as k1 k2 x)"
  using assms by (simp add: balanced_lines_def move_lines_def well_addressed_def net_def signed_amount_def)

text \<open>A posting marks its own reference and no other.\<close>

lemma post_marks:
  assumes "post D inp c s = (r, t)" and "ledger_inv s"
    and "post_reference_type inp = Some rt" "rt \<noteq> []" "post_reference_id inp = Some i"
  shows "rt' \<noteq> [] \<Longrightarrow> posted_as rt' j t \<longleftrightarrow> posted_as rt' j s \<or> (\<not> isl r \<and> rt' = rt \<and> j = i)"
proof -
  assume rt': "rt' \<noteq> []"
  let ?inp = "\<lparr>post_kind = [], post_reference_type = Some rt', post_reference_id = Some j, post_lines = []\<rparr>"
  have as: "already_posted ?inp u \<longleftrightarrow> posted_as rt' j u" for u
    using rt' by (intro already_posted_as) simp_all
  have has: "has_reference inp" using assms(3-5) by (simp add: has_reference_def)
  show ?thesis
  proof (cases r)
    case (Inl e)
    then have "already_posted ?inp t = already_posted ?inp s"
      using posting.error_moves_nothing [of D inp c s e t ?inp] assms(1) by simp
    then show ?thesis using as Inl by simp
  next
    case (Inr p)
    then have run: "post D inp c s = (Inr p, t)" using assms(1) by simp
    have "posted_as rt i t"
      using posting.success_marks [OF run assms(2) has] assms(3-5) by (simp add: already_posted_as)
    then show ?thesis
      using posting.marks_stay [OF run assms(2), of ?inp] posting.marks_only [OF run assms(2), of ?inp]
        as assms(3,5) Inr by (auto simp: same_reference_def)
  qed
qed

end
