(* ===== verification/Ledger_Properties.thy ===== *)
theory Ledger_Properties
  imports Ledger
begin

text \<open>
  The properties of the double-entry ledger: the books stay consistent under every posting,
  a posting moves the balances once, a replay returns the recorded posting, the balance check
  decides balance, funded postings go through, retrying is bounded, and what the read
  operations report.
\<close>

section \<open>Postings\<close>

text \<open>
  C1.  The books are kept by every posting, whatever its outcome: the accounts, the balance
  projection, the entries and the references stay consistent (\<open>ledger_inv\<close>); the
  balances of all accounts of an asset, users and system together, sum to zero, so money
  is neither created nor destroyed; no user balance is negative; and a posting that fails
  leaves all four ledger tables as they were.
\<close>

theorem post_keeps_books:
  assumes "ledger_inv s" and "post D inp c s = (r, t)"
  shows "ledger_inv t \<and> asset_total t as = 0 \<and>
    0 \<le> bal t (Some u) as USER_AVAILABLE \<and> 0 \<le> bal t (Some u) as USER_LOCKED \<and>
    (isl r \<longrightarrow> ledger_tables t = ledger_tables s)"
  using post_state [OF assms(2,1)]
  by (simp add: asset_total_0 bal_nonneg isUserAccount_def)

theorem post_keeps_books_witness:
  "ledger_inv (snd (post (\<lambda>x. x) lock_40 (Some 7) funded_db)) \<and>
   asset_total (snd (post (\<lambda>x. x) lock_40 (Some 7) funded_db)) ''INR'' = 0"
  using post_keeps_books [OF funded_db_inv prod.collapse [symmetric]] by blast

text \<open>
  C2.  A posting that succeeds moves the balance of every account key by the signed sum of its
  lines for that key, and moves nothing when its reference was posted before; after it, a
  posting with a reference counts as posted.
\<close>

theorem post_moves_once:
  assumes "ledger_inv s" and "post D inp c s = (Inr r, t)"
  shows "bal t u as k =
      bal s u as k + (if already_posted inp s then 0 else delta (post_lines inp) u as k) \<and>
    (has_reference inp \<longrightarrow> already_posted inp t)"
  using posting.success_moves [OF assms(2,1)] posting.success_marks [OF assms(2,1)] by auto

theorem post_moves_once_witness:
  "\<exists>r t. post (\<lambda>x. x) lock_40 (Some 7) funded_db = (Inr r, t) \<and>
     bal t (Some 7) ''INR'' USER_AVAILABLE = 60 \<and> bal t (Some 7) ''INR'' USER_LOCKED = 40"
proof -
  have "\<not> isl (fst (post (\<lambda>x. x) lock_40 (Some 7) funded_db))" by code_simp
  then obtain r t where run: "post (\<lambda>x. x) lock_40 (Some 7) funded_db = (Inr r, t)"
    by (rule run_Inr)
  have "bal funded_db (Some 7) ''INR'' USER_LOCKED = 0" by code_simp
  then have "bal t (Some 7) ''INR'' USER_AVAILABLE = 60 \<and> bal t (Some 7) ''INR'' USER_LOCKED = 40"
    by (simp add: delta_move_lines post_moves_once [OF funded_db_inv run])
  then show ?thesis using run by blast
qed

text \<open>
  Idempotency: a later posting with the same non-empty reference, however often retried and
  whatever its other fields, changes none of the ledger tables, and when it succeeds it returns
  the very posting, entries included, that the first call returned.
\<close>

theorem post_replay_same:
  assumes "ledger_inv s" and "post D inp c s = (Inr r, t)"
    and "post_reference_type inp = Some rt" and "rt \<noteq> []" and "post_reference_id inp = Some ri"
    and "same_reference inp inp'" and "post D inp' c' t = (r', u)"
  shows "ledger_tables u = ledger_tables t \<and> (\<not> isl r' \<longrightarrow> r' = Inr r)"
proof -
  have inv: "ledger_inv t" using post_state [OF assms(2,1)] by simp
  have "already_posted inp t"
    using posting.success_marks [OF assms(2,1)] assms(3-5) by (simp add: has_reference_def)
  then have "already_posted inp' t" using assms(6) by (simp add: already_posted_def same_reference_def)
  then have tab: "ledger_tables u = ledger_tables t"
    using post_state [OF assms(7) inv] post_spec [of D inp' c' t _ u, OF _ inv] assms(7)
    by (cases r') auto
  have ref': "post_reference_type inp' = Some rt" "post_reference_id inp' = Some ri"
    using assms(3,5,6) by (simp_all add: same_reference_def)
  obtain x where x: "find (has_ref rt ri) (ledger_transactions t) = Some x" "r = posted_of x t"
    using post_reference [OF assms(2,1,3,4,5)] by blast
  have "r' = Inr r" if "r' = Inr y" for y
  proof -
    obtain z where "find (has_ref rt ri) (ledger_transactions u) = Some z" "y = posted_of z u"
      using post_reference [OF _ inv ref'(1) assms(4) ref'(2)] assms(7) \<open>r' = Inr y\<close> by blast
    then show ?thesis using x tab that by (auto simp: ledger_tables_def posted_of_def)
  qed
  then show ?thesis using tab by (cases r') auto
qed

theorem post_replay_same_witness:
  "\<exists>r t. post (\<lambda>x. x) lock_40 (Some 7) funded_db = (Inr r, t) \<and>
    ledger_tables (snd (post (\<lambda>x. x) lock_40 (Some 7) t)) = ledger_tables t"
proof -
  have "\<not> isl (fst (post (\<lambda>x. x) lock_40 (Some 7) funded_db))" by code_simp
  then obtain r t where run: "post (\<lambda>x. x) lock_40 (Some 7) funded_db = (Inr r, t)"
    by (rule run_Inr)
  have "ledger_tables (snd (post (\<lambda>x. x) lock_40 (Some 7) t)) = ledger_tables t"
    using post_replay_same [OF funded_db_inv run _ _ _ _ prod.collapse [symmetric],
        of "''order_lock''" 78 lock_40]
    by (simp add: same_reference_def)
  then show ?thesis using run by blast
qed

text \<open>
  The balance check passes exactly the postings that have two lines or more, positive
  amounts, and net to zero in every asset, for amounts whose total stays within the twenty
  digits the decimal package computes exactly.
\<close>

theorem balance_check_decides:
  assumes "decimal_context D" and "amounts_fit sc (map line_amount (post_lines inp))"
  shows "assertPostingBalanced D inp s = (Inr (), s) \<longleftrightarrow>
    2 \<le> length (post_lines inp) \<and> (\<forall>l \<in> set (post_lines inp). 0 < line_amount l) \<and>
    (\<forall>a. net (post_lines inp) a = 0)"
  using assms by (rule assertPostingBalanced_iff)

theorem balance_check_decides_witness:
  "(assertPostingBalanced (\<lambda>x. x) lock_40 funded_db = (Inr (), funded_db)) =
    (\<forall>a. net (post_lines lock_40) a = 0)"
  using balance_check_decides [OF decimal_context_id, of 8 lock_40 funded_db]
  by (simp add: move_lines_def amounts_fit_def grid_def)

text \<open>
  C3.  A balanced posting whose debits the user accounts can pay goes through: when the first
  \<open>k < 5\<close> attempts of \<open>postWithRetry\<close> meet a write conflict and the next does not, the call
  returns a posting; with five conflicts or more it gives up with P2034, having made exactly
  five attempts and having changed no table.
\<close>

theorem post_with_retry_total:
  assumes "decimal_context D" and "balanced_lines sc (post_lines inp)" and "ledger_inv s"
    and "covered (post_lines inp) s" and "conflicts s = replicate k True"
  shows "if k < 5 then \<exists>r t. retry_post (post D inp c) s = (Inr r, t)
    else retry_post (post D inp c) s =
      (Inl (PrismaError ''P2034''), s\<lparr>conflicts := replicate (k - 5) True\<rparr>)"
proof (cases "k < 5")
  case True
  then obtain m where m: "5 - k = Suc m" by (cases "5 - k") auto
  let ?s = "s\<lparr>conflicts := []\<rparr>"
  have tab: "ledger_tables ?s = ledger_tables s" by (simp add: ledger_tables_def)
  have inv: "ledger_inv ?s" using assms(3) by (auto intro: ledger_inv_cong [OF tab])
  have "covered (post_lines inp) ?s" using assms(4) by (simp add: covered_def bal_tables [OF tab])
  then obtain r t where "post D inp c ?s = (Inr r, t)"
    using post_total [OF assms(1,2) inv, of c] by auto
  then show ?thesis
    using True m retry_conflicts [OF assertPostingBalanced_balanced [OF assms(1,2)], of s k "[]" 5]
      assms(5) by (simp add: catchS_apply)
next
  case False
  then have "conflicts s = replicate 5 True @ replicate (k - 5) True"
    using assms(5) by (simp flip: replicate_add)
  from retry_conflicts [OF assertPostingBalanced_balanced [OF assms(1,2)] this order_refl]
  show ?thesis using False by (simp add: throwS_apply)
qed

theorem post_with_retry_total_witness:
  "\<exists>r t. retry_post (post (\<lambda>x. x) lock_40 (Some 7)) funded_db = (Inr r, t)"
proof -
  have "balanced_lines 2 (post_lines lock_40)"
    by (simp add: move_lines_def balanced_lines_def well_addressed_def
        isUserAccount_def net_def signed_amount_def amounts_fit_def grid_def)
  moreover have "covered (post_lines lock_40) funded_db"
    by (auto simp: covered_def move_lines_def debits_def)
  ultimately show ?thesis
    using post_with_retry_total [OF decimal_context_id _ funded_db_inv, of 2 lock_40 0 "Some 7"]
    by simp
qed

text \<open>
  An internal transfer to another account of the same user or to an account of another
  user moves exactly the amount out of the one and into the other and touches no other balance,
  when its reference is new; the sender held at least the amount; and a transfer from or to a
  system account is refused.
\<close>

theorem internalTransfer_moves:
  assumes "ledger_inv s" and "internalTransfer D u toUser as x k1 k2 refType refId s = (Inr r, t)"
    and "u2 = (case toUser of None \<Rightarrow> u | Some v \<Rightarrow> v)" and "(u, k1) \<noteq> (u2, k2)"
    and "\<forall>rt ri. refType = Some rt \<longrightarrow> refId = Some ri \<longrightarrow>
      (\<forall>txn \<in> set (ledger_transactions s). \<not> has_ref rt ri txn)"
  shows "isUserAccount k1 \<and> isUserAccount k2 \<and>
    bal t (Some u) as k1 = bal s (Some u) as k1 - x \<and>
    bal t (Some u2) as k2 = bal s (Some u2) as k2 + x \<and>
    ((u', as', k') \<noteq> (Some u, as, k1) \<longrightarrow> (u', as', k') \<noteq> (Some u2, as, k2) \<longrightarrow>
      bal t u' as' k' = bal s u' as' k') \<and> x \<le> bal s (Some u) as k1"
proof -
  let ?ls = "[\<lparr>line_user = Some u, line_asset = as, line_kind = k1, line_direction = DEBIT,
       line_amount = x\<rparr>,
      \<lparr>line_user = Some u2, line_asset = as, line_kind = k2, line_direction = CREDIT,
       line_amount = x\<rparr>]"
  let ?inp = "\<lparr>post_kind = ''INTERNAL_TRANSFER'', post_reference_type = refType,
             post_reference_id = refId, post_lines = ?ls\<rparr>"
  have kinds: "isUserAccount k1" "isUserAccount k2"
    using assms(2) by (auto simp: internalTransfer_def svc_simps split: if_splits)
  then have run: "post D ?inp (Some u) s = (Inr r, t)"
    using assms(2,3) by (auto simp: internalTransfer_def svc_simps)
  have new: "\<not> already_posted ?inp s" using assms(5) by (auto simp: already_posted_def)
  have inv: "ledger_inv t" using post_state [OF run assms(1)] by simp
  have m: "bal t v b k = bal s v b k + delta ?ls v b k" for v b k
    using posting.success_moves [OF run assms(1)] new by simp
  have d: "delta ?ls v b k = (if (v, b, k) = (Some u, as, k1) then - x
     else if (v, b, k) = (Some u2, as, k2) then x else 0)" for v b k
    using assms(4) by (auto simp: delta_def line_delta_def signed_amount_def)
  have "bal t (Some u) as k1 = bal s (Some u) as k1 - x"
    and "bal t (Some u2) as k2 = bal s (Some u2) as k2 + x"
    and "(u', as', k') \<noteq> (Some u, as, k1) \<longrightarrow> (u', as', k') \<noteq> (Some u2, as, k2) \<longrightarrow>
      bal t u' as' k' = bal s u' as' k'"
    using assms(4) by (auto simp: m d)
  then show ?thesis using kinds bal_nonneg [OF inv kinds(1), of "Some u" as] by simp
qed

theorem internalTransfer_moves_witness:
  "\<exists>r t. internalTransfer (\<lambda>x. x) 7 (Some 8) ''INR'' 40 USER_AVAILABLE USER_AVAILABLE
     (Some ''gift'') (Some 5) funded_db = (Inr r, t) \<and>
     bal t (Some 7) ''INR'' USER_AVAILABLE = 60"
proof -
  let ?m = "internalTransfer (\<lambda>x. x) 7 (Some 8) ''INR'' 40 USER_AVAILABLE USER_AVAILABLE
     (Some ''gift'') (Some 5)"
  have "\<not> isl (fst (?m funded_db))" by code_simp
  then obtain r t where run: "?m funded_db = (Inr r, t)" by (rule run_Inr)
  have new: "\<forall>txn \<in> set (ledger_transactions funded_db). \<not> has_ref ''gift'' 5 txn" by code_simp
  have "bal t (Some 7) ''INR'' USER_AVAILABLE = bal funded_db (Some 7) ''INR'' USER_AVAILABLE - 40"
    using internalTransfer_moves [OF funded_db_inv run, of 8] new by simp
  then show ?thesis using run funded_db_balance by auto
qed

section \<open>Reads\<close>

text \<open>
  Reconciliation reports every account of a consistent ledger as balanced: the projection
  equals the sum the service computes over the entries, as long as the absolute amounts of the
  account's entries sum to less than twenty digits.
\<close>

theorem reconcileAccount_balanced:
  assumes "decimal_context D" and "ledger_inv s"
    and "amounts_fit sc (map entry_amount (filter (\<lambda>e. entry_account e = i) (ledger_entries s)))"
  shows "reconcileAccount D i s =
    (Inr \<lparr>rec_account = i, rec_projection = bal_of s i, rec_entries = bal_of s i, rec_diff = 0,
       rec_balanced = True\<rparr>, s)"
proof -
  have "entriesBalanceForAccount D i s = bal_of s i"
    using entriesBalance_exact [OF assms(1,3)] assms(2)
    by (simp add: ledger_inv_def projection_inv_def)
  then show ?thesis using assms(1) by (simp add: reconcileAccount_def readS_apply dsub_def Let_def)
qed

theorem reconcileAccount_balanced_witness:
  "rec_balanced (projr (fst (reconcileAccount (\<lambda>x. x) 1 funded_db)))"
proof -
  have "map entry_amount (filter (\<lambda>e. entry_account e = 1) (ledger_entries funded_db)) = [100]"
    by code_simp
  then show ?thesis
    using reconcileAccount_balanced [OF decimal_context_id funded_db_inv, of 2 1]
    by (simp add: amounts_fit_def grid_def)
qed

text \<open>
  A wallet shows the two balances of the user in the asset, and their sum as the total; a
  user with no account in the asset gets 404 from \<open>getWallet\<close> and zeroes from \<open>getInrWallet\<close>.
\<close>

theorem getWallet_shows_balances:
  assumes "decimal_context D" and "ledger_inv s"
    and "fits20 sc (bal s (Some u) as USER_AVAILABLE)" and "fits20 sc (bal s (Some u) as USER_LOCKED)"
    and "fits20 sc (bal s (Some u) as USER_AVAILABLE + bal s (Some u) as USER_LOCKED)"
  shows "getWallet D u as s =
      (if getWalletAccounts u as s = [] then (Inl not_found, s)
       else (Inr \<lparr>wallet_asset = as, wallet_available = bal s (Some u) as USER_AVAILABLE,
         wallet_locked = bal s (Some u) as USER_LOCKED,
         wallet_total = bal s (Some u) as USER_AVAILABLE + bal s (Some u) as USER_LOCKED\<rparr>, s)) \<and>
    (as = ''INR'' \<longrightarrow> getInrWallet D u s =
      (Inr \<lparr>wallet_asset = as, wallet_available = bal s (Some u) as USER_AVAILABLE,
         wallet_locked = bal s (Some u) as USER_LOCKED,
         wallet_total = bal s (Some u) as USER_AVAILABLE + bal s (Some u) as USER_LOCKED\<rparr>, s))"
  using assms(2) decimal_exact [OF assms(1) assms(3)] decimal_exact [OF assms(1) assms(4)]
    decimal_exact [OF assms(1) assms(5)]
  by (auto simp: getWallet_def getInrWallet_def svc_simps wallet_sum assms(1) ledger_inv_def
      walletDto_def dadd_def)

theorem getWallet_shows_balances_witness:
  "getInrWallet (\<lambda>x. x) 7 funded_db = (Inr \<lparr>wallet_asset = ''INR'', wallet_available = 100,
     wallet_locked = 0, wallet_total = 100\<rparr>, funded_db)"
proof -
  have "bal funded_db (Some 7) ''INR'' USER_LOCKED = 0" by code_simp
  then show ?thesis
    using getWallet_shows_balances [OF decimal_context_id funded_db_inv, of 2 7 "''INR''"]
    by (simp add: fits20_def grid_def)
qed

text \<open>
  A client that pages through the entries of a wallet never sees the row at a page
  boundary: with more rows than the limit, the row at index \<open>limit\<close> of the descending order
  becomes the cursor of the next page and is excluded by its \<open>id < cursor\<close>, however many pages
  the client asks for.
\<close>

theorem listLedgerEntries_skips:
  assumes "distinct (map entry_id (ledger_entries s))"
    and "limit < length (user_entries u as s)"
  shows "descending entry_id (user_entries u as s) ! limit \<notin>
    set (crawl (\<lambda>c. listLedgerEntries_rows u as limit c s) n None)"
proof -
  have "distinct (map entry_id (user_entries u as s))"
    using assms(1) by (simp add: user_entries_def distinct_map_filter)
  then have desc: "strictly_desc entry_id (descending entry_id (user_entries u as s))"
    by (rule strictly_desc_descending)
  have all: "filter (before_cursor entry_id None) xs = xs" for xs :: "ledger_entry list"
    by (simp add: before_cursor_def)
  show ?thesis
    using crawl_page_behind_skips [OF desc, of limit None n] assms(2)
    by (simp add: all listLedgerEntries_rows_def [abs_def])
qed

theorem listLedgerEntries_skips_witness:
  "let s = snd (post (\<lambda>x. x) lock_40 (Some 7) funded_db)
   in descending entry_id (user_entries 7 ''INR'' s) ! 1 \<notin>
     set (crawl (\<lambda>c. listLedgerEntries_rows 7 ''INR'' 1 c s) 10 None)"
proof -
  let ?s = "snd (post (\<lambda>x. x) lock_40 (Some 7) funded_db)"
  have "distinct (map entry_id (ledger_entries ?s))" and "1 < length (user_entries 7 ''INR'' ?s)"
    by code_simp+
  from listLedgerEntries_skips [OF this] show ?thesis by (simp add: Let_def)
qed

end
