(* ===== verification/Trading_Engine.thy ===== *)
theory Trading_Engine
  imports Database "HOL-Library.Sublist"
begin

text \<open>
  The pure part of spot trading: lock sizing and fees of \<open>trading.types.ts\<close> and the matching
  engine \<open>trading.engine.ts\<close>.  The engine walks the resting orders in the order it is given
  them, takes from each what the taker still wants, and stops at the first one that no longer
  crosses, when nothing is left to fill, or when a fill would be worth less than one unit of
  the quote asset.

  The lemmas relate the loop, which carries five running values through the decimal package,
  to \<open>allocate\<close>, a specification with one exact remainder, and read off price-time
  priority, the bounds on every fill and on the totals, and where matching stops.
\<close>

section \<open>Data\<close>

definition BASE_ASSET :: string where "BASE_ASSET = ''USDT''"
definition QUOTE_ASSET :: string where "QUOTE_ASSET = ''INR''"

record market_params =
  base_scale :: nat
  quote_scale :: nat

record create_order =
  co_symbol :: string
  co_side :: order_side
  co_type :: order_type
  co_price :: "rat option"
  co_quantity :: "rat option"
  co_budget :: "rat option"
  co_client :: "string option"

record resting_order =
  ro_id :: nat
  ro_user :: nat
  ro_price :: rat
  ro_remaining :: rat

record taker_input =
  taker_side :: order_side
  taker_type :: order_type
  taker_price :: "rat option"
  taker_quantity :: "rat option"
  taker_budget :: "rat option"

record engine_fill =
  fill_maker :: nat
  fill_maker_user :: nat
  fill_price :: rat
  fill_quantity :: rat
  fill_quote :: rat

record engine_result =
  res_fills :: "engine_fill list"
  res_filled :: rat
  res_quote :: rat

text \<open>\<open>input.x ?? '0'\<close>.\<close>

definition or0 :: "rat option \<Rightarrow> rat" where
  "or0 x = (case x of None \<Rightarrow> 0 | Some v \<Rightarrow> v)"

lemma or0_simps [simp]: "or0 None = 0" "or0 (Some x) = x"
  by (simp_all add: or0_def)

section \<open>Lock sizing and fees\<close>

definition computeLockRequirement ::
  "rounding \<Rightarrow> create_order \<Rightarrow> market_params \<Rightarrow> string \<times> rat" where
  "computeLockRequirement D inp params =
     (if co_side inp = SELL then
        let qty = floorTo (or0 (co_quantity inp)) (base_scale params)
        in (BASE_ASSET, toFixed qty (base_scale params))
      else if co_type inp = MARKET then
        let budget = floorTo (or0 (co_budget inp)) (quote_scale params)
        in (QUOTE_ASSET, toFixed budget (quote_scale params))
      else
        let notional = dmul D (or0 (co_price inp)) (or0 (co_quantity inp))
        in (QUOTE_ASSET, toFixed (ceilTo notional (quote_scale params)) (quote_scale params)))"

definition computeFee :: "rounding \<Rightarrow> rat \<Rightarrow> nat \<Rightarrow> nat \<Rightarrow> rat" where
  "computeFee D received bps scale =
     floorTo (ddiv D (dmul D received (of_nat bps)) 10000) scale"

section \<open>The matching loop\<close>

definition crosses :: "order_side \<Rightarrow> rat \<Rightarrow> rat \<Rightarrow> bool" where
  "crosses takerSide takerPrice makerPrice =
     (if takerSide = BUY then makerPrice \<le> takerPrice else takerPrice \<le> makerPrice)"

definition isBudgetDriven :: "taker_input \<Rightarrow> bool" where
  "isBudgetDriven taker \<longleftrightarrow> taker_type taker = MARKET \<and> taker_side taker = BUY"

record loop_state =
  fills :: "engine_fill list"
  remainingQty :: rat
  remainingBudget :: rat
  filledQuantity :: rat
  quoteTotal :: rat

text \<open>What one iteration does: leave the loop, go on to the next maker, or fill.\<close>

datatype engine_step = Break | Continue | Fill rat rat

definition decide_fill ::
  "rounding \<Rightarrow> taker_input \<Rightarrow> market_params \<Rightarrow> loop_state \<Rightarrow> resting_order \<Rightarrow> engine_step" where
  "decide_fill D taker params st maker =
     (let makerPrice = ro_price maker;
          makerRemaining = floorTo (ro_remaining maker) (base_scale params)
      in if taker_type taker \<noteq> MARKET \<and>
            (case taker_price taker of None \<Rightarrow> False
             | Some p \<Rightarrow> \<not> crosses (taker_side taker) p makerPrice) then Break
         else if makerRemaining \<le> 0 then Continue
         else if isBudgetDriven taker \<and> remainingBudget st \<le> 0 then Break
         else if \<not> isBudgetDriven taker \<and> remainingQty st \<le> 0 then Break
         else
           let fillQty =
             (if isBudgetDriven taker then
                if makerPrice = 0 then makerRemaining
                else min makerRemaining
                  (floorTo (ddiv D (remainingBudget st) makerPrice) (base_scale params))
              else min makerRemaining (remainingQty st))
           in if fillQty \<le> 0 then Break
              else
                let quoteAmount = floorTo (dmul D fillQty makerPrice) (quote_scale params)
                in if quoteAmount \<le> 0 then Break else Fill fillQty quoteAmount)"

definition apply_fill ::
  "rounding \<Rightarrow> taker_input \<Rightarrow> market_params \<Rightarrow> resting_order \<Rightarrow> rat \<Rightarrow> rat \<Rightarrow> loop_state \<Rightarrow> loop_state" where
  "apply_fill D taker params maker fillQty quoteAmount st =
     st\<lparr>fills := fills st @
          [\<lparr>fill_maker = ro_id maker, fill_maker_user = ro_user maker, fill_price = ro_price maker,
            fill_quantity = toFixed fillQty (base_scale params),
            fill_quote = toFixed quoteAmount (quote_scale params)\<rparr>],
        filledQuantity := dadd D (filledQuantity st) fillQty,
        quoteTotal := dadd D (quoteTotal st) quoteAmount,
        remainingBudget := (if isBudgetDriven taker
          then dsub D (remainingBudget st) quoteAmount else remainingBudget st),
        remainingQty := (if isBudgetDriven taker
          then remainingQty st else dsub D (remainingQty st) fillQty)\<rparr>"

fun match_loop ::
  "rounding \<Rightarrow> taker_input \<Rightarrow> market_params \<Rightarrow> loop_state \<Rightarrow> resting_order list \<Rightarrow> loop_state" where
  "match_loop D taker params st [] = st"
| "match_loop D taker params st (maker # book) =
     (case decide_fill D taker params st maker of
        Break \<Rightarrow> st
      | Continue \<Rightarrow> match_loop D taker params st book
      | Fill q a \<Rightarrow> match_loop D taker params (apply_fill D taker params maker q a st) book)"

definition initial_state :: "taker_input \<Rightarrow> market_params \<Rightarrow> loop_state" where
  "initial_state taker params =
     \<lparr>fills = [],
      remainingQty = (if isBudgetDriven taker then 0
        else floorTo (or0 (taker_quantity taker)) (base_scale params)),
      remainingBudget = (if isBudgetDriven taker
        then floorTo (or0 (taker_budget taker)) (quote_scale params) else 0),
      filledQuantity = 0, quoteTotal = 0\<rparr>"

definition matchOrder ::
  "rounding \<Rightarrow> taker_input \<Rightarrow> resting_order list \<Rightarrow> market_params \<Rightarrow> engine_result" where
  "matchOrder D taker book params =
     (let st = match_loop D taker params (initial_state taker params) book
      in \<lparr>res_fills = fills st,
          res_filled = toFixed (filledQuantity st) (base_scale params),
          res_quote = toFixed (quoteTotal st) (quote_scale params)\<rparr>)"

section \<open>The specification\<close>


text \<open>What a resting order still offers, and where a taker's walk through the book ends.\<close>

definition avail :: "market_params \<Rightarrow> resting_order \<Rightarrow> rat" where
  "avail params m = floorTo (ro_remaining m) (base_scale params)"

definition reaches :: "taker_input \<Rightarrow> resting_order \<Rightarrow> bool" where
  "reaches taker m \<longleftrightarrow> taker_type taker = MARKET \<or>
     (case taker_price taker of None \<Rightarrow> True | Some p \<Rightarrow> crosses (taker_side taker) p (ro_price m))"

definition live_book :: "taker_input \<Rightarrow> market_params \<Rightarrow> resting_order list \<Rightarrow> resting_order list" where
  "live_book taker params book = filter (\<lambda>m. 0 < avail params m) (takeWhile (reaches taker) book)"

text \<open>
  The remainder is a quantity of the base asset, or for a MARKET BUY a budget of the quote
  asset; \<open>take_qty\<close> is what the taker takes of a maker with that remainder.
\<close>

definition take_qty ::
  "rounding \<Rightarrow> taker_input \<Rightarrow> market_params \<Rightarrow> rat \<Rightarrow> resting_order \<Rightarrow> rat" where
  "take_qty D taker params rem m =
     (if isBudgetDriven taker then
        if ro_price m = 0 then avail params m
        else min (avail params m) (floorTo (ddiv D rem (ro_price m)) (base_scale params))
      else min (avail params m) rem)"

definition take_quote ::
  "rounding \<Rightarrow> taker_input \<Rightarrow> market_params \<Rightarrow> rat \<Rightarrow> resting_order \<Rightarrow> rat" where
  "take_quote D taker params rem m =
     floorTo (dmul D (take_qty D taker params rem m) (ro_price m)) (quote_scale params)"

definition fill_of ::
  "rounding \<Rightarrow> taker_input \<Rightarrow> market_params \<Rightarrow> rat \<Rightarrow> resting_order \<Rightarrow> engine_fill" where
  "fill_of D taker params rem m =
     \<lparr>fill_maker = ro_id m, fill_maker_user = ro_user m, fill_price = ro_price m,
      fill_quantity = take_qty D taker params rem m,
      fill_quote = take_quote D taker params rem m\<rparr>"

definition used :: "taker_input \<Rightarrow> engine_fill \<Rightarrow> rat" where
  "used taker f = (if isBudgetDriven taker then fill_quote f else fill_quantity f)"

fun allocate ::
  "rounding \<Rightarrow> taker_input \<Rightarrow> market_params \<Rightarrow> rat \<Rightarrow> resting_order list \<Rightarrow> engine_fill list" where
  "allocate D taker params rem [] = []"
| "allocate D taker params rem (m # ms) =
     (let f = fill_of D taker params rem m
      in if rem \<le> 0 \<or> fill_quantity f \<le> 0 \<or> fill_quote f \<le> 0 then []
         else f # allocate D taker params (rem - used taker f) ms)"

definition wanted :: "taker_input \<Rightarrow> market_params \<Rightarrow> rat" where
  "wanted taker params =
     (if isBudgetDriven taker then floorTo (or0 (taker_budget taker)) (quote_scale params)
      else floorTo (or0 (taker_quantity taker)) (base_scale params))"

definition sum_qty :: "engine_fill list \<Rightarrow> rat" where "sum_qty fs = sum_list (map fill_quantity fs)"
definition sum_quote :: "engine_fill list \<Rightarrow> rat" where "sum_quote fs = sum_list (map fill_quote fs)"
definition sum_used :: "taker_input \<Rightarrow> engine_fill list \<Rightarrow> rat" where
  "sum_used taker fs = sum_list (map (used taker) fs)"

lemma sum_simps [simp]: "sum_qty [] = 0" "sum_quote [] = 0" "sum_used taker [] = 0"
  "sum_qty (f # fs) = fill_quantity f + sum_qty fs" "sum_quote (f # fs) = fill_quote f + sum_quote fs"
  "sum_used taker (f # fs) = used taker f + sum_used taker fs"
  "sum_qty (fs @ gs) = sum_qty fs + sum_qty gs" "sum_quote (fs @ gs) = sum_quote fs + sum_quote gs"
  by (simp_all add: sum_qty_def sum_quote_def sum_used_def)

lemma sum_used_alt: "sum_used taker fs = (if isBudgetDriven taker then sum_quote fs else sum_qty fs)"
  by (induction fs) (auto simp: used_def)

section \<open>The loop computes the specification\<close>

text \<open>The remainder the loop carries for the taker's native unit.\<close>

definition rem_of :: "taker_input \<Rightarrow> loop_state \<Rightarrow> rat" where
  "rem_of taker st = (if isBudgetDriven taker then remainingBudget st else remainingQty st)"

definition rem_scale :: "taker_input \<Rightarrow> market_params \<Rightarrow> nat" where
  "rem_scale taker params = (if isBudgetDriven taker then quote_scale params else base_scale params)"

text \<open>
  The sizes stay within the digits the decimal package keeps: the remainder of a budget below
  \<open>10 ^ 18\<close> units (a quotient by the price is rounded), any other remainder, and the total
  size and value of the book below \<open>10 ^ 20\<close> units.
\<close>

definition rem_fits :: "taker_input \<Rightarrow> market_params \<Rightarrow> rat \<Rightarrow> bool" where
  "rem_fits taker params rem \<longleftrightarrow> grid (rem_scale taker params) rem \<and> 0 \<le> rem \<and>
     rem * 10 ^ rem_scale taker params < (if isBudgetDriven taker then 10 ^ 18 else 10 ^ 20)"

definition book_size :: "market_params \<Rightarrow> resting_order list \<Rightarrow> rat" where
  "book_size params ms = sum_list (map (avail params) ms)"

definition book_value :: "rounding \<Rightarrow> market_params \<Rightarrow> resting_order list \<Rightarrow> rat" where
  "book_value D params ms =
     sum_list (map (\<lambda>m. floorTo (dmul D (avail params m) (ro_price m)) (quote_scale params)) ms)"

definition good_book :: "resting_order list \<Rightarrow> bool" where
  "good_book book \<longleftrightarrow> (\<forall>m \<in> set book. 0 < ro_price m \<and> 0 \<le> ro_remaining m)"

lemma floorTo_less_unit:
  assumes "grid s g" and "0 \<le> x" and "x < g + 1 / 10 ^ s" shows "floorTo x s \<le> g"
proof -
  obtain k :: int where k: "g = of_int k / 10 ^ s" using assms(1) by (rule gridE)
  have "x * 10 ^ s < (g + 1 / 10 ^ s) * 10 ^ s" using assms(3) by simp
  also have "\<dots> = of_int k + 1" by (simp add: k algebra_simps)
  finally have "\<lfloor>x * 10 ^ s\<rfloor> \<le> k" by linarith
  then show ?thesis using assms(2) by (simp add: floorTo_def k divide_right_mono)
qed

lemma floorTo_mono': "0 \<le> x \<Longrightarrow> x \<le> y \<Longrightarrow> floorTo x s \<le> floorTo y s"
  by (rule floorTo_mono)

text \<open>Rounding a product of a rounded quotient cannot overshoot the budget by a whole unit.\<close>

lemma budget_quote_le:
  assumes D: "decimal_context D" and rem: "grid s rem" "0 \<le> rem" "rem * 10 ^ s < 10 ^ 18"
    and p: "0 < p" and q: "0 \<le> q" "q \<le> floorTo (ddiv D rem p) b"
  shows "floorTo (dmul D q p) s \<le> rem"
proof (rule floorTo_less_unit [OF rem(1)])
  let ?e = "1 / 10 ^ 19 :: rat"
  have up: "D x \<le> x * (1 + ?e)" if "0 \<le> x" for x
  proof -
    have "D x - x \<le> \<bar>D x - x\<bar>" by simp
    also have "\<dots> \<le> x / 10 ^ 19" using decimal_error [OF D, of x] that by simp
    finally show ?thesis by (simp add: field_simps)
  qed
  have quo: "0 \<le> D (rem / p)" using rem(2) p by (intro decimal_nonneg [OF D]) simp_all
  have "q \<le> D (rem / p)" using q(2) floorTo_le [OF quo, of b] by (simp add: ddiv_def)
  also have "\<dots> \<le> rem / p * (1 + ?e)" by (rule up) (use rem(2) p in simp)
  finally have "q * p \<le> rem / p * (1 + ?e) * p" using p by (intro mult_right_mono) simp_all
  then have qp: "q * p \<le> rem * (1 + ?e)" using p by simp
  have "D (q * p) \<le> q * p * (1 + ?e)" by (rule up) (use q(1) p in simp)
  also have "\<dots> \<le> rem * (1 + ?e) * (1 + ?e)" using qp by (intro mult_right_mono) simp_all
  also have "\<dots> = rem + rem * (2 * ?e + ?e * ?e)" by (simp add: algebra_simps)
  also have "rem * (2 * ?e + ?e * ?e) < 1 / 10 ^ s"
  proof -
    have "rem * (2 * ?e + ?e * ?e) \<le> rem * (1 / 10 ^ 18)"
      using rem(2) by (intro mult_left_mono) simp_all
    also have "\<dots> < 1 / 10 ^ s" using rem(3) by (simp add: field_simps)
    finally show ?thesis .
  qed
  finally show "dmul D q p < rem + 1 / 10 ^ s" by (simp add: dmul_def)
  show "0 \<le> dmul D q p" using D q(1) p by (simp add: dmul_def decimal_nonneg [OF D])
qed


lemma take_facts:
  assumes D: "decimal_context D" and rem: "rem_fits taker params rem"
    and m: "0 < ro_price m" "0 \<le> ro_remaining m"
  shows "0 \<le> take_qty D taker params rem m" (is ?q0)
    and "take_qty D taker params rem m \<le> avail params m" (is ?q1)
    and "grid (base_scale params) (take_qty D taker params rem m)" (is ?q2)
    and "0 \<le> take_quote D taker params rem m" (is ?a0)
    and "grid (quote_scale params) (take_quote D taker params rem m)" (is ?a1)
    and "take_quote D taker params rem m \<le>
      floorTo (dmul D (avail params m) (ro_price m)) (quote_scale params)" (is ?a2)
    and "used taker (fill_of D taker params rem m) \<le> rem" (is ?u)
proof -
  have r: "0 \<le> rem" "grid (rem_scale taker params) rem" using rem by (simp_all add: rem_fits_def)
  have av: "0 \<le> avail params m" "grid (base_scale params) (avail params m)"
    using m by (simp_all add: avail_def grid_floorTo)
  have quo: "0 \<le> ddiv D rem (ro_price m)"
    using D r m by (simp add: ddiv_def decimal_nonneg [OF D])
  show q0: ?q0 using av r quo by (simp add: take_qty_def)
  show q1: ?q1 by (simp add: take_qty_def)
  show ?q2 using av r by (auto simp: take_qty_def rem_scale_def split: if_splits
      intro!: grid_min grid_floorTo)
  have prod: "0 \<le> take_qty D taker params rem m * ro_price m" using q0 m by simp
  show ?a0 using D prod by (simp add: take_quote_def dmul_def decimal_nonneg [OF D])
  show ?a1 by (simp add: take_quote_def grid_floorTo)
  have "take_qty D taker params rem m * ro_price m \<le> avail params m * ro_price m"
    using q1 m by (intro mult_right_mono) simp_all
  then show ?a2 unfolding take_quote_def dmul_def
    by (rule floorTo_mono [OF decimal_nonneg [OF D prod] decimal_mono [OF D]])
  show ?u
  proof (cases "isBudgetDriven taker")
    case True
    then have "take_qty D taker params rem m \<le>
        floorTo (ddiv D rem (ro_price m)) (base_scale params)"
      using m by (simp add: take_qty_def)
    then show ?thesis using True rem q0 m(1) budget_quote_le [OF D]
      by (simp add: used_def fill_of_def take_quote_def rem_fits_def rem_scale_def)
  qed (simp add: used_def fill_of_def take_qty_def)
qed

lemma fill_of_simps [simp]:
  "fill_maker (fill_of D taker params rem m) = ro_id m"
  "fill_maker_user (fill_of D taker params rem m) = ro_user m"
  "fill_price (fill_of D taker params rem m) = ro_price m"
  "fill_quantity (fill_of D taker params rem m) = take_qty D taker params rem m"
  "fill_quote (fill_of D taker params rem m) = take_quote D taker params rem m"
  by (simp_all add: fill_of_def)

lemma decide_fill_spec:
  "decide_fill D taker params st m =
     (let rem = rem_of taker st; q = take_qty D taker params rem m;
          a = take_quote D taker params rem m
      in if \<not> reaches taker m then Break else if avail params m \<le> 0 then Continue
         else if rem \<le> 0 \<or> q \<le> 0 \<or> a \<le> 0 then Break else Fill q a)"
proof -
  have reach: "(taker_type taker \<noteq> MARKET \<and> (case taker_price taker of None \<Rightarrow> False
      | Some p \<Rightarrow> \<not> crosses (taker_side taker) p (ro_price m))) \<longleftrightarrow> \<not> reaches taker m"
    by (simp add: reaches_def split: option.split)
  show ?thesis
    by (cases "isBudgetDriven taker"; cases "avail params m \<le> 0")
      (simp_all add: decide_fill_def reach Let_def take_quote_def take_qty_def rem_of_def
        flip: avail_def)
qed

lemma apply_fill_spec:
  assumes D: "decimal_context D" and rem: "rem_fits taker params (rem_of taker st)"
    and m: "0 < ro_price m" "0 \<le> ro_remaining m"
    and f: "f = fill_of D taker params (rem_of taker st) m"
    and filled: "grid (base_scale params) (filledQuantity st)" "0 \<le> filledQuantity st"
      "(filledQuantity st + avail params m) * 10 ^ base_scale params < 10 ^ 20"
    and quote: "grid (quote_scale params) (quoteTotal st)" "0 \<le> quoteTotal st"
      "(quoteTotal st + floorTo (dmul D (avail params m) (ro_price m)) (quote_scale params))
         * 10 ^ quote_scale params < 10 ^ 20"
    and st': "st' = apply_fill D taker params m (fill_quantity f) (fill_quote f) st"
  shows "fills st' = fills st @ [f]"
    and "filledQuantity st' = filledQuantity st + fill_quantity f"
    and "quoteTotal st' = quoteTotal st + fill_quote f"
    and "rem_of taker st' = rem_of taker st - used taker f"
    and "rem_fits taker params (rem_of taker st')"
proof -
  note t = take_facts [OF D rem m]
  show "fills st' = fills st @ [f]"
    using t by (simp add: st' f apply_fill_def toFixed_grid fill_of_def)
  have "fits20 (base_scale params) (filledQuantity st + take_qty D taker params (rem_of taker st) m)"
  proof -
    have "(filledQuantity st + take_qty D taker params (rem_of taker st) m) *
        10 ^ base_scale params < 10 ^ 20"
      by (rule scaled_less [OF filled(3)]) (use t(2) in simp)
    then show ?thesis using filled(1,2) t(1,3) by (simp add: fits20_def grid_add)
  qed
  then show "filledQuantity st' = filledQuantity st + fill_quantity f"
    using D by (simp add: st' f apply_fill_def dadd_def decimal_exact)
  have "fits20 (quote_scale params) (quoteTotal st + take_quote D taker params (rem_of taker st) m)"
  proof -
    have "(quoteTotal st + take_quote D taker params (rem_of taker st) m) *
        10 ^ quote_scale params < 10 ^ 20"
      by (rule scaled_less [OF quote(3)]) (use t(6) in simp)
    then show ?thesis using quote(1,2) t(4,5) by (simp add: fits20_def grid_add)
  qed
  then show "quoteTotal st' = quoteTotal st + fill_quote f"
    using D by (simp add: st' f apply_fill_def dadd_def decimal_exact)
  have fits: "fits20 (rem_scale taker params) (rem_of taker st)"
    using rem by (auto simp: rem_fits_def fits20_def split: if_splits)
  have u: "0 \<le> used taker f" "grid (rem_scale taker params) (used taker f)"
    "used taker f \<le> rem_of taker st"
    using t by (auto simp: f used_def rem_scale_def)
  then have "dsub D (rem_of taker st) (used taker f) = rem_of taker st - used taker f"
    using D fits by (intro dsub_exact)
  then show r: "rem_of taker st' = rem_of taker st - used taker f"
    by (auto simp: st' f apply_fill_def rem_of_def used_def)
  have "(rem_of taker st - used taker f) * 10 ^ rem_scale taker params <
      (if isBudgetDriven taker then 10 ^ 18 else 10 ^ 20)"
    by (rule scaled_less [where b = "rem_of taker st"]) (use rem u(1) in \<open>simp_all add: rem_fits_def\<close>)
  then show "rem_fits taker params (rem_of taker st')"
    using rem u(2,3) unfolding r rem_fits_def by (simp add: grid_diff)
qed

text \<open>Everything the proofs below assume of a state and the rest of the book.\<close>

definition loop_ok ::
  "rounding \<Rightarrow> taker_input \<Rightarrow> market_params \<Rightarrow> loop_state \<Rightarrow> resting_order list \<Rightarrow> bool" where
  "loop_ok D taker params st book \<longleftrightarrow> good_book book \<and> rem_fits taker params (rem_of taker st) \<and>
     grid (base_scale params) (filledQuantity st) \<and> 0 \<le> filledQuantity st \<and>
     (filledQuantity st + book_size params book) * 10 ^ base_scale params < 10 ^ 20 \<and>
     grid (quote_scale params) (quoteTotal st) \<and> 0 \<le> quoteTotal st \<and>
     (quoteTotal st + book_value D params book) * 10 ^ quote_scale params < 10 ^ 20"

lemma avail_nonneg: "0 \<le> ro_remaining m \<Longrightarrow> 0 \<le> avail params m"
  by (simp add: avail_def)

lemma book_nonneg:
  assumes "decimal_context D" and "good_book book"
  shows "0 \<le> book_size params book" and "0 \<le> book_value D params book"
  using assms(2)
  by (auto simp: book_size_def book_value_def good_book_def dmul_def avail_nonneg less_imp_le
      intro!: sum_list_nonneg floorTo_nonneg decimal_nonneg [OF assms(1)] mult_nonneg_nonneg)

lemma loop_ok_Cons:
  assumes D: "decimal_context D" and ok: "loop_ok D taker params st (m # book)"
  shows "loop_ok D taker params st book"
    and "f = fill_of D taker params (rem_of taker st) m \<Longrightarrow>
      st' = apply_fill D taker params m (fill_quantity f) (fill_quote f) st \<Longrightarrow>
      loop_ok D taker params st' book \<and> fills st' = fills st @ [f] \<and>
      filledQuantity st' = filledQuantity st + fill_quantity f \<and>
      quoteTotal st' = quoteTotal st + fill_quote f \<and>
      rem_of taker st' = rem_of taker st - used taker f"
proof -
  have good: "good_book book" "0 < ro_price m" "0 \<le> ro_remaining m"
    using ok by (auto simp: loop_ok_def good_book_def)
  note nn = book_nonneg [OF D good(1), of params]
  let ?v = "floorTo (dmul D (avail params m) (ro_price m)) (quote_scale params)"
  have av: "0 \<le> avail params m" using good(3) by (rule avail_nonneg)
  have v: "0 \<le> ?v" using D av good(2) by (simp add: dmul_def decimal_nonneg [OF D])
  have b1: "(filledQuantity st + (avail params m + book_size params book)) *
      10 ^ base_scale params < 10 ^ 20"
    and b2: "(quoteTotal st + (?v + book_value D params book)) * 10 ^ quote_scale params < 10 ^ 20"
    using ok by (simp_all add: loop_ok_def book_size_def book_value_def)
  show "loop_ok D taker params st book"
    using ok good(1) av v scaled_less [OF b1] scaled_less [OF b2] by (simp add: loop_ok_def)
  assume f: "f = fill_of D taker params (rem_of taker st) m"
    and st': "st' = apply_fill D taker params m (fill_quantity f) (fill_quote f) st"
  have rem: "rem_fits taker params (rem_of taker st)" using ok by (simp add: loop_ok_def)
  note t = take_facts [OF D rem good(2,3)]
  have "(filledQuantity st + avail params m) * 10 ^ base_scale params < 10 ^ 20"
    by (rule scaled_less [OF b1]) (use nn in simp)
  moreover have "(quoteTotal st + ?v) * 10 ^ quote_scale params < 10 ^ 20"
    by (rule scaled_less [OF b2]) (use nn in simp)
  ultimately have s: "fills st' = fills st @ [f]"
     "filledQuantity st' = filledQuantity st + fill_quantity f"
     "quoteTotal st' = quoteTotal st + fill_quote f"
     "rem_of taker st' = rem_of taker st - used taker f"
     "rem_fits taker params (rem_of taker st')"
    using apply_fill_spec [OF D rem good(2,3) f _ _ _ _ _ _ st'] ok by (auto simp: loop_ok_def)
  have "(filledQuantity st' + book_size params book) * 10 ^ base_scale params < 10 ^ 20"
    by (rule scaled_less [OF b1]) (use t in \<open>simp add: s f\<close>)
  moreover have "(quoteTotal st' + book_value D params book) * 10 ^ quote_scale params < 10 ^ 20"
    by (rule scaled_less [OF b2]) (use t in \<open>simp add: s f\<close>)
  ultimately have "loop_ok D taker params st' book"
    using ok good(1) t s(5) unfolding loop_ok_def
    by (auto simp: s(2,3) f intro!: grid_add add_nonneg_nonneg)
  then show "loop_ok D taker params st' book \<and> fills st' = fills st @ [f] \<and>
      filledQuantity st' = filledQuantity st + fill_quantity f \<and>
      quoteTotal st' = quoteTotal st + fill_quote f \<and>
      rem_of taker st' = rem_of taker st - used taker f"
    using s by simp
qed

lemma match_loop_allocate:
  assumes D: "decimal_context D" and "loop_ok D taker params st book"
    and "new = allocate D taker params (rem_of taker st) (live_book taker params book)"
    and "st' = match_loop D taker params st book"
  shows "fills st' = fills st @ new \<and> filledQuantity st' = filledQuantity st + sum_qty new \<and>
    quoteTotal st' = quoteTotal st + sum_quote new \<and>
    rem_of taker st' = rem_of taker st - sum_used taker new \<and> loop_ok D taker params st' []"
  using assms(2-)
proof (induction book arbitrary: st new)
  case Nil
  then show ?case by (simp add: live_book_def)
next
  case (Cons m book)
  let ?f = "fill_of D taker params (rem_of taker st) m"
  let ?st = "apply_fill D taker params m (fill_quantity ?f) (fill_quote ?f) st"
  have ok: "loop_ok D taker params st book" using loop_ok_Cons(1) [OF D Cons.prems(1)] .
  have end_ok: "loop_ok D taker params st []"
  proof -
    have "loop_ok D taker params st bs \<Longrightarrow> loop_ok D taker params st []" for bs
      by (induction bs) (auto dest: loop_ok_Cons(1) [OF D])
    then show ?thesis using ok by blast
  qed
  consider "\<not> reaches taker m" | "reaches taker m" "avail params m \<le> 0"
    | "reaches taker m" "0 < avail params m" "decide_fill D taker params st m = Break"
    | "reaches taker m" "0 < avail params m"
      "decide_fill D taker params st m = Fill (fill_quantity ?f) (fill_quote ?f)"
  proof -
    have "decide_fill D taker params st m \<in> {Break, Fill (fill_quantity ?f) (fill_quote ?f)}"
      if "reaches taker m" "0 < avail params m" using that by (simp add: decide_fill_spec Let_def)
    then show ?thesis using that not_less by blast
  qed
  then show ?case
  proof cases
    case 1
    then show ?thesis using Cons.prems end_ok by (simp add: decide_fill_spec live_book_def)
  next
    case 2
    show ?thesis
      by (rule Cons.IH [OF ok]) (use Cons.prems 2 in \<open>simp_all add: decide_fill_spec live_book_def\<close>)
  next
    case 3
    then have "rem_of taker st \<le> 0 \<or> fill_quantity ?f \<le> 0 \<or> fill_quote ?f \<le> 0"
      by (simp add: decide_fill_spec Let_def split: if_splits)
    then show ?thesis using 3 Cons.prems end_ok by (simp add: live_book_def)
  next
    case 4
    then have nz: "\<not> (rem_of taker st \<le> 0 \<or> fill_quantity ?f \<le> 0 \<or> fill_quote ?f \<le> 0)"
      by (simp add: decide_fill_spec Let_def split: if_splits)
    note s = loop_ok_Cons(2) [OF D Cons.prems(1) refl refl]
    have "live_book taker params (m # book) = m # live_book taker params book"
      using 4 by (simp add: live_book_def)
    then have "new = ?f # allocate D taker params (rem_of taker ?st) (live_book taker params book)"
      using nz s Cons.prems(2) by (simp add: Let_def)
    then show ?thesis using 4 s Cons.IH [of ?st, OF _ refl] Cons.prems(3)
      by simp
  qed
qed

section \<open>What the specification promises\<close>

lemma allocate_prefix:
  "length (allocate D taker params rem ms) \<le> length ms"
  by (induction ms arbitrary: rem) (auto simp: Let_def)

lemma allocate_nth:
  assumes "i < length (allocate D taker params rem ms)"
  shows "let fs = allocate D taker params rem ms; left = rem - sum_used taker (take i fs)
    in fs ! i = fill_of D taker params left (ms ! i) \<and> 0 < left \<and>
       0 < fill_quantity (fs ! i) \<and> 0 < fill_quote (fs ! i)"
  using assms
proof (induction ms arbitrary: rem i)
  case Nil
  then show ?case by simp
next
  case (Cons m ms)
  let ?f = "fill_of D taker params rem m"
  from Cons.prems have pos: "\<not> (rem \<le> 0 \<or> fill_quantity ?f \<le> 0 \<or> fill_quote ?f \<le> 0)"
    by (auto simp: Let_def)
  then have al: "allocate D taker params rem (m # ms) =
      ?f # allocate D taker params (rem - used taker ?f) ms" by (simp add: Let_def)
  show ?case
  proof (cases i)
    case 0
    then show ?thesis using pos al by (simp add: Let_def)
  next
    case (Suc j)
    then have "j < length (allocate D taker params (rem - used taker ?f) ms)"
      using Cons.prems al by simp
    from Cons.IH [OF this] show ?thesis unfolding Suc al
      by (auto simp: Let_def diff_diff_eq simp del: fill_of_simps)
  qed
qed

lemma allocate_stop:
  assumes "length (allocate D taker params rem ms) < length ms"
  shows "let fs = allocate D taker params rem ms; left = rem - sum_used taker fs;
      f = fill_of D taker params left (ms ! length fs)
    in left \<le> 0 \<or> fill_quantity f \<le> 0 \<or> fill_quote f \<le> 0"
  using assms
proof (induction ms arbitrary: rem)
  case Nil
  then show ?case by simp
next
  case (Cons m ms)
  let ?f = "fill_of D taker params rem m"
  show ?case
  proof (cases "rem \<le> 0 \<or> fill_quantity ?f \<le> 0 \<or> fill_quote ?f \<le> 0")
    case True
    then show ?thesis by (simp add: Let_def)
  next
    case False
    then have al: "allocate D taker params rem (m # ms) =
      ?f # allocate D taker params (rem - used taker ?f) ms" by (simp add: Let_def)
    then have "length (allocate D taker params (rem - used taker ?f) ms) < length ms"
      using Cons.prems by simp
    from Cons.IH [OF this] show ?thesis using al by (simp add: Let_def algebra_simps)
  qed
qed

text \<open>With a quantity to fill, only the last maker can be left with something on offer.\<close>

lemma allocate_consumes:
  assumes "\<not> isBudgetDriven taker" and "Suc i < length (allocate D taker params rem ms)"
  shows "fill_quantity (allocate D taker params rem ms ! i) = avail params (ms ! i)"
proof -
  let ?fs = "allocate D taker params rem ms"
  have i: "i < length ?fs" using assms(2) by simp
  let ?left = "rem - sum_used taker (take i ?fs)"
  have q: "fill_quantity (?fs ! i) = min (avail params (ms ! i)) ?left"
    using allocate_nth [OF i] assms(1) by (auto simp: Let_def take_qty_def)
  have "0 < rem - sum_used taker (take (Suc i) ?fs)"
    using allocate_nth [OF assms(2)] by (simp add: Let_def)
  moreover have "sum_used taker (take (Suc i) ?fs) =
      sum_used taker (take i ?fs) + fill_quantity (?fs ! i)"
    using assms(1) i by (simp only: take_Suc_conv_app_nth [OF i] sum_used_alt) simp
  ultimately have "fill_quantity (?fs ! i) < ?left" by linarith
  then show ?thesis unfolding q by (simp add: min_def split: if_splits)
qed

section \<open>The engine\<close>

definition engine_ok :: "rounding \<Rightarrow> taker_input \<Rightarrow> resting_order list \<Rightarrow> market_params \<Rightarrow> bool" where
  "engine_ok D taker book params \<longleftrightarrow> good_book book \<and> rem_fits taker params (wanted taker params) \<and>
     book_size params book * 10 ^ base_scale params < 10 ^ 20 \<and>
     book_value D params book * 10 ^ quote_scale params < 10 ^ 20"

lemma matchOrder_allocate:
  assumes D: "decimal_context D" and "engine_ok D taker book params"
    and res: "res = matchOrder D taker book params"
  shows "res_fills res = allocate D taker params (wanted taker params) (live_book taker params book) \<and>
    res_filled res = sum_qty (res_fills res) \<and> res_quote res = sum_quote (res_fills res) \<and>
    sum_used taker (res_fills res) \<le> wanted taker params"
proof -
  let ?st = "initial_state taker params"
  have rem: "rem_of taker ?st = wanted taker params"
    by (simp add: rem_of_def initial_state_def wanted_def)
  have "loop_ok D taker params ?st book"
    using assms(2) rem by (simp add: loop_ok_def engine_ok_def initial_state_def)
  from match_loop_allocate [OF D this refl refl]
  have m: "fills (match_loop D taker params ?st book) =
      allocate D taker params (wanted taker params) (live_book taker params book)"
    "filledQuantity (match_loop D taker params ?st book) =
       sum_qty (fills (match_loop D taker params ?st book))"
    "quoteTotal (match_loop D taker params ?st book) =
       sum_quote (fills (match_loop D taker params ?st book))"
    "loop_ok D taker params (match_loop D taker params ?st book) []"
    "rem_of taker (match_loop D taker params ?st book) =
      wanted taker params - sum_used taker (fills (match_loop D taker params ?st book))"
    by (simp_all add: rem) (simp_all add: initial_state_def)
  have left: "0 \<le> rem_of taker (match_loop D taker params ?st book)"
    using m(4) by (simp add: loop_ok_def rem_fits_def)
  then show ?thesis using m left
    by (simp add: res matchOrder_def Let_def toFixed_grid loop_ok_def)
qed

section \<open>Locks cover what matching spends\<close>

lemma rem_fits_used:
  assumes D: "decimal_context D" and rem: "rem_fits taker params rem"
    and m: "0 < ro_price m" "0 \<le> ro_remaining m"
  shows "rem_fits taker params (rem - used taker (fill_of D taker params rem m))"
proof -
  let ?u = "used taker (fill_of D taker params rem m)"
  note t = take_facts [OF D rem m]
  have u: "0 \<le> ?u" "grid (rem_scale taker params) ?u"
    using t by (auto simp: used_def rem_scale_def)
  have "(rem - ?u) * 10 ^ rem_scale taker params < (if isBudgetDriven taker then 10 ^ 18 else 10 ^ 20)"
    by (rule scaled_less [where b = rem]) (use rem u(1) in \<open>simp_all add: rem_fits_def\<close>)
  then show ?thesis using rem u(2) t(7) unfolding rem_fits_def by (simp add: grid_diff)
qed

lemma live_book_set: "m \<in> set (live_book taker params book) \<Longrightarrow>
    m \<in> set book \<and> reaches taker m \<and> 0 < avail params m"
  by (auto simp: live_book_def dest: set_takeWhileD)

lemma good_live_book: "good_book book \<Longrightarrow> good_book (live_book taker params book)"
  by (auto simp: good_book_def dest: live_book_set)

lemma sum_quote_le:
  assumes "\<And>f. f \<in> set fs \<Longrightarrow> fill_quote f \<le> fill_quantity f * p"
  shows "sum_quote fs \<le> sum_qty fs * p"
  using assms by (induction fs) (auto simp: algebra_simps intro!: add_mono)

lemma fill_quote_le:
  assumes D: "decimal_context D" and rem: "rem_fits taker params rem" and taker: "\<not> isBudgetDriven taker"
    and m: "0 < ro_price m" "ro_price m \<le> P" "0 \<le> ro_remaining m"
    and P: "grid ps P" and fits: "rem \<le> Q" "P * Q * 10 ^ (ps + base_scale params) < 10 ^ 20"
  shows "take_quote D taker params rem m \<le> take_qty D taker params rem m * P"
proof -
  let ?q = "take_qty D taker params rem m"
  note t = take_facts [OF D rem m(1,3)]
  have "?q \<le> rem" using t(7) taker by (simp add: used_def)
  then have "?q * P \<le> P * Q"
    using m fits(1) by (simp add: mult.commute mult_left_mono)
  then have "?q * P * 10 ^ (ps + base_scale params) < 10 ^ 20"
    by (rule scaled_less [OF fits(2)])
  moreover have "grid (ps + base_scale params) (?q * P)"
    using grid_mult [OF P t(3)] by (simp add: mult.commute)
  ultimately have exact: "D (?q * P) = ?q * P"
    using D t(1) m by (intro decimal_exact [OF D]) (simp add: fits20_def)
  have "0 \<le> D (?q * ro_price m)" using t(1) m by (intro decimal_nonneg [OF D]) simp
  then have "take_quote D taker params rem m \<le> D (?q * ro_price m)"
    by (simp add: take_quote_def dmul_def floorTo_le)
  also have "\<dots> \<le> D (?q * P)" using t(1) m by (intro decimal_mono [OF D] mult_left_mono) simp_all
  finally show ?thesis using exact by simp
qed

text \<open>The invariant remainder never exceeds what was wanted.\<close>

lemma allocate_left_le:
  assumes D: "decimal_context D" and "rem_fits taker params rem" and "good_book ms"
    and "f \<in> set (allocate D taker params rem ms)"
  shows "\<exists>m \<in> set ms. \<exists>left. rem_fits taker params left \<and> left \<le> rem \<and>
    f = fill_of D taker params left m"
  using assms(2-)
proof (induction ms arbitrary: rem)
  case Nil
  then show ?case by simp
next
  case (Cons m ms)
  have m: "0 < ro_price m" "0 \<le> ro_remaining m" and good: "good_book ms"
    using Cons.prems(2) by (auto simp: good_book_def)
  have u: "0 \<le> used taker (fill_of D taker params rem m)"
    using take_facts [OF D Cons.prems(1) m] by (simp add: used_def)
  show ?case
    using Cons.prems Cons.IH [OF rem_fits_used [OF D Cons.prems(1) m] good] u
    by (fastforce simp: Let_def split: if_splits)
qed

lemma limit_buy_spend:
  assumes D: "decimal_context D" and ok: "engine_ok D taker book params"
    and taker: "taker_side taker = BUY" "taker_type taker \<noteq> MARKET" "taker_price taker = Some P"
      "taker_quantity taker = Some Q"
    and grids: "grid ps P" "grid (base_scale params) Q" and pos: "0 \<le> P" "0 \<le> Q"
    and fits: "P * Q * 10 ^ (ps + base_scale params) < 10 ^ 20"
  shows "res_quote (matchOrder D taker book params) \<le> P * Q"
proof -
  let ?fs = "allocate D taker params (wanted taker params) (live_book taker params book)"
  have nb: "\<not> isBudgetDriven taker" using taker by (simp add: isBudgetDriven_def)
  have w: "wanted taker params = Q" using nb taker grids by (simp add: wanted_def floorTo_grid)
  note m = matchOrder_allocate [OF D ok refl]
  have rem: "rem_fits taker params (wanted taker params)" and good: "good_book book"
    using ok by (simp_all add: engine_ok_def)
  have "fill_quote f \<le> fill_quantity f * P" if f: "f \<in> set ?fs" for f
  proof -
    obtain l left where l: "l \<in> set (live_book taker params book)" "rem_fits taker params left"
      "left \<le> wanted taker params" "f = fill_of D taker params left l"
      using allocate_left_le [OF D rem good_live_book [OF good] f] by blast
    have "reaches taker l" "l \<in> set book" using live_book_set [OF l(1)] by auto
    then have "ro_price l \<le> P" "0 < ro_price l" "0 \<le> ro_remaining l"
      using taker good by (auto simp: reaches_def crosses_def good_book_def)
    then show ?thesis
      using fill_quote_le [OF D l(2) nb _ _ _ grids(1) _ fits] l(3) by (simp add: l(4) w)
  qed
  then have quote: "sum_quote ?fs \<le> sum_qty ?fs * P" by (rule sum_quote_le)
  have mf: "res_fills (matchOrder D taker book params) = ?fs" using m by blast
  have "sum_used taker ?fs \<le> wanted taker params" using m unfolding mf by blast
  then have "sum_qty ?fs \<le> Q" by (simp add: sum_used_alt nb w)
  then have "sum_qty ?fs * P \<le> Q * P" using pos by (intro mult_right_mono)
  with quote have "sum_quote ?fs \<le> P * Q" by (simp add: mult.commute)
  moreover have "res_quote (matchOrder D taker book params) = sum_quote ?fs"
    using m unfolding mf by blast
  ultimately show ?thesis by simp
qed

end
