(* ===== verification/Trading.thy ===== *)
theory Trading
  imports Ledger Trading_Engine "HOL-Library.Word" "HOL-Library.Code_Target_Nat"
begin

text \<open>
  Spot trading: \<open>modules/trading/trading.service.ts\<close> and \<open>trading.repository.ts\<close>.  An order
  is written PENDING, its funds are locked in the ledger (OPEN), it is matched against the
  resting orders of the other side and every fill is settled in the ledger and recorded as a
  trade; an order that closes gives back what its lock did not spend.

  \<open>placeOrder\<close> is split where the source waits for the market lock: \<open>placeOrder_lock\<close> runs
  before the wait, \<open>placeOrder_match\<close> after it, and another user's calls may run in between.
  The CHECK constraints and unique keys the migrations put on \<open>orders\<close> and \<open>trades\<close> are part
  of the writes.  A time in force other than GTC does not exist in the code and is left out;
  of the metadata of audit rows only the action and the entity are kept.
\<close>

unbundle bit_operations_syntax

section \<open>Data transfer objects\<close>

record order_fill_dto =
  ofd_trade :: nat
  ofd_price :: rat
  ofd_quantity :: rat
  ofd_quote :: rat

record order_dto =
  od_id :: nat
  od_symbol :: string
  od_side :: order_side
  od_type :: order_type
  od_price :: "rat option"
  od_quantity :: "rat option"
  od_budget :: "rat option"
  od_filled :: rat
  od_spent :: rat
  od_locked_asset :: "string option"
  od_locked :: "rat option"
  od_status :: order_status
  od_client :: "string option"
  od_created :: nat
  od_closed :: "nat option"
  od_fills :: "order_fill_dto list option"

text \<open>\<open>toFixed()\<close> without an argument writes the number out exactly.\<close>

definition toOrderDto :: "order \<Rightarrow> market option \<Rightarrow> order_fill_dto list option \<Rightarrow> order_dto" where
  "toOrderDto ord m fs =
     \<lparr>od_id = order_id ord,
      od_symbol = (case m of None \<Rightarrow> [] | Some mk \<Rightarrow> market_symbol mk),
      od_side = order_side ord, od_type = order_type ord, od_price = order_price ord,
      od_quantity = order_quantity ord, od_budget = quote_budget ord,
      od_filled = filled_quantity ord, od_spent = quote_spent ord,
      od_locked_asset = locked_asset ord, od_locked = locked_amount ord,
      od_status = order_status ord, od_client = client_order_id ord,
      od_created = order_created ord, od_closed = order_closed ord, od_fills = fs\<rparr>"

section \<open>Identifiers of fills\<close>

text \<open>
  A UUID column holds a 128-bit number; \<open>uuid_text\<close> is the text the source interpolates.  The
  hash \<open>createHash('sha1')\<close> of \<open>node:crypto\<close> is the parameter \<open>sha1\<close>, its digest a list of
  bytes.
\<close>

definition hex_digit :: "nat \<Rightarrow> char" where
  "hex_digit n = ''0123456789abcdef'' ! (n mod 16)"

fun hex_digits :: "nat \<Rightarrow> nat \<Rightarrow> string" where
  "hex_digits 0 n = []"
| "hex_digits (Suc k) n = hex_digits k (n div 16) @ [hex_digit n]"

definition uuid_text :: "nat \<Rightarrow> string" where
  "uuid_text n =
     (let h = hex_digits 32 n; slice = (\<lambda>i j. take (j - i) (drop i h))
      in slice 0 8 @ ''-'' @ slice 8 12 @ ''-'' @ slice 12 16 @ ''-'' @ slice 16 20 @ ''-''
           @ slice 20 32)"

definition uuid_bytes :: "(string \<Rightarrow> 8 word list) \<Rightarrow> string \<Rightarrow> 8 word list" where
  "uuid_bytes sha1 seed =
     (let b = take 16 (sha1 seed)
      in b[6 := (b ! 6 AND 0x0f) OR 0x50, 8 := (b ! 8 AND 0x3f) OR 0x80])"

definition deterministicUuid :: "(string \<Rightarrow> 8 word list) \<Rightarrow> string \<Rightarrow> nat" where
  "deterministicUuid sha1 seed =
     foldl (\<lambda>n b. n * 256 + unat b) 0 (uuid_bytes sha1 seed)"

definition fillId :: "order \<Rightarrow> order \<Rightarrow> string" where
  "fillId taker maker = uuid_text (order_id taker) @ '':'' @ uuid_text (order_id maker)"

section \<open>The repository\<close>

definition findUserKyc :: "nat \<Rightarrow> db \<Rightarrow> user option" where
  "findUserKyc userId s = find (\<lambda>u. user_id u = userId) (users s)"

definition findMarketBySymbol :: "string \<Rightarrow> db \<Rightarrow> market option" where
  "findMarketBySymbol symbol s = find (\<lambda>m. market_symbol m = symbol) (markets s)"

definition market_of :: "order \<Rightarrow> db \<Rightarrow> market option" where
  "market_of ord s = find (\<lambda>m. market_id m = order_market ord) (markets s)"

text \<open>\<open>assets.symbol\<close> is a CITEXT column: compared without regard to case.\<close>

definition assetDecimals :: "string list \<Rightarrow> db \<Rightarrow> string \<Rightarrow> nat option" where
  "assetDecimals symbols s =
     map_of (rev (map (\<lambda>r. (toUpperCase (asset_symbol r), asset_decimals r))
       (filter (\<lambda>r. toUpperCase (asset_symbol r) \<in> toUpperCase ` set symbols) (assets s))))"

definition findOrderById :: "nat \<Rightarrow> db \<Rightarrow> order option" where
  "findOrderById i s = find (\<lambda>r. order_id r = i) (orders s)"

definition findOrderByClientId :: "nat \<Rightarrow> string \<Rightarrow> db \<Rightarrow> order option" where
  "findOrderByClientId userId client s =
     find (\<lambda>r. order_user r = userId \<and> client_order_id r = Some client) (orders s)"

text \<open>
  CHECK constraints \<open>orders_limit_price_chk\<close>, \<open>orders_stop_price_chk\<close>,
  \<open>orders_market_lock_chk\<close>, \<open>orders_filled_chk\<close>, and the unique index on the client order id.
  No code writes the column \<open>stop_price\<close>, so it is null and a STOP_LIMIT order never passes.
\<close>

definition order_checks :: "order \<Rightarrow> bool" where
  "order_checks r \<longleftrightarrow>
     (order_type r = LIMIT \<longrightarrow> order_price r \<noteq> None) \<and> order_type r \<noteq> STOP_LIMIT \<and>
     (order_type r = MARKET \<longrightarrow> order_quantity r \<noteq> None \<or> quote_budget r \<noteq> None) \<and>
     (case order_quantity r of None \<Rightarrow> True | Some q \<Rightarrow> filled_quantity r \<le> q)"

definition createOrder :: "nat \<Rightarrow> nat \<Rightarrow> create_order \<Rightarrow> string \<Rightarrow> rat \<Rightarrow> (db, order) svc" where
  "createOrder userId marketId inp lockAsset lockAmount =
     bindS fresh_uuid (\<lambda>i.
     bindS (readS now) (\<lambda>t.
     let r = \<lparr>order_id = i, order_user = userId, order_market = marketId,
              client_order_id = co_client inp, order_side = co_side inp, order_type = co_type inp,
              order_price = co_price inp, order_quantity = co_quantity inp,
              quote_budget = co_budget inp, filled_quantity = 0, quote_spent = 0,
              locked_asset = Some lockAsset, locked_amount = Some lockAmount,
              order_status = PENDING, lock_txn = None, order_created = t, order_closed = None\<rparr>
     in bindS (requireS (order_checks r) (DbCheckError ''orders'')) (\<lambda>_.
        bindS (readS (\<lambda>s. case co_client inp of None \<Rightarrow> False
                 | Some c \<Rightarrow> findOrderByClientId userId c s \<noteq> None)) (\<lambda>taken.
        bindS (requireS (\<not> taken) (PrismaError ''P2002'')) (\<lambda>_.
        bindS (writeS (\<lambda>s. s\<lparr>orders := orders s @ [r]\<rparr>)) (\<lambda>_. returnS r))))))"

definition updateOrder :: "nat \<Rightarrow> (order \<Rightarrow> order) \<Rightarrow> (db, order) svc" where
  "updateOrder i upd =
     bindS (readS (findOrderById i)) (\<lambda>found.
     case found of
       None \<Rightarrow> throwS (PrismaError ''P2025'')
     | Some r \<Rightarrow>
         bindS (requireS (order_checks (upd r)) (DbCheckError ''orders'')) (\<lambda>_.
         bindS (writeS (\<lambda>s. s\<lparr>orders := map (\<lambda>x. if order_id x = i then upd x else x) (orders s)\<rparr>))
           (\<lambda>_. returnS (upd r))))"

text \<open>
  The order of \<open>loadRestingBook\<close>: PostgreSQL sorts a NULL price after every number, so
  ascending puts it last and descending puts it first.
\<close>

definition book_key :: "order_side \<Rightarrow> order \<Rightarrow> nat \<times> rat \<times> nat \<times> nat" where
  "book_key takerSide r =
     (case order_price r of
        None \<Rightarrow> (if takerSide = BUY then 1 else 0, 0, order_created r, order_id r)
      | Some p \<Rightarrow> (if takerSide = BUY then (0, p, order_created r, order_id r)
                   else (1, - p, order_created r, order_id r)))"

definition loadRestingBook :: "nat \<Rightarrow> order_side \<Rightarrow> nat \<Rightarrow> nat \<Rightarrow> db \<Rightarrow> order list" where
  "loadRestingBook marketId takerSide excludeUserId n s =
     (let oppositeSide = (if takerSide = BUY then SELL else BUY)
      in take n (sort_key (book_key takerSide)
           (filter (\<lambda>r. order_market r = marketId \<and> order_side r = oppositeSide \<and>
              order_status r \<in> {OPEN, PARTIALLY_FILLED} \<and> order_user r \<noteq> excludeUserId)
            (orders s))))"

definition findTradeByFillId :: "string \<Rightarrow> db \<Rightarrow> trade option" where
  "findTradeByFillId f s = find (\<lambda>r. fill_id r = f) (trades s)"

text \<open>CHECK constraints \<open>trades_qty_price_chk\<close> and \<open>trades_quote_chk\<close>.\<close>

definition trade_checks :: "trade \<Rightarrow> bool" where
  "trade_checks r \<longleftrightarrow> 0 < trade_quantity r \<and> 0 < trade_price r \<and>
     \<bar>trade_quote_amount r - trade_price r * trade_quantity r\<bar> \<le> 1 / 10 ^ 12"

definition createTrade :: "trade \<Rightarrow> (db, trade) svc" where
  "createTrade r0 =
     bindS (readS (\<lambda>s. r0\<lparr>trade_seq := length (trades s), executed_at := now s\<rparr>)) (\<lambda>r.
     bindS (requireS (trade_checks r) (DbCheckError ''trades'')) (\<lambda>_.
     bindS (readS (findTradeByFillId (fill_id r))) (\<lambda>dup.
     bindS (requireS (dup = None) (PrismaError ''P2002'')) (\<lambda>_.
     bindS (writeS (\<lambda>s. s\<lparr>trades := trades s @ [r]\<rparr>)) (\<lambda>_. returnS r)))))"

section \<open>Guards\<close>

definition assertKycApproved :: "nat \<Rightarrow> (db, unit) svc" where
  "assertKycApproved userId =
     bindS (readS (findUserKyc userId)) (\<lambda>found.
     case found of
       None \<Rightarrow> throwS not_found
     | Some u \<Rightarrow>
         bindS (requireS (\<not> user_status u \<noteq> USER_ACTIVE) (ForbiddenError ''ACCOUNT_INACTIVE'')) (\<lambda>_.
         requireS (\<not> (kyc_status u \<noteq> KYC_APPROVED \<or> kyc_tier u < 1))
           (ForbiddenError ''KYC_REQUIRED'')))"

definition resolveMarket :: "string \<Rightarrow> (db, market \<times> market_params) svc" where
  "resolveMarket symbol =
     bindS (readS (findMarketBySymbol symbol)) (\<lambda>found.
     case found of
       None \<Rightarrow> throwS (NotFoundError ''MARKET_NOT_FOUND'')
     | Some m \<Rightarrow>
         bindS (readS (assetDecimals [base_asset m, quote_asset m])) (\<lambda>decimals.
         returnS (m, \<lparr>base_scale = (case decimals (toUpperCase (base_asset m)) of
                        None \<Rightarrow> 6 | Some d \<Rightarrow> d),
                      quote_scale = (case decimals (toUpperCase (quote_asset m)) of
                        None \<Rightarrow> 2 | Some d \<Rightarrow> d)\<rparr>)))"

definition marketIdForSymbol :: "string option \<Rightarrow> (db, nat option) svc" where
  "marketIdForSymbol symbol =
     (if symbol = None \<or> symbol = Some [] then returnS None
      else bindS (readS (findMarketBySymbol (the symbol))) (\<lambda>found.
        case found of
          None \<Rightarrow> throwS (NotFoundError ''MARKET_NOT_FOUND'')
        | Some m \<Rightarrow> returnS (Some (market_id m))))"

definition validateAgainstMarket :: "rounding \<Rightarrow> create_order \<Rightarrow> market \<Rightarrow> (db, unit) svc" where
  "validateAgainstMarket D inp m =
     (if co_type inp = LIMIT then
        bindS (requireS (dmodIsZero (or0 (co_price inp)) (tick_size m))
          (AppError 422 ''INVALID_PRICE'')) (\<lambda>_.
        bindS (requireS (dmodIsZero (or0 (co_quantity inp)) (step_size m))
          (AppError 422 ''INVALID_QUANTITY'')) (\<lambda>_.
        requireS (\<not> dmul D (or0 (co_price inp)) (or0 (co_quantity inp)) < min_notional m)
          (AppError 422 ''BELOW_MIN_NOTIONAL'')))
      else if co_side inp = BUY then
        requireS (\<not> or0 (co_budget inp) < min_notional m) (AppError 422 ''BELOW_MIN_NOTIONAL'')
      else requireS (dmodIsZero (or0 (co_quantity inp)) (step_size m))
        (AppError 422 ''INVALID_QUANTITY''))"

section \<open>Locking and releasing\<close>

definition lock_input :: "order \<Rightarrow> string \<Rightarrow> rat \<Rightarrow> posting_input" where
  "lock_input ord lockAsset lockAmount =
     \<lparr>post_kind = ''ORDER_LOCK'', post_reference_type = Some ''order_lock'',
      post_reference_id = Some (order_id ord),
      post_lines = move_lines (Some (order_user ord)) lockAsset USER_AVAILABLE USER_LOCKED lockAmount\<rparr>"

definition unlock_input :: "order \<Rightarrow> string \<Rightarrow> rat \<Rightarrow> posting_input" where
  "unlock_input ord lockAsset amount =
     \<lparr>post_kind = ''ORDER_UNLOCK'', post_reference_type = Some ''order_unlock'',
      post_reference_id = Some (order_id ord),
      post_lines = move_lines (Some (order_user ord)) lockAsset USER_LOCKED USER_AVAILABLE amount\<rparr>"

definition releaseSurplus :: "rounding \<Rightarrow> order \<Rightarrow> (db, unit) svc" where
  "releaseSurplus D ord =
     (case (locked_asset ord, locked_amount ord) of
        (Some lockAsset, Some lockAmount) \<Rightarrow>
          if lockAsset = [] then returnS ()
          else
            let spent = (if order_side ord = BUY then quote_spent ord else filled_quantity ord);
                surplus = dsub D lockAmount spent
            in if surplus \<le> 0 then returnS ()
               else bindS (retry_post (post D (unlock_input ord lockAsset surplus)
                      (Some (order_user ord)))) (\<lambda>_. returnS ())
      | _ \<Rightarrow> returnS ())"

section \<open>Settlement\<close>

record settlement =
  st_buyer :: nat
  st_seller :: nat
  st_quantity :: rat
  st_quote :: rat
  st_buyer_fee :: rat
  st_seller_fee :: rat
  st_lines :: "posting_line list"

definition settlement_of ::
  "rounding \<Rightarrow> order \<Rightarrow> order \<Rightarrow> engine_fill \<Rightarrow> market \<Rightarrow> market_params \<Rightarrow> settlement" where
  "settlement_of D taker maker fill m params =
     (let buyerIsTaker = (order_side taker = BUY);
          buyer = (if buyerIsTaker then order_user taker else order_user maker);
          seller = (if buyerIsTaker then order_user maker else order_user taker);
          quantity = fill_quantity fill; quoteAmount = fill_quote fill;
          buyerBps = (if buyerIsTaker then taker_fee_bps m else maker_fee_bps m);
          sellerBps = (if buyerIsTaker then maker_fee_bps m else taker_fee_bps m);
          buyerFee = computeFee D quantity buyerBps (base_scale params);
          sellerFee = computeFee D quoteAmount sellerBps (quote_scale params);
          buyerNet = dsub D quantity buyerFee;
          sellerNet = dsub D quoteAmount sellerFee
      in \<lparr>st_buyer = buyer, st_seller = seller, st_quantity = quantity, st_quote = quoteAmount,
          st_buyer_fee = buyerFee, st_seller_fee = sellerFee,
          st_lines =
            [\<lparr>line_user = Some buyer, line_asset = QUOTE_ASSET, line_kind = USER_LOCKED,
              line_direction = DEBIT, line_amount = toFixed quoteAmount (quote_scale params)\<rparr>,
             \<lparr>line_user = Some seller, line_asset = QUOTE_ASSET, line_kind = USER_AVAILABLE,
              line_direction = CREDIT, line_amount = toFixed sellerNet (quote_scale params)\<rparr>,
             \<lparr>line_user = Some seller, line_asset = BASE_ASSET, line_kind = USER_LOCKED,
              line_direction = DEBIT, line_amount = toFixed quantity (base_scale params)\<rparr>,
             \<lparr>line_user = Some buyer, line_asset = BASE_ASSET, line_kind = USER_AVAILABLE,
              line_direction = CREDIT, line_amount = toFixed buyerNet (base_scale params)\<rparr>]
            @ (if 0 < sellerFee
               then [\<lparr>line_user = None, line_asset = QUOTE_ASSET, line_kind = FEE_REVENUE,
                 line_direction = CREDIT, line_amount = toFixed sellerFee (quote_scale params)\<rparr>]
               else [])
            @ (if 0 < buyerFee
               then [\<lparr>line_user = None, line_asset = BASE_ASSET, line_kind = FEE_REVENUE,
                 line_direction = CREDIT, line_amount = toFixed buyerFee (base_scale params)\<rparr>]
               else [])\<rparr>)"

definition settle_input :: "(string \<Rightarrow> 8 word list) \<Rightarrow> order \<Rightarrow> order \<Rightarrow> settlement \<Rightarrow> posting_input" where
  "settle_input sha1 taker maker st =
     \<lparr>post_kind = ''TRADE_SETTLE'', post_reference_type = Some ''trade'',
      post_reference_id = Some (deterministicUuid sha1 (fillId taker maker)),
      post_lines = st_lines st\<rparr>"

definition settleFill ::
  "rounding \<Rightarrow> (string \<Rightarrow> 8 word list) \<Rightarrow> order \<Rightarrow> order \<Rightarrow> engine_fill \<Rightarrow> market \<Rightarrow> market_params \<Rightarrow>
    (db, trade) svc" where
  "settleFill D sha1 taker maker fill m params =
     (let st = settlement_of D taker maker fill m params;
          fid = fillId taker maker
      in bindS (retry_post (post D (settle_input sha1 taker maker st) None)) (\<lambda>settle.
         catchS
           (createTrade
             \<lparr>trade_id = deterministicUuid sha1 fid, fill_id = fid, trade_market = market_id m,
              maker_order = order_id maker, taker_order = order_id taker,
              maker_user = order_user maker, taker_user = order_user taker,
              trade_price = fill_price fill, trade_quantity = st_quantity st,
              trade_quote_amount = st_quote st,
              maker_fee = (if order_side maker = BUY then st_buyer_fee st else st_seller_fee st),
              taker_fee = (if order_side maker = BUY then st_seller_fee st else st_buyer_fee st),
              maker_side = order_side maker, settle_txn = posted_id settle,
              trade_seq = 0, executed_at = 0\<rparr>)
           (\<lambda>e. if e = PrismaError ''P2002'' then
                  bindS (readS (findTradeByFillId fid)) (\<lambda>existing.
                  case existing of None \<Rightarrow> throwS e | Some tr \<Rightarrow> returnS tr)
                else throwS e)))"

section \<open>Matching a placed order\<close>

definition resting_of :: "rounding \<Rightarrow> order \<Rightarrow> resting_order" where
  "resting_of D r =
     \<lparr>ro_id = order_id r, ro_user = order_user r, ro_price = or0 (order_price r),
      ro_remaining = (case order_quantity r of None \<Rightarrow> 0 | Some q \<Rightarrow> dsub D q (filled_quantity r))\<rparr>"

definition taker_of :: "order \<Rightarrow> taker_input" where
  "taker_of r = \<lparr>taker_side = order_side r, taker_type = order_type r,
     taker_price = order_price r, taker_quantity = order_quantity r, taker_budget = quote_budget r\<rparr>"

text \<open>The body of the loop over the fills for one maker; returns the maker as kept in memory.\<close>

definition settle_maker ::
  "rounding \<Rightarrow> (string \<Rightarrow> 8 word list) \<Rightarrow> order \<Rightarrow> order \<Rightarrow> engine_fill \<Rightarrow> market \<Rightarrow> market_params \<Rightarrow>
    (db, order \<times> nat) svc" where
  "settle_maker D sha1 taker maker fill m params =
     bindS (settleFill D sha1 taker maker fill m params) (\<lambda>tr.
     let makerFilled = dadd D (filled_quantity maker) (fill_quantity fill);
         makerQuoteSpent = dadd D (quote_spent maker) (fill_quote fill);
         makerRemaining = dsub D (or0 (order_quantity maker)) makerFilled;
         makerClosed = (makerRemaining \<le> 0);
         maker' = maker\<lparr>filled_quantity := makerFilled, quote_spent := makerQuoteSpent\<rparr>
     in bindS (readS now) (\<lambda>t.
        bindS (updateOrder (order_id maker) (\<lambda>r. r\<lparr>filled_quantity := makerFilled,
             quote_spent := makerQuoteSpent,
             order_status := (if makerClosed then FILLED else PARTIALLY_FILLED),
             order_closed := (if makerClosed then Some t else order_closed r)\<rparr>)) (\<lambda>_.
        bindS (whenS makerClosed (releaseSurplus D maker')) (\<lambda>_.
        bindS (publish (Trade_Executed (market_symbol m) (trade_id tr))) (\<lambda>_.
        bindS (publish (Order_Updated (order_user maker) (order_id maker))) (\<lambda>_.
        returnS (maker', trade_id tr)))))))"

text \<open>
  \<open>restingById\<close> is the map of the loaded rows, updated in memory as makers fill;
  \<open>affectedUsers\<close> keeps the order of first insertion, as a JavaScript \<open>Set\<close> does.
\<close>

definition add_once :: "'a \<Rightarrow> 'a list \<Rightarrow> 'a list" where
  "add_once x xs = (if x \<in> set xs then xs else xs @ [x])"

fun settle_fills ::
  "rounding \<Rightarrow> (string \<Rightarrow> 8 word list) \<Rightarrow> order \<Rightarrow> market \<Rightarrow> market_params \<Rightarrow> order list \<Rightarrow> nat list \<Rightarrow>
    engine_fill list \<Rightarrow> (db, (engine_fill \<times> nat) list \<times> nat list) svc" where
  "settle_fills D sha1 taker m params rows affected [] = returnS ([], affected)"
| "settle_fills D sha1 taker m params rows affected (fill # fs) =
     (case find (\<lambda>r. order_id r = fill_maker fill) rows of
        None \<Rightarrow> settle_fills D sha1 taker m params rows affected fs
      | Some maker \<Rightarrow>
          bindS (settle_maker D sha1 taker maker fill m params) (\<lambda>(maker', tid).
          bindS (settle_fills D sha1 taker m params
                   (map (\<lambda>r. if order_id r = order_id maker then maker' else r) rows)
                   (add_once (order_user maker) affected) fs) (\<lambda>(created, users).
          returnS ((fill, tid) # created, users))))"

definition taker_status :: "order \<Rightarrow> rat \<Rightarrow> order_status" where
  "taker_status taker takerFilled =
     (if order_type taker = LIMIT then
        if or0 (order_quantity taker) \<le> takerFilled then FILLED
        else if 0 < takerFilled then PARTIALLY_FILLED else OPEN
      else if 0 < takerFilled then FILLED else ORDER_CANCELLED)"

fun publish_balances :: "nat list \<Rightarrow> (db, unit) svc" where
  "publish_balances [] = returnS ()"
| "publish_balances (u # us) = bindS (publish (Balance_Changed u)) (\<lambda>_. publish_balances us)"

definition BOOK_SCAN_LIMIT :: nat where "BOOK_SCAN_LIMIT = 500"

definition matchAndSettle ::
  "rounding \<Rightarrow> (string \<Rightarrow> 8 word list) \<Rightarrow> order \<Rightarrow> market \<Rightarrow> market_params \<Rightarrow>
    (db, (engine_fill \<times> nat) list) svc" where
  "matchAndSettle D sha1 taker m params =
     bindS (readS (loadRestingBook (market_id m) (order_side taker) (order_user taker)
              BOOK_SCAN_LIMIT)) (\<lambda>rows.
     let result = matchOrder D (taker_of taker) (map (resting_of D) rows) params
     in bindS (settle_fills D sha1 taker m params rows [] (res_fills result)) (\<lambda>(created, affected).
        let takerFilled = res_filled result; takerQuote = res_quote result;
            status = taker_status taker takerFilled;
            terminal = (status = FILLED \<or> status = ORDER_CANCELLED)
        in bindS (readS now) (\<lambda>t.
           bindS (updateOrder (order_id taker) (\<lambda>r. r\<lparr>filled_quantity := takerFilled,
                quote_spent := takerQuote, order_status := status,
                order_closed := (if terminal then Some t else order_closed r)\<rparr>)) (\<lambda>updated.
           bindS (whenS terminal (releaseSurplus D updated)) (\<lambda>_.
           bindS (publish (Order_Updated (order_user taker) (order_id taker))) (\<lambda>_.
           bindS (publish (Orderbook_Changed (market_symbol m))) (\<lambda>_.
           bindS (publish_balances (add_once (order_user taker) affected)) (\<lambda>_.
           returnS created))))))))"

section \<open>Placing an order\<close>

text \<open>
  What the part of \<open>placeOrder\<close> before the market lock ends with: the answer for a repeated
  client order id, or the order with its funds locked.
\<close>

datatype placed = Duplicate order_dto | Locked order market market_params

definition duplicate_of :: "nat \<Rightarrow> create_order \<Rightarrow> db \<Rightarrow> order_dto option" where
  "duplicate_of userId inp s =
     (case co_client inp of
        None \<Rightarrow> None
      | Some c \<Rightarrow> if c = [] then None
          else map_option (\<lambda>r. toOrderDto r (market_of r s) None) (findOrderByClientId userId c s))"

definition lock_funds :: "rounding \<Rightarrow> nat \<Rightarrow> order \<Rightarrow> string \<Rightarrow> rat \<Rightarrow> (db, order) svc" where
  "lock_funds D userId ord lockAsset lockAmount =
     catchS
       (bindS (retry_post (post D (lock_input ord lockAsset lockAmount) (Some userId))) (\<lambda>lockTxn.
        updateOrder (order_id ord) (\<lambda>r. r\<lparr>order_status := OPEN, lock_txn := Some (posted_id lockTxn)\<rparr>)))
       (\<lambda>e. if e = ConflictError ''INSUFFICIENT_BALANCE'' then
              bindS (readS now) (\<lambda>t.
              bindS (updateOrder (order_id ord)
                (\<lambda>r. r\<lparr>order_status := ORDER_REJECTED, order_closed := Some t\<rparr>)) (\<lambda>_.
              bindS (recordAudit ACTOR_USER (Some userId) ''trading.order_rejected''
                (Some ''order'') (Some (order_id ord))) (\<lambda>_.
              throwS (AppError 422 ''INSUFFICIENT_BALANCE''))))
            else throwS e)"

text \<open>\<open>placeOrder\<close> from the sizing of the lock to the wait for the market.\<close>

definition create_and_lock ::
  "rounding \<Rightarrow> nat \<Rightarrow> create_order \<Rightarrow> market \<Rightarrow> market_params \<Rightarrow> (db, placed) svc" where
  "create_and_lock D u inp m params =
     (let (a, x) = computeLockRequirement D inp params
      in bindS (catchS
              (bindS (createOrder u (market_id m) inp a x) (\<lambda>ord. returnS (Inr ord)))
              (\<lambda>e. if e = PrismaError ''P2002'' then
                     bindS (readS (duplicate_of u inp)) (\<lambda>again.
                     case again of Some dto \<Rightarrow> returnS (Inl dto) | None \<Rightarrow> throwS e)
                   else throwS e)) (\<lambda>created.
            case created of
              Inl dto \<Rightarrow> returnS (Duplicate dto)
            | Inr ord \<Rightarrow>
                bindS (lock_funds D u ord a x) (\<lambda>ord'. returnS (Locked ord' m params))))"

definition placeOrder_lock :: "rounding \<Rightarrow> nat \<Rightarrow> create_order \<Rightarrow> (db, placed) svc" where
  "placeOrder_lock D userId inp =
     bindS (assertKycApproved userId) (\<lambda>_.
     bindS (resolveMarket (co_symbol inp)) (\<lambda>(m, params).
     bindS (requireS (\<not> market_status m \<noteq> MARKET_ACTIVE) (AppError 422 ''MARKET_NOT_ACTIVE'')) (\<lambda>_.
     bindS (validateAgainstMarket D inp m) (\<lambda>_.
     bindS (readS (duplicate_of userId inp)) (\<lambda>dup.
     case dup of
       Some dto \<Rightarrow> returnS (Duplicate dto)
     | None \<Rightarrow> create_and_lock D userId inp m params)))))"

definition placeOrder_match ::
  "rounding \<Rightarrow> (string \<Rightarrow> 8 word list) \<Rightarrow> nat \<Rightarrow> placed \<Rightarrow> (db, order_dto) svc" where
  "placeOrder_match D sha1 userId p =
     (case p of
        Duplicate dto \<Rightarrow> returnS dto
      | Locked ord m params \<Rightarrow>
          bindS (matchAndSettle D sha1 ord m params) (\<lambda>created.
          bindS (readS (\<lambda>s. case findOrderById (order_id ord) s of
              None \<Rightarrow> (ord, Some m) | Some r \<Rightarrow> (r, market_of r s))) (\<lambda>(finalOrder, mk).
          bindS (recordAudit ACTOR_USER (Some userId) ''trading.order_created''
            (Some ''order'') (Some (order_id ord))) (\<lambda>_.
          returnS (toOrderDto finalOrder mk (Some (map (\<lambda>(f, tid).
            \<lparr>ofd_trade = tid, ofd_price = fill_price f, ofd_quantity = fill_quantity f,
             ofd_quote = fill_quote f\<rparr>) created)))))))"

definition placeOrder ::
  "rounding \<Rightarrow> (string \<Rightarrow> 8 word list) \<Rightarrow> nat \<Rightarrow> create_order \<Rightarrow> (db, order_dto) svc" where
  "placeOrder D sha1 userId inp =
     bindS (placeOrder_lock D userId inp) (placeOrder_match D sha1 userId)"

section \<open>Cancelling\<close>

definition cancelOrder :: "rounding \<Rightarrow> nat \<Rightarrow> nat \<Rightarrow> (db, order_dto) svc" where
  "cancelOrder D userId orderId =
     bindS (readS (findOrderById orderId)) (\<lambda>found.
     bindS (requireS (\<not> (case found of None \<Rightarrow> True | Some r \<Rightarrow> order_user r \<noteq> userId))
       (NotFoundError ''ORDER_NOT_FOUND'')) (\<lambda>_.
     bindS (readS (findOrderById orderId)) (\<lambda>current.
     case current of
       None \<Rightarrow> throwS (NotFoundError ''ORDER_NOT_FOUND'')
     | Some r \<Rightarrow>
         bindS (readS (market_of r)) (\<lambda>mk.
         bindS (requireS (order_status r \<in> {PENDING, OPEN, PARTIALLY_FILLED})
           (ConflictError ''ORDER_NOT_CANCELLABLE'')) (\<lambda>_.
         bindS (readS now) (\<lambda>t.
         bindS (updateOrder orderId
           (\<lambda>x. x\<lparr>order_status := ORDER_CANCELLED, order_closed := Some t\<rparr>)) (\<lambda>updated.
         bindS (releaseSurplus D updated) (\<lambda>_.
         bindS (recordAudit ACTOR_USER (Some userId) ''trading.order_cancelled''
           (Some ''order'') (Some orderId)) (\<lambda>_.
         bindS (publish (Order_Updated userId orderId)) (\<lambda>_.
         bindS (publish (Orderbook_Changed (case mk of None \<Rightarrow> [] | Some k \<Rightarrow> market_symbol k))) (\<lambda>_.
         bindS (publish (Balance_Changed userId)) (\<lambda>_.
         returnS (toOrderDto updated mk None)))))))))))))"

section \<open>What the order and trade tables promise\<close>

definition orders_inv :: "db \<Rightarrow> bool" where
  "orders_inv s \<longleftrightarrow>
     distinct (map order_id (orders s)) \<and>
     (\<forall>r \<in> set (orders s). order_id r < next_uuid s \<and> order_checks r) \<and>
     (\<forall>r \<in> set (orders s). \<forall>r' \<in> set (orders s). order_user r = order_user r' \<longrightarrow>
        client_order_id r = client_order_id r' \<longrightarrow> client_order_id r \<noteq> None \<longrightarrow> r = r')"

definition trades_inv :: "db \<Rightarrow> bool" where
  "trades_inv s \<longleftrightarrow>
     distinct (map fill_id (trades s)) \<and> (\<forall>r \<in> set (trades s). trade_checks r) \<and>
     map trade_seq (trades s) = [0..<length (trades s)]"

definition trading_inv :: "db \<Rightarrow> bool" where
  "trading_inv s \<longleftrightarrow> orders_inv s \<and> trades_inv s"

abbreviation exchange_inv :: "db \<Rightarrow> bool" where
  "exchange_inv \<equiv> with_ledger trading_inv"

lemma trading_inv_cong:
  "trading_inv s \<Longrightarrow> orders t = orders s \<Longrightarrow> trades t = trades s \<Longrightarrow> next_uuid s \<le> next_uuid t \<Longrightarrow>
     trading_inv t"
  by (auto simp: trading_inv_def orders_inv_def trades_inv_def order.strict_trans2)

lemma trading_inv_frame: "ledger_frame trading_inv"
  unfolding ledger_frame_def using trading_inv_cong only_ledger_simps(1,2) by metis

lemma exchange_inv_write:
  assumes "exchange_inv s" and "ledger_tables t = ledger_tables s" and "orders t = orders s"
    and "trades t = trades s" and "next_uuid s \<le> next_uuid t"
  shows "exchange_inv t"
  using assms trading_inv_cong [of s t] by (auto intro: with_ledger_write dest: with_ledgerD)

lemma exchange_publish [preserves_intros]: "preserves exchange_inv (publish e)"
  unfolding publish_def
  by (rule preserves_write, erule exchange_inv_write) (simp_all add: ledger_tables_def)

lemma exchange_audit [preserves_intros]: "preserves exchange_inv (recordAudit aty a x ety e)"
  unfolding recordAudit_def
  by (rule preserves_write, erule exchange_inv_write) (simp_all add: ledger_tables_def)

lemma exchange_uuid [preserves_intros]: "preserves exchange_inv fresh_uuid"
  unfolding fresh_uuid_def
  by (rule preservesI, simp, erule exchange_inv_write) (simp_all add: ledger_tables_def)

lemma exchange_retry_post [preserves_intros]:
  "preserves exchange_inv (retry_post (post D inp c))"
  by (rule preserves_retry_post [OF trading_inv_frame])

lemma find_order_some:
  "findOrderById i s = Some r \<Longrightarrow> r \<in> set (orders s) \<and> order_id r = i"
  by (auto simp: findOrderById_def dest: find_SomeD)

text \<open>An update keeps the identity of the order: its keys do not change.\<close>

definition keeps_keys :: "(order \<Rightarrow> order) \<Rightarrow> bool" where
  "keeps_keys upd \<longleftrightarrow> (\<forall>r. order_id (upd r) = order_id r \<and> order_user (upd r) = order_user r \<and>
     client_order_id (upd r) = client_order_id r)"

lemma orders_invI:
  assumes "orders t = ys" and "next_uuid t = n" and "distinct (map order_id ys)"
    and "\<And>y. y \<in> set ys \<Longrightarrow> order_id y < n \<and> order_checks y"
    and "\<And>y y'. y \<in> set ys \<Longrightarrow> y' \<in> set ys \<Longrightarrow> order_user y = order_user y' \<Longrightarrow>
      client_order_id y = client_order_id y' \<Longrightarrow> client_order_id y \<noteq> None \<Longrightarrow> y = y'"
  shows "orders_inv t"
  using assms(3-) unfolding orders_inv_def assms(1,2) by blast

lemma orders_inv_update:
  assumes inv: "orders_inv s" and keys: "keeps_keys upd"
    and r: "r \<in> set (orders s)" "order_id r = i" and ok: "order_checks (upd r)"
  shows "orders_inv (s\<lparr>orders := map (\<lambda>x. if order_id x = i then upd x else x) (orders s)\<rparr>)"
proof -
  let ?f = "\<lambda>x. if order_id x = i then upd x else x"
  have k: "order_id (?f x) = order_id x" "order_user (?f x) = order_user x"
    "client_order_id (?f x) = client_order_id x" for x
    using keys by (auto simp: keeps_keys_def)
  let ?ys = "map ?f (orders s)"
  have ids: "map order_id ?ys = map order_id (orders s)" using k by simp
  have checks: "order_checks (?f x)" if "x \<in> set (orders s)" for x
  proof (cases "order_id x = i")
    case True
    then have "x = r" using inv r that by (auto simp: orders_inv_def distinct_map inj_on_def)
    then show ?thesis using ok r by simp
  next
    case False
    then show ?thesis using inv that by (simp add: orders_inv_def)
  qed
  have 1: "order_id y < next_uuid s \<and> order_checks y" if y: "y \<in> set ?ys" for y
  proof -
    obtain x where x: "x \<in> set (orders s)" "y = ?f x" using y unfolding set_map image_iff by blast
    then show ?thesis using inv checks [OF x(1)] k(1) [of x] by (auto simp: orders_inv_def)
  qed
  have 2: "y = y'" if y: "y \<in> set ?ys" "y' \<in> set ?ys" "order_user y = order_user y'"
    "client_order_id y = client_order_id y'" "client_order_id y \<noteq> None" for y y'
  proof -
    obtain x x' where x: "x \<in> set (orders s)" "y = ?f x" "x' \<in> set (orders s)" "y' = ?f x'"
      using y(1,2) unfolding set_map image_iff by blast
    have "order_user x = order_user x'" "client_order_id x = client_order_id x'"
      "client_order_id x \<noteq> None"
      using y(3-5) unfolding x(2,4) k by blast+
    then have "x = x'" using inv x unfolding orders_inv_def by blast
    then show ?thesis using x by simp
  qed
  have dist: "distinct (map order_id ?ys)" using inv unfolding ids by (simp add: orders_inv_def)
  show ?thesis by (rule orders_invI [OF _ _ dist 1 2]) simp_all
qed

lemma exchange_updateOrder [preserves_intros]:
  assumes "keeps_keys upd" shows "preserves exchange_inv (updateOrder i upd)"
proof (rule preservesI)
  fix s assume s: "exchange_inv s"
  show "exchange_inv (snd (updateOrder i upd s))"
  proof (cases "findOrderById i s")
    case None
    then show ?thesis using s by (simp add: updateOrder_def svc_simps)
  next
    case (Some r)
    let ?t = "s\<lparr>orders := map (\<lambda>x. if order_id x = i then upd x else x) (orders s)\<rparr>"
    show ?thesis
    proof (cases "order_checks (upd r)")
      case True
      have "trading_inv ?t"
        using with_ledgerD(2) [OF s] orders_inv_update [OF _ assms _ _ True] find_order_some [OF Some]
        by (simp add: trading_inv_def trades_inv_def)
      then have "exchange_inv ?t"
        by (rule with_ledger_write [OF s, rotated 2]) (simp_all add: ledger_tables_def)
      then show ?thesis using Some True by (simp add: updateOrder_def svc_simps)
    next
      case False
      then show ?thesis using s Some by (simp add: updateOrder_def svc_simps)
    qed
  qed
qed

lemma exchange_createOrder [preserves_intros]:
  "preserves exchange_inv (createOrder userId marketId inp lockAsset lockAmount)"
proof (rule preservesI)
  fix s assume s: "exchange_inv s"
  obtain r t where rt: "createOrder userId marketId inp lockAsset lockAmount s = (r, t)"
    by (cases "createOrder userId marketId inp lockAsset lockAmount s")
  show "exchange_inv (snd (createOrder userId marketId inp lockAsset lockAmount s))"
  proof (cases r)
    case (Inl e)
    then have "t = s\<lparr>next_uuid := Suc (next_uuid s)\<rparr>"
      using rt by (auto simp: createOrder_def svc_simps fresh_uuid_def Let_def split: if_splits)
    then show ?thesis using s rt by (auto intro: exchange_inv_write simp: ledger_tables_def)
  next
    case (Inr x)
    then have t: "t = s\<lparr>next_uuid := Suc (next_uuid s), orders := orders s @ [x]\<rparr>"
      and x: "order_id x = next_uuid s" "order_user x = userId" "client_order_id x = co_client inp"
        "order_checks x"
      and free: "\<And>c. co_client inp = Some c \<Longrightarrow> findOrderByClientId userId c s = None"
      using rt by (auto simp: createOrder_def svc_simps fresh_uuid_def Let_def findOrderByClientId_def
          split: if_splits option.splits)
    have o: "orders_inv s" using with_ledgerD(2) [OF s] by (simp add: trading_inv_def)
    have fresh: "next_uuid s \<notin> order_id ` set (orders s)" using o by (auto simp: orders_inv_def)
    have "client_order_id y \<noteq> Some c" if "y \<in> set (orders s)" "order_user y = userId"
      "co_client inp = Some c" for y c
      using free [OF that(3)] that(1,2) by (auto simp: findOrderByClientId_def find_None_iff)
    then have "orders_inv t"
      using o fresh x unfolding orders_inv_def t by (auto simp: less_Suc_eq)
    then have "trading_inv t"
      using with_ledgerD(2) [OF s] by (simp add: trading_inv_def trades_inv_def t)
    then have "exchange_inv t"
      by (rule with_ledger_write [OF s, rotated 2]) (simp_all add: ledger_tables_def t)
    then show ?thesis using rt by simp
  qed
qed

lemma exchange_createTrade [preserves_intros]: "preserves exchange_inv (createTrade r0)"
proof (rule preservesI)
  fix s assume s: "exchange_inv s"
  obtain r t where rt: "createTrade r0 s = (r, t)" by (cases "createTrade r0 s")
  show "exchange_inv (snd (createTrade r0 s))"
  proof (cases r)
    case (Inl e)
    then have "t = s" using rt by (auto simp: createTrade_def svc_simps split: if_splits)
    then show ?thesis using s rt by simp
  next
    case (Inr x)
    then have t: "t = s\<lparr>trades := trades s @ [x]\<rparr>" and x: "trade_checks x"
      "trade_seq x = length (trades s)" "findTradeByFillId (fill_id x) s = None"
      using rt by (auto simp: createTrade_def svc_simps split: if_splits)
    have "fill_id x \<notin> fill_id ` set (trades s)"
      using x(3) by (auto simp: findTradeByFillId_def find_None_iff)
    then have "trading_inv t"
      using with_ledgerD(2) [OF s] x by (auto simp: trading_inv_def trades_inv_def orders_inv_def t)
    then have "exchange_inv t"
      by (rule with_ledger_write [OF s, rotated 2]) (simp_all add: ledger_tables_def t)
    then show ?thesis using rt by simp
  qed
qed

section \<open>Every operation keeps the exchange consistent\<close>

lemma keeps_keysI [preserves_intros]:
  "(\<And>r. order_id (upd r) = order_id r) \<Longrightarrow> (\<And>r. order_user (upd r) = order_user r) \<Longrightarrow>
     (\<And>r. client_order_id (upd r) = client_order_id r) \<Longrightarrow> keeps_keys upd"
  by (simp add: keeps_keys_def)

lemma exchange_releaseSurplus [preserves_intros]: "preserves exchange_inv (releaseSurplus D r)"
  unfolding releaseSurplus_def Let_def by (auto intro!: preserves_intros split: option.splits)

lemma exchange_settleFill [preserves_intros]:
  "preserves exchange_inv (settleFill D sha1 taker maker fill m params)"
  unfolding settleFill_def Let_def by (intro preserves_intros)

lemma exchange_settle_maker [preserves_intros]:
  "preserves exchange_inv (settle_maker D sha1 taker maker fill m params)"
  unfolding settle_maker_def Let_def by (intro preserves_intros) simp_all

lemma exchange_settle_fills [preserves_intros]:
  "preserves exchange_inv (settle_fills D sha1 taker m params rows affected fs)"
proof (induction fs arbitrary: rows affected)
  case Nil
  then show ?case by (simp add: preserves_return)
next
  case (Cons f fs)
  show ?case
  proof (cases "find (\<lambda>r. order_id r = fill_maker f) rows")
    case None
    then show ?thesis using Cons.IH by simp
  next
    case (Some maker)
    show ?thesis unfolding settle_fills.simps Some option.case
      by (intro preserves_intros Cons.IH)
  qed
qed

lemma exchange_publish_balances [preserves_intros]: "preserves exchange_inv (publish_balances us)"
  by (induction us) (auto intro!: preserves_intros)

lemma exchange_matchAndSettle [preserves_intros]:
  "preserves exchange_inv (matchAndSettle D sha1 taker m params)"
  unfolding matchAndSettle_def Let_def by (intro preserves_intros) simp_all

lemma exchange_guards [preserves_intros]:
  "preserves exchange_inv (assertKycApproved u)" "preserves exchange_inv (resolveMarket mkt)"
  "preserves exchange_inv (validateAgainstMarket D inp m)"
  unfolding assertKycApproved_def resolveMarket_def validateAgainstMarket_def
  by (intro preserves_intros)+

lemma exchange_lock_funds [preserves_intros]:
  "preserves exchange_inv (lock_funds D u ord a x)"
  unfolding lock_funds_def by (intro preserves_intros) simp_all

lemma exchange_create_and_lock [preserves_intros]:
  "preserves exchange_inv (create_and_lock D u inp m params)"
  unfolding create_and_lock_def Let_def by (intro preserves_intros)

lemma exchange_placeOrder_lock [preserves_intros]:
  "preserves exchange_inv (placeOrder_lock D u inp)"
  unfolding placeOrder_lock_def by (intro preserves_intros)

lemma exchange_placeOrder_match [preserves_intros]:
  "preserves exchange_inv (placeOrder_match D sha1 u p)"
  unfolding placeOrder_match_def by (cases p) (auto intro!: preserves_intros)

lemma exchange_placeOrder [preserves_intros]: "preserves exchange_inv (placeOrder D sha1 u inp)"
  unfolding placeOrder_def by (intro preserves_intros)

lemma exchange_cancelOrder [preserves_intros]: "preserves exchange_inv (cancelOrder D u i)"
  unfolding cancelOrder_def by (intro preserves_intros) simp_all

section \<open>Settlements\<close>

lemma computeFee_bounds:
  assumes D: "decimal_context D" and x: "0 < x" and bps: "bps < 10000"
  shows "0 \<le> computeFee D x bps sc \<and> computeFee D x bps sc < x"
proof -
  let ?e = "1 / 10 ^ 19 :: rat"
  have up: "D y \<le> y * (1 + ?e)" if "0 \<le> y" for y
  proof -
    have "D y - y \<le> \<bar>D y - y\<bar>" by simp
    also have "\<dots> \<le> y / 10 ^ 19" using decimal_error [OF D, of y] that by simp
    finally show ?thesis by (simp add: field_simps)
  qed
  have b: "of_nat bps \<le> (9999 :: rat)" using bps by simp
  let ?p = "D (x * of_nat bps)"
  have p0: "0 \<le> ?p" using x by (intro decimal_nonneg [OF D]) simp
  have "?p \<le> x * of_nat bps * (1 + ?e)" by (rule up) (use x in simp)
  also have "\<dots> \<le> x * 9999 * (1 + ?e)" using b x by (intro mult_right_mono mult_left_mono) simp_all
  finally have p: "?p / 10000 \<le> x * 9999 * (1 + ?e) / 10000" by (rule divide_right_mono) simp
  have "D (?p / 10000) \<le> ?p / 10000 * (1 + ?e)" by (rule up) (use p0 in simp)
  also have "\<dots> \<le> x * 9999 * (1 + ?e) / 10000 * (1 + ?e)" by (rule mult_right_mono [OF p]) simp
  also have "\<dots> < x" using x by (simp add: field_simps)
  finally have lt: "D (?p / 10000) < x" .
  have "0 \<le> D (?p / 10000)" using p0 by (intro decimal_nonneg [OF D]) simp
  then show ?thesis
    using lt floorTo_le [of "D (?p / 10000)" sc] by (simp add: computeFee_def ddiv_def dmul_def)
qed

lemma grid_computeFee: "grid sc (computeFee D x bps sc)"
  by (simp add: computeFee_def grid_floorTo)

text \<open>A fill as the engine produces it, with sizes the ledger adds exactly.\<close>

definition fill_ok :: "market_params \<Rightarrow> engine_fill \<Rightarrow> bool" where
  "fill_ok params f \<longleftrightarrow> 0 < fill_quantity f \<and> 0 < fill_quote f \<and>
     grid (base_scale params) (fill_quantity f) \<and> grid (quote_scale params) (fill_quote f) \<and>
     2 * (fill_quantity f + fill_quote f) * 10 ^ max (base_scale params) (quote_scale params) < 10 ^ 20"

definition fees_ok :: "market \<Rightarrow> bool" where
  "fees_ok m \<longleftrightarrow> maker_fee_bps m < 10000 \<and> taker_fee_bps m < 10000"

lemma fill_fits:
  assumes "fill_ok params f"
  shows "fits20 (base_scale params) (fill_quantity f)" and "fits20 (quote_scale params) (fill_quote f)"
proof -
  let ?m = "max (base_scale params) (quote_scale params)"
  have le: "x * 10 ^ k < 10 ^ 20"
    if "0 \<le> x" "x \<le> 2 * (fill_quantity f + fill_quote f)" "k \<le> ?m" for x k
  proof -
    have "x * 10 ^ k \<le> x * 10 ^ ?m" using that(1,3) by (intro mult_left_mono power_increasing) auto
    also have "\<dots> < 10 ^ 20"
      using assms that(2) scaled_less [of "2 * (fill_quantity f + fill_quote f)" ?m "10 ^ 20" x]
      by (simp add: fill_ok_def)
    finally show ?thesis .
  qed
  show "fits20 (base_scale params) (fill_quantity f)"
    using assms le [of "fill_quantity f" "base_scale params"] by (simp add: fits20_def fill_ok_def)
  show "fits20 (quote_scale params) (fill_quote f)"
    using assms le [of "fill_quote f" "quote_scale params"] by (simp add: fits20_def fill_ok_def)
qed

lemma settlement_fields:
  assumes D: "decimal_context D" and f: "fill_ok params fill" and fees: "fees_ok m"
    and st: "st = settlement_of D taker maker fill m params"
  shows "st_quantity st = fill_quantity fill \<and> st_quote st = fill_quote fill \<and>
    0 \<le> st_buyer_fee st \<and> st_buyer_fee st < fill_quantity fill \<and>
    grid (base_scale params) (st_buyer_fee st) \<and>
    0 \<le> st_seller_fee st \<and> st_seller_fee st < fill_quote fill \<and>
    grid (quote_scale params) (st_seller_fee st)"
proof -
  have pos: "0 < fill_quantity fill" "0 < fill_quote fill" using f by (simp_all add: fill_ok_def)
  show ?thesis
    using computeFee_bounds [OF D pos(1), of "maker_fee_bps m" "base_scale params"]
      computeFee_bounds [OF D pos(1), of "taker_fee_bps m" "base_scale params"]
      computeFee_bounds [OF D pos(2), of "maker_fee_bps m" "quote_scale params"]
      computeFee_bounds [OF D pos(2), of "taker_fee_bps m" "quote_scale params"] fees
    by (simp add: st settlement_of_def Let_def fees_ok_def grid_computeFee)
qed

lemma settlement_lines:
  assumes D: "decimal_context D" and f: "fill_ok params fill" and fees: "fees_ok m"
    and st: "st = settlement_of D taker maker fill m params"
  shows "st_lines st =
    [\<lparr>line_user = Some (st_buyer st), line_asset = QUOTE_ASSET, line_kind = USER_LOCKED,
      line_direction = DEBIT, line_amount = st_quote st\<rparr>,
     \<lparr>line_user = Some (st_seller st), line_asset = QUOTE_ASSET, line_kind = USER_AVAILABLE,
      line_direction = CREDIT, line_amount = st_quote st - st_seller_fee st\<rparr>,
     \<lparr>line_user = Some (st_seller st), line_asset = BASE_ASSET, line_kind = USER_LOCKED,
      line_direction = DEBIT, line_amount = st_quantity st\<rparr>,
     \<lparr>line_user = Some (st_buyer st), line_asset = BASE_ASSET, line_kind = USER_AVAILABLE,
      line_direction = CREDIT, line_amount = st_quantity st - st_buyer_fee st\<rparr>]
    @ (if 0 < st_seller_fee st
       then [\<lparr>line_user = None, line_asset = QUOTE_ASSET, line_kind = FEE_REVENUE,
         line_direction = CREDIT, line_amount = st_seller_fee st\<rparr>] else [])
    @ (if 0 < st_buyer_fee st
       then [\<lparr>line_user = None, line_asset = BASE_ASSET, line_kind = FEE_REVENUE,
         line_direction = CREDIT, line_amount = st_buyer_fee st\<rparr>] else [])"
proof -
  note s = settlement_fields [OF assms]
  have g: "grid (base_scale params) (fill_quantity fill)" "grid (quote_scale params) (fill_quote fill)"
    using f by (simp_all add: fill_ok_def)
  have nets: "dsub D (fill_quantity fill) (st_buyer_fee st) = fill_quantity fill - st_buyer_fee st"
    "dsub D (fill_quote fill) (st_seller_fee st) = fill_quote fill - st_seller_fee st"
    using s by (auto intro!: dsub_exact [OF D fill_fits(1) [OF f]] dsub_exact [OF D fill_fits(2) [OF f]])
  have gn: "grid (base_scale params) (fill_quantity fill - st_buyer_fee st)"
    "grid (quote_scale params) (fill_quote fill - st_seller_fee st)"
    using s g by (auto intro: grid_diff)
  have def: "st_lines st =
    [\<lparr>line_user = Some (st_buyer st), line_asset = QUOTE_ASSET, line_kind = USER_LOCKED,
      line_direction = DEBIT, line_amount = toFixed (fill_quote fill) (quote_scale params)\<rparr>,
     \<lparr>line_user = Some (st_seller st), line_asset = QUOTE_ASSET, line_kind = USER_AVAILABLE,
      line_direction = CREDIT,
      line_amount = toFixed (dsub D (fill_quote fill) (st_seller_fee st)) (quote_scale params)\<rparr>,
     \<lparr>line_user = Some (st_seller st), line_asset = BASE_ASSET, line_kind = USER_LOCKED,
      line_direction = DEBIT, line_amount = toFixed (fill_quantity fill) (base_scale params)\<rparr>,
     \<lparr>line_user = Some (st_buyer st), line_asset = BASE_ASSET, line_kind = USER_AVAILABLE,
      line_direction = CREDIT,
      line_amount = toFixed (dsub D (fill_quantity fill) (st_buyer_fee st)) (base_scale params)\<rparr>]
    @ (if 0 < st_seller_fee st
       then [\<lparr>line_user = None, line_asset = QUOTE_ASSET, line_kind = FEE_REVENUE,
         line_direction = CREDIT, line_amount = toFixed (st_seller_fee st) (quote_scale params)\<rparr>] else [])
    @ (if 0 < st_buyer_fee st
       then [\<lparr>line_user = None, line_asset = BASE_ASSET, line_kind = FEE_REVENUE,
         line_direction = CREDIT, line_amount = toFixed (st_buyer_fee st) (base_scale params)\<rparr>] else [])"
    by (simp add: st settlement_of_def Let_def)
  show ?thesis unfolding def nets using g gn s by (simp add: toFixed_grid)
qed

lemma assets_differ [simp]: "BASE_ASSET \<noteq> QUOTE_ASSET" "QUOTE_ASSET \<noteq> BASE_ASSET"
  by (simp_all add: BASE_ASSET_def QUOTE_ASSET_def)

lemma settlement_balanced:
  assumes D: "decimal_context D" and f: "fill_ok params fill" and fees: "fees_ok m"
    and st: "st = settlement_of D taker maker fill m params"
  shows "balanced_lines (max (base_scale params) (quote_scale params)) (st_lines st)"
proof -
  let ?sc = "max (base_scale params) (quote_scale params)"
  note l = settlement_lines [OF assms] and s = settlement_fields [OF assms]
  have g: "grid ?sc (fill_quantity fill)" "grid ?sc (fill_quote fill)"
    "grid ?sc (st_buyer_fee st)" "grid ?sc (st_seller_fee st)"
    using f s by (auto simp: fill_ok_def intro: grid_mono)
  have "net (st_lines st) a = 0" for a
    using s unfolding l net_def by (auto simp: signed_amount_def)
  moreover have "amounts_fit ?sc (map line_amount (st_lines st))"
    using s f g unfolding l amounts_fit_def
    by (auto simp: fill_ok_def add.commute [of "2 * fill_quote fill"] intro!: grid_diff)
  ultimately show ?thesis
    using s f unfolding balanced_lines_def l
    by (auto simp: well_addressed_def isUserAccount_def fill_ok_def)
qed

section \<open>What the single steps do\<close>

lemma updateOrder_spec:
  assumes "updateOrder i upd s = (r, t)"
  shows "(\<exists>e. r = Inl e \<and> t = s) \<or>
    (\<exists>x. findOrderById i s = Some x \<and> r = Inr (upd x) \<and> order_checks (upd x) \<and>
       t = s\<lparr>orders := map (\<lambda>y. if order_id y = i then upd y else y) (orders s)\<rparr>)"
  using assms by (auto simp: updateOrder_def svc_simps split: option.splits if_splits)

lemma find_updated:
  assumes "orders_inv s" and "findOrderById i s = Some x" and "\<And>y. order_id (upd y) = order_id y"
    and "orders t = map (\<lambda>y. if order_id y = i then upd y else y) (orders s)"
  shows "findOrderById j t = (if j = i then Some (upd x) else findOrderById j s)"
proof -
  have find: "find (\<lambda>y. order_id y = j) (map (\<lambda>y. if order_id y = i then upd y else y) os) =
      map_option (\<lambda>y. if order_id y = i then upd y else y) (find (\<lambda>y. order_id y = j) os)" for os
    by (induction os) (auto simp: assms(3))
  show ?thesis
    using assms(2) unfolding findOrderById_def assms(4) find
    by (cases "find (\<lambda>y. order_id y = j) (orders s)") (auto dest: find_SomeD)
qed

lemma createOrder_spec:
  assumes "createOrder userId marketId inp lockAsset lockAmount s = (r, t)"
  shows "(\<exists>e. r = Inl e \<and> t = s\<lparr>next_uuid := Suc (next_uuid s)\<rparr>) \<or>
    (\<exists>ord. r = Inr ord \<and> t = s\<lparr>next_uuid := Suc (next_uuid s), orders := orders s @ [ord]\<rparr> \<and>
      ord = \<lparr>order_id = next_uuid s, order_user = userId, order_market = marketId,
        client_order_id = co_client inp, order_side = co_side inp, order_type = co_type inp,
        order_price = co_price inp, order_quantity = co_quantity inp,
        quote_budget = co_budget inp, filled_quantity = 0, quote_spent = 0,
        locked_asset = Some lockAsset, locked_amount = Some lockAmount,
        order_status = PENDING, lock_txn = None, order_created = now s, order_closed = None\<rparr>)"
  using assms by (auto simp: createOrder_def svc_simps fresh_uuid_def Let_def split: if_splits)

lemma guards_read_only:
  "assertKycApproved u s = (r1, t1) \<Longrightarrow> t1 = s" "resolveMarket mkt s = (r2, t2) \<Longrightarrow> t2 = s"
  "validateAgainstMarket D inp m s = (r3, t3) \<Longrightarrow> t3 = s"
  by (auto simp: assertKycApproved_def resolveMarket_def validateAgainstMarket_def svc_simps
      split: option.splits if_splits)

lemma bal_orders: "bal (s\<lparr>orders := os\<rparr>) = bal s"
  by (rule bal_tables) (simp add: ledger_tables_def)

lemma bal_uuid_orders: "bal (s\<lparr>next_uuid := n, orders := os\<rparr>) = bal s"
  by (rule bal_tables) (simp add: ledger_tables_def)

text \<open>The funds of an order are locked, or the order is rejected and nothing moved.\<close>

lemma lock_funds_spec:
  assumes inv: "exchange_inv s" and ord: "findOrderById (order_id ord) s = Some ord"
    and new: "\<not> already_posted (lock_input ord a x) s"
    and run: "lock_funds D u ord a x s = (r, t)"
  shows "(\<exists>txn. r = Inr (ord\<lparr>order_status := OPEN, lock_txn := Some txn\<rparr>) \<and>
       findOrderById (order_id ord) t = Some (ord\<lparr>order_status := OPEN, lock_txn := Some txn\<rparr>) \<and>
       bal t = (\<lambda>v b k. bal s v b k + delta (post_lines (lock_input ord a x)) v b k)) \<or>
    (isl r \<and> ledger_tables t = ledger_tables s \<and>
     (r = Inl (AppError 422 ''INSUFFICIENT_BALANCE'') \<longrightarrow> findOrderById (order_id ord) t =
         Some (ord\<lparr>order_status := ORDER_REJECTED, order_closed := Some (now s)\<rparr>)))"
proof -
  let ?m = "retry_post (post D (lock_input ord a x) (Some u))"
  obtain r1 s1 where 1: "?m s = (r1, s1)" by (cases "?m s")
  have linv: "ledger_inv s" and oinv: "orders_inv s"
    using with_ledgerD [OF inv] by (simp_all add: trading_inv_def)
  show ?thesis
  proof (cases r1)
    case (Inr p)
    have bal: "bal s1 v b k = bal s v b k + delta (post_lines (lock_input ord a x)) v b k" for v b k
      using retried.success_moves [OF 1 [unfolded Inr] linv] new by simp
    have only: "only_ledger s s1" using retry_post_only_ledger [OF 1 linv] by blast
    have ord1: "findOrderById (order_id ord) s1 = Some ord"
      using ord only_ledger_simps(1) [OF only] by (simp add: findOrderById_def)
    have oinv1: "orders_inv s1"
      using preserves_run [OF exchange_retry_post inv 1] with_ledgerD(2) by (auto simp: trading_inv_def)
    let ?upd = "\<lambda>r. r\<lparr>order_status := OPEN, lock_txn := Some (posted_id p)\<rparr>"
    obtain r2 s2 where 2: "updateOrder (order_id ord) ?upd s1 = (r2, s2)"
      by (cases "updateOrder (order_id ord) ?upd s1")
    have "order_checks ord" using ord oinv find_order_some by (auto simp: orders_inv_def)
    then have "order_checks (?upd ord)" by (auto simp: order_checks_def split: option.splits)
    then have r2: "r2 = Inr (?upd ord)" "s2 = s1\<lparr>orders :=
        map (\<lambda>y. if order_id y = order_id ord then ?upd y else y) (orders s1)\<rparr>"
      using updateOrder_spec [OF 2] 2 ord1 by (auto simp: updateOrder_def svc_simps)
    have "findOrderById (order_id ord) s2 = Some (?upd ord)"
      using find_updated [OF oinv1 ord1, of ?upd s2 "order_id ord"] r2 by simp
    moreover have "r = Inr (?upd ord)" "t = s2"
      using run 1 2 Inr r2 by (simp_all add: lock_funds_def svc_simps)
    ultimately show ?thesis using bal r2 by (auto simp: bal_orders fun_eq_iff)
  next
    case (Inl e)
    obtain cs where s1: "s1 = s\<lparr>conflicts := cs\<rparr>" using retry_post_error [OF 1 [unfolded Inl]] by blast
    show ?thesis
    proof (cases "e = ConflictError ''INSUFFICIENT_BALANCE''")
      case False
      then have "r = Inl e" "ledger_tables t = ledger_tables s"
        using run 1 Inl by (auto simp: lock_funds_def svc_simps s1 ledger_tables_def)
      moreover have "e \<noteq> AppError 422 ''INSUFFICIENT_BALANCE''"
        using retry_post_errors [OF 1 [unfolded Inl]] by (auto simp: posting_errors_def)
      ultimately show ?thesis by simp
    next
      case True
      have ord1: "findOrderById (order_id ord) s1 = Some ord" using ord by (simp add: s1 findOrderById_def)
      have oinv1: "orders_inv s1" using oinv by (simp add: s1 orders_inv_def)
      let ?upd = "\<lambda>r. r\<lparr>order_status := ORDER_REJECTED, order_closed := Some (now s)\<rparr>"
      obtain r2 s2 where 2: "updateOrder (order_id ord) ?upd s1 = (r2, s2)"
        by (cases "updateOrder (order_id ord) ?upd s1")
      have "order_checks ord" using ord oinv find_order_some by (auto simp: orders_inv_def)
      then have "order_checks (?upd ord)" by (auto simp: order_checks_def split: option.splits)
      then have r2: "r2 = Inr (?upd ord)" "s2 = s1\<lparr>orders :=
          map (\<lambda>y. if order_id y = order_id ord then ?upd y else y) (orders s1)\<rparr>"
        using updateOrder_spec [OF 2] 2 ord1 by (auto simp: updateOrder_def svc_simps)
      have f: "findOrderById (order_id ord) s2 = Some (?upd ord)"
        using find_updated [OF oinv1 ord1, of ?upd s2 "order_id ord"] r2 by simp
      have now: "now s1 = now s" by (simp add: s1)
      have "isl r" "orders t = orders s2" "ledger_tables t = ledger_tables s2"
        using run 1 2 Inl True r2(1)
        by (auto simp: lock_funds_def svc_simps now recordAudit_def ledger_tables_def)
      then show ?thesis using f r2 s1 by (simp add: findOrderById_def ledger_tables_def)
    qed
  qed
qed

section \<open>Placing and cancelling\<close>

lemma delta_lock:
  "delta (post_lines (lock_input ord a x)) v b k =
     (if v = Some (order_user ord) \<and> b = a
      then (if k = USER_AVAILABLE then - x else if k = USER_LOCKED then x else 0) else 0)"
  by (simp add: lock_input_def delta_move_lines)

lemma delta_unlock:
  "delta (post_lines (unlock_input ord a x)) v b k =
     (if v = Some (order_user ord) \<and> b = a
      then (if k = USER_LOCKED then - x else if k = USER_AVAILABLE then x else 0) else 0)"
  by (simp add: unlock_input_def delta_move_lines)

definition insufficient :: err where
  "insufficient = AppError 422 ''INSUFFICIENT_BALANCE''"

lemma guard_errors:
  "assertKycApproved u s = (Inl e, t1) \<Longrightarrow> e \<noteq> insufficient"
  "resolveMarket mkt s = (Inl e, t2) \<Longrightarrow> e \<noteq> insufficient"
  "validateAgainstMarket D inp m s = (Inl e, t3) \<Longrightarrow> e \<noteq> insufficient"
  "createOrder u i inp a x s = (Inl e, t4) \<Longrightarrow> e \<noteq> insufficient"
  by (auto simp: assertKycApproved_def resolveMarket_def validateAgainstMarket_def createOrder_def
      fresh_uuid_def svc_simps insufficient_def Let_def split: option.splits if_splits)

lemma create_and_lock_cases:
  assumes "create_and_lock D u inp m params s = (r, t)"
  obtains (rejected) e where "r = Inl e" and "t = s\<lparr>next_uuid := Suc (next_uuid s)\<rparr>" and "e \<noteq> insufficient"
  | (raced) dto where "r = Inr (Duplicate dto)" and "t = s\<lparr>next_uuid := Suc (next_uuid s)\<rparr>"
  | (locking) a x s1 ord r2 where
      "(a, x) = computeLockRequirement D inp params"
      "createOrder u (market_id m) inp a x s = (Inr ord, s1)"
      "lock_funds D u ord a x s1 = (r2, t)"
      "r = (case r2 of Inl e \<Rightarrow> Inl e | Inr ord' \<Rightarrow> Inr (Locked ord' m params))"
proof -
  obtain a x where ax: "computeLockRequirement D inp params = (a, x)"
    by (cases "computeLockRequirement D inp params")
  obtain r1 s1 where 1: "createOrder u (market_id m) inp a x s = (r1, s1)"
    by (cases "createOrder u (market_id m) inp a x s")
  show thesis
  proof (cases r1)
    case (Inl e)
    then have s1: "s1 = s\<lparr>next_uuid := Suc (next_uuid s)\<rparr>" using createOrder_spec [OF 1] by auto
    have e: "e \<noteq> insufficient" using guard_errors(4) 1 Inl by blast
    show thesis
    proof (cases "e = PrismaError ''P2002'' \<and> duplicate_of u inp s1 \<noteq> None")
      case True
      then obtain dto where "duplicate_of u inp s1 = Some dto" by auto
      then have "r = Inr (Duplicate dto)" "t = s1"
        using assms ax 1 Inl True by (simp_all add: create_and_lock_def svc_simps)
      then show thesis using raced s1 by blast
    next
      case False
      then have "r = Inl e" "t = s1"
        using assms ax 1 Inl
        by (auto simp: create_and_lock_def svc_simps split: if_splits option.splits)
      then show thesis using rejected s1 e by blast
    qed
  next
    case (Inr ord)
    obtain r2 s2 where 2: "lock_funds D u ord a x s1 = (r2, s2)" by (cases "lock_funds D u ord a x s1")
    then have "t = s2" "r = (case r2 of Inl e \<Rightarrow> Inl e | Inr ord' \<Rightarrow> Inr (Locked ord' m params))"
      using assms ax 1 Inr by (auto simp: create_and_lock_def svc_simps split: sum.splits)
    then show thesis using locking [OF ax [symmetric] 1 [unfolded Inr]] 2 by blast
  qed
qed

lemma placeOrder_lock_cases:
  assumes "placeOrder_lock D u inp s = (r, t)"
  obtains (guard) e where "r = Inl e" and "t = s" and "e \<noteq> insufficient"
  | (duplicate) dto where "r = Inr (Duplicate dto)" and "duplicate_of u inp s = Some dto" and "t = s"
  | (behind) m params where
      "resolveMarket (co_symbol inp) s = (Inr (m, params), s)"
      "market_status m = MARKET_ACTIVE" "validateAgainstMarket D inp m s = (Inr (), s)"
      "duplicate_of u inp s = None" "create_and_lock D u inp m params s = (r, t)"
proof -
  obtain r1 where 1: "assertKycApproved u s = (r1, s)"
    using guards_read_only(1) by (metis surj_pair)
  obtain r2 where 2: "resolveMarket (co_symbol inp) s = (r2, s)"
    using guards_read_only(2) by (metis surj_pair)
  show thesis
  proof (cases "isl r1 \<or> isl r2")
    case True
    then obtain e where "r = Inl e" "t = s" "r1 = Inl e \<or> r2 = Inl e"
      using assms 1 2 by (cases r1; cases r2) (auto simp: placeOrder_lock_def svc_simps)
    then show thesis using guard guard_errors(1,2) 1 2 by metis
  next
    case False
    then obtain m params where r: "r1 = Inr ()" "r2 = Inr (m, params)"
      by (cases r1; cases r2) auto
    obtain r3 where 3: "validateAgainstMarket D inp m s = (r3, s)"
      using guards_read_only(3) by (metis surj_pair)
    show thesis
    proof (cases "market_status m = MARKET_ACTIVE \<and> \<not> isl r3")
      case False
      then obtain e where "r = Inl e" "t = s"
        "e = AppError 422 ''MARKET_NOT_ACTIVE'' \<or> r3 = Inl e"
        using assms 1 2 3 r by (cases r3) (auto simp: placeOrder_lock_def svc_simps split: if_splits)
      then show thesis using guard guard_errors(3) 3 by (auto simp: insufficient_def)
    next
      case True
      then have r3: "r3 = Inr ()" by (cases r3) auto
      show thesis
      proof (cases "duplicate_of u inp s")
        case None
        then have "create_and_lock D u inp m params s = (r, t)"
          using assms 1 2 3 r r3 True by (simp add: placeOrder_lock_def svc_simps)
        then show thesis using behind 2 3 r r3 True None by blast
      next
        case (Some dto)
        then have "r = Inr (Duplicate dto)" "t = s"
          using assms 1 2 3 r r3 True by (simp_all add: placeOrder_lock_def svc_simps)
        then show thesis using duplicate Some by blast
      qed
    qed
  qed
qed

section \<open>Releasing what a lock did not spend\<close>

definition spent_of :: "order \<Rightarrow> rat" where
  "spent_of ord = (if order_side ord = BUY then quote_spent ord else filled_quantity ord)"

text \<open>What \<open>releaseSurplus\<close> gives back to the user in an asset.\<close>

definition surplus_of :: "rounding \<Rightarrow> order \<Rightarrow> string \<Rightarrow> rat" where
  "surplus_of D ord a =
     (case (locked_asset ord, locked_amount ord) of
        (Some b, Some x) \<Rightarrow> if b = a \<and> b \<noteq> [] then max 0 (dsub D x (spent_of ord)) else 0
      | _ \<Rightarrow> 0)"

definition released_before :: "order \<Rightarrow> db \<Rightarrow> bool" where
  "released_before ord s \<longleftrightarrow> already_posted (unlock_input ord [] 0) s"

lemma releaseSurplus_spec:
  assumes run: "releaseSurplus D ord s = (Inr r, t)" and inv: "ledger_inv s"
    and new: "\<not> released_before ord s"
  shows "only_ledger s t \<and> ledger_inv t \<and>
    bal t v a k = bal s v a k + (if v = Some (order_user ord) then
      (if k = USER_LOCKED then - surplus_of D ord a
       else if k = USER_AVAILABLE then surplus_of D ord a else 0) else 0)"
proof (cases "\<exists>b x. locked_asset ord = Some b \<and> locked_amount ord = Some x \<and> b \<noteq> [] \<and>
    0 < dsub D x (spent_of ord)")
  case True
  then obtain b x where b: "locked_asset ord = Some b" "locked_amount ord = Some x" "b \<noteq> []"
    "0 < dsub D x (spent_of ord)" by blast
  let ?x = "dsub D x (spent_of ord)"
  obtain p where post: "retry_post (post D (unlock_input ord b ?x) (Some (order_user ord))) s = (Inr p, t)"
    using run b by (auto simp: releaseSurplus_def spent_of_def Let_def bindS_Inr_iff returnS_apply)
  have "\<not> already_posted (unlock_input ord b ?x) s"
    using new by (simp add: released_before_def already_posted_def unlock_input_def)
  then have "bal t v a k = bal s v a k + delta (post_lines (unlock_input ord b ?x)) v a k"
    using retried.success_moves [OF post inv] by simp
  then show ?thesis
    using b retry_post_only_ledger [OF post inv] by (simp add: delta_unlock surplus_of_def)
next
  case False
  then have "t = s" using run
    by (auto simp: releaseSurplus_def spent_of_def Let_def returnS_apply split: option.splits if_splits)
  moreover have "surplus_of D ord a = 0"
    using False by (auto simp: surplus_of_def max_def split: option.splits)
  ultimately show ?thesis using inv by simp
qed

lemma releaseSurplus_state:
  assumes "releaseSurplus D ord s = (r, t)" and "ledger_inv s"
  shows "only_ledger s t \<and> ledger_inv t"
  using assms
  by (auto simp: releaseSurplus_def Let_def bindS_apply returnS_apply
      split: option.splits if_splits prod.splits sum.splits
      dest!: retry_post_only_ledger)

lemma cancelOrder_run:
  assumes ord: "findOrderById i s = Some ord" and user: "order_user ord = u"
    and status: "order_status ord \<in> {PENDING, OPEN, PARTIALLY_FILLED}"
    and run: "cancelOrder D u i s = (r, t)"
    and upd: "upd = (\<lambda>x. x\<lparr>order_status := ORDER_CANCELLED, order_closed := Some (now s)\<rparr>)"
  shows "(\<exists>e. r = Inl e \<and> t = s) \<or>
    (\<exists>s1 r2 s2. updateOrder i upd s = (Inr (upd ord), s1) \<and>
      releaseSurplus D (upd ord) s1 = (r2, s2) \<and> isl r = isl r2 \<and>
      ledger_tables t = ledger_tables s2 \<and> orders t = orders s2)"
proof -
  obtain r1 s1 where 1: "updateOrder i upd s = (r1, s1)" by (cases "updateOrder i upd s")
  from updateOrder_spec [OF 1] show ?thesis
  proof (elim disjE exE conjE)
    fix e assume "r1 = Inl e" "s1 = s"
    then show ?thesis using run ord user status 1 unfolding upd
      by (auto simp: cancelOrder_def svc_simps)
  next
    fix x assume x: "findOrderById i s = Some x" "r1 = Inr (upd x)"
    then have r1: "r1 = Inr (upd ord)" using ord by simp
    obtain r2 s2 where 2: "releaseSurplus D (upd ord) s1 = (r2, s2)"
      by (cases "releaseSurplus D (upd ord) s1")
    have "isl r = isl r2 \<and> ledger_tables t = ledger_tables s2 \<and> orders t = orders s2"
      using run ord user status 1 2 r1 unfolding upd
      by (auto simp: cancelOrder_def svc_simps recordAudit_def publish_def ledger_tables_def
          split: sum.splits)
    then show ?thesis using 1 2 r1 by blast
  qed
qed

section \<open>A market to evaluate on\<close>

lemmas trading_code [code] =
  fun_cong [OF assertKycApproved_def, unfolded run_code]
  fun_cong [OF resolveMarket_def, unfolded run_code]
  fun_cong [OF validateAgainstMarket_def, unfolded run_code]
  fun_cong [OF createOrder_def, unfolded run_code]
  fun_cong [OF updateOrder_def, unfolded run_code]
  fun_cong [OF createTrade_def, unfolded run_code]
  fun_cong [OF releaseSurplus_def, unfolded run_code]
  fun_cong [OF settleFill_def, unfolded run_code]
  fun_cong [OF settle_maker_def, unfolded run_code]
  fun_cong [OF matchAndSettle_def, unfolded run_code]
  fun_cong [OF lock_funds_def, unfolded run_code]
  fun_cong [OF create_and_lock_def, unfolded run_code]
  fun_cong [OF placeOrder_lock_def, unfolded run_code]
  fun_cong [OF placeOrder_match_def, unfolded run_code]
  fun_cong [OF placeOrder_def, unfolded run_code]
  fun_cong [OF cancelOrder_def, unfolded run_code]

lemma settle_fills_code [code]:
  "settle_fills D sha1 taker m params rows affected fs s = (case fs of
     [] \<Rightarrow> (Inr ([], affected), s)
   | fill # gs \<Rightarrow>
     (case find (\<lambda>r. order_id r = fill_maker fill) rows of
        None \<Rightarrow> settle_fills D sha1 taker m params rows affected gs s
      | Some maker \<Rightarrow>
        (case settle_maker D sha1 taker maker fill m params s of
           (Inl e, s') \<Rightarrow> (Inl e, s')
         | (Inr (maker', tid), s') \<Rightarrow>
           (case settle_fills D sha1 taker m params
                   (map (\<lambda>r. if order_id r = order_id maker then maker' else r) rows)
                   (add_once (order_user maker) affected) gs s' of
              (Inl e, t) \<Rightarrow> (Inl e, t)
            | (Inr (created, us), t) \<Rightarrow> (Inr ((fill, tid) # created, us), t)))))"
  by (cases fs) (auto simp: svc_simps split: option.split prod.split sum.split)

lemma publish_balances_code [code]:
  "publish_balances us s = (case us of [] \<Rightarrow> (Inr (), s) | u # vs \<Rightarrow>
     publish_balances vs (s\<lparr>published := published s @ [Balance_Changed u]\<rparr>))"
  by (cases us) (simp_all add: svc_simps publish_def)

definition toy_digest :: "string \<Rightarrow> 8 word list" where
  "toy_digest seed = [of_char (seed ! 35), of_char (last seed)] @ replicate 18 0"

definition usdt_inr :: market where
  "usdt_inr = \<lparr>market_id = 1000, market_symbol = ''USDT-INR'', base_asset = ''USDT'',
     quote_asset = ''INR'', market_status = MARKET_ACTIVE, tick_size = 1,
     step_size = 1, min_notional = 10, maker_fee_bps = 10, taker_fee_bps = 20\<rparr>"

definition trader :: "nat \<Rightarrow> user" where
  "trader i = \<lparr>user_id = i, user_email = [], user_status = USER_ACTIVE, kyc_status = KYC_APPROVED, kyc_tier = 1,
     withdrawals_blocked = False, risk_level = RISK_LOW, risk_note = None\<rparr>"

definition credit :: "nat \<Rightarrow> string \<Rightarrow> rat \<Rightarrow> posting_input" where
  "credit u as x = \<lparr>post_kind = ''DEPOSIT'', post_reference_type = None, post_reference_id = None,
     post_lines =
       [\<lparr>line_user = None, line_asset = as, line_kind = GATEWAY_CLEARING, line_direction = DEBIT,
         line_amount = x\<rparr>,
        \<lparr>line_user = Some u, line_asset = as, line_kind = USER_AVAILABLE, line_direction = CREDIT,
         line_amount = x\<rparr>]\<rparr>"

definition market_db :: db where
  "market_db =
     snd (post exact (credit 8 ''USDT'' 100) None
       (snd (post exact (credit 7 ''INR'' 5000) None
         (empty_db\<lparr>users := [trader 7, trader 8, trader 9], markets := [usdt_inr],
            assets := [\<lparr>asset_symbol = ''INR'', asset_decimals = 1\<rparr>,
                       \<lparr>asset_symbol = ''USDT'', asset_decimals = 1\<rparr>], next_uuid := 100\<rparr>))))"

lemma market_db_inv: "exchange_inv market_db"
proof -
  let ?s = "empty_db\<lparr>users := [trader 7, trader 8, trader 9], markets := [usdt_inr],
    assets := [\<lparr>asset_symbol = ''INR'', asset_decimals = 1\<rparr>,
      \<lparr>asset_symbol = ''USDT'', asset_decimals = 1\<rparr>], next_uuid := 100\<rparr>"
  have "ledger_inv ?s"
    by (rule ledger_inv_cong [OF _ _ empty_db_inv]) (simp_all add: ledger_tables_def empty_db_def)
  then have "exchange_inv ?s"
    by (simp add: with_ledger_def trading_inv_def orders_inv_def trades_inv_def empty_db_def)
  then show ?thesis unfolding market_db_def
    by (intro preservesD [OF preserves_post [OF trading_inv_frame]])
qed

definition limit_order :: "order_side \<Rightarrow> rat \<Rightarrow> rat \<Rightarrow> string option \<Rightarrow> create_order" where
  "limit_order side price qty client = \<lparr>co_symbol = ''USDT-INR'', co_side = side, co_type = LIMIT,
     co_price = Some price, co_quantity = Some qty, co_budget = None, co_client = client\<rparr>"

end
