(* ===== verification/Trading_Properties.thy ===== *)
theory Trading_Properties
  imports Trading "HOL-Library.Multiset"
begin

text \<open>
  The properties of spot trading: which fills the matching engine decides and where it stops,
  that a lock covers what its order can spend, that the book is loaded in price-time order,
  what locking, settling and cancelling move, that the exchange's tables stay consistent, and
  three places where the code does not do what it means to.
\<close>

section \<open>The matching engine\<close>

text \<open>
  C4.  Price-time priority: the fills of the engine are, in order, fills against the first makers
  of the book that still offer something and, for a LIMIT taker, cross its price.  Each fill is at
  the maker's price and goes as far as both sides allow: its quantity is the smaller of what the
  maker offers and what is left of the order after the fills before it (for a MARKET BUY, what the
  rest of the budget buys at that price, floored to the base scale), and is positive.  Its quote
  amount is the price times the quantity floored to the quote scale, and is positive.
\<close>

theorem matchOrder_priority:
  assumes "decimal_context D" and "engine_ok D taker book params"
    and "fs = res_fills (matchOrder D taker book params)" and "i < length fs"
    and "m = live_book taker params book ! i"
    and "left = (if isBudgetDriven taker
      then floorTo (or0 (taker_budget taker)) (quote_scale params) - sum_list (map fill_quote (take i fs))
      else floorTo (or0 (taker_quantity taker)) (base_scale params) - sum_list (map fill_quantity (take i fs)))"
  shows "length fs \<le> length (live_book taker params book) \<and>
    m \<in> set book \<and> reaches taker m \<and>
    fill_maker (fs ! i) = ro_id m \<and> fill_maker_user (fs ! i) = ro_user m \<and>
    fill_price (fs ! i) = ro_price m \<and> 0 < left \<and>
    fill_quantity (fs ! i) = min (floorTo (ro_remaining m) (base_scale params))
      (if isBudgetDriven taker then floorTo (ddiv D left (ro_price m)) (base_scale params) else left) \<and>
    0 < fill_quantity (fs ! i) \<and> fill_quantity (fs ! i) \<le> floorTo (ro_remaining m) (base_scale params) \<and>
    fill_quote (fs ! i) =
      floorTo (dmul D (fill_quantity (fs ! i)) (fill_price (fs ! i))) (quote_scale params) \<and>
    0 < fill_quote (fs ! i)"
proof -
  let ?live = "live_book taker params book"
  have fs: "fs = allocate D taker params (wanted taker params) ?live"
    by (rule trans [OF assms(3) matchOrder_allocate [OF assms(1,2) refl, THEN conjunct1]])
  have len: "length fs \<le> length ?live" unfolding fs by (rule allocate_prefix)
  then have "m \<in> set ?live" using assms(4,5) by simp
  from live_book_set [OF this] have m: "m \<in> set book" "reaches taker m" "0 < avail params m" by auto
  have price: "ro_price m \<noteq> 0" using m(1) assms(2) by (auto simp: engine_ok_def good_book_def)
  have left: "left = wanted taker params - sum_used taker (take i fs)"
    by (simp add: assms(6) wanted_def sum_used_alt sum_qty_def sum_quote_def)
  have "fs ! i = fill_of D taker params left m \<and> 0 < left \<and> 0 < fill_quantity (fs ! i) \<and>
      0 < fill_quote (fs ! i)"
    using allocate_nth [of i D taker params "wanted taker params" ?live] assms(4)
    unfolding fs [symmetric] Let_def left [symmetric] assms(5) [symmetric] by blast
  then have fill: "fs ! i = fill_of D taker params left m" "0 < left" "0 < fill_quantity (fs ! i)"
    "0 < fill_quote (fs ! i)" by blast+
  have qty: "take_qty D taker params left m = min (floorTo (ro_remaining m) (base_scale params))
      (if isBudgetDriven taker then floorTo (ddiv D left (ro_price m)) (base_scale params) else left)"
    using price by (simp add: take_qty_def avail_def)
  then have "take_qty D taker params left m \<le> floorTo (ro_remaining m) (base_scale params)" by simp
  then show ?thesis using fill len m(1,2) qty by (simp add: take_quote_def)
qed

definition example_book :: "resting_order list" where
  "example_book = [\<lparr>ro_id = 11, ro_user = 8, ro_price = 90, ro_remaining = 10\<rparr>,
    \<lparr>ro_id = 12, ro_user = 9, ro_price = 91, ro_remaining = 10\<rparr>]"

definition example_taker :: taker_input where
  "example_taker = \<lparr>taker_side = BUY, taker_type = LIMIT, taker_price = Some 91,
     taker_quantity = Some 15, taker_budget = None\<rparr>"

definition example_params :: market_params where
  "example_params = \<lparr>base_scale = 1, quote_scale = 1\<rparr>"

lemma example_ok: "engine_ok exact example_taker example_book example_params"
  by (simp add: engine_ok_def good_book_def rem_fits_def rem_scale_def wanted_def isBudgetDriven_def
      book_size_def book_value_def avail_def example_book_def example_taker_def example_params_def
      grid_floorTo) code_simp

lemma example_fills:
  "res_fills (matchOrder exact example_taker example_book example_params) =
    [\<lparr>fill_maker = 11, fill_maker_user = 8, fill_price = 90, fill_quantity = 10, fill_quote = 900\<rparr>,
     \<lparr>fill_maker = 12, fill_maker_user = 9, fill_price = 91, fill_quantity = 5, fill_quote = 455\<rparr>]"
  "live_book example_taker example_params example_book = example_book"
  by code_simp+


theorem matchOrder_priority_witness:
  "fill_maker (res_fills (matchOrder exact example_taker example_book example_params) ! 1) = 12 \<and>
   fill_price (res_fills (matchOrder exact example_taker example_book example_params) ! 1) = 91 \<and>
   fill_quantity (res_fills (matchOrder exact example_taker example_book example_params) ! 1) = 5"
proof -
  let ?fs = "res_fills (matchOrder exact example_taker example_book example_params)"
  have live: "example_book ! 1 = live_book example_taker example_params example_book ! 1"
    by (simp only: example_fills)
  have len: "1 < length ?fs" by (simp add: example_fills)
  have left: "5 = (if isBudgetDriven example_taker
      then floorTo (or0 (taker_budget example_taker)) (quote_scale example_params) - sum_list (map fill_quote (take 1 ?fs))
      else floorTo (or0 (taker_quantity example_taker)) (base_scale example_params) - sum_list (map fill_quantity (take 1 ?fs)))"
    by (simp add: example_fills isBudgetDriven_def) code_simp
  have maker: "ro_id (example_book ! 1) = 12" "ro_price (example_book ! 1) = 91"
    "floorTo (ro_remaining (example_book ! 1)) (base_scale example_params) = 10" "\<not> isBudgetDriven example_taker"
    by code_simp+
  from matchOrder_priority [OF decimal_context_exact example_ok refl len live left] show ?thesis
    using maker by simp
qed

lemma sum_of_one_key:
  assumes "distinct (map f xs)" and "\<And>x. x \<in> set xs \<Longrightarrow> f x = k \<Longrightarrow> g x \<le> b" and "0 \<le> (b :: rat)"
  shows "sum_list (map g (filter (\<lambda>x. f x = k) xs)) \<le> b"
  using assms(1,2)
proof (induction xs)
  case (Cons x xs)
  then show ?case
  proof (cases "f x = k")
    case True
    moreover have "f y \<noteq> f x" if "y \<in> set xs" for y using Cons.prems(1) that
      by (metis distinct.simps(2) image_eqI list.set_map list.simps(9))
    ultimately have "filter (\<lambda>y. f y = k) xs = []" by (simp add: filter_empty_conv)
    then show ?thesis using Cons.prems(2) True by simp
  qed simp
qed (use assms(3) in simp)

lemma live_book_distinct: "distinct (map ro_id book) \<Longrightarrow> distinct (map ro_id (live_book taker params book))"
  unfolding live_book_def
  by (subst takeWhile_eq_take, rule distinct_map_filter) (simp add: take_map [symmetric])

lemma allocate_makers:
  "map fill_maker (allocate D taker params rem ms) =
    map ro_id (take (length (allocate D taker params rem ms)) ms)"
  by (induction ms arbitrary: rem) (auto simp: Let_def)

text \<open>No maker gives more than it has: together, its fills stay within what it offers.\<close>

lemma maker_bound:
  assumes "distinct (map ro_id ms)" and "m \<in> set ms" and "0 \<le> avail params m"
  shows "sum_list (map fill_quantity (filter (\<lambda>f. fill_maker f = ro_id m) (allocate D taker params rem ms)))
    \<le> avail params m"
proof (rule sum_of_one_key [OF _ _ assms(3)])
  let ?fs = "allocate D taker params rem ms"
  show "distinct (map fill_maker ?fs)"
    unfolding allocate_makers using assms(1) by (simp add: take_map [symmetric])
  fix f assume "f \<in> set ?fs" "fill_maker f = ro_id m"
  then obtain i where i: "i < length ?fs" "f = ?fs ! i" by (auto simp: in_set_conv_nth)
  define l where "l = rem - sum_used taker (take i ?fs)"
  have f: "f = fill_of D taker params l (ms ! i)"
    using allocate_nth [OF i(1)] by (simp add: Let_def i(2) l_def)
  have "i < length ms" using i(1) allocate_prefix [of D taker params rem ms] by simp
  then have "ms ! i = m"
    using \<open>fill_maker f = ro_id m\<close> assms(1,2) f by (auto simp: distinct_map dest: inj_onD)
  then show "fill_quantity f \<le> avail params m" by (simp add: f take_qty_def)
qed

text \<open>
  C5.  Totals and bounds: the totals the engine reports are the exact sums over the fills; the fills
  against one maker add up to no more than it has left (when no maker is in the book twice); and a
  taker never gets more than it asked for: a MARKET BUY spends at most its budget, every other
  order fills at most its quantity (all floored to the asset's scale).
\<close>

theorem matchOrder_totals:
  assumes "decimal_context D" and "engine_ok D taker book params"
  shows "let res = matchOrder D taker book params in
    res_filled res = sum_list (map fill_quantity (res_fills res)) \<and>
    res_quote res = sum_list (map fill_quote (res_fills res)) \<and>
    (distinct (map ro_id book) \<longrightarrow> (\<forall>m \<in> set book.
       sum_list (map fill_quantity (filter (\<lambda>f. fill_maker f = ro_id m) (res_fills res)))
         \<le> floorTo (ro_remaining m) (base_scale params))) \<and>
    (if taker_type taker = MARKET \<and> taker_side taker = BUY
     then res_quote res \<le> floorTo (or0 (taker_budget taker)) (quote_scale params)
     else res_filled res \<le> floorTo (or0 (taker_quantity taker)) (base_scale params))"
proof -
  note m = matchOrder_allocate [OF assms refl]
  let ?live = "live_book taker params book" and ?res = "matchOrder D taker book params"
  have "if taker_type taker = MARKET \<and> taker_side taker = BUY
     then res_quote ?res \<le> floorTo (or0 (taker_budget taker)) (quote_scale params)
     else res_filled ?res \<le> floorTo (or0 (taker_quantity taker)) (base_scale params)"
    using m by (auto simp: sum_used_alt wanted_def isBudgetDriven_def split: if_splits)
  moreover have "res_filled ?res = sum_list (map fill_quantity (res_fills ?res))"
    "res_quote ?res = sum_list (map fill_quote (res_fills ?res))"
    using m by (blast intro: trans sum_qty_def sum_quote_def)+
  moreover have "sum_list (map fill_quantity (filter (\<lambda>f. fill_maker f = ro_id x) (res_fills ?res)))
      \<le> floorTo (ro_remaining x) (base_scale params)" if dist: "distinct (map ro_id book)" and x: "x \<in> set book" for x
  proof -
    have fs: "res_fills ?res = allocate D taker params (wanted taker params) ?live" using m by blast
    have nonneg: "0 \<le> avail params x"
      using x assms(2) by (auto simp: engine_ok_def good_book_def avail_def intro: floorTo_nonneg)
    show ?thesis
    proof (cases "x \<in> set ?live")
      case True
      from maker_bound [OF live_book_distinct [OF dist] this nonneg] show ?thesis by (simp add: fs avail_def)
    next
      case False
      have "fill_maker f \<noteq> ro_id x" if "f \<in> set (res_fills ?res)" for f
      proof
        assume "fill_maker f = ro_id x"
        then have "ro_id x \<in> set (map ro_id (take (length (res_fills ?res)) ?live))"
          using that allocate_makers [of D taker params "wanted taker params" ?live] unfolding fs by (metis image_eqI set_map)
        then obtain y where "y \<in> set ?live" "ro_id y = ro_id x" by (auto dest: in_set_takeD)
        then show False using dist x False live_book_set by (metis distinct_map inj_onD)
      qed
      then have "filter (\<lambda>f. fill_maker f = ro_id x) (res_fills ?res) = []" by (simp add: filter_empty_conv)
      then show ?thesis using nonneg by (simp add: avail_def)
    qed
  qed
  ultimately show ?thesis by (simp only: Let_def simp_thms) blast
qed

theorem matchOrder_totals_witness:
  "res_filled (matchOrder exact example_taker example_book example_params) \<le> 15"
  using matchOrder_totals [OF decimal_context_exact example_ok]
  by (simp add: example_taker_def Let_def example_params_def floorTo_grid grid_def)

text \<open>
  C6.  Where matching stops.  For a taker with a quantity to fill (every order but a MARKET BUY)
  every fill but the last takes all its maker offers.  For every taker, if a maker that still offers
  something is left, then nothing is left of the quantity or budget, or the rest of the budget of a
  MARKET BUY buys less than one unit of the base asset there, or what the taker could still take is
  worth less than one unit of the quote asset.
\<close>

theorem matchOrder_exhausts:
  assumes "decimal_context D" and "engine_ok D taker book params"
    and "budget \<longleftrightarrow> taker_type taker = MARKET \<and> taker_side taker = BUY"
    and "fs = res_fills (matchOrder D taker book params)" and "live = live_book taker params book"
    and "left = (if budget
      then floorTo (or0 (taker_budget taker)) (quote_scale params) - sum_list (map fill_quote fs)
      else floorTo (or0 (taker_quantity taker)) (base_scale params) - sum_list (map fill_quantity fs))"
    and "m = live ! length fs"
    and "room = (if budget then floorTo (ddiv D left (ro_price m)) (base_scale params) else left)"
  shows "(\<not> budget \<longrightarrow> Suc i < length fs \<longrightarrow>
      fill_quantity (fs ! i) = floorTo (ro_remaining (live ! i)) (base_scale params)) \<and>
    (length fs < length live \<longrightarrow> left = 0 \<or> (budget \<and> room \<le> 0) \<or>
      floorTo (dmul D (min (floorTo (ro_remaining m) (base_scale params)) room) (ro_price m))
        (quote_scale params) \<le> 0)"
proof -
  have nb: "isBudgetDriven taker = budget" using assms(3) by (simp add: isBudgetDriven_def)
  have fs: "fs = allocate D taker params (wanted taker params) live"
    unfolding assms(4,5) by (rule matchOrder_allocate [OF assms(1,2) refl, THEN conjunct1])
  have le: "sum_used taker fs \<le> wanted taker params"
    unfolding assms(4) using matchOrder_allocate [OF assms(1,2) refl] by blast
  have left: "left = wanted taker params - sum_used taker fs"
    using nb by (simp add: assms(6) wanted_def sum_used_alt sum_qty_def sum_quote_def)
  have "fill_quantity (fs ! i) = avail params (live ! i)" if "\<not> budget" "Suc i < length fs"
    using allocate_consumes [of taker i D params "wanted taker params" live] that nb unfolding fs by blast
  moreover have "left = 0 \<or> (budget \<and> room \<le> 0) \<or> take_quote D taker params left m \<le> 0"
    and "ro_price m \<noteq> 0" if "length fs < length live"
  proof -
    have "m \<in> set live" using that by (simp add: assms(7))
    then have n: "0 < avail params m" "m \<in> set book" unfolding assms(5) by (auto dest: live_book_set)
    then show p: "ro_price m \<noteq> 0" using assms(2) by (auto simp: engine_ok_def good_book_def)
    have "left \<le> 0 \<or> take_qty D taker params left m \<le> 0 \<or> take_quote D taker params left m \<le> 0"
      using allocate_stop [of D taker params "wanted taker params" live] that
      unfolding fs [symmetric] left [symmetric] by (simp add: Let_def left assms(7))
    moreover have "0 \<le> left" using le by (simp add: left)
    moreover have "take_qty D taker params left m = min (avail params m) room"
      using p nb by (simp add: take_qty_def assms(8))
    ultimately show "left = 0 \<or> (budget \<and> room \<le> 0) \<or> take_quote D taker params left m \<le> 0"
      using n(1) assms(8) by (auto simp: min_def split: if_splits)
  qed
  ultimately show ?thesis using nb assms(8) by (auto simp: avail_def take_quote_def take_qty_def)
qed

theorem matchOrder_exhausts_witness:
  "fill_quantity (res_fills (matchOrder exact example_taker example_book example_params) ! 0) = 10"
proof -
  have "False \<longleftrightarrow> taker_type example_taker = MARKET \<and> taker_side example_taker = BUY"
    by (simp add: example_taker_def)
  from matchOrder_exhausts [OF decimal_context_exact example_ok this refl refl refl refl refl, of 0]
  have "fill_quantity (res_fills (matchOrder exact example_taker example_book example_params) ! 0) =
      floorTo (ro_remaining (live_book example_taker example_params example_book ! 0))
        (base_scale example_params)"
    by (simp add: example_fills(1))
  also have "\<dots> = 10" by code_simp
  finally show ?thesis .
qed

text \<open>
  C7.  A lock covers what matching can spend: what the engine takes from a placed order, INR for a
  BUY and USDT for a SELL, is at most the amount \<open>computeLockRequirement\<close> sized for it.  For a
  LIMIT BUY the price and quantity must be on decimal grids whose product keeps twenty digits.
\<close>

theorem lock_covers_matching:
  assumes "decimal_context D"
    and "taker = \<lparr>taker_side = co_side inp, taker_type = co_type inp, taker_price = co_price inp,
      taker_quantity = co_quantity inp, taker_budget = co_budget inp\<rparr>"
    and "engine_ok D taker book params"
    and "0 \<le> or0 (co_price inp)" and "0 \<le> or0 (co_quantity inp)"
    and "grid ps (or0 (co_price inp))" and "grid (base_scale params) (or0 (co_quantity inp))"
    and "or0 (co_price inp) * or0 (co_quantity inp) * 10 ^ (ps + base_scale params) < 10 ^ 20"
    and "co_type inp \<noteq> MARKET \<longrightarrow> co_price inp \<noteq> None \<and> co_quantity inp \<noteq> None"
  shows "snd (computeLockRequirement D inp params) \<ge>
    (if co_side inp = BUY then res_quote (matchOrder D taker book params)
     else res_filled (matchOrder D taker book params))"
proof -
  have m: "sum_used taker (res_fills (matchOrder D taker book params)) \<le> wanted taker params"
    "res_filled (matchOrder D taker book params) = sum_qty (res_fills (matchOrder D taker book params))"
    "res_quote (matchOrder D taker book params) = sum_quote (res_fills (matchOrder D taker book params))"
    using matchOrder_allocate [OF assms(1,3) refl] by blast+
  consider "co_side inp = SELL" | "co_side inp = BUY" "co_type inp = MARKET"
    | "co_side inp = BUY" "co_type inp \<noteq> MARKET"
    by (cases "co_side inp") auto
  then show ?thesis
  proof cases
    case 1
    then show ?thesis using m
      by (simp add: computeLockRequirement_def toFixed_grid grid_floorTo sum_used_alt wanted_def
          isBudgetDriven_def assms(2) Let_def)
  next
    case 2
    then show ?thesis using m
      by (simp add: computeLockRequirement_def toFixed_grid grid_floorTo sum_used_alt wanted_def
          isBudgetDriven_def assms(2) Let_def)
  next
    case 3
    then obtain P Q where pq: "co_price inp = Some P" "co_quantity inp = Some Q"
      using assms(9) by auto
    then have "0 \<le> P" "0 \<le> Q" "grid ps P" "grid (base_scale params) Q"
      and fits: "P * Q * 10 ^ (ps + base_scale params) < 10 ^ 20"
      using assms(4-8) by simp_all
    then have "res_quote (matchOrder D taker book params) \<le> P * Q"
      using 3 pq by (intro limit_buy_spend [OF assms(1,3), of P Q ps]) (simp_all add: assms(2))
    moreover have "D (P * Q) = P * Q"
      using \<open>0 \<le> P\<close> \<open>0 \<le> Q\<close> fits grid_mult [OF \<open>grid ps P\<close> \<open>grid (base_scale params) Q\<close>]
      by (intro decimal_exact [OF assms(1)]) (simp add: fits20_def)
    moreover have "P * Q \<le> ceilTo (P * Q) (quote_scale params)"
      using \<open>0 \<le> P\<close> \<open>0 \<le> Q\<close> by (intro ceilTo_ge) simp
    ultimately show ?thesis
      using 3 pq by (simp add: computeLockRequirement_def toFixed_grid grid_ceilTo dmul_def Let_def)
  qed
qed

theorem lock_covers_matching_witness:
  "res_quote (matchOrder exact example_taker example_book example_params) \<le>
    snd (computeLockRequirement exact (limit_order BUY 91 15 None) example_params)"
proof -
  have "engine_ok exact \<lparr>taker_side = BUY, taker_type = LIMIT, taker_price = Some 91,
      taker_quantity = Some 15, taker_budget = None\<rparr> example_book example_params"
    using example_ok by (simp add: example_taker_def)
  from lock_covers_matching [OF decimal_context_exact _ this, of "limit_order BUY 91 15 None" 2]
  show ?thesis by (simp add: limit_order_def example_taker_def example_params_def grid_def)
qed

section \<open>The book\<close>

lemma take_sort_key_left_out:
  assumes "x \<in> set (take n (sort_key f xs))" and "r \<in> set xs"
    and "r \<notin> set (take n (sort_key f xs))"
  shows "f x \<le> f r"
proof -
  let ?ys = "sort_key f xs"
  have "r \<in> set ?ys" using assms(2) by simp
  then have "r \<in> set (drop n ?ys)" using assms(3) by (metis UnE append_take_drop_id set_append)
  moreover have "sorted (map f (take n ?ys) @ map f (drop n ?ys))"
    by (simp only: map_append [symmetric] append_take_drop_id sorted_sort_key)
  ultimately show ?thesis using assms(1) by (auto simp: sorted_append)
qed

text \<open>
  Price-time order for a taker: the row with the better price comes first (a buyer looks for the
  lower one), and at the same price the earlier one, then the one with the smaller identifier.
\<close>

definition ahead :: "order_side \<Rightarrow> order \<Rightarrow> order \<Rightarrow> bool" where
  "ahead t a b \<longleftrightarrow> (case (order_price a, order_price b) of
       (Some p, Some q) \<Rightarrow>
         (if t = BUY then p \<le> q else q \<le> p) \<and>
         (p = q \<longrightarrow> order_created a < order_created b \<or>
           order_created a = order_created b \<and> order_id a \<le> order_id b)
     | (None, Some q) \<Rightarrow> t = SELL
     | (Some p, None) \<Rightarrow> t = BUY
     | (None, None) \<Rightarrow> True)"

lemma book_key_order: "book_key t a \<le> book_key t b \<Longrightarrow> ahead t a b"
  by (cases "order_price a"; cases "order_price b"; cases t)
    (auto simp: ahead_def book_key_def less_eq_prod_def)

text \<open>Three sell orders; the second is the best for a buyer, the third is the buyer's own.\<close>

definition sell_order :: "nat \<Rightarrow> nat \<Rightarrow> rat \<Rightarrow> order" where
  "sell_order i u price = \<lparr>order_id = i, order_user = u, order_market = 1000,
     client_order_id = None, order_side = SELL, order_type = LIMIT, order_price = Some price,
     order_quantity = Some 10, quote_budget = None, filled_quantity = 0, quote_spent = 0,
     locked_asset = Some ''USDT'', locked_amount = Some 10, order_status = OPEN, lock_txn = None,
     order_created = i, order_closed = None\<rparr>"

definition book_db :: db where
  "book_db = empty_db\<lparr>orders := [sell_order 1 8 91, sell_order 2 9 90, sell_order 3 7 89]\<rparr>"

text \<open>
  C8.  The book is loaded in price-time order and completely up to the scan limit.  The live rows are
  the orders of the other side of the market that are OPEN or PARTIALLY_FILLED and not the taker's
  own.  The book holds as many of them as the limit allows, each at most once, all of them when they
  fit; every row is ahead of the rows behind it (the better price for the taker first, at the same
  price the earlier order, then the smaller identifier); and no live row that was left out is ahead
  of one that was loaded unless the two are equal in that order.
\<close>

theorem loadRestingBook_priority:
  assumes "book = loadRestingBook marketId takerSide userId n s"
    and "live = filter (\<lambda>r. order_market r = marketId \<and> order_side r \<noteq> takerSide \<and>
      order_status r \<in> {OPEN, PARTIALLY_FILLED} \<and> order_user r \<noteq> userId) (orders s)"
  shows "mset book \<subseteq># mset live \<and> length book = min n (length live) \<and>
    (length live \<le> n \<longrightarrow> mset book = mset live) \<and> sorted_wrt (ahead takerSide) book \<and>
    (\<forall>x \<in> set book. \<forall>r \<in> set live. r \<notin> set book \<longrightarrow> ahead takerSide x r)"
proof -
  let ?side = "if takerSide = BUY then SELL else BUY"
  have side: "(x = ?side) = (x \<noteq> takerSide)" for x by (cases x; cases takerSide) auto
  let ?ys = "sort_key (book_key takerSide) live"
  have book: "book = take n ?ys"
    unfolding assms(1,2) loadRestingBook_def Let_def side by (rule refl)
  have "mset book + mset (drop n ?ys) = mset live"
    unfolding book by (simp only: mset_append [symmetric] append_take_drop_id mset_sort)
  then have "mset book \<subseteq># mset live" by (metis mset_subset_eq_add_left)
  moreover have "length book = min n (length live)" by (simp add: book min.commute)
  moreover have "mset book = mset live" if "length live \<le> n" using that by (simp add: book)
  moreover have "sorted (map (book_key takerSide) book)"
    unfolding book take_map [symmetric] by (simp add: sorted_wrt_take)
  then have "sorted_wrt (ahead takerSide) book"
    unfolding sorted_map by (rule sorted_wrt_mono_rel [rotated]) (rule book_key_order)
  moreover have "ahead takerSide x r" if "x \<in> set book" "r \<in> set live" "r \<notin> set book" for x r
    using that unfolding book by (intro book_key_order take_sort_key_left_out)
  ultimately show ?thesis by blast
qed

theorem loadRestingBook_priority_witness:
  "loadRestingBook 1000 BUY 7 500 book_db = [sell_order 2 9 90, sell_order 1 8 91] \<and>
    ahead BUY (sell_order 2 9 90) (sell_order 1 8 91) \<and> \<not> ahead BUY (sell_order 1 8 91) (sell_order 2 9 90)"
proof -
  have book: "loadRestingBook 1000 BUY 7 500 book_db = [sell_order 2 9 90, sell_order 1 8 91]"
    by code_simp
  have "sorted_wrt (ahead BUY) [sell_order 2 9 90, sell_order 1 8 91]"
    using loadRestingBook_priority [OF book [symmetric] refl] by blast
  then show ?thesis using book by (simp add: ahead_def sell_order_def)
qed

section \<open>Placing an order\<close>

lemma bal_uuid: "bal (s\<lparr>next_uuid := n\<rparr>) = bal s"
  by (rule bal_tables) (simp add: ledger_tables_def)

text \<open>The ledger already has the transaction that locks the funds of an order.\<close>

definition lock_posted :: "nat \<Rightarrow> db \<Rightarrow> bool" where
  "lock_posted i s \<longleftrightarrow> (\<exists>x \<in> set (ledger_transactions s).
     txn_reference_type x = Some ''order_lock'' \<and> txn_reference_id x = Some i)"

lemma lock_posted_iff: "already_posted (lock_input ord a x) s \<longleftrightarrow> lock_posted (order_id ord) s"
  by (simp add: already_posted_def lock_posted_def lock_input_def has_ref_def)

lemma created_found:
  assumes inv: "exchange_inv s" and run: "createOrder u i inp a x s = (Inr ord, t)"
  shows "findOrderById (order_id ord) t = Some ord \<and> exchange_inv t \<and> bal t = bal s"
proof -
  have ord: "order_id ord = next_uuid s"
    and t: "t = s\<lparr>next_uuid := Suc (next_uuid s), orders := orders s @ [ord]\<rparr>"
    using createOrder_spec [OF run] by auto
  have "\<forall>r \<in> set (orders s). order_id r < next_uuid s"
    using with_ledgerD(2) [OF inv] by (simp add: trading_inv_def orders_inv_def)
  then have "find (\<lambda>r. order_id r = next_uuid s) (orders s) = None" by (auto simp: find_None_iff)
  then show ?thesis
    using preserves_run [OF exchange_createOrder inv run]
    by (simp add: findOrderById_def find_append ord t bal_uuid_orders)
qed

text \<open>
  C9.  Placing an order locks exactly the computed requirement: the user's available balance of
  the lock asset falls by it and the locked balance rises by it, no other balance moves, and the
  order is stored OPEN with the figures of the request.  A repeated client order id and every
  error move nothing; when the balance does not cover the lock the order is stored REJECTED.
\<close>

theorem placeOrder_lock_exact:
  assumes "exchange_inv s" and "placeOrder_lock D u inp s = (r, t)"
    and "\<not> lock_posted (next_uuid s) s"
  shows "(\<exists>ord m params a x. r = Inr (Locked ord m params) \<and>
      resolveMarket (co_symbol inp) s = (Inr (m, params), s) \<and>
      computeLockRequirement D inp params = (a, x) \<and>
      findOrderById (order_id ord) t = Some ord \<and> order_status ord = OPEN \<and>
      order_user ord = u \<and> order_side ord = co_side inp \<and> order_price ord = co_price inp \<and>
      order_quantity ord = co_quantity inp \<and> locked_asset ord = Some a \<and>
      locked_amount ord = Some x \<and>
      (\<forall>v b k. bal t v b k = bal s v b k +
        (if v = Some u \<and> b = a
         then (if k = USER_AVAILABLE then - x else if k = USER_LOCKED then x else 0) else 0))) \<or>
    (\<exists>dto. r = Inr (Duplicate dto) \<and> orders t = orders s \<and> bal t = bal s) \<or>
    (\<exists>e. r = Inl e \<and> bal t = bal s \<and>
      (e = AppError 422 ''INSUFFICIENT_BALANCE'' \<longrightarrow>
        (\<exists>ord. findOrderById (next_uuid s) t = Some ord \<and> order_status ord = ORDER_REJECTED)))"
  using assms(2)
proof (cases rule: placeOrder_lock_cases)
  case (guard e)
  then show ?thesis by (auto simp: insufficient_def)
next
  case (duplicate dto)
  then show ?thesis by auto
next
  case (behind m params)
  from behind(5) show ?thesis
  proof (cases rule: create_and_lock_cases)
    case (rejected e)
    then show ?thesis by (auto simp: insufficient_def bal_uuid)
  next
    case (raced dto)
    then show ?thesis by (auto simp: bal_uuid)
  next
    case (locking a x s1 ord r2)
    have f: "findOrderById (order_id ord) s1 = Some ord" "exchange_inv s1" "bal s1 = bal s"
      using created_found [OF assms(1) locking(2)] by blast+
    have ord: "order_id ord = next_uuid s" "order_user ord = u" "order_side ord = co_side inp"
      "order_price ord = co_price inp" "order_quantity ord = co_quantity inp"
      "locked_asset ord = Some a" "locked_amount ord = Some x"
      and s1: "ledger_tables s1 = ledger_tables s"
      using createOrder_spec [OF locking(2)] by (auto simp: ledger_tables_def)
    have "\<not> already_posted (lock_input ord a x) s" using assms(3) ord(1) by (simp add: lock_posted_iff)
    then have new: "\<not> already_posted (lock_input ord a x) s1" using s1 already_posted_cong [of s1 s] by (simp add: ledger_tables_def)
    from lock_funds_spec [OF f(2,1) new locking(3)] consider
      (locked) txn where "r2 = Inr (ord\<lparr>order_status := OPEN, lock_txn := Some txn\<rparr>)"
        "findOrderById (order_id ord) t = Some (ord\<lparr>order_status := OPEN, lock_txn := Some txn\<rparr>)"
        "bal t = (\<lambda>v b k. bal s1 v b k + delta (post_lines (lock_input ord a x)) v b k)"
      | (failed) e where "r2 = Inl e" "ledger_tables t = ledger_tables s1"
        "e = AppError 422 ''INSUFFICIENT_BALANCE'' \<longrightarrow> findOrderById (order_id ord) t =
         Some (ord\<lparr>order_status := ORDER_REJECTED, order_closed := Some (now s1)\<rparr>)"
      by (cases r2) auto
    then show ?thesis
    proof cases
      case locked
      then show ?thesis using locking(1,4) behind(1) ord f(3)
        by (intro disjI1 exI [of _ "ord\<lparr>order_status := OPEN, lock_txn := Some txn\<rparr>"] exI [of _ m]
            exI [of _ params] exI [of _ a] exI [of _ x]) (simp add: delta_lock)
    next
      case failed
      then show ?thesis using locking(4) ord(1) bal_tables [OF failed(2)] f(3)
        by (intro disjI2 exI [of _ e]) simp
    qed
  qed
qed

theorem placeOrder_lock_exact_witness:
  "bal (snd (placeOrder_lock exact 7 (limit_order BUY 90 20 None) market_db)) (Some 7) ''INR''
    USER_LOCKED = bal market_db (Some 7) ''INR'' USER_LOCKED + 1800"
proof -
  let ?run = "placeOrder_lock exact 7 (limit_order BUY 90 20 None) market_db"
  have locked: "case fst ?run of Inr (Locked ord m params) \<Rightarrow> True | _ \<Rightarrow> False" by code_simp
  have "fst (resolveMarket ''USDT-INR'' market_db) =
      Inr (usdt_inr, \<lparr>base_scale = 1, quote_scale = 1\<rparr>)" by code_simp
  moreover have "computeLockRequirement exact (limit_order BUY 90 20 None)
      \<lparr>base_scale = 1, quote_scale = 1\<rparr> = (''INR'', 1800)" by code_simp
  moreover have "\<not> lock_posted (next_uuid market_db) market_db" by code_simp
  ultimately show ?thesis
    using placeOrder_lock_exact [OF market_db_inv, of exact 7 "limit_order BUY 90 20 None"
        "fst ?run" "snd ?run"] locked
    by (auto simp: limit_order_def split: sum.splits placed.splits)
qed

text \<open>
  A client order id is used once: placing an order under an id the user has used returns the
  stored order, or an error, and leaves the state as it was.
\<close>

theorem placeOrder_same_client:
  assumes "co_client inp = Some c" and "c \<noteq> []" and "findOrderByClientId u c s = Some ord"
  shows "placeOrder D sha1 u inp s = (Inr (toOrderDto ord (market_of ord s) None), s) \<or>
    (\<exists>e. placeOrder D sha1 u inp s = (Inl e, s))"
proof -
  have dup: "duplicate_of u inp s = Some (toOrderDto ord (market_of ord s) None)"
    using assms by (simp add: duplicate_of_def)
  obtain r t where run: "placeOrder_lock D u inp s = (r, t)" by (cases "placeOrder_lock D u inp s")
  from run show ?thesis
  proof (cases rule: placeOrder_lock_cases)
    case (behind m params)
    then show ?thesis using dup by simp
  qed (use run dup in \<open>simp_all add: placeOrder_def placeOrder_match_def svc_simps\<close>)
qed

theorem placeOrder_same_client_witness:
  "snd (placeOrder exact toy_digest 7 (limit_order BUY 90 20 (Some ''a''))
     (book_db\<lparr>orders := [sell_order 1 7 91\<lparr>client_order_id := Some ''a''\<rparr>]\<rparr>)) =
   book_db\<lparr>orders := [sell_order 1 7 91\<lparr>client_order_id := Some ''a''\<rparr>]\<rparr>"
proof -
  let ?s = "book_db\<lparr>orders := [sell_order 1 7 91\<lparr>client_order_id := Some ''a''\<rparr>]\<rparr>"
  have "findOrderByClientId 7 ''a'' ?s = Some (sell_order 1 7 91\<lparr>client_order_id := Some ''a''\<rparr>)"
    by (simp add: findOrderByClientId_def sell_order_def)
  from placeOrder_same_client [OF _ _ this, of "limit_order BUY 90 20 (Some ''a'')" exact toy_digest]
  show ?thesis by (auto simp: limit_order_def)
qed

section \<open>Cancelling an order\<close>

lemma releaseSurplus_error:
  "releaseSurplus D ord s = (Inl e, t) \<Longrightarrow> ledger_tables t = ledger_tables s"
  by (auto simp: releaseSurplus_def Let_def bindS_apply returnS_apply ledger_tables_def
      split: option.splits if_splits prod.splits sum.splits dest!: retry_post_error)

lemma spent_of_cancelled: "spent_of (ord\<lparr>order_status := st, order_closed := c\<rparr>) = spent_of ord"
  by (simp add: spent_of_def)

lemma surplus_of_cancelled:
  "surplus_of D (ord\<lparr>order_status := st, order_closed := c\<rparr>) = surplus_of D ord"
  unfolding surplus_of_def spent_of_cancelled fun_eq_iff by simp

lemma released_before_cancelled:
  "released_before (ord\<lparr>order_status := st, order_closed := c\<rparr>) = released_before ord"
  by (simp add: fun_eq_iff released_before_def already_posted_def unlock_input_def)

text \<open>
  C10.  Cancelling a live order of the caller closes it as CANCELLED and gives back exactly what
  its lock did not spend; no other balance moves.  A call that fails moves no funds.
\<close>

theorem cancelOrder_releases:
  assumes "exchange_inv s" and "findOrderById i s = Some ord" and "order_user ord = u"
    and "order_status ord \<in> {PENDING, OPEN, PARTIALLY_FILLED}" and "\<not> released_before ord s"
    and "cancelOrder D u i s = (r, t)"
  shows "(isl r \<or> findOrderById i t =
      Some (ord\<lparr>order_status := ORDER_CANCELLED, order_closed := Some (now s)\<rparr>)) \<and>
    bal t v a k = bal s v a k + (if \<not> isl r \<and> v = Some u
      then (if k = USER_LOCKED then - surplus_of D ord a
            else if k = USER_AVAILABLE then surplus_of D ord a else 0) else 0)"
proof -
  let ?upd = "\<lambda>x. x\<lparr>order_status := ORDER_CANCELLED, order_closed := Some (now s)\<rparr>"
  have linv: "ledger_inv s" and oinv: "orders_inv s"
    using with_ledgerD [OF assms(1)] by (simp_all add: trading_inv_def)
  from cancelOrder_run [OF assms(2-4,6) refl] show ?thesis
  proof (elim disjE exE conjE)
    fix e assume "r = Inl e" "t = s"
    then show ?thesis by simp
  next
    fix s1 r2 s2
    assume 1: "updateOrder i ?upd s = (Inr (?upd ord), s1)"
      and 2: "releaseSurplus D (?upd ord) s1 = (r2, s2)" and same: "isl r = isl r2"
      and tab: "ledger_tables t = ledger_tables s2" "orders t = orders s2"
    have s1: "s1 = s\<lparr>orders := map (\<lambda>y. if order_id y = i then ?upd y else y) (orders s)\<rparr>"
      using updateOrder_spec [OF 1] by auto
    have tab1: "ledger_tables s1 = ledger_tables s" by (simp add: s1 ledger_tables_def)
    have linv1: "ledger_inv s1" by (rule ledger_inv_cong [OF tab1 _ linv]) (simp add: s1)
    have new: "\<not> released_before (?upd ord) s1"
      using assms(5) tab1 already_posted_cong [of s1 s]
      unfolding released_before_cancelled by (simp add: released_before_def ledger_tables_def)
    have "findOrderById i s1 = Some (?upd ord)"
      using find_updated [OF oinv assms(2), of ?upd s1 i] s1 by simp
    moreover have "orders s2 = orders s1"
      using releaseSurplus_state [OF 2 linv1] only_ledger_simps(1) by blast
    ultimately have found: "findOrderById i t = Some (?upd ord)" using tab by (simp add: findOrderById_def)
    show ?thesis
    proof (cases r2)
      case (Inl e)
      then have "ledger_tables t = ledger_tables s" using releaseSurplus_error 2 tab tab1 by auto
      then have "bal t = bal s" by (rule bal_tables)
      then show ?thesis using same Inl by simp
    next
      case (Inr x)
      have "bal s2 v a k = bal s1 v a k + (if v = Some u
          then (if k = USER_LOCKED then - surplus_of D ord a
            else if k = USER_AVAILABLE then surplus_of D ord a else 0) else 0)"
        using releaseSurplus_spec [OF 2 [unfolded Inr] linv1 new] assms(3)
        unfolding surplus_of_cancelled by simp
      then show ?thesis using same Inr found bal_tables [OF tab(1)] bal_tables [OF tab1] by simp
    qed
  qed
qed

definition placed_db :: db where
  "placed_db = snd (placeOrder_lock exact 7 (limit_order BUY 90 20 None) market_db)"

theorem cancelOrder_releases_witness:
  "bal (snd (cancelOrder exact 7 106 placed_db)) (Some 7) ''INR'' USER_AVAILABLE =
    bal placed_db (Some 7) ''INR'' USER_AVAILABLE + 1800"
proof -
  let ?run = "cancelOrder exact 7 106 placed_db"
  have run: "case findOrderById 106 placed_db of None \<Rightarrow> False | Some ord \<Rightarrow> order_user ord = 7 \<and>
      order_status ord = OPEN \<and> surplus_of exact ord ''INR'' = 1800 \<and>
      \<not> released_before ord placed_db \<and> \<not> isl (fst ?run)"
    by code_simp
  then obtain ord where "findOrderById 106 placed_db = Some ord" "order_user ord = 7"
    "order_status ord = OPEN" "surplus_of exact ord ''INR'' = 1800"
    "\<not> released_before ord placed_db" "\<not> isl (fst ?run)"
    by (auto split: option.splits)
  moreover have "exchange_inv placed_db"
    unfolding placed_db_def by (rule preservesD [OF exchange_placeOrder_lock market_db_inv])
  ultimately show ?thesis
    using cancelOrder_releases [of placed_db 106 ord 7 exact "fst ?run" "snd ?run" "Some 7" "''INR''"
        USER_AVAILABLE] by simp
qed

section \<open>Settling a fill\<close>



lemma run_succeeds: "\<not> isl (fst run) \<Longrightarrow> \<exists>r t. run = (Inr r, t)"
  by (cases run, cases "fst run") auto

definition both_db :: db where
  "both_db = snd (placeOrder_lock exact 8 (limit_order SELL 90 10 None) placed_db)"

definition the_order :: "nat \<Rightarrow> db \<Rightarrow> order" where
  "the_order i s = (case findOrderById i s of None \<Rightarrow> sell_order i 0 0 | Some r \<Rightarrow> r)"


abbreviation tenths :: market_params where
  "tenths \<equiv> \<lparr>base_scale = 1, quote_scale = 1\<rparr>"



text \<open>
  C12.  The engine floors the quote amount of a fill to the scale of the quote asset, but the
  CHECK constraint on \<open>trades\<close> wants price times quantity to twelve places: when the floor cuts
  more than that the settlement throws after its ledger posting has committed, so the money has
  moved and there is no trade.
\<close>

theorem settleFill_fraction_fails:
  assumes "retry_post (post D (settle_input sha1 taker maker
      (settlement_of D taker maker fill m params)) None) s = (Inr p, s1)"
    and "fill_quote fill = floorTo (fill_price fill * fill_quantity fill) (quote_scale params)"
    and "floorTo (fill_price fill * fill_quantity fill) (quote_scale params) + 1 / 10 ^ 12 <
      fill_price fill * fill_quantity fill"
  shows "settleFill D sha1 taker maker fill m params s = (Inl (DbCheckError ''trades''), s1)"
proof -
  have "st_quantity (settlement_of D taker maker fill m params) = fill_quantity fill"
    "st_quote (settlement_of D taker maker fill m params) = fill_quote fill"
    by (simp_all add: settlement_of_def Let_def)
  moreover have "\<not> \<bar>fill_quote fill - fill_price fill * fill_quantity fill\<bar> \<le> 1 / 10 ^ 12"
    using assms(2,3) by linarith
  ultimately show ?thesis
    by (simp add: settleFill_def Let_def assms(1) svc_simps createTrade_def trade_checks_def)
qed

definition fill_cut :: engine_fill where
  "fill_cut = \<lparr>fill_maker = 106, fill_maker_user = 7, fill_price = 901 / 10, fill_quantity = 1 / 10,
     fill_quote = 9\<rparr>"

theorem settleFill_fraction_fails_witness:
  "fst (settleFill exact toy_digest (the_order 109 both_db) (the_order 106 both_db) fill_cut
      usdt_inr tenths both_db) = Inl (DbCheckError ''trades'')"
proof -
  let ?taker = "the_order 109 both_db" and ?maker = "the_order 106 both_db"
  let ?post = "retry_post (post exact (settle_input toy_digest ?taker ?maker
    (settlement_of exact ?taker ?maker fill_cut usdt_inr tenths)) None) both_db"
  have "\<not> isl (fst ?post)" by code_simp
  then obtain p s1 where "?post = (Inr p, s1)" using run_succeeds by blast
  moreover have "floorTo (901 / 100) 1 = (9 :: rat)" by code_simp
  ultimately show ?thesis
    using settleFill_fraction_fails [of exact toy_digest ?taker ?maker fill_cut usdt_inr tenths
        both_db p s1]
    by (simp add: fill_cut_def)
qed

section \<open>Identifiers of fills\<close>

lemma bytes_value:
  assumes "k < length bs"
  shows "foldl (\<lambda>n b. n * 256 + unat b) a bs div 256 ^ k mod 256 = unat ((rev bs ! k) :: 8 word)"
  using assms
proof (induction bs arbitrary: k rule: rev_induct)
  case (snoc b bs)
  have b: "unat b < 256" using unsigned_less [of b, where 'a = nat] by simp
  show ?case
  proof (cases k)
    case 0
    then show ?thesis using b by simp
  next
    case (Suc j)
    let ?n = "foldl (\<lambda>n b. n * 256 + unat b) a bs"
    have "(?n * 256 + unat b) div 256 ^ Suc j = ((?n * 256 + unat b) div 256) div 256 ^ j"
      by (simp add: div_mult2_eq)
    also have "(?n * 256 + unat b) div 256 = ?n" using b by simp
    finally show ?thesis using snoc Suc by simp
  qed
qed simp

lemma bytes_bound: "foldl (\<lambda>n b. n * 256 + unat b) 0 (bs :: 8 word list) < 256 ^ length bs"
proof (induction bs rule: rev_induct)
  case (snoc b bs)
  have "unat b < 256" using unsigned_less [of b, where 'a = nat] by simp
  then show ?case using snoc by simp
qed simp

lemma version_byte: "unat ((b AND 0x0f) OR (0x50 :: 8 word)) div 16 = 5"
proof -
  have "drop_bit 4 ((b AND 0x0f) OR (0x50 :: 8 word)) = 5"
    by (rule bit_word_eqI) (auto simp: bit_simps less_Suc_eq numeral_eq_Suc)
  then have "((b AND 0x0f) OR (0x50 :: 8 word)) div 16 = 5" by (simp add: drop_bit_eq_div)
  then have "unat (((b AND 0x0f) OR (0x50 :: 8 word)) div 16) = 5" by simp
  then show ?thesis unfolding unat_div_distrib by simp
qed

lemma variant_byte: "unat ((b AND 0x3f) OR (0x80 :: 8 word)) div 64 = 2"
proof -
  have "drop_bit 6 ((b AND 0x3f) OR (0x80 :: 8 word)) = 2"
    by (rule bit_word_eqI) (auto simp: bit_simps less_Suc_eq numeral_eq_Suc)
  then have "((b AND 0x3f) OR (0x80 :: 8 word)) div 64 = 2" by (simp add: drop_bit_eq_div)
  then have "unat (((b AND 0x3f) OR (0x80 :: 8 word)) div 64) = 2" by simp
  then show ?thesis unfolding unat_div_distrib by simp
qed

text \<open>
  The identifier of a fill is a well-formed UUID whatever the hash: 128 bits, with the
  version nibble 5 and the variant bits 10 that the source masks into bytes 6 and 8.
\<close>

theorem deterministicUuid_version:
  assumes "16 \<le> length (sha1 seed)"
  shows "deterministicUuid sha1 seed < 2 ^ 128 \<and>
    deterministicUuid sha1 seed div 2 ^ 76 mod 16 = 5 \<and>
    deterministicUuid sha1 seed div 2 ^ 62 mod 4 = 2"
proof -
  let ?b = "uuid_bytes sha1 seed" and ?u = "deterministicUuid sha1 seed"
  have len: "length ?b = 16" using assms by (simp add: uuid_bytes_def Let_def)
  have n: "rev ?b ! 9 = ?b ! 6" "rev ?b ! 7 = ?b ! 8" using len by (simp_all add: rev_nth)
  have "?b ! 6 = (take 16 (sha1 seed) ! 6 AND 0x0f) OR 0x50"
    "?b ! 8 = (take 16 (sha1 seed) ! 8 AND 0x3f) OR 0x80"
    using assms by (simp_all add: uuid_bytes_def Let_def)
  then have "?u div 256 ^ 9 mod 256 div 16 = 5" "?u div 256 ^ 7 mod 256 div 64 = 2"
    using bytes_value [of 9 ?b 0] bytes_value [of 7 ?b 0] len n version_byte variant_byte
    by (simp_all add: deterministicUuid_def)
  moreover have "x div 256 ^ 9 mod 256 div 16 = x div 2 ^ 76 mod 16" for x :: nat
    using div_exp_mod_exp_eq [of "x div 2 ^ 72" 4 4] div_exp_eq [of x 72 4] by simp
  moreover have "x div 256 ^ 7 mod 256 div 64 = x div 2 ^ 62 mod 4" for x :: nat
    using div_exp_mod_exp_eq [of "x div 2 ^ 56" 6 2] div_exp_eq [of x 56 6] by simp
  ultimately show ?thesis
    using bytes_bound [of ?b] len by (simp add: deterministicUuid_def)
qed

theorem deterministicUuid_version_witness:
  "deterministicUuid (\<lambda>seed. replicate 20 255) ''fill'' div 2 ^ 76 mod 16 = 5"
  using deterministicUuid_version [of "\<lambda>seed. replicate 20 255" "''fill''"] by simp

section \<open>A stale taker\<close>

lemma whole_book:
  assumes "r \<in> set (orders t)" and "order_status r = OPEN" and "side \<noteq> order_side r" and "u \<noteq> order_user r"
  shows "r \<in> set (loadRestingBook (order_market r) side u (length (orders t)) t)"
proof -
  have opposite: "order_side r = (if side = BUY then SELL else BUY)"
    using assms(3) by (cases side; cases "order_side r") simp_all
  have "length (filter P (orders t)) \<le> length (orders t)" for P by (rule length_filter_le)
  then show ?thesis
    using assms(1,2,4) opposite by (simp add: loadRestingBook_def Let_def)
qed

text \<open>
  C13.  An order is OPEN, so visible to other takers, from the moment its funds are locked, but the
  match that follows its wait for the market works on the row read before the wait.  Whenever other
  takers have filled a LIMIT order completely by then and the other side of the book is empty, the
  match succeeds, moves no money and records no trade, and writes the order back as OPEN with
  nothing filled and nothing spent: it offers its whole quantity again to every other user.
\<close>

theorem stale_order_reopened:
  assumes "exchange_inv s" and "findOrderById (order_id ord) s = Some cur"
    and "order_status cur = FILLED" and "order_quantity cur = Some q" and "filled_quantity cur = q"
    and "order_type ord = LIMIT" and "order_quantity ord = Some q" and "0 < q"
    and "loadRestingBook (market_id m) (order_side ord) (order_user ord) BOOK_SCAN_LIMIT s = []"
    and "r = cur\<lparr>filled_quantity := 0, quote_spent := 0, order_status := OPEN\<rparr>"
  shows "\<exists>t. matchAndSettle D sha1 ord m params s = (Inr [], t) \<and>
    findOrderById (order_id ord) t = Some r \<and> ro_remaining (resting_of D r) = dsub D q 0 \<and>
    ledger_tables t = ledger_tables s \<and> trades t = trades s \<and>
    (\<forall>side u. side \<noteq> order_side r \<longrightarrow> u \<noteq> order_user r \<longrightarrow>
       r \<in> set (loadRestingBook (order_market r) side u (length (orders t)) t))"
proof -
  let ?upd = "\<lambda>r. r\<lparr>filled_quantity := 0, quote_spent := 0, order_status := OPEN\<rparr>"
  let ?t = "s\<lparr>orders := map (\<lambda>x. if order_id x = order_id ord then ?upd x else x) (orders s)\<rparr>"
  let ?final = "?t\<lparr>published := published s @ [Order_Updated (order_user ord) (order_id ord),
    Orderbook_Changed (market_symbol m), Balance_Changed (order_user ord)]\<rparr>"
  have inv: "orders_inv s" using with_ledgerD(2) [OF assms(1)] by (simp add: trading_inv_def)
  have cur: "cur \<in> set (orders s)" using assms(2) by (auto simp: findOrderById_def dest: find_SomeD)
  then have "order_checks cur" using inv by (auto simp: orders_inv_def)
  then have checks: "order_checks (?upd cur)" using assms(4,8) by (simp add: order_checks_def)
  have res: "matchOrder D (taker_of ord) [] params = \<lparr>res_fills = [], res_filled = 0, res_quote = 0\<rparr>"
    by (simp add: matchOrder_def initial_state_def toFixed_grid)
  have open_again: "taker_status ord 0 = OPEN" using assms(6-8) by (simp add: taker_status_def)
  have upd: "updateOrder (order_id ord) ?upd s = (Inr (?upd cur), ?t)"
    using assms(2) checks by (simp add: updateOrder_def svc_simps)
  have run: "matchAndSettle D sha1 ord m params s = (Inr [], ?final)"
    by (simp only: matchAndSettle_def svc_simps assms(9) list.map res Let_def engine_result.simps
        settle_fills.simps prod.case sum.case open_again)
      (simp add: upd svc_simps publish_def add_once_def)
  have find: "findOrderById (order_id ord) ?final = Some (?upd cur)"
    by (subst find_updated [OF inv assms(2), where upd = ?upd]) simp_all
  then have "?upd cur \<in> set (orders ?final)" by (auto simp: findOrderById_def dest: find_SomeD)
  then have book: "?upd cur \<in> set (loadRestingBook (order_market cur) side u (length (orders ?final)) ?final)"
    if "side \<noteq> order_side cur" "u \<noteq> order_user cur" for side u
    using whole_book [of "?upd cur" ?final side u] that by simp
  show ?thesis
    using run find book assms(4)
    by (intro exI [of _ ?final]) (simp add: resting_of_def ledger_tables_def assms(10))
qed

text \<open>
  A sell order of 10 at 90 is locked and waits for the market; meanwhile user 7 buys it all, and the
  match of the seller runs on an empty book.
\<close>

definition waiting_db :: db where
  "waiting_db = snd (placeOrder_lock exact 8 (limit_order SELL 90 10 (Some ''a'')) market_db)"

definition bought_db :: db where
  "bought_db = snd (placeOrder exact toy_digest 7 (limit_order BUY 90 10 None) waiting_db)"

definition waiting_order :: order where
  "waiting_order = hd (orders waiting_db)"

theorem stale_order_reopened_witness:
  "order_status (hd (orders bought_db)) = FILLED \<and>
    (\<exists>t. matchAndSettle exact toy_digest waiting_order usdt_inr tenths bought_db = (Inr [], t) \<and>
      (hd (orders bought_db))\<lparr>filled_quantity := 0, quote_spent := 0, order_status := OPEN\<rparr>
        \<in> set (loadRestingBook 1000 BUY 7 (length (orders t)) t))"
proof -
  let ?cur = "hd (orders bought_db)"
  have run: "let s = bought_db; r = hd (orders s) in findOrderById (order_id waiting_order) s = Some r \<and>
      order_status r = FILLED \<and> order_quantity r = Some 10 \<and> filled_quantity r = 10 \<and> order_user r = 8 \<and>
      order_side r = SELL \<and> order_market r = 1000 \<and>
      loadRestingBook 1000 SELL 8 BOOK_SCAN_LIMIT s = []" by code_simp
  have ord: "order_type waiting_order = LIMIT \<and> order_quantity waiting_order = Some 10 \<and>
      order_side waiting_order = SELL \<and> order_user waiting_order = 8" by code_simp
  have inv: "exchange_inv bought_db"
    unfolding bought_db_def waiting_db_def
    by (intro preservesD [OF exchange_placeOrder] preservesD [OF exchange_placeOrder_lock market_db_inv])
  have book: "loadRestingBook (market_id usdt_inr) (order_side waiting_order) (order_user waiting_order)
      BOOK_SCAN_LIMIT bought_db = []"
    using run ord by (simp add: usdt_inr_def Let_def)
  have "\<exists>t. matchAndSettle exact toy_digest waiting_order usdt_inr tenths bought_db = (Inr [], t) \<and>
    (\<forall>side u. side \<noteq> SELL \<longrightarrow> u \<noteq> 8 \<longrightarrow>
      ?cur\<lparr>filled_quantity := 0, quote_spent := 0, order_status := OPEN\<rparr>
        \<in> set (loadRestingBook 1000 side u (length (orders t)) t))"
    using stale_order_reopened [OF inv _ _ _ _ _ _ _ book refl, of ?cur 10 exact toy_digest tenths] run ord
    by (auto simp: Let_def)
  then show ?thesis using run by (auto simp: Let_def)
qed

end
