(* ===== verification/Tables.thy ===== *)
theory Tables
  imports Ledger
begin

text \<open>
  The two ways the repositories write a row that exists: \<open>update\<close>, which fails when there is no
  row with the key, and \<open>updateMany\<close> with a condition beside the key, which returns how many
  rows matched (0 or 1).  Both run the CHECK constraints of the table on the new row.

  The locale \<open>table\<close> is the interface a component's table gives: reading what was written, and
  writing only that table.
\<close>

section \<open>Writing a row\<close>

definition update_one ::
  "('r \<Rightarrow> nat) \<Rightarrow> (db \<Rightarrow> 'r list) \<Rightarrow> ('r list \<Rightarrow> db \<Rightarrow> db) \<Rightarrow> ('r \<Rightarrow> bool) \<Rightarrow> string \<Rightarrow>
    nat \<Rightarrow> ('r \<Rightarrow> 'r) \<Rightarrow> (db, 'r) svc" where
  "update_one key rows put chk tab i upd =
     bindS (readS (\<lambda>s. find (\<lambda>r. key r = i) (rows s))) (\<lambda>found.
     case found of
       None \<Rightarrow> throwS (PrismaError ''P2025'')
     | Some r \<Rightarrow>
         bindS (requireS (chk (upd r)) (DbCheckError tab)) (\<lambda>_.
         bindS (writeS (\<lambda>s. put (map (\<lambda>x. if key x = i then upd x else x) (rows s)) s)) (\<lambda>_.
         returnS (upd r))))"

definition update_many ::
  "('r \<Rightarrow> nat) \<Rightarrow> (db \<Rightarrow> 'r list) \<Rightarrow> ('r list \<Rightarrow> db \<Rightarrow> db) \<Rightarrow> ('r \<Rightarrow> bool) \<Rightarrow> string \<Rightarrow>
    nat \<Rightarrow> ('r \<Rightarrow> bool) \<Rightarrow> ('r \<Rightarrow> 'r) \<Rightarrow> (db, nat) svc" where
  "update_many key rows put chk tab i cond upd =
     bindS (readS (\<lambda>s. filter (\<lambda>r. key r = i \<and> cond r) (rows s))) (\<lambda>hits.
     bindS (requireS (\<forall>r \<in> set hits. chk (upd r)) (DbCheckError tab)) (\<lambda>_.
     bindS (writeS (\<lambda>s. put (map (\<lambda>x. if key x = i \<and> cond x then upd x else x) (rows s)) s)) (\<lambda>_.
     returnS (length hits))))"

lemmas table_code [code] =
  fun_cong [OF update_one_def, unfolded run_code]
  fun_cong [OF update_many_def, unfolded run_code]

section \<open>The interface\<close>

lemma find_key_map:
  assumes "\<And>x. key (upd x) = key x"
  shows "find (\<lambda>r. key r = j) (map (\<lambda>x. if key x = i \<and> c x then upd x else x) xs) =
    map_option (\<lambda>x. if key x = i \<and> c x then upd x else x) (find (\<lambda>r. key r = j) xs)"
  by (induction xs) (auto simp: assms)

lemma filter_key:
  assumes "distinct (map key xs)"
  shows "filter (\<lambda>r. key r = i \<and> c r) xs =
    (case find (\<lambda>r. key r = i) xs of None \<Rightarrow> [] | Some x \<Rightarrow> if c x then [x] else [])"
  using assms
proof (induction xs)
  case (Cons a xs)
  show ?case
  proof (cases "key a = i")
    case True
    then have "filter (\<lambda>r. key r = i \<and> c r) xs = []"
      using Cons.prems by (fastforce simp: filter_empty_conv image_iff)
    then show ?thesis using True by simp
  next
    case False
    then show ?thesis using Cons by simp
  qed
qed simp

text \<open>Updating the one row with a key changes a sum over the table by the difference at that row.\<close>

lemma sum_updated:
  fixes f :: "'r \<Rightarrow> rat"
  assumes "distinct (map key xs)" and "find (\<lambda>r. key r = i) xs = Some x"
  shows "sum_list (map f (map (\<lambda>y. if key y = i then upd y else y) xs)) = sum_list (map f xs) + f (upd x) - f x"
  using assms
proof (induction xs)
  case (Cons a xs)
  show ?case
  proof (cases "key a = i")
    case True
    then have "map (\<lambda>y. if key y = i then upd y else y) xs = xs"
      using Cons.prems(1) by (intro map_idI) (auto simp: image_iff)
    then show ?thesis using True Cons.prems(2) by simp
  next
    case False
    then show ?thesis using Cons by simp
  qed
qed simp

lemma find_by_key: "distinct (map key xs) \<Longrightarrow> x \<in> set xs \<Longrightarrow> find (\<lambda>r. key r = key x) xs = Some x"
  by (induction xs) (auto simp: image_iff)

lemma sum_at_key:
  fixes g :: "'r \<Rightarrow> rat"
  assumes "distinct (map key xs)" and "x \<in> set xs"
  shows "sum_list (map (\<lambda>r. if key r = key x then g r else 0) xs) = g x"
  using assms
proof (induction xs)
  case (Cons a xs)
  show ?case
  proof (cases "key a = key x")
    case True
    have "key r \<noteq> key x" if "r \<in> set xs" for r
      using True Cons.prems(1) that by (auto simp: image_iff)
    then have "map (\<lambda>r. if key r = key x then g r else 0) xs = map (\<lambda>_. 0) xs" by simp
    moreover have "a = x" using True Cons.prems by (auto simp: image_iff)
    ultimately show ?thesis by (simp add: sum_list_0 del: map_eq_conv)
  qed (use Cons in auto)
qed simp

locale table =
  fixes key :: "'r \<Rightarrow> nat"
    and rows :: "db \<Rightarrow> 'r list"
    and put :: "'r list \<Rightarrow> db \<Rightarrow> db"
    and chk :: "'r \<Rightarrow> bool"
    and tab :: string
  assumes rows_put [simp]: "rows (put rs s) = rs"
    and put_put [simp]: "put rs (put rs' s) = put rs s"
    and put_rows [simp]: "put (rows s) s = s"
    and put_ledger [simp]: "ledger_tables (put rs s) = ledger_tables s"
    and put_uuid [simp]: "next_uuid (put rs s) = next_uuid s"
    and put_now [simp]: "now (put rs s) = now s"
begin

abbreviation find_row :: "nat \<Rightarrow> db \<Rightarrow> 'r option" where
  "find_row i s \<equiv> find (\<lambda>r. key r = i) (rows s)"

lemma find_row_some: "find_row i s = Some x \<Longrightarrow> x \<in> set (rows s) \<and> key x = i"
  by (auto dest: find_SomeD)

lemma update_one_spec:
  assumes "update_one key rows put chk tab i upd s = (r, t)"
  shows "(\<exists>e. r = Inl e \<and> t = s \<and> (e = PrismaError ''P2025'' \<or> e = DbCheckError tab)) \<or>
    (\<exists>x. find_row i s = Some x \<and> r = Inr (upd x) \<and> chk (upd x) \<and>
       t = put (map (\<lambda>x. if key x = i then upd x else x) (rows s)) s)"
  using assms by (auto simp: update_one_def svc_simps split: option.splits if_splits)

lemma update_one_run:
  assumes "find_row i s = Some x" and "chk (upd x)"
  shows "update_one key rows put chk tab i upd s =
    (Inr (upd x), put (map (\<lambda>x. if key x = i then upd x else x) (rows s)) s)"
  using assms by (simp add: update_one_def svc_simps)

lemma update_many_spec:
  assumes "update_many key rows put chk tab i cond upd s = (r, t)"
    and "distinct (map key (rows s))"
  shows "(r = Inl (DbCheckError tab) \<and> t = s) \<or>
    (r = Inr 0 \<and> t = s \<and> (\<forall>x. find_row i s = Some x \<longrightarrow> \<not> cond x)) \<or>
    (\<exists>x. find_row i s = Some x \<and> cond x \<and> chk (upd x) \<and> r = Inr 1 \<and>
       t = put (map (\<lambda>x. if key x = i \<and> cond x then upd x else x) (rows s)) s)"
proof (cases "find_row i s")
  case None
  have "map (\<lambda>x. if key x = i \<and> cond x then upd x else x) (rows s) = rows s"
    using None by (auto simp: find_None_iff intro: map_idI)
  then show ?thesis
    using assms None by (simp add: update_many_def svc_simps filter_key)
next
  case (Some x)
  show ?thesis
  proof (cases "cond x")
    case True
    then show ?thesis
      using assms Some by (auto simp: update_many_def svc_simps filter_key split: if_splits)
  next
    case False
    have "map (\<lambda>x. if key x = i \<and> cond x then upd x else x) (rows s) = rows s"
    proof (rule map_idI)
      fix y assume "y \<in> set (rows s)"
      then show "(if key y = i \<and> cond y then upd y else y) = y"
        using assms(2) find_row_some [OF Some] False by (auto simp: distinct_map inj_on_def)
    qed
    then show ?thesis
      using assms Some False by (simp add: update_many_def svc_simps filter_key)
  qed
qed

lemma find_row_updated:
  assumes "\<And>x. key (upd x) = key x"
  shows "find_row j (put (map (\<lambda>x. if key x = i \<and> c x then upd x else x) (rows s)) s) =
    map_option (\<lambda>x. if key x = i \<and> c x then upd x else x) (find_row j s)"
  by (simp add: find_key_map [of key, OF assms])

lemma find_row_updated_one:
  assumes "\<And>x. key (upd x) = key x"
  shows "find_row j (put (map (\<lambda>x. if key x = i then upd x else x) (rows s)) s) =
    map_option (\<lambda>x. if key x = i then upd x else x) (find_row j s)"
  using find_row_updated [of upd j i "\<lambda>_. True" s, OF assms] by simp

lemma keys_updated:
  assumes "\<And>x. key (upd x) = key x"
  shows "map key (map (\<lambda>x. if key x = i \<and> c x then upd x else x) xs) = map key xs"
  by (simp add: assms)

end

end
