(* ===== verification/Withdrawal.thy ===== *)
theory Withdrawal
  imports Tables Paging
begin

text \<open>
  Crypto withdrawals: \<open>modules/withdrawal\<close>.  A request is checked against the freeze flag, the
  account, the allowlist with its cooling-off period, the minimum and the daily limit, written
  REQUESTED, and its amount is held in the ledger (PENDING_APPROVAL).  Admins approve, a large
  amount with two different approvers, or reject.  The worker claims approved rows, signs and
  broadcasts them, and later finalizes or fails them; every money movement is a ledger posting
  under a reference of its own.

  \<open>requestWithdrawal\<close> is split where another call can come between: after the row is written.
  The \<open>BIGINT\<close> bound of nonces and the text appended to failure reasons are left out.  The
  signer is the record of functions of \<open>WithdrawalSignerProvider\<close>; \<open>mock_signer\<close> is the
  implementation in the source.
\<close>

section \<open>Configuration, rows and data transfer objects\<close>

definition CHAIN :: string where "CHAIN = ''TRON''"
definition ASSET :: string where "ASSET = ''USDT''"

text \<open>The part of \<open>config\<close> the module reads; \<open>explorerTxBase\<close> is keyed by upper-case chain.\<close>

record withdrawal_config =
  fee_usdt :: rat
  min_usdt :: rat
  dual_threshold :: rat
  cooldown_ms :: nat
  explorerTxBase :: "string \<Rightarrow> string option"

record withdrawal_address_dto =
  wad_id :: nat
  wad_chain :: string
  wad_address :: string
  wad_label :: "string option"
  wad_whitelisted :: "nat option"
  wad_usable :: bool
  wad_created :: nat

record crypto_withdrawal_dto =
  cwd_id :: nat
  cwd_user :: nat
  cwd_chain :: string
  cwd_asset :: string
  cwd_to :: string
  cwd_from :: "string option"
  cwd_amount :: rat
  cwd_fee :: rat
  cwd_net :: rat
  cwd_status :: withdrawal_status
  cwd_hash :: "string option"
  cwd_explorer :: "string option"
  cwd_nonce :: "nat option"
  cwd_failure :: "string option"
  cwd_requested :: nat
  cwd_broadcast :: "nat option"
  cwd_completed :: "nat option"

record admin_withdrawal_dto =
  awd_row :: crypto_withdrawal_dto
  awd_email :: "string option"
  awd_status :: "user_status option"
  awd_kyc :: "kyc_status option"
  awd_tier :: "nat option"
  awd_blocked :: "bool option"
  awd_risk :: "risk_level option"
  awd_note :: "string option"
  awd_flags :: "withdrawal_flags option"
  awd_approved :: "nat option"
  awd_approved2 :: "nat option"
  awd_first_at :: "nat option"
  awd_needs_second :: bool

definition toWithdrawalAddressDto :: "withdrawal_address \<Rightarrow> nat \<Rightarrow> withdrawal_address_dto" where
  "toWithdrawalAddressDto row t =
     \<lparr>wad_id = wa_id row, wad_chain = wa_chain row, wad_address = wa_address row,
      wad_label = wa_label row, wad_whitelisted = whitelisted_at row,
      wad_usable = (case whitelisted_at row of None \<Rightarrow> False | Some w \<Rightarrow> w \<le> t),
      wad_created = wa_created row\<rparr>"

definition buildExplorerTxUrl ::
  "withdrawal_config \<Rightarrow> string \<Rightarrow> string option \<Rightarrow> string option" where
  "buildExplorerTxUrl cfg chain txHash =
     (if txHash = None \<or> txHash = Some [] then None
      else case explorerTxBase cfg (toUpperCase chain) of
        None \<Rightarrow> None
      | Some base \<Rightarrow> if base = [] then None else Some (base @ the txHash))"

definition toCryptoWithdrawalDto ::
  "withdrawal_config \<Rightarrow> crypto_withdrawal \<Rightarrow> crypto_withdrawal_dto" where
  "toCryptoWithdrawalDto cfg row =
     \<lparr>cwd_id = w_id row, cwd_user = w_user row, cwd_chain = w_chain row, cwd_asset = w_asset row,
      cwd_to = to_address row, cwd_from = from_address row, cwd_amount = w_amount row,
      cwd_fee = w_fee row, cwd_net = net_amount row, cwd_status = w_status row,
      cwd_hash = tx_hash row, cwd_explorer = buildExplorerTxUrl cfg (w_chain row) (tx_hash row),
      cwd_nonce = w_nonce row, cwd_failure = failure_reason row,
      cwd_requested = requested_at row, cwd_broadcast = broadcast_at row,
      cwd_completed = completed_at row\<rparr>"

definition toAdminCryptoWithdrawalDto ::
  "withdrawal_config \<Rightarrow> crypto_withdrawal \<Rightarrow> user option \<Rightarrow> admin_withdrawal_dto" where
  "toAdminCryptoWithdrawalDto cfg row u =
     \<lparr>awd_row = toCryptoWithdrawalDto cfg row,
      awd_email = map_option user_email u, awd_status = map_option user_status u,
      awd_kyc = map_option kyc_status u, awd_tier = map_option kyc_tier u,
      awd_blocked = map_option withdrawals_blocked u, awd_risk = map_option risk_level u,
      awd_note = (case u of None \<Rightarrow> None | Some x \<Rightarrow> risk_note x),
      awd_flags = risk_flags row, awd_approved = approved_by row, awd_approved2 = approved_by2 row,
      awd_first_at = (if approved_by row \<noteq> None \<and> w_status row = PENDING_APPROVAL
        then Some (w_updated row) else None),
      awd_needs_second = (w_status row = PENDING_APPROVAL \<and> approved_by row \<noteq> None \<and>
        dual_threshold cfg \<le> w_amount row)\<rparr>"

text \<open>Integer base units of an amount; the power of ten is computed by the library as well.\<close>

definition humanToBase :: "rounding \<Rightarrow> rat \<Rightarrow> nat \<Rightarrow> err + int" where
  "humanToBase D amount decimals =
     (let base = dmul D amount (D (10 ^ decimals))
      in if of_int \<lfloor>base\<rfloor> = base then Inr \<lfloor>base\<rfloor> else Inl (JsError ''precision''))"

definition withdrawalRiskFlags :: "rat \<Rightarrow> rat \<Rightarrow> user \<Rightarrow> withdrawal_flags" where
  "withdrawalRiskFlags amount threshold u =
     \<lparr>large_withdrawal = (threshold \<le> amount), flag_risk_level = risk_level u,
      flag_status = user_status u, flag_blocked = withdrawals_blocked u, flag_kyc_tier = kyc_tier u\<rparr>"

section \<open>The repository\<close>

definition findUserKyc_w :: "nat \<Rightarrow> db \<Rightarrow> user option" where
  "findUserKyc_w userId s = find (\<lambda>u. user_id u = userId) (users s)"

definition getSupportedToken :: "string \<Rightarrow> string \<Rightarrow> db \<Rightarrow> asset_chain option" where
  "getSupportedToken asset chain s =
     (case find (\<lambda>r. ac_asset r = asset \<and> ac_chain r = chain) (asset_chains s) of
        None \<Rightarrow> None
      | Some row \<Rightarrow> if ac_active row then Some row else None)"

definition getTierLimit :: "nat \<Rightarrow> db \<Rightarrow> tier_limit option" where
  "getTierLimit tier s = find (\<lambda>r. tl_tier r = tier) (tier_limits s)"

definition NON_COUNTING_STATUSES :: "withdrawal_status list" where
  "NON_COUNTING_STATUSES = [W_REJECTED, FAILED, W_CANCELLED]"

definition ACTIVE_QUEUE_STATUSES :: "withdrawal_status list" where
  "ACTIVE_QUEUE_STATUSES = [REQUESTED, RISK_CHECK, PENDING_APPROVAL, APPROVED, QUEUED]"

text \<open>\<open>setUTCHours(0, 0, 0, 0)\<close> of the current time; PostgreSQL sums exactly.\<close>

definition startOfDay :: "nat \<Rightarrow> nat" where
  "startOfDay t = t - t mod 86400000"

definition sumTodayWithdrawals :: "nat \<Rightarrow> string \<Rightarrow> db \<Rightarrow> rat" where
  "sumTodayWithdrawals userId asset s =
     sum_list (map w_amount (filter (\<lambda>r. w_user r = userId \<and> w_asset r = asset \<and>
       startOfDay (now s) \<le> requested_at r \<and> w_status r \<notin> set NON_COUNTING_STATUSES)
       (crypto_withdrawals s)))"

definition findActiveAddress :: "nat \<Rightarrow> string \<Rightarrow> string \<Rightarrow> db \<Rightarrow> withdrawal_address option" where
  "findActiveAddress userId chain address s =
     find (\<lambda>r. wa_user r = userId \<and> wa_chain r = chain \<and> wa_address r = address \<and>
       wa_deleted r = None) (withdrawal_addresses s)"

definition listAddresses_rows :: "nat \<Rightarrow> string option \<Rightarrow> db \<Rightarrow> withdrawal_address list" where
  "listAddresses_rows userId chain s =
     rev (sort_key wa_created (rev (filter (\<lambda>r. wa_user r = userId \<and> wa_deleted r = None \<and>
       (chain = None \<or> chain = Some [] \<or> chain = Some (wa_chain r))) (withdrawal_addresses s))))"

text \<open>The insert carries the unique index on the addresses that are not deleted.\<close>

definition insertAddress ::
  "nat \<Rightarrow> string \<Rightarrow> string \<Rightarrow> string option \<Rightarrow> nat \<Rightarrow> (db, withdrawal_address) svc" where
  "insertAddress userId chain address label whitelistedAt =
     bindS fresh_uuid (\<lambda>i.
     bindS (readS (findActiveAddress userId chain address)) (\<lambda>dup.
     bindS (requireS (dup = None) (PrismaError ''P2002'')) (\<lambda>_.
     bindS (readS now) (\<lambda>t.
     let r = \<lparr>wa_id = i, wa_user = userId, wa_chain = chain, wa_address = address,
              wa_label = label, whitelisted_at = Some whitelistedAt, wa_created = t,
              wa_deleted = None\<rparr>
     in bindS (writeS (\<lambda>s. s\<lparr>withdrawal_addresses := withdrawal_addresses s @ [r]\<rparr>)) (\<lambda>_.
        returnS r)))))"

text \<open>
  CHECK constraints \<open>crypto_withdrawals_net_chk\<close> and \<open>crypto_withdrawals_dual_chk\<close>; a comparison
  with NULL does not violate the second.
\<close>

definition withdrawal_checks :: "crypto_withdrawal \<Rightarrow> bool" where
  "withdrawal_checks r \<longleftrightarrow> net_amount r = w_amount r - w_fee r \<and>
     \<not> (approved_by r \<noteq> None \<and> approved_by r = approved_by2 r)"

definition createWithdrawal ::
  "nat \<Rightarrow> string \<Rightarrow> string \<Rightarrow> string \<Rightarrow> rat \<Rightarrow> rat \<Rightarrow> rat \<Rightarrow> withdrawal_flags \<Rightarrow>
    (db, crypto_withdrawal) svc" where
  "createWithdrawal userId chain asset toAddress amount fee netAmt flags =
     bindS fresh_uuid (\<lambda>i.
     bindS (readS now) (\<lambda>t.
     let r = \<lparr>w_id = i, w_user = userId, w_chain = chain, w_asset = asset,
              to_address = toAddress, from_address = None, hot_wallet_id = None,
              w_amount = amount, w_fee = fee, net_amount = netAmt, w_status = REQUESTED,
              hold_txn = None, final_txn = None, tx_hash = None, w_nonce = None,
              approved_by = None, approved_by2 = None, risk_flags = Some flags,
              failure_reason = None, requested_at = t, broadcast_at = None,
              completed_at = None, w_updated = t\<rparr>
     in bindS (requireS (withdrawal_checks r) (DbCheckError ''crypto_withdrawals'')) (\<lambda>_.
        bindS (writeS (\<lambda>s. s\<lparr>crypto_withdrawals := crypto_withdrawals s @ [r]\<rparr>)) (\<lambda>_.
        returnS r))))"

definition findById_w :: "nat \<Rightarrow> db \<Rightarrow> crypto_withdrawal option" where
  "findById_w i s = find (\<lambda>r. w_id r = i) (crypto_withdrawals s)"

definition findByIdForUser_w :: "nat \<Rightarrow> nat \<Rightarrow> db \<Rightarrow> crypto_withdrawal option" where
  "findByIdForUser_w i userId s =
     find (\<lambda>r. w_id r = i \<and> w_user r = userId) (crypto_withdrawals s)"

definition put_withdrawals :: "crypto_withdrawal list \<Rightarrow> db \<Rightarrow> db" where
  "put_withdrawals rs s = s\<lparr>crypto_withdrawals := rs\<rparr>"

text \<open>\<open>update\<close> and \<open>updateMany\<close>; both set \<open>updatedAt\<close>.\<close>

definition update_w :: "nat \<Rightarrow> (crypto_withdrawal \<Rightarrow> crypto_withdrawal) \<Rightarrow> (db, crypto_withdrawal) svc" where
  "update_w i upd =
     bindS (readS now) (\<lambda>t.
     update_one w_id crypto_withdrawals put_withdrawals withdrawal_checks ''crypto_withdrawals'' i
       (\<lambda>r. upd r\<lparr>w_updated := t\<rparr>))"

definition updateMany_w ::
  "nat \<Rightarrow> (crypto_withdrawal \<Rightarrow> bool) \<Rightarrow> (crypto_withdrawal \<Rightarrow> crypto_withdrawal) \<Rightarrow> (db, nat) svc" where
  "updateMany_w i cond upd =
     bindS (readS now) (\<lambda>t.
     update_many w_id crypto_withdrawals put_withdrawals withdrawal_checks ''crypto_withdrawals'' i
       cond (\<lambda>r. upd r\<lparr>w_updated := t\<rparr>))"

definition setHold :: "nat \<Rightarrow> nat \<Rightarrow> (db, crypto_withdrawal) svc" where
  "setHold i txn = update_w i (\<lambda>r. r\<lparr>hold_txn := Some txn, w_status := PENDING_APPROVAL\<rparr>)"

definition markRequestFailed :: "nat \<Rightarrow> string \<Rightarrow> (db, crypto_withdrawal) svc" where
  "markRequestFailed i reason =
     update_w i (\<lambda>r. r\<lparr>w_status := FAILED, failure_reason := Some reason\<rparr>)"

definition firstApprove :: "nat \<Rightarrow> nat \<Rightarrow> (db, nat) svc" where
  "firstApprove i adminId =
     updateMany_w i (\<lambda>r. w_status r = PENDING_APPROVAL \<and> approved_by r = None)
       (\<lambda>r. r\<lparr>approved_by := Some adminId\<rparr>)"

definition approveSmall :: "nat \<Rightarrow> nat \<Rightarrow> (db, nat) svc" where
  "approveSmall i adminId =
     updateMany_w i (\<lambda>r. w_status r = PENDING_APPROVAL \<and> approved_by r = None)
       (\<lambda>r. r\<lparr>w_status := APPROVED, approved_by := Some adminId\<rparr>)"

definition secondApprove :: "nat \<Rightarrow> nat \<Rightarrow> nat \<Rightarrow> (db, nat) svc" where
  "secondApprove i firstAdmin secondAdmin =
     updateMany_w i (\<lambda>r. w_status r = PENDING_APPROVAL \<and> approved_by r = Some firstAdmin \<and>
         approved_by2 r = None \<and> approved_by r \<noteq> Some secondAdmin)
       (\<lambda>r. r\<lparr>w_status := APPROVED, approved_by2 := Some secondAdmin\<rparr>)"

text \<open>The empty string the service passes for a missing admin is no UUID: P2023.\<close>

definition reject_row :: "nat \<Rightarrow> nat option \<Rightarrow> string \<Rightarrow> (db, nat) svc" where
  "reject_row i adminId reason =
     (case adminId of
        None \<Rightarrow> throwS (PrismaError ''P2023'')
      | Some a \<Rightarrow>
          updateMany_w i (\<lambda>r. w_status r \<in>
              {REQUESTED, RISK_CHECK, PENDING_APPROVAL, APPROVED, QUEUED})
            (\<lambda>r. r\<lparr>w_status := W_REJECTED, approved_by := Some a, failure_reason := Some reason\<rparr>))"

definition claimForBroadcast :: "nat \<Rightarrow> (db, nat) svc" where
  "claimForBroadcast i =
     updateMany_w i (\<lambda>r. w_status r = APPROVED) (\<lambda>r. r\<lparr>w_status := SIGNING\<rparr>)"

text \<open>Carries the unique index on chain, sending address and nonce.\<close>

definition nonce_taken :: "nat \<Rightarrow> string \<Rightarrow> nat \<Rightarrow> db \<Rightarrow> bool" where
  "nonce_taken i fromAddress nonce s \<longleftrightarrow>
     (case findById_w i s of
        None \<Rightarrow> False
      | Some x \<Rightarrow> \<exists>r \<in> set (crypto_withdrawals s). w_id r \<noteq> i \<and> w_chain r = w_chain x \<and>
          from_address r = Some fromAddress \<and> w_nonce r = Some nonce)"

definition setBroadcast ::
  "nat \<Rightarrow> nat \<Rightarrow> string \<Rightarrow> nat \<Rightarrow> string \<Rightarrow> (db, crypto_withdrawal) svc" where
  "setBroadcast i hotWalletId fromAddress nonce txHash =
     bindS (readS (nonce_taken i fromAddress nonce)) (\<lambda>taken.
     bindS (requireS (\<not> taken) (PrismaError ''P2002'')) (\<lambda>_.
     bindS (readS now) (\<lambda>t.
     update_w i (\<lambda>r. r\<lparr>w_status := BROADCAST, hot_wallet_id := Some hotWalletId,
       from_address := Some fromAddress, w_nonce := Some nonce, tx_hash := Some txHash,
       broadcast_at := Some t\<rparr>))))"

definition setConfirming :: "nat \<Rightarrow> (db, nat) svc" where
  "setConfirming i = updateMany_w i (\<lambda>r. w_status r = BROADCAST) (\<lambda>r. r\<lparr>w_status := CONFIRMING\<rparr>)"

definition markCompleted :: "nat \<Rightarrow> nat \<Rightarrow> (db, nat) svc" where
  "markCompleted i finalTxnId =
     bindS (readS now) (\<lambda>t.
     updateMany_w i (\<lambda>r. w_status r \<in> {BROADCAST, CONFIRMING})
       (\<lambda>r. r\<lparr>w_status := COMPLETED, final_txn := Some finalTxnId, completed_at := Some t\<rparr>))"

definition markFailed :: "nat \<Rightarrow> string \<Rightarrow> (db, nat) svc" where
  "markFailed i reason =
     updateMany_w i (\<lambda>r. w_status r \<in> {SIGNING, BROADCAST, CONFIRMING, APPROVED, QUEUED})
       (\<lambda>r. r\<lparr>w_status := FAILED, failure_reason := Some reason\<rparr>)"

definition listForBroadcast :: "string \<Rightarrow> db \<Rightarrow> crypto_withdrawal list" where
  "listForBroadcast chain s =
     sort_key requested_at (filter (\<lambda>r. w_chain r = chain \<and> w_status r = APPROVED)
       (crypto_withdrawals s))"

definition listForConfirmation :: "string \<Rightarrow> db \<Rightarrow> crypto_withdrawal list" where
  "listForConfirmation chain s =
     sort_key requested_at (filter (\<lambda>r. w_chain r = chain \<and>
       w_status r \<in> {BROADCAST, CONFIRMING}) (crypto_withdrawals s))"

definition pickActiveHotWallet :: "string \<Rightarrow> db \<Rightarrow> hot_wallet option" where
  "pickActiveHotWallet chain s =
     (case sort_key hw_created (filter (\<lambda>h. hw_chain h = chain \<and> hw_tier_hot h \<and> hw_active h)
       (hot_wallets s)) of [] \<Rightarrow> None | h # _ \<Rightarrow> Some h)"

text \<open>The row of \<open>wallet_nonces\<close>: the two statements of \<open>allocateNonce\<close>, each atomic.\<close>

definition nonce_increment :: "nat \<Rightarrow> (db, nat) svc" where
  "nonce_increment hw = (\<lambda>s.
     case wallet_nonces s hw of
       None \<Rightarrow> (Inl (PrismaError ''P2025''), s)
     | Some n \<Rightarrow> (Inr (n + 1), s\<lparr>wallet_nonces := (wallet_nonces s)(hw \<mapsto> n + 1)\<rparr>))"

definition nonce_create :: "nat \<Rightarrow> (db, nat) svc" where
  "nonce_create hw = (\<lambda>s.
     case wallet_nonces s hw of
       None \<Rightarrow> (Inr 1, s\<lparr>wallet_nonces := (wallet_nonces s)(hw \<mapsto> 1)\<rparr>)
     | Some n \<Rightarrow> (Inl (PrismaError ''P2002''), s))"

definition allocateNonce :: "nat \<Rightarrow> (db, nat) svc" where
  "allocateNonce hw =
     catchS (bindS (nonce_increment hw) (\<lambda>next. returnS (next - 1)))
       (\<lambda>e. if e = PrismaError ''P2025'' then
              catchS (bindS (nonce_create hw) (\<lambda>next. returnS (next - 1)))
                (\<lambda>e'. if e' = PrismaError ''P2002'' then
                       bindS (nonce_increment hw) (\<lambda>next. returnS (next - 1))
                     else throwS e')
            else throwS e)"

section \<open>The signer\<close>

record transfer =
  tr_chain :: string
  tr_asset :: string
  tr_contract :: string
  tr_from :: string
  tr_to :: string
  tr_amount :: int
  tr_nonce :: nat
  tr_key :: chain_signer

record tx_confirmation =
  conf_found :: bool
  conf_depth :: nat
  conf_success :: bool

text \<open>
  \<open>WithdrawalSignerProvider\<close>.  Of a signed transaction only the hash is ever read; the opaque
  \<open>rawTx\<close> is left out.
\<close>

record signer =
  signTransfer :: "transfer \<Rightarrow> (db, string) svc"
  broadcastTx :: "string \<Rightarrow> string \<Rightarrow> (db, string) svc"
  getConfirmations :: "string \<Rightarrow> string \<Rightarrow> (db, tx_confirmation) svc"

text \<open>
  The mock signer; \<open>sha256\<close> stands for the hexadecimal digest of \<open>node:crypto\<close>.  Amounts are not
  negative when they reach it.
\<close>

definition hashFor :: "(string \<Rightarrow> string) \<Rightarrow> transfer \<Rightarrow> string" where
  "hashFor sha256 x =
     ''trxw_'' @ take 56 (sha256 (tr_from x @ ''|'' @ nat_text (tr_nonce x) @ ''|'' @ tr_to x @ ''|''
       @ nat_text (nat (tr_amount x))))"

definition mock_broadcast :: "string \<Rightarrow> string \<Rightarrow> (db, string) svc" where
  "mock_broadcast chain txHash =
     bindS (writeS (\<lambda>s. if map_of (chain_txs s) txHash = None
       then s\<lparr>chain_txs := chain_txs s @ [(txHash, \<lparr>tx_confirmations = 0, tx_success = True\<rparr>)]\<rparr>
       else s)) (\<lambda>_. returnS txHash)"

definition mock_confirmations :: "string \<Rightarrow> string \<Rightarrow> (db, tx_confirmation) svc" where
  "mock_confirmations chain txHash = readS (\<lambda>s.
     case map_of (chain_txs s) txHash of
       None \<Rightarrow> \<lparr>conf_found = False, conf_depth = 0, conf_success = True\<rparr>
     | Some st \<Rightarrow> \<lparr>conf_found = True, conf_depth = tx_confirmations st,
         conf_success = tx_success st\<rparr>)"

definition mock_signer :: "(string \<Rightarrow> string) \<Rightarrow> signer" where
  "mock_signer sha256 =
     \<lparr>signTransfer = (\<lambda>x. returnS (hashFor sha256 x)), broadcastTx = mock_broadcast,
      getConfirmations = mock_confirmations\<rparr>"

section \<open>Ledger movements\<close>

definition hold_input :: "crypto_withdrawal \<Rightarrow> posting_input" where
  "hold_input w =
     \<lparr>post_kind = ''WITHDRAWAL_HOLD'', post_reference_type = Some ''crypto_withdrawal'',
      post_reference_id = Some (w_id w),
      post_lines = move_lines (Some (w_user w)) ASSET USER_AVAILABLE USER_LOCKED (w_amount w)\<rparr>"

definition release_input :: "crypto_withdrawal \<Rightarrow> posting_input" where
  "release_input w =
     \<lparr>post_kind = ''WITHDRAWAL_RELEASE'', post_reference_type = Some ''crypto_withdrawal_release'',
      post_reference_id = Some (w_id w),
      post_lines = move_lines (Some (w_user w)) ASSET USER_LOCKED USER_AVAILABLE (w_amount w)\<rparr>"

definition final_input :: "crypto_withdrawal \<Rightarrow> posting_input" where
  "final_input w =
     \<lparr>post_kind = ''WITHDRAWAL_FINAL'', post_reference_type = Some ''crypto_withdrawal_final'',
      post_reference_id = Some (w_id w),
      post_lines =
        [\<lparr>line_user = Some (w_user w), line_asset = ASSET, line_kind = USER_LOCKED,
          line_direction = DEBIT, line_amount = w_amount w\<rparr>,
         \<lparr>line_user = None, line_asset = ASSET, line_kind = HOT_WALLET,
          line_direction = CREDIT, line_amount = net_amount w\<rparr>]
        @ (if 0 < w_fee w
           then [\<lparr>line_user = None, line_asset = ASSET, line_kind = FEE_REVENUE,
             line_direction = CREDIT, line_amount = w_fee w\<rparr>] else [])\<rparr>"

definition placeHold :: "rounding \<Rightarrow> crypto_withdrawal \<Rightarrow> (db, posted) svc" where
  "placeHold D w = retry_post (post D (hold_input w) (Some (w_user w)))"

definition releaseHold :: "rounding \<Rightarrow> crypto_withdrawal \<Rightarrow> (db, posted) svc" where
  "releaseHold D w = retry_post (post D (release_input w) (Some (w_user w)))"

definition finalizeLedger :: "rounding \<Rightarrow> crypto_withdrawal \<Rightarrow> (db, posted) svc" where
  "finalizeLedger D w = retry_post (post D (final_input w) (Some (w_user w)))"

definition auditAdmin_w ::
  "nat option \<Rightarrow> string \<Rightarrow> string option \<Rightarrow> nat option \<Rightarrow> (db, unit) svc" where
  "auditAdmin_w actor action targetType targetId =
     bindS (recordAudit ACTOR_ADMIN actor action targetType targetId) (\<lambda>_.
     case actor of None \<Rightarrow> returnS () | Some a \<Rightarrow> writeAdminLog a action targetType targetId)"

section \<open>The allowlist\<close>

definition addAddress ::
  "withdrawal_config \<Rightarrow> nat \<Rightarrow> string \<Rightarrow> string \<Rightarrow> string option \<Rightarrow>
    (db, withdrawal_address_dto) svc" where
  "addAddress cfg userId chain address label =
     bindS (requireS (\<not> chain \<noteq> CHAIN) (AppError 422 ''CHAIN_NOT_SUPPORTED'')) (\<lambda>_.
     bindS (readS (findActiveAddress userId chain address)) (\<lambda>existing.
     bindS (requireS (existing = None) (ConflictError ''ADDRESS_EXISTS'')) (\<lambda>_.
     bindS (readS now) (\<lambda>t.
     bindS (insertAddress userId chain address label (t + cooldown_ms cfg)) (\<lambda>row.
     bindS (recordAudit ACTOR_USER (Some userId) ''crypto.withdrawal.address_added''
       (Some ''withdrawal_address'') (Some (wa_id row))) (\<lambda>_.
     returnS (toWithdrawalAddressDto row t)))))))"

definition listAddresses :: "nat \<Rightarrow> string option \<Rightarrow> (db, withdrawal_address_dto list) svc" where
  "listAddresses userId chain =
     readS (\<lambda>s. map (\<lambda>r. toWithdrawalAddressDto r (now s)) (listAddresses_rows userId chain s))"

section \<open>Requesting a withdrawal\<close>

definition request_guards :: "nat \<Rightarrow> string \<Rightarrow> (db, user) svc" where
  "request_guards userId toAddress =
     bindS (readS withdrawals_frozen) (\<lambda>frozen.
     bindS (requireS (\<not> frozen) (ForbiddenError ''WITHDRAWALS_FROZEN'')) (\<lambda>_.
     bindS (readS (findUserKyc_w userId)) (\<lambda>found.
     case found of
       None \<Rightarrow> throwS not_found
     | Some u \<Rightarrow>
         bindS (requireS (\<not> user_status u \<noteq> USER_ACTIVE) (ForbiddenError ''ACCOUNT_INACTIVE'')) (\<lambda>_.
         bindS (requireS (\<not> withdrawals_blocked u) (ForbiddenError ''WITHDRAWALS_BLOCKED'')) (\<lambda>_.
         bindS (requireS (\<not> (kyc_status u \<noteq> KYC_APPROVED \<or> kyc_tier u < 1))
           (ForbiddenError ''KYC_REQUIRED'')) (\<lambda>_.
         bindS (readS (getSupportedToken ASSET CHAIN)) (\<lambda>token.
         bindS (requireS (case token of None \<Rightarrow> False
             | Some tk \<Rightarrow> contract_addr tk \<noteq> None \<and> contract_addr tk \<noteq> Some [])
           (AppError 422 ''ASSET_NOT_SUPPORTED'')) (\<lambda>_.
         bindS (readS (findActiveAddress userId CHAIN toAddress)) (\<lambda>allow.
         case allow of
           None \<Rightarrow> throwS (AppError 422 ''ADDRESS_NOT_ALLOWLISTED'')
         | Some a \<Rightarrow>
             bindS (readS now) (\<lambda>t.
             bindS (requireS (case whitelisted_at a of None \<Rightarrow> False | Some w \<Rightarrow> \<not> t < w)
               (ForbiddenError ''ADDRESS_COOLING_OFF'')) (\<lambda>_.
             returnS u)))))))))))"

definition limit_guard :: "rounding \<Rightarrow> user \<Rightarrow> rat \<Rightarrow> (db, unit) svc" where
  "limit_guard D u amount =
     bindS (readS (getTierLimit (kyc_tier u))) (\<lambda>limit.
     case limit of
       None \<Rightarrow> returnS ()
     | Some l \<Rightarrow>
         (case usdt_daily_withdrawal l of
            None \<Rightarrow> returnS ()
          | Some cap \<Rightarrow>
              bindS (readS (sumTodayWithdrawals (user_id u) ASSET)) (\<lambda>today.
              requireS (\<not> cap < dadd D today amount) (AppError 422 ''LIMIT_EXCEEDED''))))"

text \<open>\<open>requestWithdrawal\<close> up to the insert of the row.\<close>

definition request_create ::
  "rounding \<Rightarrow> withdrawal_config \<Rightarrow> nat \<Rightarrow> string \<Rightarrow> rat \<Rightarrow> (db, crypto_withdrawal) svc" where
  "request_create D cfg userId toAddress amount =
     bindS (request_guards userId toAddress) (\<lambda>u.
     let fee = fee_usdt cfg
     in bindS (requireS (\<not> amount < min_usdt cfg) (AppError 422 ''MINIMUM_AMOUNT_NOT_MET'')) (\<lambda>_.
        let netAmount = dsub D amount fee
        in bindS (requireS (\<not> netAmount \<le> 0) (AppError 422 ''AMOUNT_TOO_SMALL'')) (\<lambda>_.
           bindS (limit_guard D u amount) (\<lambda>_.
           createWithdrawal userId CHAIN ASSET toAddress amount fee netAmount
             (withdrawalRiskFlags amount (dual_threshold cfg) u)))))"

text \<open>The rest of it: hold the amount, or mark the request failed when the ledger refuses.\<close>

definition is_conflict :: "err \<Rightarrow> bool" where
  "is_conflict e = (case e of ConflictError c \<Rightarrow> True | _ \<Rightarrow> False)"

definition request_hold ::
  "rounding \<Rightarrow> withdrawal_config \<Rightarrow> nat \<Rightarrow> crypto_withdrawal \<Rightarrow> (db, crypto_withdrawal_dto) svc" where
  "request_hold D cfg userId w =
     bindS (catchS
       (bindS (placeHold D w) (\<lambda>posting. setHold (w_id w) (posted_id posting)))
       (\<lambda>e. bindS (if is_conflict e
                   then bindS (markRequestFailed (w_id w) ''insufficient_balance'') (\<lambda>_. returnS ())
                   else returnS ()) (\<lambda>_. throwS e))) (\<lambda>held.
     bindS (recordAudit ACTOR_USER (Some userId) ''crypto.withdrawal.requested''
       (Some ''crypto_withdrawal'') (Some (w_id held))) (\<lambda>_.
     bindS (notify userId ''WITHDRAWAL_REQUESTED'') (\<lambda>_.
     returnS (toCryptoWithdrawalDto cfg held))))"

definition requestWithdrawal ::
  "rounding \<Rightarrow> withdrawal_config \<Rightarrow> nat \<Rightarrow> string \<Rightarrow> rat \<Rightarrow> (db, crypto_withdrawal_dto) svc" where
  "requestWithdrawal D cfg userId toAddress amount =
     bindS (request_create D cfg userId toAddress amount) (request_hold D cfg userId)"

definition getWithdrawal ::
  "withdrawal_config \<Rightarrow> nat \<Rightarrow> nat \<Rightarrow> (db, crypto_withdrawal_dto) svc" where
  "getWithdrawal cfg userId i =
     bindS (readS (findByIdForUser_w i userId)) (\<lambda>row.
     case row of
       None \<Rightarrow> throwS not_found
     | Some r \<Rightarrow> returnS (toCryptoWithdrawalDto cfg r))"

section \<open>Approving and rejecting\<close>

definition not_approvable :: err where
  "not_approvable = ConflictError ''WITHDRAWAL_NOT_APPROVABLE''"

text \<open>The row read again at the end of a handler; the source casts it to be there.\<close>

definition final_row ::
  "withdrawal_config \<Rightarrow> nat \<Rightarrow> (db, crypto_withdrawal_dto) svc" where
  "final_row cfg i =
     bindS (readS (findById_w i)) (\<lambda>updated.
     case updated of
       None \<Rightarrow> throwS (JsError ''TypeError'')
     | Some r \<Rightarrow> returnS (toCryptoWithdrawalDto cfg r))"

definition approve_second ::
  "withdrawal_config \<Rightarrow> nat \<Rightarrow> nat \<Rightarrow> nat \<Rightarrow> crypto_withdrawal \<Rightarrow> (db, crypto_withdrawal_dto) svc" where
  "approve_second cfg i actor firstAdmin existing =
     bindS (requireS (\<not> firstAdmin = actor) (ConflictError ''DUAL_CONTROL_SAME_APPROVER'')) (\<lambda>_.
     bindS (secondApprove i firstAdmin actor) (\<lambda>count.
     bindS (requireS (\<not> count = 0) not_approvable) (\<lambda>_.
     bindS (readS (findById_w i)) (\<lambda>updated.
     bindS (auditAdmin_w (Some actor) ''crypto.withdrawal.approved'' (Some ''crypto_withdrawal'')
       (Some i)) (\<lambda>_.
     bindS (notify (w_user existing) ''WITHDRAWAL_APPROVED'') (\<lambda>_.
     case updated of
       None \<Rightarrow> throwS (JsError ''TypeError'')
     | Some r \<Rightarrow> returnS (toCryptoWithdrawalDto cfg r)))))))"

definition approve_first ::
  "withdrawal_config \<Rightarrow> nat \<Rightarrow> nat \<Rightarrow> bool \<Rightarrow> crypto_withdrawal \<Rightarrow> (db, crypto_withdrawal_dto) svc" where
  "approve_first cfg i actor large existing =
     bindS (if large then firstApprove i actor else approveSmall i actor) (\<lambda>count.
     bindS (requireS (\<not> count = 0) not_approvable) (\<lambda>_.
     bindS (readS (findById_w i)) (\<lambda>updated.
     bindS (auditAdmin_w (Some actor)
       (if large then ''crypto.withdrawal.first_approved'' else ''crypto.withdrawal.approved'')
       (Some ''crypto_withdrawal'') (Some i)) (\<lambda>_.
     bindS (whenS (\<not> large) (notify (w_user existing) ''WITHDRAWAL_APPROVED'')) (\<lambda>_.
     case updated of
       None \<Rightarrow> throwS (JsError ''TypeError'')
     | Some r \<Rightarrow> returnS (toCryptoWithdrawalDto cfg r))))))"

definition approve_w ::
  "withdrawal_config \<Rightarrow> nat \<Rightarrow> nat option \<Rightarrow> (db, crypto_withdrawal_dto) svc" where
  "approve_w cfg i actorId =
     (case actorId of
        None \<Rightarrow> throwS (ForbiddenError ''FORBIDDEN'')
      | Some actor \<Rightarrow>
          bindS (readS (findById_w i)) (\<lambda>found.
          case found of
            None \<Rightarrow> throwS not_found
          | Some existing \<Rightarrow>
              let large = (dual_threshold cfg \<le> w_amount existing)
              in if w_status existing = PENDING_APPROVAL \<and> large \<and> approved_by existing \<noteq> None
                 then approve_second cfg i actor (the (approved_by existing)) existing
                 else if w_status existing \<noteq> PENDING_APPROVAL
                 then if w_status existing = APPROVED
                      then returnS (toCryptoWithdrawalDto cfg existing)
                      else throwS not_approvable
                 else approve_first cfg i actor large existing))"

definition reject_w ::
  "rounding \<Rightarrow> withdrawal_config \<Rightarrow> nat \<Rightarrow> string \<Rightarrow> nat option \<Rightarrow>
    (db, crypto_withdrawal_dto) svc" where
  "reject_w D cfg i reason actorId =
     bindS (readS (findById_w i)) (\<lambda>found.
     case found of
       None \<Rightarrow> throwS not_found
     | Some existing \<Rightarrow>
         bindS (reject_row i actorId reason) (\<lambda>count.
         if count = 0 then
           if w_status existing = W_REJECTED then returnS (toCryptoWithdrawalDto cfg existing)
           else throwS (ConflictError ''INVALID_STATE'')
         else
           bindS (if hold_txn existing \<noteq> None
                  then bindS (releaseHold D existing) (\<lambda>_. returnS ()) else returnS ()) (\<lambda>_.
           bindS (auditAdmin_w actorId ''crypto.withdrawal.rejected'' (Some ''crypto_withdrawal'')
             (Some i)) (\<lambda>_.
           bindS (notify (w_user existing) ''WITHDRAWAL_REJECTED'') (\<lambda>_.
           final_row cfg i)))))"

section \<open>Execution\<close>

definition failWithdrawal :: "rounding \<Rightarrow> crypto_withdrawal \<Rightarrow> string \<Rightarrow> (db, bool) svc" where
  "failWithdrawal D w reason =
     bindS (markFailed (w_id w) reason) (\<lambda>count.
     if count = 0 then returnS False
     else
       bindS (if hold_txn w \<noteq> None
              then bindS (releaseHold D w) (\<lambda>_. returnS ()) else returnS ()) (\<lambda>_.
       bindS (recordAudit ACTOR_SYSTEM None ''crypto.withdrawal.failed'' (Some ''crypto_withdrawal'')
         (Some (w_id w))) (\<lambda>_.
       returnS True)))"

text \<open>The body of the \<open>try\<close> of \<open>broadcastWithdrawal\<close>.\<close>

definition broadcast_body :: "rounding \<Rightarrow> signer \<Rightarrow> crypto_withdrawal \<Rightarrow> (db, bool) svc" where
  "broadcast_body D prov w =
     bindS (readS (getSupportedToken ASSET CHAIN)) (\<lambda>token.
     case token of
       None \<Rightarrow> throwS (JsError ''token_not_supported'')
     | Some tk \<Rightarrow>
     if contract_addr tk = None \<or> contract_addr tk = Some [] then
       throwS (JsError ''token_not_supported'')
     else
     bindS (readS (pickActiveHotWallet CHAIN)) (\<lambda>hot.
     case hot of
       None \<Rightarrow> throwS (JsError ''no_active_hot_wallet'')
     | Some h \<Rightarrow>
     (case hw_signer h of
       None \<Rightarrow> throwS (JsError ''no_active_hot_wallet'')
     | Some sg \<Rightarrow>
         bindS (allocateNonce (hw_id h)) (\<lambda>nonce.
         case humanToBase D (net_amount w) (ac_decimals tk) of
           Inl e \<Rightarrow> throwS e
         | Inr amountBase \<Rightarrow>
             bindS (signTransfer prov
               \<lparr>tr_chain = CHAIN, tr_asset = ASSET, tr_contract = the (contract_addr tk),
                tr_from = hw_address h, tr_to = to_address w, tr_amount = amountBase,
                tr_nonce = nonce, tr_key = sg\<rparr>) (\<lambda>signed.
             bindS (broadcastTx prov CHAIN signed) (\<lambda>txHash.
             bindS (setBroadcast (w_id w) (hw_id h) (hw_address h) nonce txHash) (\<lambda>_.
             bindS (recordAudit ACTOR_SYSTEM None ''crypto.withdrawal.broadcast''
               (Some ''crypto_withdrawal'') (Some (w_id w))) (\<lambda>_.
             returnS True))))))))"

definition broadcastWithdrawal :: "rounding \<Rightarrow> signer \<Rightarrow> crypto_withdrawal \<Rightarrow> (db, bool) svc" where
  "broadcastWithdrawal D prov w =
     bindS (claimForBroadcast (w_id w)) (\<lambda>count.
     if count = 0 then returnS False
     else catchS (broadcast_body D prov w)
       (\<lambda>e. bindS (failWithdrawal D w ''broadcast_failed'') (\<lambda>_. returnS False)))"

definition finalizeWithdrawal :: "rounding \<Rightarrow> crypto_withdrawal \<Rightarrow> (db, bool) svc" where
  "finalizeWithdrawal D w =
     (if w_status w = COMPLETED then returnS False
      else
        bindS (finalizeLedger D w) (\<lambda>posting.
        bindS (markCompleted (w_id w) (posted_id posting)) (\<lambda>count.
        if count \<noteq> 1 then returnS False
        else
          bindS (recordAudit ACTOR_SYSTEM None ''crypto.withdrawal.completed''
            (Some ''crypto_withdrawal'') (Some (w_id w))) (\<lambda>_.
          bindS (notify (w_user w) ''WITHDRAWAL_COMPLETED'') (\<lambda>_.
          returnS True)))))"

section \<open>The worker\<close>

record withdrawal_cycle_result =
  cyc_broadcast :: nat
  cyc_promoted :: nat
  cyc_completed :: nat
  cyc_failed :: nat

fun broadcast_all ::
  "rounding \<Rightarrow> signer \<Rightarrow> crypto_withdrawal list \<Rightarrow> nat \<Rightarrow> (db, nat) svc" where
  "broadcast_all D prov [] n = returnS n"
| "broadcast_all D prov (w # ws) n =
     bindS (broadcastWithdrawal D prov w) (\<lambda>b. broadcast_all D prov ws (if b then n + 1 else n))"

definition runBroadcastCycle :: "rounding \<Rightarrow> signer \<Rightarrow> (db, nat) svc" where
  "runBroadcastCycle D prov =
     bindS (readS (listForBroadcast CHAIN)) (\<lambda>pending. broadcast_all D prov pending 0)"

text \<open>What one iteration of the confirmation loop counts.\<close>

datatype cycle_event = Nothing | Promoted | Completed | Failed

definition confirm_one ::
  "rounding \<Rightarrow> signer \<Rightarrow> nat \<Rightarrow> crypto_withdrawal \<Rightarrow> (db, cycle_event) svc" where
  "confirm_one D prov minConf w =
     (if tx_hash w = None \<or> tx_hash w = Some [] then returnS Nothing
      else
        bindS (getConfirmations prov CHAIN (the (tx_hash w))) (\<lambda>st.
        if \<not> conf_found st then returnS Nothing
        else if \<not> conf_success st then
          bindS (failWithdrawal D w ''tx_failed_or_dropped'') (\<lambda>b.
          returnS (if b then Failed else Nothing))
        else if minConf \<le> conf_depth st then
          bindS (finalizeWithdrawal D w) (\<lambda>b. returnS (if b then Completed else Nothing))
        else if w_status w = BROADCAST \<and> 1 \<le> conf_depth st then
          bindS (setConfirming (w_id w)) (\<lambda>_. returnS Promoted)
        else returnS Nothing))"

definition count_event :: "cycle_event \<Rightarrow> nat \<times> nat \<times> nat \<Rightarrow> nat \<times> nat \<times> nat" where
  "count_event e c = (case c of (p, d, f) \<Rightarrow>
     (case e of Nothing \<Rightarrow> (p, d, f) | Promoted \<Rightarrow> (p + 1, d, f) | Completed \<Rightarrow> (p, d + 1, f)
        | Failed \<Rightarrow> (p, d, f + 1)))"

fun confirm_all ::
  "rounding \<Rightarrow> signer \<Rightarrow> nat \<Rightarrow> crypto_withdrawal list \<Rightarrow> nat \<times> nat \<times> nat \<Rightarrow>
    (db, nat \<times> nat \<times> nat) svc" where
  "confirm_all D prov minConf [] c = returnS c"
| "confirm_all D prov minConf (w # ws) c =
     bindS (confirm_one D prov minConf w) (\<lambda>e. confirm_all D prov minConf ws (count_event e c))"

definition runConfirmationCycle :: "rounding \<Rightarrow> signer \<Rightarrow> (db, nat \<times> nat \<times> nat) svc" where
  "runConfirmationCycle D prov =
     bindS (readS (getSupportedToken ASSET CHAIN)) (\<lambda>token.
     let minConf = (case token of None \<Rightarrow> 20 | Some tk \<Rightarrow> min_confirmations tk)
     in bindS (readS (listForConfirmation CHAIN)) (\<lambda>inFlight.
        confirm_all D prov minConf inFlight (0, 0, 0)))"

definition runWithdrawalCycle :: "rounding \<Rightarrow> signer \<Rightarrow> (db, withdrawal_cycle_result) svc" where
  "runWithdrawalCycle D prov =
     bindS (runBroadcastCycle D prov) (\<lambda>b.
     bindS (runConfirmationCycle D prov) (\<lambda>(p, c, f).
     returnS \<lparr>cyc_broadcast = b, cyc_promoted = p, cyc_completed = c, cyc_failed = f\<rparr>))"

text \<open>One \<open>tick\<close> of \<open>startWithdrawalWorker\<close>: an error is logged, the next tick is scheduled.\<close>

definition withdrawal_tick :: "rounding \<Rightarrow> signer \<Rightarrow> (db, unit) svc" where
  "withdrawal_tick D prov =
     catchS (bindS (runWithdrawalCycle D prov) (\<lambda>_. returnS ())) (\<lambda>e. returnS ())"

section \<open>Listings\<close>

definition listUserWithdrawals ::
  "withdrawal_config \<Rightarrow> nat \<Rightarrow> withdrawal_status option \<Rightarrow> nat option \<Rightarrow> nat \<Rightarrow>
    (db, crypto_withdrawal_dto list \<times> nat option) svc" where
  "listUserWithdrawals cfg userId status cursor limit = readS (\<lambda>s.
     let rows = find_page w_id (filter (\<lambda>r. w_user r = userId \<and>
           (status = None \<or> status = Some (w_status r))) (crypto_withdrawals s)) cursor limit;
         (slice, nextCursor) = page_last w_id rows limit
     in (map (toCryptoWithdrawalDto cfg) slice, nextCursor))"

record withdrawal_query =
  wq_status :: "withdrawal_status option"
  wq_asset :: "string option"
  wq_user :: "nat option"
  wq_email :: "string option"
  wq_from :: "nat option"
  wq_to :: "nat option"
  wq_cursor :: "nat option"
  wq_limit :: nat

definition in_queue :: "withdrawal_query \<Rightarrow> db \<Rightarrow> crypto_withdrawal \<Rightarrow> bool" where
  "in_queue q s r \<longleftrightarrow>
     (case wq_status q of None \<Rightarrow> w_status r \<in> set ACTIVE_QUEUE_STATUSES | Some st \<Rightarrow> w_status r = st) \<and>
     (case wq_from q of None \<Rightarrow> True | Some t \<Rightarrow> t \<le> requested_at r) \<and>
     (case wq_to q of None \<Rightarrow> True | Some t \<Rightarrow> requested_at r \<le> t) \<and>
     (case wq_asset q of None \<Rightarrow> True | Some a \<Rightarrow> a = [] \<or> w_asset r = a) \<and>
     (case wq_user q of None \<Rightarrow> True | Some u \<Rightarrow> w_user r = u) \<and>
     (case wq_email q of None \<Rightarrow> True | Some e \<Rightarrow> e = [] \<or>
        (case findUserKyc_w (w_user r) s of None \<Rightarrow> False | Some u \<Rightarrow> contains_ci e (user_email u)))"

definition adminListQueue_rows :: "withdrawal_query \<Rightarrow> db \<Rightarrow> crypto_withdrawal list" where
  "adminListQueue_rows q s =
     find_page w_id (filter (in_queue q s) (crypto_withdrawals s)) (wq_cursor q) (wq_limit q)"

definition adminListQueue ::
  "withdrawal_config \<Rightarrow> withdrawal_query \<Rightarrow> nat option \<Rightarrow>
    (db, admin_withdrawal_dto list \<times> nat option) svc" where
  "adminListQueue cfg q actorId =
     bindS (readS (adminListQueue_rows q)) (\<lambda>rows.
     let (slice, nextCursor) = page_last w_id rows (wq_limit q)
     in bindS (auditAdmin_w actorId ''crypto.withdrawal.admin_queue_view''
          (Some ''crypto_withdrawal_queue'') None) (\<lambda>_.
        readS (\<lambda>s. (map (\<lambda>r. toAdminCryptoWithdrawalDto cfg r (findUserKyc_w (w_user r) s)) slice,
          nextCursor))))"

text \<open>\<open>withdrawalStats\<close> and \<open>countByStatus\<close>; PostgreSQL leaves the order of the groups open.\<close>

record withdrawal_stats =
  pendingTotal :: rat
  completedTotal :: rat
  failedRejectedCount :: nat
  pendingByAsset :: "(string \<times> rat) list"

definition withdrawalStats :: "db \<Rightarrow> withdrawal_stats" where
  "withdrawalStats s =
     (let active = filter (\<lambda>r. w_status r \<in> set ACTIVE_QUEUE_STATUSES) (crypto_withdrawals s);
          total = (\<lambda>rs. sum_list (map w_amount rs))
      in \<lparr>pendingTotal = total active,
          completedTotal = total (filter (\<lambda>r. w_status r = COMPLETED) (crypto_withdrawals s)),
          failedRejectedCount =
            length (filter (\<lambda>r. w_status r \<in> {FAILED, W_REJECTED}) (crypto_withdrawals s)),
          pendingByAsset = map (\<lambda>a. (a, total (filter (\<lambda>r. w_asset r = a) active)))
            (remdups (map w_asset active))\<rparr>)"

definition countByStatus :: "string \<Rightarrow> db \<Rightarrow> (withdrawal_status \<times> nat) list" where
  "countByStatus chain s =
     (let rs = filter (\<lambda>r. w_chain r = chain) (crypto_withdrawals s)
      in map (\<lambda>st. (st, length (filter (\<lambda>r. w_status r = st) rs))) (remdups (map w_status rs)))"

section \<open>Evaluation\<close>

lemmas withdrawal_code [code] =
  fun_cong [OF insertAddress_def, unfolded run_code]
  fun_cong [OF createWithdrawal_def, unfolded run_code]
  fun_cong [OF update_w_def, unfolded run_code]
  fun_cong [OF updateMany_w_def, unfolded run_code]
  fun_cong [OF setHold_def, unfolded run_code]
  fun_cong [OF markRequestFailed_def, unfolded run_code]
  fun_cong [OF firstApprove_def, unfolded run_code]
  fun_cong [OF approveSmall_def, unfolded run_code]
  fun_cong [OF secondApprove_def, unfolded run_code]
  fun_cong [OF reject_row_def, unfolded run_code]
  fun_cong [OF claimForBroadcast_def, unfolded run_code]
  fun_cong [OF setBroadcast_def, unfolded run_code]
  fun_cong [OF setConfirming_def, unfolded run_code]
  fun_cong [OF markCompleted_def, unfolded run_code]
  fun_cong [OF markFailed_def, unfolded run_code]
  fun_cong [OF allocateNonce_def, unfolded run_code]
  fun_cong [OF mock_broadcast_def, unfolded run_code]
  fun_cong [OF placeHold_def, unfolded run_code]
  fun_cong [OF releaseHold_def, unfolded run_code]
  fun_cong [OF finalizeLedger_def, unfolded run_code]
  fun_cong [OF auditAdmin_w_def, unfolded run_code]
  fun_cong [OF addAddress_def, unfolded run_code]
  fun_cong [OF request_guards_def, unfolded run_code]
  fun_cong [OF limit_guard_def, unfolded run_code]
  fun_cong [OF request_create_def, unfolded run_code]
  fun_cong [OF request_hold_def, unfolded run_code]
  fun_cong [OF requestWithdrawal_def, unfolded run_code]
  fun_cong [OF getWithdrawal_def, unfolded run_code]
  fun_cong [OF final_row_def, unfolded run_code]
  fun_cong [OF approve_second_def, unfolded run_code]
  fun_cong [OF approve_first_def, unfolded run_code]
  fun_cong [OF approve_w_def, unfolded run_code]
  fun_cong [OF reject_w_def, unfolded run_code]
  fun_cong [OF failWithdrawal_def, unfolded run_code]
  fun_cong [OF broadcast_body_def, unfolded run_code]
  fun_cong [OF broadcastWithdrawal_def, unfolded run_code]
  fun_cong [OF finalizeWithdrawal_def, unfolded run_code]
  fun_cong [OF runBroadcastCycle_def, unfolded run_code]
  fun_cong [OF confirm_one_def, unfolded run_code]
  fun_cong [OF runConfirmationCycle_def, unfolded run_code]
  fun_cong [OF runWithdrawalCycle_def, unfolded run_code]
  fun_cong [OF withdrawal_tick_def, unfolded run_code]

lemma broadcast_all_code [code]:
  "broadcast_all D prov ws n s = (case ws of
     [] \<Rightarrow> (Inr n, s)
   | w # vs \<Rightarrow> (case broadcastWithdrawal D prov w s of
       (Inl e, t) \<Rightarrow> (Inl e, t)
     | (Inr b, t) \<Rightarrow> broadcast_all D prov vs (if b then n + 1 else n) t))"
  by (cases ws) (simp_all add: svc_simps split: prod.split sum.split)

lemma confirm_all_code [code]:
  "confirm_all D prov minConf ws c s = (case ws of
     [] \<Rightarrow> (Inr c, s)
   | w # vs \<Rightarrow> (case confirm_one D prov minConf w s of
       (Inl e, t) \<Rightarrow> (Inl e, t)
     | (Inr e, t) \<Rightarrow> confirm_all D prov minConf vs (count_event e c) t))"
  by (cases ws) (simp_all add: svc_simps split: prod.split sum.split)

end
