(* ===== verification/Withdrawal_Laws.thy ===== *)
theory Withdrawal_Laws
  imports Withdrawal
begin

text \<open>
  What the withdrawal tables promise and why every operation keeps it, in whatever order the
  calls of users, admins and workers come; the interface of a signer with its interpretation on
  the mock; and what the ledger movements of a withdrawal do.
\<close>

section \<open>The table of withdrawals\<close>

interpretation withdrawals: table w_id crypto_withdrawals put_withdrawals withdrawal_checks
  "''crypto_withdrawals''"
  by unfold_locales (simp_all add: put_withdrawals_def ledger_tables_def)

lemma findById_w_row: "findById_w i s = withdrawals.find_row i s"
  by (simp add: findById_w_def)

definition held_statuses :: "withdrawal_status set" where
  "held_statuses = {PENDING_APPROVAL, APPROVED, SIGNING, BROADCAST, CONFIRMING, COMPLETED}"

definition approved_statuses :: "withdrawal_status set" where
  "approved_statuses = {APPROVED, SIGNING, BROADCAST, CONFIRMING, COMPLETED}"

definition sent_statuses :: "withdrawal_status set" where
  "sent_statuses = {BROADCAST, CONFIRMING, COMPLETED}"

lemmas status_sets = held_statuses_def approved_statuses_def sent_statuses_def

text \<open>
  A row is well-formed: its constraints hold, it is held from PENDING_APPROVAL on, approved from
  APPROVED on and then by two different admins when it is large, it has a transaction and a
  nonce once it is sent, and the ledger transaction that closed it once it is completed.
\<close>

definition w_ok :: "withdrawal_config \<Rightarrow> crypto_withdrawal \<Rightarrow> bool" where
  "w_ok cfg r \<longleftrightarrow> withdrawal_checks r \<and>
     (w_status r \<in> held_statuses \<longrightarrow> hold_txn r \<noteq> None) \<and>
     (w_status r \<in> approved_statuses \<longrightarrow> approved_by r \<noteq> None \<and>
        (dual_threshold cfg \<le> w_amount r \<longrightarrow> approved_by2 r \<noteq> None)) \<and>
     (w_status r \<in> sent_statuses \<longrightarrow>
        tx_hash r \<noteq> None \<and> w_nonce r \<noteq> None \<and> from_address r \<noteq> None) \<and>
     (w_status r = COMPLETED \<longrightarrow> final_txn r \<noteq> None \<and> completed_at r \<noteq> None)"

definition same_nonce :: "crypto_withdrawal \<Rightarrow> crypto_withdrawal \<Rightarrow> bool" where
  "same_nonce r r' \<longleftrightarrow> w_chain r = w_chain r' \<and> from_address r \<noteq> None \<and>
     from_address r = from_address r' \<and> w_nonce r \<noteq> None \<and> w_nonce r = w_nonce r'"

definition withdrawals_inv :: "withdrawal_config \<Rightarrow> db \<Rightarrow> bool" where
  "withdrawals_inv cfg s \<longleftrightarrow>
     distinct (map w_id (crypto_withdrawals s)) \<and>
     (\<forall>r \<in> set (crypto_withdrawals s). w_id r < next_uuid s \<and> w_ok cfg r) \<and>
     (\<forall>r \<in> set (crypto_withdrawals s). \<forall>r' \<in> set (crypto_withdrawals s).
        same_nonce r r' \<longrightarrow> w_id r = w_id r')"

abbreviation withdrawal_state :: "withdrawal_config \<Rightarrow> db \<Rightarrow> bool" where
  "withdrawal_state cfg \<equiv> with_ledger (withdrawals_inv cfg)"

lemma withdrawals_invD:
  assumes "withdrawals_inv cfg s"
  shows "distinct (map w_id (crypto_withdrawals s))"
    and "r \<in> set (crypto_withdrawals s) \<Longrightarrow> w_id r < next_uuid s \<and> w_ok cfg r"
    and "r \<in> set (crypto_withdrawals s) \<Longrightarrow> r' \<in> set (crypto_withdrawals s) \<Longrightarrow> same_nonce r r' \<Longrightarrow>
      w_id r = w_id r'"
  using assms unfolding withdrawals_inv_def by blast+

lemma withdrawals_inv_cong:
  "withdrawals_inv cfg s \<Longrightarrow> crypto_withdrawals t = crypto_withdrawals s \<Longrightarrow>
     next_uuid s \<le> next_uuid t \<Longrightarrow> withdrawals_inv cfg t"
  by (fastforce simp: withdrawals_inv_def)

lemma withdrawals_inv_frame: "ledger_frame (withdrawals_inv cfg)"
  unfolding ledger_frame_def using withdrawals_inv_cong only_ledger_simps(6) by blast

lemma withdrawal_state_write:
  assumes "withdrawal_state cfg s" and "ledger_tables t = ledger_tables s"
    and "crypto_withdrawals t = crypto_withdrawals s" and "next_uuid s \<le> next_uuid t"
  shows "withdrawal_state cfg t"
  using assms withdrawals_inv_cong [of cfg s t] by (auto intro: with_ledger_write dest: with_ledgerD)

text \<open>Updating one row: it must stay well-formed and keep its identity and its nonce.\<close>

lemma withdrawals_inv_update:
  assumes inv: "withdrawals_inv cfg s"
    and ids: "\<And>x. w_id (upd x) = w_id x"
    and ok: "\<And>x. x \<in> set (crypto_withdrawals s) \<Longrightarrow> w_id x = i \<Longrightarrow> c x \<Longrightarrow> w_ok cfg (upd x)"
    and nonce: "\<And>x y. x \<in> set (crypto_withdrawals s) \<Longrightarrow> y \<in> set (crypto_withdrawals s) \<Longrightarrow>
      w_id x = i \<Longrightarrow> c x \<Longrightarrow> w_id y \<noteq> i \<Longrightarrow> \<not> same_nonce (upd x) y \<and> \<not> same_nonce y (upd x)"
  shows "withdrawals_inv cfg
    (put_withdrawals (map (\<lambda>x. if w_id x = i \<and> c x then upd x else x) (crypto_withdrawals s)) s)"
proof -
  let ?f = "\<lambda>x. if w_id x = i \<and> c x then upd x else x"
  let ?ys = "map ?f (crypto_withdrawals s)"
  have id: "w_id (?f x) = w_id x" for x by (simp add: ids)
  have keys: "map w_id ?ys = map w_id (crypto_withdrawals s)"
    unfolding map_map by (rule map_cong [OF refl]) (simp add: id)
  have "distinct (map w_id ?ys)" unfolding keys by (rule withdrawals_invD(1) [OF inv])
  moreover have "w_id y < next_uuid s \<and> w_ok cfg y" if y: "y \<in> set ?ys" for y
  proof -
    obtain x where x: "x \<in> set (crypto_withdrawals s)" "y = ?f x" using y by auto
    then show ?thesis using withdrawals_invD(2) [OF inv x(1)] ok [OF x(1)] id [of x]
      by (auto split: if_splits)
  qed
  moreover have "w_id y = w_id y'" if "y \<in> set ?ys" "y' \<in> set ?ys" "same_nonce y y'" for y y'
  proof -
    obtain x x' where x: "x \<in> set (crypto_withdrawals s)" "y = ?f x"
      "x' \<in> set (crypto_withdrawals s)" "y' = ?f x'" using \<open>y \<in> set ?ys\<close> \<open>y' \<in> set ?ys\<close> by auto
    show ?thesis
    proof (rule ccontr)
      assume "w_id y \<noteq> w_id y'"
      then have ne: "w_id x \<noteq> w_id x'" using x id by simp
      have "\<not> same_nonce x x'" using withdrawals_invD(3) [OF inv x(1,3)] ne by blast
      consider "w_id x = i \<and> c x" | "w_id x' = i \<and> c x'" | "\<not> (w_id x = i \<and> c x)" "\<not> (w_id x' = i \<and> c x')"
        by blast
      then show False
      proof cases
        case 1
        then have "y = upd x" "y' = x'" "w_id x' \<noteq> i" using x(2,4) ne by auto
        then show False using nonce [OF x(1,3)] 1 that(3) by blast
      next
        case 2
        then have "y' = upd x'" "y = x" "w_id x \<noteq> i" using x(2,4) ne by auto
        then show False using nonce [OF x(3,1)] 2 that(3) by blast
      next
        case 3
        then have "y = x" "y' = x'" unfolding x(2,4) by (simp_all only: if_False)
        then show False using \<open>\<not> same_nonce x x'\<close> that(3) by blast
      qed
    qed
  qed
  ultimately show ?thesis
    unfolding withdrawals_inv_def withdrawals.rows_put withdrawals.put_uuid by blast
qed

lemma same_nonce_fields:
  "w_chain x = w_chain x' \<Longrightarrow> from_address x = from_address x' \<Longrightarrow> w_nonce x = w_nonce x' \<Longrightarrow>
     same_nonce x y = same_nonce x' y \<and> same_nonce y x = same_nonce y x'"
  by (simp add: same_nonce_def)

text \<open>The updates that leave the nonce alone.\<close>

definition keeps_nonce :: "(crypto_withdrawal \<Rightarrow> crypto_withdrawal) \<Rightarrow> bool" where
  "keeps_nonce upd \<longleftrightarrow> (\<forall>x. w_id (upd x) = w_id x \<and> w_chain (upd x) = w_chain x \<and>
     from_address (upd x) = from_address x \<and> w_nonce (upd x) = w_nonce x)"

lemma withdrawals_inv_keep:
  assumes inv: "withdrawals_inv cfg s" and keep: "keeps_nonce upd"
    and ok: "\<And>x. x \<in> set (crypto_withdrawals s) \<Longrightarrow> w_id x = i \<Longrightarrow> c x \<Longrightarrow> w_ok cfg x \<Longrightarrow>
      w_ok cfg (upd x)"
  shows "withdrawals_inv cfg
    (put_withdrawals (map (\<lambda>x. if w_id x = i \<and> c x then upd x else x) (crypto_withdrawals s)) s)"
proof (rule withdrawals_inv_update [OF inv])
  show "w_id (upd x) = w_id x" for x using keep by (simp add: keeps_nonce_def)
  show "w_ok cfg (upd x)" if "x \<in> set (crypto_withdrawals s)" "w_id x = i" "c x" for x
    using ok [OF that] withdrawals_invD(2) [OF inv that(1)] by blast
next
  fix x y
  assume x: "x \<in> set (crypto_withdrawals s)" "y \<in> set (crypto_withdrawals s)" "w_id x = i" "w_id y \<noteq> i"
  have "same_nonce (upd x) y = same_nonce x y" "same_nonce y (upd x) = same_nonce y x"
    using same_nonce_fields [of "upd x" x y] keep by (auto simp: keeps_nonce_def)
  moreover have "\<not> same_nonce x y" "\<not> same_nonce y x"
    using withdrawals_invD(3) [OF inv x(1,2)] withdrawals_invD(3) [OF inv x(2,1)] x(3,4) by auto
  ultimately show "\<not> same_nonce (upd x) y \<and> \<not> same_nonce y (upd x)" by blast
qed

section \<open>Updating a withdrawal\<close>

lemma withdrawal_state_put:
  "withdrawal_state cfg s \<Longrightarrow> withdrawals_inv cfg (put_withdrawals rs s) \<Longrightarrow>
     withdrawal_state cfg (put_withdrawals rs s)"
  by (erule with_ledger_write) simp_all

lemma touched [simp]:
  "w_ok cfg (x\<lparr>w_updated := t\<rparr>) = w_ok cfg x" "withdrawal_checks (x\<lparr>w_updated := t\<rparr>) = withdrawal_checks x"
  by (simp_all add: w_ok_def withdrawal_checks_def)

text \<open>The columns the CHECK constraints do not look at.\<close>

lemma checks_simps [simp]:
  "withdrawal_checks (x\<lparr>w_status := st\<rparr>) = withdrawal_checks x"
  "withdrawal_checks (x\<lparr>hold_txn := a\<rparr>) = withdrawal_checks x"
  "withdrawal_checks (x\<lparr>final_txn := a\<rparr>) = withdrawal_checks x"
  "withdrawal_checks (x\<lparr>completed_at := a\<rparr>) = withdrawal_checks x"
  "withdrawal_checks (x\<lparr>broadcast_at := a\<rparr>) = withdrawal_checks x"
  "withdrawal_checks (x\<lparr>failure_reason := f\<rparr>) = withdrawal_checks x"
  "withdrawal_checks (x\<lparr>tx_hash := f\<rparr>) = withdrawal_checks x"
  "withdrawal_checks (x\<lparr>from_address := f\<rparr>) = withdrawal_checks x"
  "withdrawal_checks (x\<lparr>hot_wallet_id := a\<rparr>) = withdrawal_checks x"
  "withdrawal_checks (x\<lparr>w_nonce := a\<rparr>) = withdrawal_checks x"
  by (simp_all add: withdrawal_checks_def)

lemma keeps_nonce_touch [simp]: "keeps_nonce (\<lambda>x. upd x\<lparr>w_updated := t\<rparr>) = keeps_nonce upd"
  by (simp add: keeps_nonce_def)

lemma updateMany_w_spec:
  assumes "updateMany_w i c upd s = (r, t)" and "withdrawals_inv cfg s"
  shows "(r = Inl (DbCheckError ''crypto_withdrawals'') \<and> t = s) \<or>
    (r = Inr 0 \<and> t = s \<and> (\<forall>x. findById_w i s = Some x \<longrightarrow> \<not> c x)) \<or>
    (\<exists>x. findById_w i s = Some x \<and> c x \<and> withdrawal_checks (upd x) \<and> r = Inr 1 \<and>
       t = put_withdrawals (map (\<lambda>x. if w_id x = i \<and> c x then upd x\<lparr>w_updated := now s\<rparr> else x)
         (crypto_withdrawals s)) s)"
  using withdrawals.update_many_spec [OF _ withdrawals_invD(1) [OF assms(2)],
      of i c "\<lambda>r. upd r\<lparr>w_updated := now s\<rparr>" r t] assms(1)
  by (simp add: updateMany_w_def svc_simps findById_w_def)

lemma update_w_spec:
  assumes "update_w i upd s = (r, t)"
  shows "(\<exists>e. r = Inl e \<and> t = s) \<or>
    (\<exists>x. findById_w i s = Some x \<and> withdrawal_checks (upd x) \<and> r = Inr (upd x\<lparr>w_updated := now s\<rparr>) \<and>
       t = put_withdrawals (map (\<lambda>x. if w_id x = i then upd x\<lparr>w_updated := now s\<rparr> else x)
         (crypto_withdrawals s)) s)"
  using withdrawals.update_one_spec [of i "\<lambda>r. upd r\<lparr>w_updated := now s\<rparr>" s r t] assms
  by (auto simp: update_w_def svc_simps findById_w_def)

lemma found_row:
  "withdrawals_inv cfg s \<Longrightarrow> findById_w i s = Some x \<Longrightarrow>
     x \<in> set (crypto_withdrawals s) \<and> w_id x = i \<and> w_ok cfg x"
  by (auto simp: findById_w_def dest: find_SomeD withdrawals_invD(2))

lemma row_found:
  assumes "withdrawals_inv cfg s" and "x \<in> set (crypto_withdrawals s)"
  shows "findById_w (w_id x) s = Some x"
  using withdrawals_invD(1) [OF assms(1)] assms(2) unfolding findById_w_def
  by (intro find_unique) (auto simp: distinct_map inj_on_def)

lemma updateMany_state:
  assumes "updateMany_w i c upd s = (r, t)" and inv: "withdrawal_state cfg s" and keep: "keeps_nonce upd"
    and ok: "\<And>x. findById_w i s = Some x \<Longrightarrow> c x \<Longrightarrow> withdrawal_checks (upd x) \<Longrightarrow> w_ok cfg x \<Longrightarrow>
      w_ok cfg (upd x)"
  shows "withdrawal_state cfg t"
proof -
  note winv = with_ledgerD(2) [OF inv]
  from updateMany_w_spec [OF assms(1) winv] show ?thesis
  proof (elim disjE exE conjE)
    fix x assume x: "findById_w i s = Some x" "c x" "withdrawal_checks (upd x)"
      and t: "t = put_withdrawals (map (\<lambda>x. if w_id x = i \<and> c x then upd x\<lparr>w_updated := now s\<rparr> else x)
        (crypto_withdrawals s)) s"
    have "w_ok cfg (upd y\<lparr>w_updated := now s\<rparr>)"
      if "y \<in> set (crypto_withdrawals s)" "w_id y = i" "w_ok cfg y" for y
    proof -
      have "y = x" using row_found [OF winv that(1)] that(2) x(1) by simp
      then show ?thesis using ok [OF x] that(3) by simp
    qed
    then show ?thesis unfolding t
      by (intro withdrawal_state_put [OF inv] withdrawals_inv_keep [OF winv]) (simp_all add: keep)
  qed (use inv in simp_all)
qed

lemma update_state:
  assumes "update_w i upd s = (r, t)" and inv: "withdrawal_state cfg s" and keep: "keeps_nonce upd"
    and ok: "\<And>x. findById_w i s = Some x \<Longrightarrow> withdrawal_checks (upd x) \<Longrightarrow> w_ok cfg x \<Longrightarrow>
      w_ok cfg (upd x)"
  shows "withdrawal_state cfg t"
proof -
  note winv = with_ledgerD(2) [OF inv]
  from update_w_spec [OF assms(1)] show ?thesis
  proof (elim disjE exE conjE)
    fix x assume x: "findById_w i s = Some x" "withdrawal_checks (upd x)"
      and t: "t = put_withdrawals (map (\<lambda>x. if w_id x = i then upd x\<lparr>w_updated := now s\<rparr> else x)
        (crypto_withdrawals s)) s"
    have "w_ok cfg (upd y\<lparr>w_updated := now s\<rparr>)"
      if "y \<in> set (crypto_withdrawals s)" "w_id y = i" "w_ok cfg y" for y
    proof -
      have "y = x" using row_found [OF winv that(1)] that(2) x(1) by simp
      then show ?thesis using ok [OF x] that(3) by simp
    qed
    then have "withdrawals_inv cfg (put_withdrawals (map (\<lambda>x. if w_id x = i \<and> True
        then upd x\<lparr>w_updated := now s\<rparr> else x) (crypto_withdrawals s)) s)"
      by (intro withdrawals_inv_keep [OF winv]) (simp_all add: keep)
    then show ?thesis unfolding t by (intro withdrawal_state_put [OF inv]) simp
  qed (use inv in simp_all)
qed

lemma preserves_updateMany [preserves_intros]:
  assumes "keeps_nonce upd"
    and "\<And>x. c x \<Longrightarrow> withdrawal_checks (upd x) \<Longrightarrow> w_ok cfg x \<Longrightarrow> w_ok cfg (upd x)"
  shows "preserves (withdrawal_state cfg) (updateMany_w i c upd)"
  by (rule preservesI, rule updateMany_state [OF surjective_pairing _ assms]) auto

lemma preserves_update [preserves_intros]:
  assumes "keeps_nonce upd"
    and "\<And>x. withdrawal_checks (upd x) \<Longrightarrow> w_ok cfg x \<Longrightarrow> w_ok cfg (upd x)"
  shows "preserves (withdrawal_state cfg) (update_w i upd)"
  by (rule preservesI, rule update_state [OF surjective_pairing _ assms]) auto

lemma keeps_nonceI [preserves_intros]:
  "(\<And>x. w_id (upd x) = w_id x) \<Longrightarrow> (\<And>x. w_chain (upd x) = w_chain x) \<Longrightarrow>
     (\<And>x. from_address (upd x) = from_address x) \<Longrightarrow> (\<And>x. w_nonce (upd x) = w_nonce x) \<Longrightarrow>
     keeps_nonce upd"
  by (simp add: keeps_nonce_def)

section \<open>The statements of the repository\<close>

lemma w_ok_plain: "w_status x \<notin> held_statuses \<Longrightarrow> withdrawal_checks x \<Longrightarrow> w_ok cfg x"
  by (auto simp: w_ok_def status_sets)

lemma state_setHold [preserves_intros]: "preserves (withdrawal_state cfg) (setHold i txn)"
  unfolding setHold_def
  by (intro preserves_intros) (simp_all add: w_ok_def status_sets)

lemma state_markRequestFailed [preserves_intros]:
  "preserves (withdrawal_state cfg) (markRequestFailed i reason)"
  unfolding markRequestFailed_def
  by (intro preserves_intros w_ok_plain) (simp_all add: held_statuses_def)

lemma state_firstApprove [preserves_intros]: "preserves (withdrawal_state cfg) (firstApprove i a)"
  unfolding firstApprove_def
  by (intro preserves_intros) (auto simp: w_ok_def status_sets)

lemma state_approveSmall:
  assumes "approveSmall i a s = (r, t)" and "withdrawal_state cfg s"
    and "\<And>x. findById_w i s = Some x \<Longrightarrow> w_amount x < dual_threshold cfg"
  shows "withdrawal_state cfg t"
  by (rule updateMany_state [OF assms(1) [unfolded approveSmall_def] assms(2)])
    (use assms(3) in \<open>force simp: keeps_nonce_def w_ok_def status_sets\<close>)+

lemma state_secondApprove [preserves_intros]:
  "preserves (withdrawal_state cfg) (secondApprove i a b)"
  unfolding secondApprove_def
  by (intro preserves_intros) (auto simp: w_ok_def status_sets)

lemma state_reject_row [preserves_intros]: "preserves (withdrawal_state cfg) (reject_row i a reason)"
  unfolding reject_row_def
  by (intro preserves_intros w_ok_plain) (simp_all add: held_statuses_def)

lemma state_claim [preserves_intros]: "preserves (withdrawal_state cfg) (claimForBroadcast i)"
  unfolding claimForBroadcast_def
  by (intro preserves_intros) (auto simp: w_ok_def status_sets)

lemma state_setConfirming [preserves_intros]: "preserves (withdrawal_state cfg) (setConfirming i)"
  unfolding setConfirming_def
  by (intro preserves_intros) (auto simp: w_ok_def status_sets)

lemma w_ok_completed:
  assumes "w_ok cfg x" and "w_status x \<in> {BROADCAST, CONFIRMING}"
  shows "w_ok cfg (x\<lparr>w_status := COMPLETED, final_txn := Some a, completed_at := Some t\<rparr>)"
proof -
  have "w_status x = BROADCAST \<or> w_status x = CONFIRMING" using assms(2) by simp
  then show ?thesis
    by (rule disjE) (use assms(1) in \<open>simp_all add: w_ok_def status_sets\<close>)
qed

lemma state_markCompleted [preserves_intros]:
  "preserves (withdrawal_state cfg) (markCompleted i txn)"
  unfolding markCompleted_def
  by (intro preserves_bind preserves_read preserves_updateMany w_ok_completed) (simp_all add: keeps_nonce_def)

lemma state_markFailed [preserves_intros]: "preserves (withdrawal_state cfg) (markFailed i reason)"
  unfolding markFailed_def
  by (intro preserves_intros w_ok_plain) (simp_all add: held_statuses_def)

lemma state_createWithdrawal [preserves_intros]:
  "preserves (withdrawal_state cfg) (createWithdrawal u ch a to x fee netAmt flags)"
proof (rule preservesI)
  fix s assume s: "withdrawal_state cfg s"
  let ?run = "createWithdrawal u ch a to x fee netAmt flags s"
  let ?r = "\<lparr>w_id = next_uuid s, w_user = u, w_chain = ch, w_asset = a, to_address = to,
    from_address = None, hot_wallet_id = None, w_amount = x, w_fee = fee, net_amount = netAmt,
    w_status = REQUESTED, hold_txn = None, final_txn = None, tx_hash = None, w_nonce = None,
    approved_by = None, approved_by2 = None, risk_flags = Some flags, failure_reason = None,
    requested_at = now s, broadcast_at = None, completed_at = None, w_updated = now s\<rparr>"
  note winv = with_ledgerD(2) [OF s]
  have ledger: "ledger_tables (snd ?run) = ledger_tables s" "next_uuid s \<le> next_uuid (snd ?run)"
    by (simp_all add: createWithdrawal_def svc_simps fresh_uuid_def Let_def ledger_tables_def)
  have "withdrawals_inv cfg (snd ?run)"
  proof (cases "withdrawal_checks ?r")
    case True
    then have run: "crypto_withdrawals (snd ?run) = crypto_withdrawals s @ [?r]"
      "next_uuid (snd ?run) = Suc (next_uuid s)"
      by (simp_all add: createWithdrawal_def svc_simps fresh_uuid_def Let_def)
    have fresh: "next_uuid s \<notin> w_id ` set (crypto_withdrawals s)"
      using withdrawals_invD(2) [OF winv] by fastforce
    have ok: "w_ok cfg ?r" using True by (simp add: w_ok_def status_sets)
    have alone: "\<not> same_nonce ?r y" "\<not> same_nonce y ?r" for y by (auto simp: same_nonce_def)
    show ?thesis unfolding withdrawals_inv_def run
    proof (intro conjI ballI impI)
      show "distinct (map w_id (crypto_withdrawals s @ [?r]))"
        using withdrawals_invD(1) [OF winv] fresh by simp
    next
      fix y assume "y \<in> set (crypto_withdrawals s @ [?r])"
      then show "w_id y < Suc (next_uuid s)" "w_ok cfg y"
        using withdrawals_invD(2) [OF winv, of y] ok by auto
    next
      fix y y' assume "y \<in> set (crypto_withdrawals s @ [?r])" "y' \<in> set (crypto_withdrawals s @ [?r])"
        "same_nonce y y'"
      then show "w_id y = w_id y'" using withdrawals_invD(3) [OF winv, of y y'] alone by auto
    qed
  next
    case False
    then have "crypto_withdrawals (snd ?run) = crypto_withdrawals s"
      by (simp add: createWithdrawal_def svc_simps fresh_uuid_def Let_def)
    then show ?thesis using withdrawals_inv_cong [OF winv] ledger by blast
  qed
  then show "withdrawal_state cfg (snd ?run)" by (rule with_ledger_write [OF s ledger])
qed

text \<open>Calls that do not touch the withdrawals nor the ledger.\<close>

lemma state_other_writes [preserves_intros]:
  "preserves (withdrawal_state cfg) (recordAudit aty a act ety e)"
  "preserves (withdrawal_state cfg) (writeAdminLog adm act ety e)"
  "preserves (withdrawal_state cfg) (notify u ty)"
  unfolding recordAudit_def writeAdminLog_def notify_def
  by (rule preserves_write, erule withdrawal_state_write, simp_all add: ledger_tables_def)+

lemma state_uuid [preserves_intros]: "preserves (withdrawal_state cfg) fresh_uuid"
  unfolding fresh_uuid_def
  by (rule preservesI, simp, erule withdrawal_state_write) (simp_all add: ledger_tables_def)

lemma state_insertAddress [preserves_intros]:
  "preserves (withdrawal_state cfg) (insertAddress u ch ad l t)"
  unfolding insertAddress_def Let_def
  by (intro preserves_intros preserves_write, erule withdrawal_state_write)
    (simp_all add: ledger_tables_def)

lemma state_nonces [preserves_intros]:
  "preserves (withdrawal_state cfg) (nonce_increment hw)"
  "preserves (withdrawal_state cfg) (nonce_create hw)"
  unfolding nonce_increment_def nonce_create_def
  by (rule preservesI, auto split: option.split, erule withdrawal_state_write,
      simp_all add: ledger_tables_def)+

lemma state_allocateNonce [preserves_intros]: "preserves (withdrawal_state cfg) (allocateNonce hw)"
  unfolding allocateNonce_def by (intro preserves_intros)

lemma state_post [preserves_intros]:
  "preserves (withdrawal_state cfg) (retry_post (post D inp c))"
  by (rule preserves_retry_post [OF withdrawals_inv_frame])

lemma state_movements [preserves_intros]:
  "preserves (withdrawal_state cfg) (placeHold D w)"
  "preserves (withdrawal_state cfg) (releaseHold D w)"
  "preserves (withdrawal_state cfg) (finalizeLedger D w)"
  unfolding placeHold_def releaseHold_def finalizeLedger_def by (rule state_post)+

section \<open>Claiming and broadcasting\<close>

definition signing :: "nat \<Rightarrow> db \<Rightarrow> bool" where
  "signing i s \<longleftrightarrow> (\<exists>x. findById_w i s = Some x \<and> w_status x = SIGNING)"

lemma signing_cong: "crypto_withdrawals t = crypto_withdrawals s \<Longrightarrow> signing i t = signing i s"
  by (simp add: signing_def findById_w_def)

lemma found_updated:
  assumes "findById_w i s = Some x" and "\<And>x. w_id (upd x) = w_id x"
    and "crypto_withdrawals t = map (\<lambda>x. if w_id x = i \<and> c x then upd x else x) (crypto_withdrawals s)"
  shows "findById_w j t =
    map_option (\<lambda>x. if w_id x = i \<and> c x then upd x else x) (findById_w j s)"
  unfolding findById_w_def assms(3) by (rule find_key_map) (rule assms(2))

lemma claim_signs:
  assumes "claimForBroadcast i s = (Inr n, t)" and inv: "withdrawal_state cfg s" and "n \<noteq> 0"
  shows "signing i t"
proof -
  from updateMany_w_spec [OF assms(1) [unfolded claimForBroadcast_def] with_ledgerD(2) [OF inv]] assms(3)
  obtain x where x: "findById_w i s = Some x" "w_status x = APPROVED"
    and t: "t = put_withdrawals (map (\<lambda>x. if w_id x = i \<and> w_status x = APPROVED
      then x\<lparr>w_status := SIGNING\<rparr>\<lparr>w_updated := now s\<rparr> else x) (crypto_withdrawals s)) s"
    by auto
  have "w_id x = i" using x(1) by (auto simp: findById_w_def dest: find_SomeD)
  moreover have "findById_w i t = map_option (\<lambda>x. if w_id x = i \<and> w_status x = APPROVED
      then x\<lparr>w_status := SIGNING\<rparr>\<lparr>w_updated := now s\<rparr> else x) (findById_w i s)"
    by (rule found_updated [OF x(1)]) (simp_all add: t)
  ultimately show ?thesis using x by (simp add: signing_def)
qed

lemma state_setBroadcast:
  assumes run: "setBroadcast i hw from nonce hash s = (r, t)" and inv: "withdrawal_state cfg s"
    and sg: "signing i s"
  shows "withdrawal_state cfg t"
proof -
  note winv = with_ledgerD(2) [OF inv]
  obtain x where x: "findById_w i s = Some x" "w_status x = SIGNING"
    using sg by (auto simp: signing_def)
  note row = found_row [OF winv x(1)]
  show ?thesis
  proof (cases "nonce_taken i from nonce s")
    case True
    then show ?thesis using run inv by (simp add: setBroadcast_def svc_simps)
  next
    case free: False
    let ?upd = "\<lambda>r. r\<lparr>w_status := BROADCAST, hot_wallet_id := Some hw,
       from_address := Some from, w_nonce := Some nonce, tx_hash := Some hash,
       broadcast_at := Some (now s)\<rparr>"
    have "update_w i ?upd s = (r, t)" using run free by (simp add: setBroadcast_def svc_simps)
    from update_w_spec [OF this] show ?thesis
    proof (elim disjE exE conjE)
      fix x' assume x': "findById_w i s = Some x'"
        and t: "t = put_withdrawals (map (\<lambda>x. if w_id x = i then ?upd x\<lparr>w_updated := now s\<rparr> else x)
          (crypto_withdrawals s)) s"
      have only: "y = x" if "y \<in> set (crypto_withdrawals s)" "w_id y = i" for y
        using row_found [OF winv that(1)] that(2) x(1) by simp
      have ok: "w_ok cfg (?upd x\<lparr>w_updated := now s\<rparr>)"
        using row x(2) by (simp add: w_ok_def status_sets)
      have other: "\<not> (w_chain y = w_chain x \<and> from_address y = Some from \<and> w_nonce y = Some nonce)"
        if "y \<in> set (crypto_withdrawals s)" "w_id y \<noteq> i" for y
        using free that x(1) by (auto simp: nonce_taken_def)
      have "withdrawals_inv cfg (put_withdrawals (map (\<lambda>x. if w_id x = i \<and> True
          then ?upd x\<lparr>w_updated := now s\<rparr> else x) (crypto_withdrawals s)) s)"
      proof (rule withdrawals_inv_update [OF winv])
        show "w_ok cfg (?upd y\<lparr>w_updated := now s\<rparr>)"
          if "y \<in> set (crypto_withdrawals s)" "w_id y = i" for y
          using only [OF that] ok by simp
        fix y z assume y: "y \<in> set (crypto_withdrawals s)" "z \<in> set (crypto_withdrawals s)"
          "w_id y = i" "w_id z \<noteq> i"
        show "\<not> same_nonce (?upd y\<lparr>w_updated := now s\<rparr>) z \<and> \<not> same_nonce z (?upd y\<lparr>w_updated := now s\<rparr>)"
          using other [OF y(2,4)] only [OF y(1,3)] by (auto simp: same_nonce_def)
      qed simp
      then show ?thesis unfolding t by (intro withdrawal_state_put [OF inv]) simp
    qed (use inv in simp_all)
  qed
qed

section \<open>The interface of a signer\<close>

text \<open>
  The service relies on a signer not to touch its tables: signing and broadcasting may change
  what the signer knows of the chain, asking for confirmations changes nothing.
\<close>

locale withdrawal_signer =
  fixes prov :: signer
  assumes sign_frame: "signTransfer prov x s = (r1, t) \<Longrightarrow> \<exists>c. t = s\<lparr>chain_txs := c\<rparr>"
    and broadcast_frame: "broadcastTx prov ch h s = (r2, t) \<Longrightarrow> \<exists>c. t = s\<lparr>chain_txs := c\<rparr>"
    and confirm_frame: "getConfirmations prov ch h s = (r3, t) \<Longrightarrow> t = s"
begin

lemma keeps_any:
  assumes "\<And>s c. I s \<Longrightarrow> I (s\<lparr>chain_txs := c\<rparr>)"
  shows "preserves I (signTransfer prov x)" and "preserves I (broadcastTx prov ch h)"
    and "preserves I (getConfirmations prov ch h)"
proof -
  show "preserves I (signTransfer prov x)"
  proof (rule preservesI)
    fix s assume "I s"
    obtain c where "snd (signTransfer prov x s) = s\<lparr>chain_txs := c\<rparr>"
      using sign_frame [OF surjective_pairing] by blast
    then show "I (snd (signTransfer prov x s))" using assms [OF \<open>I s\<close>] by simp
  qed
  show "preserves I (broadcastTx prov ch h)"
  proof (rule preservesI)
    fix s assume "I s"
    obtain c where "snd (broadcastTx prov ch h s) = s\<lparr>chain_txs := c\<rparr>"
      using broadcast_frame [OF surjective_pairing] by blast
    then show "I (snd (broadcastTx prov ch h s))" using assms [OF \<open>I s\<close>] by simp
  qed
  show "preserves I (getConfirmations prov ch h)"
    by (rule preservesI) (use confirm_frame [OF surjective_pairing] in simp)
qed

end

section \<open>Every operation keeps the table\<close>

lemma preserves_allocateNonce:
  assumes "\<And>s f. I s \<Longrightarrow> I (s\<lparr>wallet_nonces := f\<rparr>)"
  shows "preserves I (allocateNonce hw)"
proof -
  have "preserves I (nonce_increment hw)" "preserves I (nonce_create hw)"
    unfolding nonce_increment_def nonce_create_def
    by (rule preservesI, auto split: option.split intro: assms)+
  then show ?thesis unfolding allocateNonce_def by (auto intro!: preserves_intros)
qed

lemma claimed_write:
  assumes "withdrawal_state cfg s \<and> signing i s" and "ledger_tables t = ledger_tables s"
    and "crypto_withdrawals t = crypto_withdrawals s" and "next_uuid t = next_uuid s"
  shows "withdrawal_state cfg t \<and> signing i t"
  using assms withdrawal_state_write [of cfg s t] signing_cong [of t s i] by simp

lemma state_failWithdrawal [preserves_intros]:
  "preserves (withdrawal_state cfg) (failWithdrawal D w reason)"
  unfolding failWithdrawal_def by (intro preserves_intros)

lemma state_finalizeWithdrawal [preserves_intros]:
  "preserves (withdrawal_state cfg) (finalizeWithdrawal D w)"
  unfolding finalizeWithdrawal_def by (intro preserves_intros)

lemma hoare_claim:
  "hoare (withdrawal_state cfg) (claimForBroadcast i)
     (\<lambda>n s. withdrawal_state cfg s \<and> (n \<noteq> 0 \<longrightarrow> signing i s)) (withdrawal_state cfg)"
proof (rule hoareI)
  fix s n t assume "withdrawal_state cfg s" "claimForBroadcast i s = (Inr n, t)"
  then show "withdrawal_state cfg t \<and> (n \<noteq> 0 \<longrightarrow> signing i t)"
    using preserves_run [OF state_claim] claim_signs by blast
next
  fix s e t assume "withdrawal_state cfg s" "claimForBroadcast i s = (Inl e, t)"
  then show "withdrawal_state cfg t" using preserves_run [OF state_claim] by blast
qed

lemma hoare_setBroadcast:
  "hoare (\<lambda>s. withdrawal_state cfg s \<and> signing i s) (setBroadcast i hw from nonce hash)
     (\<lambda>_. withdrawal_state cfg) (withdrawal_state cfg)"
  by (rule hoareI) (auto dest: state_setBroadcast)

context withdrawal_signer
begin

lemma hoare_broadcast_body:
  "hoare (\<lambda>s. withdrawal_state cfg s \<and> signing (w_id w) s) (broadcast_body D prov w)
     (\<lambda>_. withdrawal_state cfg) (withdrawal_state cfg)"
proof -
  let ?P = "\<lambda>s. withdrawal_state cfg s \<and> signing (w_id w) s"
  have sign: "preserves ?P (signTransfer prov x)" "preserves ?P (broadcastTx prov ch h)" for x ch h
    by (rule keeps_any, erule claimed_write, simp_all add: ledger_tables_def)+
  have nonce: "preserves ?P (allocateNonce h)" for h
    by (rule preserves_allocateNonce, erule claimed_write) (simp_all add: ledger_tables_def)
  have last: "hoare ?P (bindS (setBroadcast (w_id w) h f n x) (\<lambda>_.
      bindS (recordAudit ACTOR_SYSTEM None act ty e) (\<lambda>_. returnS True)))
      (\<lambda>_. withdrawal_state cfg) (withdrawal_state cfg)" for h f n x act ty e
    by (rule hoare_bind [OF hoare_setBroadcast])
      (simp add: preserves_hoare [symmetric], intro preserves_intros)
  show ?thesis
    unfolding broadcast_body_def
    by (intro last hoare_seq [OF hoare_keep [OF sign(1)]] hoare_seq [OF hoare_keep [OF sign(2)]]
        hoare_seq [OF hoare_keep [OF nonce]] hoare_seq [OF hoare_keep [OF preserves_read]]
        hoare_option hoare_sum hoare_if hoare_throw) simp_all
qed

lemma state_broadcastWithdrawal:
  "preserves (withdrawal_state cfg) (broadcastWithdrawal D prov w)"
proof -
  have body: "hoare (\<lambda>s. withdrawal_state cfg s \<and> signing (w_id w) s)
      (catchS (broadcast_body D prov w)
        (\<lambda>e. bindS (failWithdrawal D w ''broadcast_failed'') (\<lambda>_. returnS False)))
      (\<lambda>_. withdrawal_state cfg) (withdrawal_state cfg)"
    by (rule hoare_catch [OF hoare_broadcast_body])
      (simp add: preserves_hoare [symmetric], intro preserves_intros)
  show ?thesis
    unfolding preserves_hoare broadcastWithdrawal_def
    by (rule hoare_bind [OF hoare_claim], rule hoare_if)
      (auto intro!: hoare_return intro: hoare_weaken [OF body])
qed

lemma state_broadcast_all: "preserves (withdrawal_state cfg) (broadcast_all D prov ws n)"
  by (induction ws arbitrary: n) (auto intro!: preserves_intros state_broadcastWithdrawal)

lemma state_confirm_one: "preserves (withdrawal_state cfg) (confirm_one D prov minConf w)"
proof -
  have "preserves (withdrawal_state cfg) (getConfirmations prov ch h)" for ch h
    by (rule keeps_any, erule withdrawal_state_write) (simp_all add: ledger_tables_def)
  then show ?thesis unfolding confirm_one_def by (auto intro!: preserves_intros)
qed

lemma state_confirm_all: "preserves (withdrawal_state cfg) (confirm_all D prov minConf ws c)"
proof (induction ws arbitrary: c)
  case Nil
  show ?case unfolding confirm_all.simps by (rule preserves_return)
next
  case (Cons w ws)
  show ?case unfolding confirm_all.simps by (rule preserves_bind [OF state_confirm_one Cons.IH])
qed

lemma state_tick: "preserves (withdrawal_state cfg) (withdrawal_tick D prov)"
  unfolding withdrawal_tick_def runWithdrawalCycle_def runBroadcastCycle_def
    runConfirmationCycle_def Let_def
  by (intro preserves_intros state_broadcast_all state_confirm_all)

end

interpretation mock: withdrawal_signer "mock_signer sha256" for sha256
proof
  fix x s r t assume "signTransfer (mock_signer sha256) x s = (r, t)"
  then have "t = s\<lparr>chain_txs := chain_txs s\<rparr>" by (simp add: mock_signer_def returnS_apply)
  then show "\<exists>c. t = s\<lparr>chain_txs := c\<rparr>" ..
next
  fix ch h s r t assume "broadcastTx (mock_signer sha256) ch h s = (r, t)"
  then have "t = s\<lparr>chain_txs := (if map_of (chain_txs s) h = None
      then chain_txs s @ [(h, \<lparr>tx_confirmations = 0, tx_success = True\<rparr>)] else chain_txs s)\<rparr>"
    by (auto simp: mock_signer_def mock_broadcast_def svc_simps split: if_splits)
  then show "\<exists>c. t = s\<lparr>chain_txs := c\<rparr>" ..
next
  fix ch h s r t assume "getConfirmations (mock_signer sha256) ch h s = (r, t)"
  then show "t = s" by (simp add: mock_signer_def mock_confirmations_def readS_apply)
qed

lemma state_request [preserves_intros]:
  "preserves (withdrawal_state cfg) (request_create D cfg' u to x)"
  "preserves (withdrawal_state cfg) (request_hold D cfg' u w)"
  unfolding request_create_def request_guards_def limit_guard_def request_hold_def Let_def
  by (intro preserves_intros)+

lemma state_approve_second [preserves_intros]:
  "preserves (withdrawal_state cfg) (approve_second cfg' i a b x)"
  unfolding approve_second_def auditAdmin_w_def by (intro preserves_intros)

lemma hoare_approve_first:
  "hoare (\<lambda>s. withdrawal_state cfg s \<and> findById_w i s = Some x)
     (approve_first cfg i a (dual_threshold cfg \<le> w_amount x) y)
     (\<lambda>_. withdrawal_state cfg) (withdrawal_state cfg)"
proof -
  let ?P = "\<lambda>s. withdrawal_state cfg s \<and> findById_w i s = Some x"
  let ?stmt = "if dual_threshold cfg \<le> w_amount x then firstApprove i a else approveSmall i a"
  have step: "withdrawal_state cfg t" if run: "?stmt s = (r, t)" and s: "?P s" for s r t
  proof (cases "dual_threshold cfg \<le> w_amount x")
    case True
    then show ?thesis
      using run by (intro preserves_run [OF state_firstApprove conjunct1 [OF s]]) simp
  next
    case False
    then have "approveSmall i a s = (r, t)" using run by simp
    then show ?thesis by (rule state_approveSmall [OF _ conjunct1 [OF s]]) (use s False in simp)
  qed
  have "hoare ?P ?stmt (\<lambda>_. withdrawal_state cfg) (withdrawal_state cfg)"
    by (rule hoareI) (rule step, assumption+)+
  then show ?thesis
    unfolding approve_first_def
    by (rule hoare_bind)
      (simp only: preserves_hoare [symmetric] auditAdmin_w_def, intro preserves_intros)
qed

lemma state_approve [preserves_intros]: "preserves (withdrawal_state cfg) (approve_w cfg i a)"
proof (cases a)
  case None
  then show ?thesis by (simp add: approve_w_def preserves_throw)
next
  case (Some actor)
  show ?thesis unfolding preserves_hoare approve_w_def Some option.case
  proof (rule hoare_bind)
    show "hoare (withdrawal_state cfg) (readS (findById_w i))
      (\<lambda>found s. withdrawal_state cfg s \<and> findById_w i s = found) (withdrawal_state cfg)"
      by (rule hoare_read) simp
    fix found
    have keep: "hoare (\<lambda>s. withdrawal_state cfg s \<and> findById_w i s = found) m (\<lambda>_. withdrawal_state cfg)
      (withdrawal_state cfg)" if "preserves (withdrawal_state cfg) m" for m :: "(db, crypto_withdrawal_dto) svc"
      using that unfolding preserves_hoare by (rule hoare_weaken) simp_all
    show "hoare (\<lambda>s. withdrawal_state cfg s \<and> findById_w i s = found)
      (case found of None \<Rightarrow> throwS not_found
       | Some existing \<Rightarrow>
          let large = (dual_threshold cfg \<le> w_amount existing)
          in if w_status existing = PENDING_APPROVAL \<and> large \<and> approved_by existing \<noteq> None
             then approve_second cfg i actor (the (approved_by existing)) existing
             else if w_status existing \<noteq> PENDING_APPROVAL
             then if w_status existing = APPROVED
                  then returnS (toCryptoWithdrawalDto cfg existing)
                  else throwS not_approvable
             else approve_first cfg i actor large existing)
      (\<lambda>_. withdrawal_state cfg) (withdrawal_state cfg)"
    proof (cases found)
      case None
      show ?thesis unfolding None option.case by (rule hoare_throw) (erule conjunct1)
    next
      case (Some x)
      show ?thesis
        unfolding Some option.case Let_def
        using keep hoare_approve_first unfolding Some
        by (intro hoare_if) (auto intro!: keep preserves_intros hoare_approve_first)
    qed
  qed
qed

lemma state_reject [preserves_intros]: "preserves (withdrawal_state cfg) (reject_w D cfg' i reason a)"
  unfolding reject_w_def auditAdmin_w_def final_row_def by (intro preserves_intros)

end
