(* ===== verification/Withdrawal_Properties.thy ===== *)
theory Withdrawal_Properties
  imports Withdrawal_Laws
begin

text \<open>
  The properties of crypto withdrawals: what holds of the table after any sequence of calls by
  users, admins and workers, what each call does to the money, and where a call goes wrong.
\<close>

section \<open>Any order of calls\<close>

text \<open>
  The calls that reach the module, one step each; \<open>q\<close> holds the requests that have written their
  row and have not placed the hold yet.  A worker works on a row it has read at some earlier time,
  so \<open>w\<close> in \<open>Sign\<close> and \<open>Confirm\<close> is any row.  Other services post to the ledger, time passes,
  PostgreSQL reports write conflicts, and the chain moves on.
\<close>

type_synonym withdrawal_system = "db \<times> crypto_withdrawal list"

inductive withdrawal_step ::
  "rounding \<Rightarrow> withdrawal_config \<Rightarrow> signer \<Rightarrow> withdrawal_system \<Rightarrow> withdrawal_system \<Rightarrow> bool"
  for D cfg prov where
  Requested: "request_create D cfg u to x s = (Inr w, t) \<Longrightarrow>
    withdrawal_step D cfg prov (s, q) (t, w # q)"
| Refused: "request_create D cfg u to x s = (Inl e, t) \<Longrightarrow>
    withdrawal_step D cfg prov (s, q) (t, q)"
| Held: "w \<in> set q \<Longrightarrow> request_hold D cfg (w_user w) w s = (r, t) \<Longrightarrow>
    withdrawal_step D cfg prov (s, q) (t, remove1 w q)"
| Approved: "approve_w cfg i a s = (r, t) \<Longrightarrow> withdrawal_step D cfg prov (s, q) (t, q)"
| Rejected: "reject_w D cfg i reason a s = (r, t) \<Longrightarrow> withdrawal_step D cfg prov (s, q) (t, q)"
| Sign: "broadcastWithdrawal D prov w s = (r', t) \<Longrightarrow> withdrawal_step D cfg prov (s, q) (t, q)"
| Confirm: "confirm_one D prov n w s = (r'', t) \<Longrightarrow> withdrawal_step D cfg prov (s, q) (t, q)"
| Address: "addAddress cfg u ch ad l s = (r3, t) \<Longrightarrow> withdrawal_step D cfg prov (s, q) (t, q)"
| Posting: "retry_post (post D inp c) s = (r4, t) \<Longrightarrow> withdrawal_step D cfg prov (s, q) (t, q)"
| Time: "now s \<le> n \<Longrightarrow> withdrawal_step D cfg prov (s, q) (s\<lparr>now := n\<rparr>, q)"
| Conflicts: "withdrawal_step D cfg prov (s, q) (s\<lparr>conflicts := cs\<rparr>, q)"
| Chain: "withdrawal_step D cfg prov (s, q) (s\<lparr>chain_txs := txs\<rparr>, q)"

lemma state_addAddress: "preserves (withdrawal_state cfg) (addAddress cfg' u ch ad l)"
  unfolding addAddress_def by (intro preserves_intros)

context withdrawal_signer
begin

lemma step_state:
  assumes "withdrawal_step D cfg prov z z'" and "withdrawal_state cfg (fst z)"
  shows "withdrawal_state cfg (fst z')"
  using assms
proof (induction rule: withdrawal_step.induct)
  case Requested
  then show ?case using preserves_run [OF state_request(1)] by auto
next
  case Refused
  then show ?case using preserves_run [OF state_request(1)] by auto
next
  case Held
  then show ?case using preserves_run [OF state_request(2)] by auto
next
  case Approved
  then show ?case using preserves_run [OF state_approve] by auto
next
  case Rejected
  then show ?case using preserves_run [OF state_reject] by auto
next
  case Sign
  then show ?case using preserves_run [OF state_broadcastWithdrawal] by auto
next
  case Confirm
  then show ?case using preserves_run [OF state_confirm_one] by auto
next
  case Address
  then show ?case using preserves_run [OF state_addAddress] by auto
next
  case Posting
  then show ?case using preserves_run [OF state_post] by auto
next
  case (Time s n q)
  then have "withdrawal_state cfg s" by simp
  then show ?case unfolding fst_conv by (rule withdrawal_state_write) (simp_all add: ledger_tables_def)
next
  case (Conflicts s q cs)
  then have "withdrawal_state cfg s" by simp
  then show ?case unfolding fst_conv by (rule withdrawal_state_write) (simp_all add: ledger_tables_def)
next
  case (Chain s q txs)
  then have "withdrawal_state cfg s" by simp
  then show ?case unfolding fst_conv by (rule withdrawal_state_write) (simp_all add: ledger_tables_def)
qed

lemma steps_state:
  assumes "(withdrawal_step D cfg prov)\<^sup>*\<^sup>* z z'" and "withdrawal_state cfg (fst z)"
  shows "withdrawal_state cfg (fst z')"
  using assms by (induction rule: rtranclp_induct) (auto intro: step_state)

end

lemma no_withdrawals: "ledger_inv s \<Longrightarrow> crypto_withdrawals s = [] \<Longrightarrow> withdrawal_state cfg s"
  by (simp add: with_ledger_def withdrawals_inv_def)

text \<open>
  C14.  Dual control, as the columns of the table record it, whatever the users, admins and workers do
  and in whatever order: from a state without withdrawals, every row that has reached APPROVED or
  later names the transaction of its hold and an admin in \<open>approved_by\<close>, and when its amount reaches
  the threshold a different admin in \<open>approved_by2\<close>; and no two rows that were sent carry the same
  nonce of the same address.  The columns are what the code checks; the first one does not always
  name an admin who approved, since a rejection before the hold writes it too
  (\<open>rejected_request_revives\<close>).
\<close>

theorem withdrawals_dual_control:
  assumes "withdrawal_signer prov" and "ledger_inv s" and "crypto_withdrawals s = []"
    and "(withdrawal_step D cfg prov)\<^sup>*\<^sup>* (s, []) (t, q)" and "w \<in> set (crypto_withdrawals t)"
  shows "(w_status w \<in> {APPROVED, SIGNING, BROADCAST, CONFIRMING, COMPLETED} \<longrightarrow>
      hold_txn w \<noteq> None \<and> (\<exists>a. approved_by w = Some a \<and>
        (dual_threshold cfg \<le> w_amount w \<longrightarrow> (\<exists>b. approved_by2 w = Some b \<and> b \<noteq> a)))) \<and>
    (\<forall>w' \<in> set (crypto_withdrawals t). w_chain w = w_chain w' \<longrightarrow> from_address w \<noteq> None \<longrightarrow>
      from_address w = from_address w' \<longrightarrow> w_nonce w \<noteq> None \<longrightarrow> w_nonce w = w_nonce w' \<longrightarrow>
      w_id w = w_id w')"
proof -
  have inv: "withdrawals_inv cfg t"
    using withdrawal_signer.steps_state [OF assms(1,4)] no_withdrawals [OF assms(2,3)]
    by (auto dest: with_ledgerD)
  have ok: "w_ok cfg w" using withdrawals_invD(2) [OF inv assms(5)] by blast
  have "hold_txn w \<noteq> None \<and> (\<exists>a. approved_by w = Some a \<and>
        (dual_threshold cfg \<le> w_amount w \<longrightarrow> (\<exists>b. approved_by2 w = Some b \<and> b \<noteq> a)))"
    if "w_status w \<in> approved_statuses"
  proof -
    have "w_status w \<in> held_statuses" using that by (auto simp: status_sets)
    then show ?thesis using ok that unfolding w_ok_def withdrawal_checks_def by auto
  qed
  then show ?thesis
    using withdrawals_invD(3) [OF inv assms(5)] unfolding approved_statuses_def same_nonce_def by blast
qed

text \<open>
  User 7 has 1000 USDT, an allowlisted address, a token and a hot wallet; amounts of 500 or more
  need two admins.  A withdrawal of 600 is requested, held, and approved by admins 1 and 2.
\<close>

definition w_config :: withdrawal_config where
  "w_config = \<lparr>fee_usdt = 1, min_usdt = 10, dual_threshold = 500, cooldown_ms = 0,
     explorerTxBase = (\<lambda>_. None)\<rparr>"

definition usdt_credit :: posting_input where
  "usdt_credit = \<lparr>post_kind = ''DEPOSIT'', post_reference_type = None, post_reference_id = None,
     post_lines =
       [\<lparr>line_user = None, line_asset = ASSET, line_kind = HOT_WALLET, line_direction = DEBIT,
         line_amount = 1000\<rparr>,
        \<lparr>line_user = Some 7, line_asset = ASSET, line_kind = USER_AVAILABLE, line_direction = CREDIT,
         line_amount = 1000\<rparr>]\<rparr>"

definition wallet_db :: db where
  "wallet_db = snd (post exact usdt_credit None (empty_db\<lparr>users := [verified_user 7],
     asset_chains := [\<lparr>ac_asset = ASSET, ac_chain = CHAIN, contract_addr = Some ''c'',
       ac_decimals = 6, min_confirmations = 20, ac_active = True\<rparr>],
     hot_wallets := [\<lparr>hw_id = 50, hw_chain = CHAIN, hw_address = ''h'', hw_tier_hot = True,
       hw_active = True, hw_signer = Some \<lparr>signer_id = 51, kms_key_ref = ''k'',
         signer_public_key = None\<rparr>, hw_created = 0\<rparr>],
     withdrawal_addresses := [\<lparr>wa_id = 52, wa_user = 7, wa_chain = CHAIN, wa_address = ''x'',
       wa_label = None, whitelisted_at = Some 0, wa_created = 0, wa_deleted = None\<rparr>],
     next_uuid := 100\<rparr>))"

lemma wallet_db_inv: "ledger_inv wallet_db"
  unfolding wallet_db_def
  by (rule preservesD [OF posting.preserves_posting], rule ledger_inv_cong [OF _ _ empty_db_inv])
    (simp_all add: ledger_tables_def empty_db_def)

lemma wallet_db_empty: "crypto_withdrawals wallet_db = []"
  by code_simp

lemma wallet_db_state: "withdrawal_state cfg wallet_db"
  by (rule no_withdrawals [OF wallet_db_inv wallet_db_empty])

definition requested_db :: db where
  "requested_db = snd (request_create exact w_config 7 ''x'' 600 wallet_db)"

definition requested_row :: crypto_withdrawal where
  "requested_row = projr (fst (request_create exact w_config 7 ''x'' 600 wallet_db))"

definition held_db :: db where
  "held_db = snd (request_hold exact w_config 7 requested_row requested_db)"

definition approved_db :: db where
  "approved_db = snd (approve_w w_config 103 (Some 2) (snd (approve_w w_config 103 (Some 1) held_db)))"

theorem withdrawals_dual_control_witness:
  "\<exists>w a b. findById_w 103 approved_db = Some w \<and> w_status w = APPROVED \<and>
     approved_by w = Some a \<and> approved_by2 w = Some b \<and> b \<noteq> a"
proof -
  let ?step = "withdrawal_step exact w_config (mock_signer id)"
  let ?w = requested_row
  have "\<not> isl (fst (request_create exact w_config 7 ''x'' 600 wallet_db))" by code_simp
  then have "request_create exact w_config 7 ''x'' 600 wallet_db = (Inr ?w, requested_db)"
    by (auto simp: requested_row_def requested_db_def elim: run_Inr)
  then have 1: "?step (wallet_db, []) (requested_db, [?w])" by (rule Requested)
  have "?step (requested_db, [?w]) (snd (request_hold exact w_config (w_user ?w) ?w requested_db),
      remove1 ?w [?w])"
    by (rule Held [OF _ surjective_pairing]) simp
  moreover have "w_user ?w = 7" by code_simp
  ultimately have 2: "?step (requested_db, [?w]) (held_db, [])" by (simp add: held_db_def)
  have 3: "?step (held_db, []) (snd (approve_w w_config 103 (Some 1) held_db), [])"
    by (rule Approved [OF surjective_pairing])
  have 4: "?step (snd (approve_w w_config 103 (Some 1) held_db), []) (approved_db, [])"
    unfolding approved_db_def by (rule Approved [OF surjective_pairing])
  have steps: "?step\<^sup>*\<^sup>* (wallet_db, []) (approved_db, [])"
    using 1 2 3 4 by (meson rtranclp.rtrancl_refl rtranclp.rtrancl_into_rtrancl)
  have "case findById_w 103 approved_db of None \<Rightarrow> False | Some w \<Rightarrow> w_status w = APPROVED \<and>
      dual_threshold w_config \<le> w_amount w"
    by code_simp
  then obtain w where w: "findById_w 103 approved_db = Some w" "w_status w = APPROVED"
    "dual_threshold w_config \<le> w_amount w" by (auto split: option.splits)
  then have "w \<in> set (crypto_withdrawals approved_db)" by (auto simp: findById_w_def dest: find_SomeD)
  from withdrawals_dual_control [OF mock.withdrawal_signer_axioms wallet_db_inv wallet_db_empty steps this]
  show ?thesis using w by auto
qed

section \<open>Requesting\<close>

text \<open>Everything \<open>requestWithdrawal\<close> demands before it writes a row.\<close>

definition request_admissible :: "rounding \<Rightarrow> withdrawal_config \<Rightarrow> nat \<Rightarrow> string \<Rightarrow> rat \<Rightarrow> db \<Rightarrow> bool" where
  "request_admissible D cfg u to x s \<longleftrightarrow> \<not> withdrawals_frozen s \<and>
     (\<exists>usr. findUserKyc_w u s = Some usr \<and> user_status usr = USER_ACTIVE \<and>
        \<not> withdrawals_blocked usr \<and> kyc_status usr = KYC_APPROVED \<and> 1 \<le> kyc_tier usr \<and>
        (\<forall>l cap. getTierLimit (kyc_tier usr) s = Some l \<longrightarrow> usdt_daily_withdrawal l = Some cap \<longrightarrow>
           dadd D (sumTodayWithdrawals u ASSET s) x \<le> cap)) \<and>
     (\<exists>tk c. getSupportedToken ASSET CHAIN s = Some tk \<and> contract_addr tk = Some c \<and> c \<noteq> []) \<and>
     (\<exists>a since. findActiveAddress u CHAIN to s = Some a \<and> whitelisted_at a = Some since \<and> since \<le> now s) \<and>
     min_usdt cfg \<le> x \<and> 0 < dsub D x (fee_usdt cfg)"

definition requested :: "withdrawal_config \<Rightarrow> nat \<Rightarrow> string \<Rightarrow> rat \<Rightarrow> crypto_withdrawal \<Rightarrow> bool" where
  "requested cfg u to x w \<longleftrightarrow> w_user w = u \<and> to_address w = to \<and> w_amount w = x \<and>
     w_fee w = fee_usdt cfg \<and> net_amount w = x - fee_usdt cfg \<and> w_status w = REQUESTED \<and>
     approved_by w = None \<and> approved_by2 w = None"

lemma request_guards_run:
  assumes "request_guards u to s = (r, t)"
  shows "t = s" and "r = Inr usr \<Longrightarrow> \<not> withdrawals_frozen s \<and> findUserKyc_w u s = Some usr \<and>
    user_status usr = USER_ACTIVE \<and> \<not> withdrawals_blocked usr \<and> kyc_status usr = KYC_APPROVED \<and>
    1 \<le> kyc_tier usr \<and>
     (\<exists>tk c. getSupportedToken ASSET CHAIN s = Some tk \<and> contract_addr tk = Some c \<and> c \<noteq> []) \<and>
     (\<exists>a since. findActiveAddress u CHAIN to s = Some a \<and> whitelisted_at a = Some since \<and> since \<le> now s)"
  using assms
  by (auto simp: request_guards_def svc_simps split: if_splits option.splits)

lemma limit_guard_run:
  assumes "limit_guard D usr x s = (r, t)"
  shows "t = s" and "r = Inr () \<Longrightarrow> getTierLimit (kyc_tier usr) s = Some l \<Longrightarrow>
    usdt_daily_withdrawal l = Some cap \<Longrightarrow> dadd D (sumTodayWithdrawals (user_id usr) ASSET s) x \<le> cap"
  using assms by (auto simp: limit_guard_def svc_simps split: if_splits option.splits)

lemma createWithdrawal_run:
  assumes "createWithdrawal u ch a to x fee netAmt flags s = (r, t)"
  shows "ledger_tables t = ledger_tables s \<and> conflicts t = conflicts s \<and>
    (\<forall>w. r = Inr w \<longrightarrow> w_id w = next_uuid s \<and> w_user w = u \<and> to_address w = to \<and> w_amount w = x \<and>
       w_fee w = fee \<and> net_amount w = netAmt \<and> w_status w = REQUESTED \<and> approved_by w = None \<and>
       approved_by2 w = None \<and> netAmt = x - fee \<and>
       crypto_withdrawals t = crypto_withdrawals s @ [w])"
  using assms
  by (auto simp: createWithdrawal_def fresh_uuid_def svc_simps Let_def ledger_tables_def
      withdrawal_checks_def split: if_splits)

lemma request_create_run:
  assumes "request_create D cfg u to x s = (r, t)"
  shows "ledger_tables t = ledger_tables s \<and> (\<forall>w. r = Inr w \<longrightarrow>
     request_admissible D cfg u to x s \<and> requested cfg u to x w \<and> w_id w = next_uuid s \<and>
     crypto_withdrawals t = crypto_withdrawals s @ [w])"
proof -
  obtain r1 s1 where 1: "request_guards u to s = (r1, s1)" by (cases "request_guards u to s")
  note g = request_guards_run [OF 1]
  show ?thesis
  proof (cases r1)
    case (Inl e)
    then show ?thesis using assms 1 g(1) by (auto simp: request_create_def svc_simps)
  next
    case (Inr usr)
    obtain r2 s2 where 2: "limit_guard D usr x s = (r2, s2)" by (cases "limit_guard D usr x s")
    note l = limit_guard_run [OF 2]
    have id: "user_id usr = u"
      using g(2) [OF Inr] by (auto simp: findUserKyc_w_def dest: find_SomeD)
    let ?create = "createWithdrawal u CHAIN ASSET to x (fee_usdt cfg) (dsub D x (fee_usdt cfg))
      (withdrawalRiskFlags x (dual_threshold cfg) usr)"
    obtain r3 s3 where 3: "?create s = (r3, s3)" by (cases "?create s")
    note c = createWithdrawal_run [OF 3]
    show ?thesis
    proof (cases "min_usdt cfg \<le> x \<and> 0 < dsub D x (fee_usdt cfg) \<and> r2 = Inr ()")
      case True
      then have "r = r3" "t = s3" using assms 1 2 3 Inr g(1) l(1)
        by (simp_all add: request_create_def svc_simps Let_def)
      moreover have "request_admissible D cfg u to x s"
        unfolding request_admissible_def using True g(2) [OF Inr] l(2) id by blast
      ultimately show ?thesis using c by (auto simp: requested_def)
    next
      case False
      then show ?thesis using assms 1 2 Inr g(1) l(1)
        by (cases r2) (auto simp: request_create_def svc_simps Let_def split: if_splits)
    qed
  qed
qed

text \<open>Writing the row that was found.\<close>

definition only_withdrawals :: "db \<Rightarrow> db \<Rightarrow> bool" where
  "only_withdrawals s t \<longleftrightarrow> t = s\<lparr>crypto_withdrawals := crypto_withdrawals t\<rparr>"

lemma only_withdrawals_tables:
  "only_withdrawals s t \<Longrightarrow> ledger_tables t = ledger_tables s"
  "only_withdrawals s t \<Longrightarrow> now t = now s" "only_withdrawals s t \<Longrightarrow> conflicts t = conflicts s"
  unfolding only_withdrawals_def ledger_tables_def by (cases s, cases t, simp)+

lemma update_w_run:
  assumes "findById_w i s = Some x" and "withdrawal_checks (upd x)" and "\<And>x. w_id (upd x) = w_id x"
    and "update_w i upd s = (r, t)"
  shows "r = Inr (upd x\<lparr>w_updated := now s\<rparr>)" and "findById_w i t = Some (upd x\<lparr>w_updated := now s\<rparr>)"
    and "only_withdrawals s t"
proof -
  let ?upd = "\<lambda>r. upd r\<lparr>w_updated := now s\<rparr>"
  have t: "r = Inr (?upd x)" "t = put_withdrawals (map (\<lambda>x. if w_id x = i then ?upd x else x) (crypto_withdrawals s)) s"
    using withdrawals.update_one_run [of i s x ?upd] assms by (simp_all add: update_w_def svc_simps findById_w_def)
  have "w_id x = i" using assms(1) by (auto simp: findById_w_def dest: find_SomeD)
  then show "r = Inr (?upd x)" "findById_w i t = Some (?upd x)" "only_withdrawals s t"
    using t assms(1) withdrawals.find_row_updated_one [of ?upd i i s] assms(3)
    by (simp_all add: findById_w_row only_withdrawals_def put_withdrawals_def)
qed

lemma updateMany_w_run:
  assumes "withdrawals_inv cfg s" and "findById_w i s = Some x" and "\<And>x. w_id (upd x) = w_id x"
    and "updateMany_w i c upd s = (r, t)"
  shows "(\<not> c x \<and> r = Inr 0 \<and> t = s) \<or>
    (c x \<and> \<not> withdrawal_checks (upd x) \<and> r = Inl (DbCheckError ''crypto_withdrawals'') \<and> t = s) \<or>
    (c x \<and> withdrawal_checks (upd x) \<and> r = Inr 1 \<and> only_withdrawals s t \<and>
       findById_w i t = Some (upd x\<lparr>w_updated := now s\<rparr>))"
proof -
  let ?upd = "\<lambda>r. upd r\<lparr>w_updated := now s\<rparr>"
  have id: "w_id x = i" using assms(2) by (auto simp: findById_w_def dest: find_SomeD)
  have hit: "filter (\<lambda>r. w_id r = i \<and> c r) (crypto_withdrawals s) = (if c x then [x] else [])"
    using filter_key [OF withdrawals_invD(1) [OF assms(1)], of i c] assms(2) by (simp add: findById_w_def)
  have run: "updateMany_w i c upd s = (if c x \<and> \<not> withdrawal_checks (upd x)
      then (Inl (DbCheckError ''crypto_withdrawals''), s)
      else (Inr (length (if c x then [x] else [])), put_withdrawals (map (\<lambda>x. if w_id x = i \<and> c x
        then ?upd x else x) (crypto_withdrawals s)) s))"
    unfolding updateMany_w_def update_many_def bindS_apply readS_apply prod.case sum.case hit
    by (cases "c x"; cases "withdrawal_checks (upd x)") (simp_all add: requireS_apply writeS_apply returnS_apply)
  show ?thesis
  proof (cases "c x \<and> withdrawal_checks (upd x)")
    case True
    then have "r = Inr 1" "t = put_withdrawals (map (\<lambda>x. if w_id x = i \<and> c x then ?upd x else x)
        (crypto_withdrawals s)) s"
      using run assms(4) by simp_all
    then show ?thesis
      using True assms(2) id withdrawals.find_row_updated [of ?upd i i c s] assms(3)
      by (simp add: findById_w_row only_withdrawals_def put_withdrawals_def)
  next
    case False
    show ?thesis
    proof (cases "c x")
      case True
      then show ?thesis using False run assms(4) by simp
    next
      case no: False
      then have "r = Inr 0" using run assms(4) by simp
      then have "t = s" using updateMany_w_spec [OF assms(4,1)] no assms(2) by simp
      then show ?thesis using no \<open>r = Inr 0\<close> by simp
    qed
  qed
qed

lemma checks_unapproved: "approved_by2 w = None \<Longrightarrow> net_amount w = w_amount w - w_fee w \<Longrightarrow> withdrawal_checks w"
  by (cases "approved_by w") (simp_all add: withdrawal_checks_def)

lemma retry_post_found:
  assumes "retry_post (post D inp c) s = (r, t)" and "ledger_inv s"
  shows "findById_w i t = findById_w i s" and "now t = now s"
  using retry_post_only_ledger [OF assms] only_ledger_simps by (auto simp: findById_w_def)

definition held_row :: "crypto_withdrawal \<Rightarrow> nat \<Rightarrow> nat \<Rightarrow> crypto_withdrawal" where
  "held_row w txn t = w\<lparr>hold_txn := Some txn, w_status := PENDING_APPROVAL, w_updated := t\<rparr>"

lemma placeHold_run:
  assumes "placeHold D w s = (Inr p, t)" and "ledger_inv s" and "\<not> already_posted (hold_input w) s"
  shows "bal t v b k = bal s v b k + (if v = Some (w_user w) \<and> b = ASSET
    then (if k = USER_AVAILABLE then - w_amount w else if k = USER_LOCKED then w_amount w else 0) else 0)"
  using retried.success_moves [OF assms(1) [unfolded placeHold_def] assms(2)] assms(3)
  by (simp add: hold_input_def delta_move_lines)

lemma request_hold_run:
  assumes inv: "ledger_inv s" and row: "findById_w (w_id w) s = Some w"
    and ok: "net_amount w = w_amount w - w_fee w" "approved_by2 w = None"
    and new: "\<not> already_posted (hold_input w) s" and run: "request_hold D cfg u w s = (r, t)"
  shows "(\<exists>txn s1. r = Inr (toCryptoWithdrawalDto cfg (held_row w txn (now s))) \<and>
       findById_w (w_id w) t = Some (held_row w txn (now s)) \<and>
       placeHold D w s = s1 \<and> \<not> isl (fst s1) \<and> bal t = bal (snd s1)) \<or>
    (isl r \<and> ledger_tables t = ledger_tables s \<and>
     (r = Inl (ConflictError ''INSUFFICIENT_BALANCE'') \<longrightarrow>
        findById_w (w_id w) t = Some (w\<lparr>w_status := FAILED,
          failure_reason := Some ''insufficient_balance'', w_updated := now s\<rparr>)))"
proof -
  obtain r1 s1 where 1: "placeHold D w s = (r1, s1)" by (cases "placeHold D w s")
  note f = retry_post_found [OF 1 [unfolded placeHold_def] inv]
  have row1: "findById_w (w_id w) s1 = Some w" using f(1) row by simp
  show ?thesis
  proof (cases r1)
    case (Inr p)
    let ?upd = "\<lambda>r. r\<lparr>hold_txn := Some (posted_id p), w_status := PENDING_APPROVAL\<rparr>"
    obtain r2 s2 where 2: "setHold (w_id w) (posted_id p) s1 = (r2, s2)"
      by (cases "setHold (w_id w) (posted_id p) s1")
    have chk: "withdrawal_checks (?upd w)" using ok by (intro checks_unapproved) simp_all
    note u = update_w_run [OF row1 _ _ 2 [unfolded setHold_def]]
    have u: "r2 = Inr (held_row w (posted_id p) (now s))"
      "findById_w (w_id w) s2 = Some (held_row w (posted_id p) (now s))" "only_withdrawals s1 s2"
      using u chk f(2) by (simp_all add: held_row_def)
    have "r = Inr (toCryptoWithdrawalDto cfg (held_row w (posted_id p) (now s)))"
      "crypto_withdrawals t = crypto_withdrawals s2" "ledger_tables t = ledger_tables s2"
      using run 1 2 Inr u(1)
      by (auto simp: request_hold_def svc_simps recordAudit_def notify_def ledger_tables_def)
    then show ?thesis
      using 1 Inr u(2) only_withdrawals_tables(1) [OF u(3)] bal_tables [of t s1]
      by (auto simp: findById_w_def)
  next
    case (Inl e)
    obtain cs where s1: "s1 = s\<lparr>conflicts := cs\<rparr>"
      using retry_post_error 1 Inl unfolding placeHold_def by blast
    show ?thesis
    proof (cases "is_conflict e")
      case False
      then have "r = Inl e" "t = s1" using run 1 Inl
        by (simp_all add: request_hold_def svc_simps)
      then show ?thesis using False s1 by (auto simp: ledger_tables_def is_conflict_def)
    next
      case True
      obtain r2 s2 where 2: "markRequestFailed (w_id w) ''insufficient_balance'' s1 = (r2, s2)"
        by (cases "markRequestFailed (w_id w) ''insufficient_balance'' s1")
      have chk: "withdrawal_checks (w\<lparr>w_status := FAILED, failure_reason := Some ''insufficient_balance''\<rparr>)"
        using ok by (intro checks_unapproved) simp_all
      note u = update_w_run [OF row1 _ _ 2 [unfolded markRequestFailed_def]]
      have "r = Inl e" "t = s2" using run 1 2 Inl True u(1) chk
        by (simp_all add: request_hold_def svc_simps)
      then show ?thesis
        using u(2,3) chk f(2) s1 only_withdrawals_tables(1) by (force simp: ledger_tables_def)
    qed
  qed
qed

text \<open>Whether the hold of a withdrawal has been posted, whether it was released or paid out.\<close>

lemma posted_as_iff:
  "already_posted (hold_input w) s \<longleftrightarrow> posted_as ''crypto_withdrawal'' (w_id w) s"
  "already_posted (release_input w) s \<longleftrightarrow> posted_as ''crypto_withdrawal_release'' (w_id w) s"
  "already_posted (final_input w) s \<longleftrightarrow> posted_as ''crypto_withdrawal_final'' (w_id w) s"
  by (simp_all add: already_posted_as hold_input_def release_input_def final_input_def)

lemma new_row_found:
  assumes "withdrawals_inv cfg s" and "crypto_withdrawals t = crypto_withdrawals s @ [w]"
    and "w_id w = next_uuid s"
  shows "findById_w (w_id w) t = Some w"
proof -
  have "find (\<lambda>r. w_id r = w_id w) (crypto_withdrawals s) = None"
    using withdrawals_invD(2) [OF assms(1)] assms(3) by (fastforce simp: find_None_iff)
  then show ?thesis by (simp add: findById_w_def assms(2) find_append)
qed

text \<open>
  C15.  Requesting: a call that succeeds was admissible (nothing frozen, an active verified user
  who is not blocked, an allowlisted address past its cooling-off period, the minimum, a positive
  net amount and the daily limit), leaves a row that waits for approval, and has moved exactly the
  amount from the available to the locked balance; a call that fails has moved nothing, and when
  the balance was the reason its row is FAILED.
\<close>

theorem requestWithdrawal_holds:
  assumes "withdrawal_state cfg s" and "\<not> posted_as ''crypto_withdrawal'' (next_uuid s) s"
    and "requestWithdrawal D cfg u to x s = (r, t)"
  shows "case r of
      Inr dto \<Rightarrow> request_admissible D cfg u to x s \<and>
        (\<exists>w. findById_w (next_uuid s) t = Some w \<and> dto = toCryptoWithdrawalDto cfg w \<and>
           w_user w = u \<and> to_address w = to \<and> w_amount w = x \<and> net_amount w = x - fee_usdt cfg \<and>
           w_status w = PENDING_APPROVAL \<and> hold_txn w \<noteq> None \<and> approved_by w = None) \<and>
        bal t v b k = bal s v b k + (if v = Some u \<and> b = ASSET
          then (if k = USER_AVAILABLE then - x else if k = USER_LOCKED then x else 0) else 0)
    | Inl e \<Rightarrow> bal t = bal s \<and> (e = ConflictError ''INSUFFICIENT_BALANCE'' \<longrightarrow>
        (\<exists>w. findById_w (next_uuid s) t = Some w \<and> w_status w = FAILED))"
proof -
  note inv = with_ledgerD [OF assms(1)]
  obtain r1 s1 where 1: "request_create D cfg u to x s = (r1, s1)"
    by (cases "request_create D cfg u to x s")
  note c = request_create_run [OF 1]
  have bal1: "bal s1 = bal s" using c by (intro bal_tables) simp
  show ?thesis
  proof (cases r1)
    case (Inl e)
    have "e \<noteq> ConflictError c" for c
      using 1 unfolding Inl
      by (auto simp: request_create_def request_guards_def limit_guard_def createWithdrawal_def
          fresh_uuid_def svc_simps Let_def split: if_splits option.splits)
    then show ?thesis using assms(3) 1 bal1 Inl by (auto simp: requestWithdrawal_def bindS_apply)
  next
    case (Inr w)
    have w: "request_admissible D cfg u to x s" "requested cfg u to x w" "w_id w = next_uuid s"
      "crypto_withdrawals s1 = crypto_withdrawals s @ [w]" using c Inr by auto
    have inv1: "ledger_inv s1"
      using preserves_run [OF state_request(1) assms(1) 1] by (rule with_ledgerD)
    have row: "findById_w (w_id w) s1 = Some w" by (rule new_row_found [OF inv(2) w(4,3)])
    have new: "\<not> already_posted (hold_input w) s1"
      using assms(2) c posted_as_tables [of s1 s] by (simp add: posted_as_iff w(3))
    have 2: "request_hold D cfg u w s1 = (r, t)"
      using assms(3) 1 Inr by (simp add: requestWithdrawal_def bindS_apply)
    have fields: "net_amount w = w_amount w - w_fee w" "approved_by2 w = None"
      using w(2) by (simp_all add: requested_def)
    from request_hold_run [OF inv1 row fields new 2] show ?thesis
    proof (elim disjE exE conjE)
      fix txn h assume h: "r = Inr (toCryptoWithdrawalDto cfg (held_row w txn (now s1)))"
        "findById_w (w_id w) t = Some (held_row w txn (now s1))"
        "placeHold D w s1 = h" "\<not> isl (fst h)" "bal t = bal (snd h)"
      obtain p h1 where p: "h = (Inr p, h1)" using h(4) by (cases h, cases "fst h") auto
      have "bal t v b k = bal s1 v b k + (if v = Some u \<and> b = ASSET
          then (if k = USER_AVAILABLE then - x else if k = USER_LOCKED then x else 0) else 0)"
        using placeHold_run [of D w s1 p h1 v b k, OF _ inv1 new] h(3,5) p w(2)
        by (simp add: requested_def)
      moreover have "\<exists>w'. findById_w (next_uuid s) t = Some w' \<and>
          toCryptoWithdrawalDto cfg (held_row w txn (now s1)) = toCryptoWithdrawalDto cfg w' \<and>
          w_user w' = u \<and> to_address w' = to \<and> w_amount w' = x \<and> net_amount w' = x - fee_usdt cfg \<and>
          w_status w' = PENDING_APPROVAL \<and> hold_txn w' \<noteq> None \<and> approved_by w' = None"
        by (rule exI [of _ "held_row w txn (now s1)"])
          (use h(2) w(2,3) in \<open>simp add: requested_def held_row_def\<close>)
      ultimately show ?thesis unfolding h(1) sum.case using w(1) bal1 by simp
    next
      assume l: "isl r" "ledger_tables t = ledger_tables s1"
        "r = Inl (ConflictError ''INSUFFICIENT_BALANCE'') \<longrightarrow> findById_w (w_id w) t =
          Some (w\<lparr>w_status := FAILED, failure_reason := Some ''insufficient_balance'', w_updated := now s1\<rparr>)"
      then show ?thesis using bal_tables [OF l(2)] bal1 w(3) by (cases r) auto
    qed
  qed
qed

theorem requestWithdrawal_holds_witness:
  "\<not> isl (fst (requestWithdrawal exact w_config 7 ''x'' 600 wallet_db)) \<and>
   bal (snd (requestWithdrawal exact w_config 7 ''x'' 600 wallet_db)) (Some 7) ASSET USER_LOCKED = 600"
proof -
  let ?run = "requestWithdrawal exact w_config 7 ''x'' 600 wallet_db"
  have ok: "\<not> isl (fst ?run)" "\<not> posted_as ''crypto_withdrawal'' (next_uuid wallet_db) wallet_db"
    "bal wallet_db (Some 7) ASSET USER_LOCKED = 0" by code_simp+
  then obtain dto t where run: "?run = (Inr dto, t)" by (rule_tac run_Inr)
  then show ?thesis
    using requestWithdrawal_holds [OF wallet_db_state ok(2) run, of "Some 7" ASSET USER_LOCKED] ok(3)
    by simp
qed

section \<open>Rejecting\<close>

definition rejectable :: "crypto_withdrawal \<Rightarrow> bool" where
  "rejectable w \<longleftrightarrow> w_status w \<in> {REQUESTED, RISK_CHECK, PENDING_APPROVAL, APPROVED, QUEUED}"

definition rejected_row :: "crypto_withdrawal \<Rightarrow> nat \<Rightarrow> string \<Rightarrow> nat \<Rightarrow> crypto_withdrawal" where
  "rejected_row w a reason t = w\<lparr>w_status := W_REJECTED, approved_by := Some a,
     failure_reason := Some reason, w_updated := t\<rparr>"

lemma reject_row_run:
  assumes "withdrawals_inv cfg s" and "findById_w i s = Some w" and "reject_row i (Some a) reason s = (r, t)"
  shows "(\<not> rejectable w \<and> r = Inr 0 \<and> t = s) \<or>
    (rejectable w \<and> approved_by2 w = Some a \<and> r = Inl (DbCheckError ''crypto_withdrawals'') \<and> t = s) \<or>
    (rejectable w \<and> approved_by2 w \<noteq> Some a \<and> r = Inr 1 \<and> only_withdrawals s t \<and>
       findById_w i t = Some (rejected_row w a reason (now s)))"
proof -
  have "withdrawal_checks w" using found_row [OF assms(1,2)] by (simp add: w_ok_def)
  then have "withdrawal_checks (w\<lparr>w_status := W_REJECTED, approved_by := Some a, failure_reason := Some reason\<rparr>)
      = (approved_by2 w \<noteq> Some a)"
    by (auto simp: withdrawal_checks_def)
  then show ?thesis
    using updateMany_w_run [OF assms(1,2) _ assms(3) [unfolded reject_row_def option.case]]
    by (auto simp: rejectable_def rejected_row_def)
qed

lemma delta_release:
  "delta (post_lines (release_input w)) v b k = (if v = Some (w_user w) \<and> b = ASSET
     then (if k = USER_LOCKED then - w_amount w else if k = USER_AVAILABLE then w_amount w else 0) else 0)"
  by (simp add: release_input_def delta_move_lines)

lemma releaseHold_run:
  assumes "releaseHold D w s = (Inr p, t)" and "ledger_inv s"
    and "\<not> posted_as ''crypto_withdrawal_release'' (w_id w) s"
  shows "bal t v b k = bal s v b k + (if v = Some (w_user w) \<and> b = ASSET
    then (if k = USER_LOCKED then - w_amount w else if k = USER_AVAILABLE then w_amount w else 0) else 0)"
proof -
  have "\<not> already_posted (release_input w) s" using assms(3) by (simp add: posted_as_iff)
  then show ?thesis
    using retried.success_moves [OF assms(1) [unfolded releaseHold_def] assms(2)]
    by (simp add: delta_release)
qed

lemma rejected_again:
  assumes "withdrawals_inv cfg s" and "findById_w i s = Some w" and "w_status w = W_REJECTED"
  shows "reject_w D cfg' i reason (Some a) s = (Inr (toCryptoWithdrawalDto cfg' w), s)"
proof -
  obtain r t where 1: "reject_row i (Some a) reason s = (r, t)" by (cases "reject_row i (Some a) reason s")
  have "\<not> rejectable w" using assms(3) by (simp add: rejectable_def)
  then have "r = Inr 0" "t = s" using reject_row_run [OF assms(1,2) 1] by auto
  then show ?thesis using assms(2,3) 1 by (simp add: reject_w_def svc_simps)
qed

text \<open>
  Rejecting a withdrawal that is not being sent yet closes it as REJECTED with the admin and
  the reason and gives the held amount back to the user, nothing else moves; rejecting it again
  changes nothing at all.
\<close>

theorem reject_w_releases:
  assumes "withdrawal_state cfg s" and "findById_w i s = Some w" and "rejectable w"
    and "\<not> posted_as ''crypto_withdrawal_release'' i s"
    and "reject_w D cfg i reason (Some a) s = (Inr dto, t)"
  shows "findById_w i t = Some (rejected_row w a reason (now s)) \<and>
    bal t v b k = bal s v b k + (if hold_txn w \<noteq> None \<and> v = Some (w_user w) \<and> b = ASSET
      then (if k = USER_LOCKED then - w_amount w else if k = USER_AVAILABLE then w_amount w else 0)
      else 0) \<and>
    (\<exists>dto'. reject_w D cfg i reason' (Some a') t = (Inr dto', t))"
proof -
  note inv = with_ledgerD [OF assms(1)]
  have id: "w_id w = i" using assms(2) by (auto simp: findById_w_def dest: find_SomeD)
  obtain r1 s1 where 1: "reject_row i (Some a) reason s = (r1, s1)"
    by (cases "reject_row i (Some a) reason s")
  then have row: "r1 = Inr 1" "only_withdrawals s s1"
    "findById_w i s1 = Some (rejected_row w a reason (now s))"
    using reject_row_run [OF inv(2) assms(2) 1] assms(2,3,5)
    by (auto simp: reject_w_def svc_simps)
  have tab: "ledger_tables s1 = ledger_tables s" using only_withdrawals_tables(1) row(2) by blast
  have inv1: "withdrawal_state cfg s1" using preserves_run [OF state_reject_row assms(1) 1] .
  have end_state: "withdrawal_state cfg t"
    using preserves_run [OF state_reject assms(1,5)] .
  have moved: "findById_w i t = Some (rejected_row w a reason (now s)) \<and>
    bal t v b k = bal s v b k + (if hold_txn w \<noteq> None \<and> v = Some (w_user w) \<and> b = ASSET
      then (if k = USER_LOCKED then - w_amount w else if k = USER_AVAILABLE then w_amount w else 0)
      else 0)"
  proof (cases "hold_txn w")
    case None
    have "crypto_withdrawals t = crypto_withdrawals s1" "ledger_tables t = ledger_tables s1"
      using assms(2,5) 1 row(1) None
      by (auto simp: reject_w_def svc_simps auditAdmin_w_def recordAudit_def writeAdminLog_def
          notify_def final_row_def ledger_tables_def split: option.splits)
    then show ?thesis using row(3) tab bal_tables [of t s] None by (simp add: findById_w_def)
  next
    case (Some h)
    obtain r2 s2 where 2: "releaseHold D w s1 = (r2, s2)" by (cases "releaseHold D w s1")
    obtain p where p: "r2 = Inr p"
      using assms(2,5) 1 2 row(1) Some by (cases r2) (auto simp: reject_w_def svc_simps)
    have "crypto_withdrawals t = crypto_withdrawals s2" "ledger_tables t = ledger_tables s2"
      using assms(2,5) 1 2 p row(1) Some
      by (auto simp: reject_w_def svc_simps auditAdmin_w_def recordAudit_def writeAdminLog_def
          notify_def final_row_def ledger_tables_def split: option.splits)
    moreover have "findById_w i s2 = findById_w i s1"
      using retry_post_found(1) [OF 2 [unfolded releaseHold_def] with_ledgerD(1) [OF inv1]] .
    moreover have "\<not> posted_as ''crypto_withdrawal_release'' (w_id w) s1"
      using assms(4) posted_as_tables [OF tab] id by simp
    from releaseHold_run [OF 2 [unfolded p] with_ledgerD(1) [OF inv1] this]
    have "bal s2 v b k = bal s v b k + (if v = Some (w_user w) \<and> b = ASSET
      then (if k = USER_LOCKED then - w_amount w else if k = USER_AVAILABLE then w_amount w else 0) else 0)"
      using bal_tables [OF tab] by simp
    ultimately show ?thesis using row(3) bal_tables [of t s2] Some by (simp add: findById_w_def)
  qed
  then have "reject_w D cfg i reason' (Some a') t =
      (Inr (toCryptoWithdrawalDto cfg (rejected_row w a reason (now s))), t)"
    by (intro rejected_again [OF with_ledgerD(2) [OF end_state]]) (simp_all add: rejected_row_def)
  then show ?thesis using moved by blast
qed

lemma held_db_state: "withdrawal_state cfg held_db" "withdrawal_state w_config approved_db"
proof -
  have 1: "withdrawal_state c requested_db" for c unfolding requested_db_def
    by (rule preservesD [OF state_request(1) wallet_db_state])
  show "withdrawal_state cfg held_db" unfolding held_db_def
    by (rule preservesD [OF state_request(2) 1])
  show "withdrawal_state w_config approved_db" unfolding approved_db_def held_db_def
    by (intro preservesD [OF state_approve] preservesD [OF state_request(2) 1])
qed

lemma found_103: "findById_w 103 held_db \<noteq> None" "findById_w 103 approved_db \<noteq> None"
  by code_simp+

theorem reject_w_releases_witness:
  "bal (snd (reject_w exact w_config 103 ''no'' (Some 1) held_db)) (Some 7) ASSET USER_AVAILABLE =
     bal held_db (Some 7) ASSET USER_AVAILABLE + 600"
proof -
  let ?run = "reject_w exact w_config 103 ''no'' (Some 1) held_db"
  have ok: "case findById_w 103 held_db of None \<Rightarrow> False | Some w \<Rightarrow> rejectable w \<and> hold_txn w \<noteq> None \<and>
      w_user w = 7 \<and> w_amount w = 600" "\<not> posted_as ''crypto_withdrawal_release'' 103 held_db"
    "\<not> isl (fst ?run)" by code_simp+
  obtain dto t where run: "?run = (Inr dto, t)" using ok(3) by (rule run_Inr)
  obtain w where w: "findById_w 103 held_db = Some w" using found_103 by blast
  show ?thesis
    using reject_w_releases [OF held_db_state(1) w _ ok(2) run, of "Some 7" ASSET USER_AVAILABLE] ok(1) w run
    by simp
qed

text \<open>
  The admin who gave the second approval cannot reject the withdrawal any more: the row
  would name the same admin in both columns, the CHECK constraint refuses the update, and the
  caller gets an internal error while the withdrawal goes on.
\<close>

theorem reject_by_second_approver:
  assumes "withdrawals_inv cfg s" and "findById_w i s = Some w" and "rejectable w"
    and "approved_by2 w = Some a"
  shows "reject_w D cfg i reason (Some a) s = (Inl (DbCheckError ''crypto_withdrawals''), s)"
proof -
  obtain r t where 1: "reject_row i (Some a) reason s = (r, t)" by (cases "reject_row i (Some a) reason s")
  then have "r = Inl (DbCheckError ''crypto_withdrawals'')" "t = s"
    using reject_row_run [OF assms(1,2) 1] assms(3,4) by auto
  then show ?thesis using assms(2) 1 by (simp add: reject_w_def svc_simps)
qed

theorem reject_by_second_approver_witness:
  "isl (fst (reject_w exact w_config 103 ''no'' (Some 2) approved_db))"
proof -
  have ok: "case findById_w 103 approved_db of None \<Rightarrow> False | Some w \<Rightarrow> rejectable w \<and>
      approved_by2 w = Some 2" by code_simp
  obtain w where w: "findById_w 103 approved_db = Some w" using found_103 by blast
  show ?thesis
    using reject_by_second_approver [OF with_ledgerD(2) [OF held_db_state(2)] w] ok w by simp
qed

text \<open>
  A rejection whose release meets five write conflicts strands the money: the call fails
  with P2034 after the row was set to REJECTED, the amount stays locked, and from then on every
  further rejection reports success without releasing anything.
\<close>

theorem reject_conflicts_strand_funds:
  assumes "decimal_context D" and "withdrawal_state cfg s" and "findById_w i s = Some w"
    and "rejectable w" and "approved_by2 w \<noteq> Some a" and "hold_txn w \<noteq> None"
    and "0 < w_amount w" and "amounts_fit sc [w_amount w, w_amount w]"
    and "conflicts s = replicate 5 True"
  shows "\<exists>t. reject_w D cfg i reason (Some a) s = (Inl (PrismaError ''P2034''), t) \<and>
    findById_w i t = Some (rejected_row w a reason (now s)) \<and> bal t = bal s \<and>
    (\<forall>a' reason'. \<exists>dto. reject_w D cfg i reason' (Some a') t = (Inr dto, t))"
proof -
  note inv = with_ledgerD [OF assms(2)]
  obtain r1 s1 where 1: "reject_row i (Some a) reason s = (r1, s1)"
    by (cases "reject_row i (Some a) reason s")
  then have row: "r1 = Inr 1" "only_withdrawals s s1"
    "findById_w i s1 = Some (rejected_row w a reason (now s))"
    using reject_row_run [OF inv(2) assms(3) 1] assms(4,5) by auto
  let ?t = "s1\<lparr>conflicts := []\<rparr>"
  have "balanced_lines sc (post_lines (release_input w))"
    unfolding release_input_def using assms(7,8)
    by (simp add: balanced_move isUserAccount_def)
  then have "assertPostingBalanced D (release_input w) s1 = (Inr (), s1)"
    by (rule assertPostingBalanced_balanced [OF assms(1)])
  then have 2: "releaseHold D w s1 = (Inl (PrismaError ''P2034''), ?t)"
    using retry_conflicts [of D "release_input w" s1 5 "[]" 5] only_withdrawals_tables(3) [OF row(2)]
      assms(9) by (simp add: releaseHold_def throwS_apply)
  have run: "reject_w D cfg i reason (Some a) s = (Inl (PrismaError ''P2034''), ?t)"
    using assms(3,6) 1 2 row(1) by (auto simp: reject_w_def svc_simps)
  have found: "findById_w i ?t = Some (rejected_row w a reason (now s))"
    using row(3) by (simp add: findById_w_def)
  have "ledger_tables ?t = ledger_tables s"
    using only_withdrawals_tables(1) [OF row(2)] by (simp add: ledger_tables_def)
  then have "bal ?t = bal s" by (rule bal_tables)
  moreover have "withdrawals_inv cfg ?t"
    using preserves_run [OF state_reject assms(2) run] by (rule with_ledgerD)
  then have "reject_w D cfg i reason' (Some a') ?t =
      (Inr (toCryptoWithdrawalDto cfg (rejected_row w a reason (now s))), ?t)" for a' reason'
    using found by (rule rejected_again) (simp add: rejected_row_def)
  ultimately show ?thesis using run found by blast
qed

theorem reject_conflicts_strand_funds_witness:
  "\<exists>t. reject_w exact w_config 103 ''no'' (Some 1) (held_db\<lparr>conflicts := replicate 5 True\<rparr>) =
      (Inl (PrismaError ''P2034''), t) \<and> bal t = bal (held_db\<lparr>conflicts := replicate 5 True\<rparr>)"
proof -
  let ?s = "held_db\<lparr>conflicts := replicate 5 True\<rparr>"
  have ok: "case findById_w 103 held_db of None \<Rightarrow> False | Some w \<Rightarrow> rejectable w \<and> hold_txn w \<noteq> None \<and>
      approved_by2 w = None \<and> w_amount w = 600" by code_simp
  obtain w where w: "findById_w 103 held_db = Some w" using found_103 by blast
  have s: "withdrawal_state w_config ?s"
    by (rule withdrawal_state_write [OF held_db_state(1)]) (simp_all add: ledger_tables_def)
  have "findById_w 103 ?s = Some w" using w by (simp add: findById_w_def)
  from reject_conflicts_strand_funds [OF decimal_context_exact s this, of 1 2 "''no''"] show ?thesis
    using ok w by (auto simp: amounts_fit_def grid_def)
qed

definition revived_db :: db where
  "revived_db = snd (approve_w w_config 103 (Some 2)
     (snd (request_hold exact w_config 7 requested_row
       (snd (reject_w exact w_config 103 ''no'' (Some 1) requested_db)))))"

text \<open>
  A rejection that comes between writing the row and placing the hold is undone: the hold
  puts the row back to PENDING_APPROVAL, and the admin who rejected it now counts as its first
  approver, so a second admin alone approves the large withdrawal.
\<close>

theorem rejected_request_revives:
  "map_option w_status (findById_w 103 (snd (reject_w exact w_config 103 ''no'' (Some 1) requested_db))) =
     Some W_REJECTED \<and>
   map_option (\<lambda>w. (w_status w, w_amount w, approved_by w, approved_by2 w)) (findById_w 103 revived_db) =
     Some (APPROVED, 600, Some 1, Some 2) \<and> dual_threshold w_config \<le> 600"
  by code_simp

section \<open>Executing\<close>

lemma delta_final:
  "delta (post_lines (final_input w)) v b k = (if b = ASSET then
     (if v = Some (w_user w) \<and> k = USER_LOCKED then - w_amount w
      else if v = None \<and> k = HOT_WALLET then net_amount w
      else if v = None \<and> k = FEE_REVENUE then max 0 (w_fee w) else 0) else 0)"
  by (auto simp: final_input_def delta_def line_delta_def signed_amount_def)

text \<open>
  C16.  Finalizing takes the gross amount out of the locked balance, books the net amount to the
  hot wallet and the fee to the fee account.  It does so whatever has become of the row since the
  worker read it: the posting comes before the guarded update, so for a row that was failed and
  released meanwhile the call reports \<open>false\<close> and the money has moved all the same.
\<close>

theorem finalizeWithdrawal_pays:
  assumes "withdrawal_state cfg s" and "findById_w (w_id w) s = Some x" and "w_status w \<noteq> COMPLETED"
    and "\<not> posted_as ''crypto_withdrawal_final'' (w_id w) s"
    and "finalizeWithdrawal D w s = (Inr b, t)"
  shows "(b \<longleftrightarrow> w_status x \<in> {BROADCAST, CONFIRMING}) \<and>
    (\<exists>y. findById_w (w_id w) t = Some y \<and> w_status y = (if b then COMPLETED else w_status x)) \<and>
    bal t v as k = bal s v as k + (if as = ASSET then
      (if v = Some (w_user w) \<and> k = USER_LOCKED then - w_amount w
       else if v = None \<and> k = HOT_WALLET then net_amount w
       else if v = None \<and> k = FEE_REVENUE then max 0 (w_fee w) else 0) else 0)"
proof -
  note inv = with_ledgerD [OF assms(1)]
  obtain r1 s1 where 1: "finalizeLedger D w s = (r1, s1)" by (cases "finalizeLedger D w s")
  then obtain p where p: "r1 = Inr p"
    using assms(3,5) by (cases r1) (auto simp: finalizeWithdrawal_def svc_simps)
  have new: "\<not> already_posted (final_input w) s" using assms(4) by (simp add: posted_as_iff)
  have bal1: "bal s1 v as k = bal s v as k + delta (post_lines (final_input w)) v as k"
    using retried.success_moves [OF 1 [unfolded p finalizeLedger_def] inv(1)] new by simp
  have inv1: "withdrawal_state cfg s1" using preserves_run [OF state_movements(3) assms(1) 1] .
  have x1: "findById_w (w_id w) s1 = Some x"
    using retry_post_found(1) [OF 1 [unfolded finalizeLedger_def] inv(1)] assms(2) by simp
  obtain r2 s2 where 2: "markCompleted (w_id w) (posted_id p) s1 = (r2, s2)"
    by (cases "markCompleted (w_id w) (posted_id p) s1")
  let ?upd = "\<lambda>r. r\<lparr>w_status := COMPLETED, final_txn := Some (posted_id p), completed_at := Some (now s1)\<rparr>"
  have "updateMany_w (w_id w) (\<lambda>r. w_status r \<in> {BROADCAST, CONFIRMING}) ?upd s1 = (r2, s2)"
    using 2 by (simp add: markCompleted_def svc_simps)
  note m = updateMany_w_run [OF with_ledgerD(2) [OF inv1] x1 _ this]
  have chk: "withdrawal_checks (?upd x)"
    using found_row [OF with_ledgerD(2) [OF inv1] x1] by (simp add: w_ok_def)
  have t: "crypto_withdrawals t = crypto_withdrawals s2" "ledger_tables t = ledger_tables s2"
    "b \<longleftrightarrow> r2 = Inr 1"
    using assms(3,5) 1 2 p
    by (auto simp: finalizeWithdrawal_def svc_simps recordAudit_def notify_def ledger_tables_def
        split: sum.splits if_splits)
  have found: "findById_w j t = findById_w j s2" for j using t(1) by (simp add: findById_w_def)
  show ?thesis
  proof (cases "w_status x \<in> {BROADCAST, CONFIRMING}")
    case True
    then have "r2 = Inr 1" "only_withdrawals s1 s2"
      "findById_w (w_id w) s2 = Some (?upd x\<lparr>w_updated := now s1\<rparr>)"
      using m chk by auto
    then show ?thesis
      using True t found bal1 bal_tables [of t s1] only_withdrawals_tables(1) by (simp add: delta_final)
  next
    case False
    then have "r2 = Inr 0" "s2 = s1" using m by auto
    then show ?thesis
      using False t found x1 bal1 bal_tables [of t s1] by (simp add: delta_final)
  qed
qed

definition sent_db :: db where
  "sent_db = snd (setBroadcast 103 50 ''h'' 0 ''tx'' (snd (claimForBroadcast 103 approved_db)))"

lemma sent_db_state: "withdrawal_state w_config sent_db"
proof -
  let ?s = "snd (claimForBroadcast 103 approved_db)"
  have "fst (claimForBroadcast 103 approved_db) = Inr 1" by code_simp
  then have run: "claimForBroadcast 103 approved_db = (Inr 1, ?s)" by (simp add: prod_eq_iff)
  have "signing 103 ?s" by (rule claim_signs [OF run held_db_state(2)]) simp
  with preserves_run [OF state_claim held_db_state(2) run] show ?thesis
    unfolding sent_db_def by (intro state_setBroadcast [OF surjective_pairing])
qed

theorem finalizeWithdrawal_pays_witness:
  "\<exists>w t. findById_w 103 sent_db = Some w \<and> finalizeWithdrawal exact w sent_db = (Inr True, t) \<and>
     bal t None ASSET HOT_WALLET = bal sent_db None ASSET HOT_WALLET + 599"
proof -
  have ok: "case findById_w 103 sent_db of None \<Rightarrow> False | Some w \<Rightarrow> w_status w = BROADCAST \<and>
      net_amount w = 599 \<and> w_id w = 103 \<and> \<not> posted_as ''crypto_withdrawal_final'' 103 sent_db \<and>
      \<not> isl (fst (finalizeWithdrawal exact w sent_db))" by code_simp
  then obtain w where w: "findById_w 103 sent_db = Some w" "w_status w = BROADCAST" "net_amount w = 599"
    "w_id w = 103" "\<not> posted_as ''crypto_withdrawal_final'' 103 sent_db"
    "\<not> isl (fst (finalizeWithdrawal exact w sent_db))" by (auto split: option.splits)
  obtain b t where run: "finalizeWithdrawal exact w sent_db = (Inr b, t)" using w(6) by (rule run_Inr)
  from finalizeWithdrawal_pays [OF sent_db_state _ _ _ run, of w None ASSET HOT_WALLET] show ?thesis
    using w run by auto
qed

definition next_nonce :: "nat \<Rightarrow> db \<Rightarrow> nat" where
  "next_nonce hw s = (case wallet_nonces s hw of None \<Rightarrow> 0 | Some n \<Rightarrow> n)"

lemma allocateNonce_run:
  "allocateNonce hw s =
     (Inr (next_nonce hw s), s\<lparr>wallet_nonces := (wallet_nonces s)(hw \<mapsto> next_nonce hw s + 1)\<rparr>)"
  by (simp add: allocateNonce_def nonce_increment_def nonce_create_def svc_simps next_nonce_def
      fun_upd_def split: option.split)

text \<open>
  The nonces of a hot wallet are consecutive: \<open>k\<close> allocations, the first of which creates the
  row when there is none, return \<open>k\<close> different numbers without a gap, never fail, and change
  nothing but the counter.
\<close>

theorem allocateNonce_consecutive:
  "mapS (\<lambda>_. allocateNonce hw) (replicate (Suc k) x) s =
     (Inr [next_nonce hw s ..< next_nonce hw s + Suc k],
      s\<lparr>wallet_nonces := (wallet_nonces s)(hw \<mapsto> next_nonce hw s + Suc k)\<rparr>)"
proof (induction k arbitrary: s)
  case 0
  then show ?case by (simp add: svc_simps allocateNonce_run fun_upd_def)
next
  case (Suc k)
  let ?s = "s\<lparr>wallet_nonces := (wallet_nonces s)(hw \<mapsto> next_nonce hw s + 1)\<rparr>"
  have n: "next_nonce hw ?s = next_nonce hw s + 1" by (simp add: next_nonce_def)
  have "mapS (\<lambda>_. allocateNonce hw) (replicate (Suc (Suc k)) x) s =
      bindS (allocateNonce hw) (\<lambda>a. bindS (mapS (\<lambda>_. allocateNonce hw) (replicate (Suc k) x))
        (\<lambda>as. returnS (a # as))) s" by simp
  also have "\<dots> = (Inr (next_nonce hw s # [next_nonce hw s + 1 ..< next_nonce hw s + 1 + Suc k]),
      s\<lparr>wallet_nonces := (wallet_nonces s)(hw \<mapsto> next_nonce hw s + 1 + Suc k)\<rparr>)"
    unfolding bindS_apply allocateNonce_run prod.case sum.case Suc.IH n by (simp add: returnS_apply)
  finally show ?case by (simp add: upt_conv_Cons fun_upd_def)
qed

text \<open>
  Converting an amount to base units is exact: within the twenty digits of the decimal
  package it returns the integer \<open>amount * 10 ^ decimals\<close>, and it throws exactly when the amount has
  more decimals than the token.
\<close>

theorem humanToBase_exact:
  assumes "decimal_context D" and "d < 20" and "fits20 sc (amount * 10 ^ d)"
  shows "humanToBase D amount d =
      (if grid d amount then Inr \<lfloor>amount * 10 ^ d\<rfloor> else Inl (JsError ''precision'')) \<and>
    (grid d amount \<longrightarrow> of_int \<lfloor>amount * 10 ^ d\<rfloor> = amount * 10 ^ d)"
proof -
  have "(10 :: rat) ^ d < 10 ^ 20" by (rule power_strict_increasing [OF assms(2)]) simp
  then have "fits20 0 (10 ^ d)" by (simp add: fits20_def grid_def)
  then have ten: "D (10 ^ d) = 10 ^ d" by (rule decimal_exact [OF assms(1)])
  show ?thesis
    by (simp add: humanToBase_def dmul_def ten decimal_exact [OF assms(1,3)] grid_def)
qed

theorem humanToBase_exact_witness:
  "humanToBase exact (599 / 10) 6 = Inr 59900000"
  using humanToBase_exact [OF decimal_context_exact, of 6 0 "599 / 10"]
  by (simp add: fits20_def grid_def)

text \<open>A row that is not waiting for a signature, which nothing a worker does changes back.\<close>

definition claimed :: "nat \<Rightarrow> db \<Rightarrow> bool" where
  "claimed i s \<longleftrightarrow> (\<forall>r \<in> set (crypto_withdrawals s). w_id r = i \<longrightarrow> w_status r \<noteq> APPROVED)"

lemma claimed_frame: "ledger_frame (claimed i)"
  by (auto simp: ledger_frame_def claimed_def only_ledger_simps(6))

lemma claimed_keep:
  "with_ledger (claimed i) s \<Longrightarrow> ledger_tables t = ledger_tables s \<Longrightarrow>
     crypto_withdrawals t = crypto_withdrawals s \<Longrightarrow> next_uuid s \<le> next_uuid t \<Longrightarrow> with_ledger (claimed i) t"
  by (rule with_ledger_write) (auto simp: claimed_def dest: with_ledgerD)

lemma claimed_put:
  assumes "with_ledger (claimed i) s" and "\<And>x. w_id (upd x) = w_id x" and "\<And>x. w_status (upd x) \<noteq> APPROVED"
  shows "with_ledger (claimed i)
    (put_withdrawals (map (\<lambda>x. if w_id x = j \<and> c x then upd x else x) (crypto_withdrawals s)) s)"
  by (rule with_ledger_write [OF assms(1)])
    (use assms(2,3) with_ledgerD(2) [OF assms(1)] in \<open>auto simp: claimed_def\<close>)

lemma claimed_updates:
  assumes "\<And>x. w_id (upd x) = w_id x" and "\<And>x. w_status (upd x) \<noteq> APPROVED"
  shows "preserves (with_ledger (claimed i)) (update_w j upd)"
    and "preserves (with_ledger (claimed i)) (updateMany_w j c upd)"
proof -
  show "preserves (with_ledger (claimed i)) (update_w j upd)"
  proof (rule preservesI)
    fix s assume s: "with_ledger (claimed i) s"
    show "with_ledger (claimed i) (snd (update_w j upd s))"
      using update_w_spec [of j upd s, OF surjective_pairing] s
        claimed_put [OF s, of "\<lambda>x. upd x\<lparr>w_updated := now s\<rparr>" j "\<lambda>_. True"] assms by auto
  qed
  show "preserves (with_ledger (claimed i)) (updateMany_w j c upd)"
  proof (rule preservesI)
    fix s assume s: "with_ledger (claimed i) s"
    show "with_ledger (claimed i) (snd (updateMany_w j c upd s))"
      using claimed_put [OF s, of "\<lambda>x. upd x\<lparr>w_updated := now s\<rparr>" j c] s assms
      by (simp add: updateMany_w_def update_many_def svc_simps)
  qed
qed

lemma claimed_other:
  "preserves (with_ledger (claimed i)) (recordAudit aty a act ety e)"
  "preserves (with_ledger (claimed i)) (allocateNonce h)"
  "preserves (with_ledger (claimed i)) (releaseHold D w)"
  unfolding recordAudit_def releaseHold_def
  by (rule preserves_write, erule claimed_keep, simp_all add: ledger_tables_def)
    (rule preserves_allocateNonce, erule claimed_keep, simp_all add: ledger_tables_def,
     rule preserves_retry_post [OF claimed_frame])

lemma claimed_statements:
  "preserves (with_ledger (claimed i)) (setBroadcast j hw from nonce hash)"
  "preserves (with_ledger (claimed i)) (markFailed j reason)"
  unfolding setBroadcast_def markFailed_def
  by (intro preserves_intros claimed_updates, simp_all)+

lemma claimed_fail: "preserves (with_ledger (claimed i)) (failWithdrawal D w reason)"
  unfolding failWithdrawal_def by (intro preserves_intros claimed_statements claimed_other)

context withdrawal_signer
begin

lemma claimed_broadcast:
  "preserves (with_ledger (claimed i)) (broadcast_body D prov w)"
proof -
  have sign: "preserves (with_ledger (claimed i)) (signTransfer prov x)"
    "preserves (with_ledger (claimed i)) (broadcastTx prov ch h)" for x ch h
    by (rule keeps_any, erule claimed_keep, simp_all add: ledger_tables_def)+
  show ?thesis unfolding broadcast_body_def
    by (intro preserves_intros sign claimed_statements claimed_other)
qed

end

lemma claimed_unclaimable:
  assumes "claimed i s" shows "claimForBroadcast i s = (Inr 0, s)"
proof -
  have none: "filter (\<lambda>r. w_id r = i \<and> w_status r = APPROVED) (crypto_withdrawals s) = []"
    using assms by (auto simp: claimed_def filter_empty_conv)
  have "map (\<lambda>x. if w_id x = i \<and> w_status x = APPROVED then f x else x) (crypto_withdrawals s) =
      crypto_withdrawals s" for f
    using assms by (intro map_idI) (auto simp: claimed_def)
  then show ?thesis
    unfolding claimForBroadcast_def updateMany_w_def update_many_def
    using assms by (auto simp: svc_simps none claimed_def)
qed

lemma claim_claims:
  assumes "withdrawal_state cfg s" and "claimForBroadcast i s = (r, t)"
  shows "\<exists>n. r = Inr n" and "with_ledger (claimed i) t"
proof -
  note inv = with_ledgerD [OF assms(1)]
  have t: "ledger_inv t" "withdrawals_inv cfg t"
    using preserves_run [OF state_claim assms] by (auto dest: with_ledgerD)
  have "(\<exists>n. r = Inr n) \<and> (\<forall>x. findById_w i t = Some x \<longrightarrow> w_status x \<noteq> APPROVED)"
  proof (cases "findById_w i s")
    case None
    then have "claimed i s" by (auto simp: claimed_def findById_w_def find_None_iff)
    then have "(r, t) = (Inr 0, s)" using claimed_unclaimable [of i s] assms(2) by simp
    then show ?thesis using None by simp
  next
    case (Some x)
    have "withdrawal_checks (x\<lparr>w_status := SIGNING\<rparr>)" using found_row [OF inv(2) Some] by (simp add: w_ok_def)
    then show ?thesis
      using updateMany_w_run [OF inv(2) Some _ assms(2) [unfolded claimForBroadcast_def]] Some by auto
  qed
  then show "\<exists>n. r = Inr n" "with_ledger (claimed i) t"
    using t row_found [OF t(2)] by (auto simp: with_ledger_def claimed_def)
qed

text \<open>
  No withdrawal is signed twice: once one worker has taken a row, whatever came of it (sent,
  failed, or an error on the way), a second worker that still has the row as APPROVED finds that it
  cannot claim it and touches nothing.
\<close>

theorem broadcast_claims_once:
  assumes "withdrawal_signer prov" and "withdrawal_state cfg s"
    and "broadcastWithdrawal D prov w s = (r, t)" and "w_id w' = w_id w"
  shows "broadcastWithdrawal D prov' w' t = (Inr False, t)"
proof -
  obtain r1 s1 where 1: "claimForBroadcast (w_id w) s = (r1, s1)" by (cases "claimForBroadcast (w_id w) s")
  obtain n where n: "r1 = Inr n" using claim_claims(1) [OF assms(2) 1] by blast
  have c1: "with_ledger (claimed (w_id w)) s1" by (rule claim_claims(2) [OF assms(2) 1])
  have "preserves (with_ledger (claimed (w_id w))) (catchS (broadcast_body D prov w)
      (\<lambda>e. bindS (failWithdrawal D w ''broadcast_failed'') (\<lambda>_. returnS False)))"
    by (intro preserves_intros withdrawal_signer.claimed_broadcast [OF assms(1)] claimed_fail)
  from preserves_run [OF this c1] have "with_ledger (claimed (w_id w)) t"
    using assms(3) 1 n c1
    by (auto simp: broadcastWithdrawal_def bindS_apply returnS_apply split: if_splits)
  then show ?thesis
    using claimed_unclaimable [of "w_id w" t] assms(4)
    by (auto simp: broadcastWithdrawal_def svc_simps dest: with_ledgerD)
qed

theorem broadcast_claims_once_witness:
  "\<exists>r t. broadcastWithdrawal exact (mock_signer id) requested_row approved_db = (r, t) \<and>
     broadcastWithdrawal exact (mock_signer id) requested_row t = (Inr False, t)"
proof -
  obtain r t where run: "broadcastWithdrawal exact (mock_signer id) requested_row approved_db = (r, t)"
    by (cases "broadcastWithdrawal exact (mock_signer id) requested_row approved_db")
  then show ?thesis
    using broadcast_claims_once [OF mock.withdrawal_signer_axioms held_db_state(2) run refl] by blast
qed

end
