(* ===== verification/Conversion.thy ===== *)
theory Conversion
  imports Tables Paging
begin

text \<open>
  Instant conversion between INR and USDT against the platform's own liquidity:
  \<open>modules/conversion\<close>.  A quote fixes a rate (mid price and spread); the amounts computed from it
  are kept in Redis for as long as the quote lives.  Executing a quote checks the owner, an earlier
  execution, the expiry and the treasury, posts all legs as one ledger transaction under the id of
  the quote, and records the conversion.

  \<open>executeConversion\<close> is split where another call can come between: after the treasury check.
  A price provider is the function \<open>getMidPrice\<close> of \<open>PriceProvider\<close>; \<open>mock_getMidPrice\<close> is the one in
  the source.  The snapshot in Redis is the record itself, not its JSON text.
\<close>

section \<open>Configuration and data transfer objects\<close>

record conversion_config =
  live_prices :: bool
  mockUsdtInr :: rat
  cfg_spread_bps :: nat
  cfg_fee_bps :: nat
  cfg_tds_bps :: nat
  quoteTtlMs :: nat

definition INR_c :: string where "INR_c = ''INR''"
definition USDT_c :: string where "USDT_c = ''USDT''"

record quote_dto =
  qd_id :: nat
  qd_side :: conversion_side
  qd_rate :: rat
  qd_spread :: nat
  qd_expires :: nat
  qd_inr :: rat
  qd_usdt :: rat
  qd_fee :: rat
  qd_tds :: rat

record conversion_dto =
  cd_id :: nat
  cd_side :: conversion_side
  cd_inr :: rat
  cd_usdt :: rat
  cd_rate :: rat
  cd_fee :: rat
  cd_tds :: rat
  cd_created :: nat

section \<open>Prices and amounts\<close>

text \<open>
  \<open>computePlan\<close>: the amounts of both legs, rounded down to paise and micro-USDT.  The strings of
  the plan are the numbers \<open>toFixed\<close> prints.
\<close>

definition plan_buy :: "rounding \<Rightarrow> rat \<Rightarrow> rat \<Rightarrow> rat \<Rightarrow> conversion_plan" where
  "plan_buy D amount rate feeBps =
     (let inrAmount = floorTo amount 2;
          feeInr = floorTo (ddiv D (dmul D inrAmount feeBps) 10000) 2;
          netInr = dsub D inrAmount feeInr;
          usdtAmount = floorTo (ddiv D netInr rate) 6
      in \<lparr>plan_side = INR_TO_USDT, plan_rate = rate, plan_inr = toFixed inrAmount 2,
          plan_usdt = toFixed usdtAmount 6, plan_fee = toFixed feeInr 2, plan_tds = 0,
          plan_gross = toFixed inrAmount 2, liquidity_asset = USDT_c,
          liquidity_need = toFixed usdtAmount 6\<rparr>)"

definition plan_sell :: "rounding \<Rightarrow> rat \<Rightarrow> rat \<Rightarrow> rat \<Rightarrow> rat \<Rightarrow> conversion_plan" where
  "plan_sell D amount rate feeBps tdsBps =
     (let usdtAmount = floorTo amount 6;
          grossInr = floorTo (dmul D usdtAmount rate) 2;
          feeInr = floorTo (ddiv D (dmul D grossInr feeBps) 10000) 2;
          tdsAmount = floorTo (ddiv D (dmul D grossInr tdsBps) 10000) 2;
          inrAmount = dsub D (dsub D grossInr feeInr) tdsAmount
      in \<lparr>plan_side = USDT_TO_INR, plan_rate = rate, plan_inr = toFixed inrAmount 2,
          plan_usdt = toFixed usdtAmount 6, plan_fee = toFixed feeInr 2,
          plan_tds = toFixed tdsAmount 2, plan_gross = toFixed grossInr 2,
          liquidity_asset = INR_c, liquidity_need = toFixed grossInr 2\<rparr>)"

definition computePlan ::
  "rounding \<Rightarrow> conversion_side \<Rightarrow> rat \<Rightarrow> rat \<Rightarrow> nat \<Rightarrow> nat \<Rightarrow> conversion_plan" where
  "computePlan D side amount rate feeBps tdsBps =
     (case side of
        INR_TO_USDT \<Rightarrow> plan_buy D amount rate (of_nat feeBps)
      | USDT_TO_INR \<Rightarrow> plan_sell D amount rate (of_nat feeBps) (of_nat tdsBps))"

definition applySpread :: "rounding \<Rightarrow> rat \<Rightarrow> conversion_side \<Rightarrow> nat \<Rightarrow> rat" where
  "applySpread D mid side spreadBps =
     (let factor = ddiv D (of_nat spreadBps) 10000;
          rate = (case side of
            INR_TO_USDT \<Rightarrow> dmul D mid (dadd D 1 factor)
          | USDT_TO_INR \<Rightarrow> dmul D mid (dsub D 1 factor))
      in toFixed (floorTo rate 8) 8)"

definition toQuoteDto :: "price_quote \<Rightarrow> conversion_plan \<Rightarrow> quote_dto" where
  "toQuoteDto row plan =
     \<lparr>qd_id = quote_id row, qd_side = quote_side row, qd_rate = quote_rate row,
      qd_spread = spread_bps row, qd_expires = expires_at row, qd_inr = plan_inr plan,
      qd_usdt = plan_usdt plan, qd_fee = plan_fee plan, qd_tds = plan_tds plan\<rparr>"

definition toConversionDto :: "conversion \<Rightarrow> conversion_dto" where
  "toConversionDto row =
     \<lparr>cd_id = conv_id row, cd_side = conv_side row, cd_inr = toFixed (conv_inr row) 2,
      cd_usdt = toFixed (conv_usdt row) 6, cd_rate = conv_rate row,
      cd_fee = toFixed (conv_fee row) 2, cd_tds = toFixed (conv_tds row) 2,
      cd_created = conv_created row\<rparr>"

record mid_price =
  mid_base :: string
  mid_quote :: string
  mid_value :: rat

definition mock_getMidPrice :: "conversion_config \<Rightarrow> string \<Rightarrow> string \<Rightarrow> err + mid_price" where
  "mock_getMidPrice cfg b q =
     (let base = toUpperCase b; quote = toUpperCase q
      in if base = ''USDT'' \<and> quote = ''INR''
         then Inr \<lparr>mid_base = base, mid_quote = quote, mid_value = mockUsdtInr cfg\<rparr>
         else Inl (JsError ''price_not_available''))"

definition getPriceProvider :: "conversion_config \<Rightarrow> err + (string \<Rightarrow> string \<Rightarrow> err + mid_price)" where
  "getPriceProvider cfg =
     (if live_prices cfg then Inl (JsError ''not_implemented'') else Inr (mock_getMidPrice cfg))"

section \<open>Redis\<close>

text \<open>
  The keys \<open>conversion:quote:id\<close>; a key set with \<open>PX\<close> is gone when its time has passed.  A Redis
  that does not answer makes every command throw after its timeout.
\<close>

definition redis_find :: "nat \<Rightarrow> db \<Rightarrow> quote_snapshot option" where
  "redis_find i s =
     map_option (\<lambda>p. fst (snd p))
       (find (\<lambda>p. fst p = i \<and> now s < snd (snd p)) (quote_snapshots s))"

definition authRedis :: "(db, 'a) svc \<Rightarrow> (db, 'a) svc" where
  "authRedis command =
     bindS (readS redis_down) (\<lambda>down. if down then throwS ServiceUnavailableError else command)"

definition authRedisGet :: "nat \<Rightarrow> (db, quote_snapshot option) svc" where
  "authRedisGet i = authRedis (readS (redis_find i))"

definition authRedisGetDel :: "nat \<Rightarrow> (db, quote_snapshot option) svc" where
  "authRedisGetDel i =
     authRedis (bindS (readS (redis_find i)) (\<lambda>v.
     bindS (writeS (\<lambda>s. s\<lparr>quote_snapshots := filter (\<lambda>p. fst p \<noteq> i) (quote_snapshots s)\<rparr>)) (\<lambda>_.
     returnS v)))"

definition authRedisSet :: "nat \<Rightarrow> quote_snapshot \<Rightarrow> nat \<Rightarrow> (db, unit) svc" where
  "authRedisSet i v ttl =
     authRedis (writeS (\<lambda>s. s\<lparr>quote_snapshots :=
       filter (\<lambda>p. fst p \<noteq> i) (quote_snapshots s) @ [(i, v, now s + ttl)]\<rparr>))"

section \<open>The repository\<close>

definition findUserKyc_c :: "nat \<Rightarrow> db \<Rightarrow> user option" where
  "findUserKyc_c userId s = find (\<lambda>u. user_id u = userId) (users s)"

definition insertQuote :: "nat \<Rightarrow> conversion_side \<Rightarrow> rat \<Rightarrow> nat \<Rightarrow> nat \<Rightarrow> (db, price_quote) svc" where
  "insertQuote userId side rate spread expires =
     bindS fresh_uuid (\<lambda>i.
     let r = \<lparr>quote_id = i, quote_user = userId, quote_side = side, quote_rate = rate,
              spread_bps = spread, expires_at = expires\<rparr>
     in bindS (writeS (\<lambda>s. s\<lparr>price_quotes := price_quotes s @ [r]\<rparr>)) (\<lambda>_. returnS r))"

definition findQuoteById :: "nat \<Rightarrow> db \<Rightarrow> price_quote option" where
  "findQuoteById i s = find (\<lambda>q. quote_id q = i) (price_quotes s)"

definition findConversionByQuoteId :: "nat \<Rightarrow> db \<Rightarrow> conversion option" where
  "findConversionByQuoteId i s = find (\<lambda>c. conv_quote c = Some i) (conversions s)"

text \<open>CHECK constraint \<open>conversions_amount_chk\<close>.  There is no unique index on the quote.\<close>

definition conversion_checks :: "conversion \<Rightarrow> bool" where
  "conversion_checks r \<longleftrightarrow> 0 < conv_inr r \<and> 0 < conv_usdt r"

definition createConversion :: "nat \<Rightarrow> nat \<Rightarrow> conversion_plan \<Rightarrow> nat \<Rightarrow> (db, conversion) svc" where
  "createConversion userId quoteId plan txn =
     bindS fresh_uuid (\<lambda>i.
     bindS (readS now) (\<lambda>t.
     let r = \<lparr>conv_id = i, conv_user = userId, conv_quote = Some quoteId,
              conv_side = plan_side plan, conv_inr = plan_inr plan, conv_usdt = plan_usdt plan,
              conv_rate = plan_rate plan, conv_fee = plan_fee plan, conv_tds = plan_tds plan,
              conv_txn = Some txn, conv_created = t\<rparr>
     in bindS (requireS (conversion_checks r) (DbCheckError ''conversions_amount_chk'')) (\<lambda>_.
        bindS (writeS (\<lambda>s. s\<lparr>conversions := conversions s @ [r]\<rparr>)) (\<lambda>_. returnS r))))"

definition listUserConversions ::
  "nat \<Rightarrow> conversion_side option \<Rightarrow> nat option \<Rightarrow> nat \<Rightarrow> db \<Rightarrow> conversion list" where
  "listUserConversions userId side cursor limit s =
     find_page conv_id (filter (\<lambda>c. conv_user c = userId \<and>
       (side = None \<or> side = Some (conv_side c))) (conversions s)) cursor limit"

definition adminListConversions ::
  "conversion_side option \<Rightarrow> nat option \<Rightarrow> nat option \<Rightarrow> nat \<Rightarrow> db \<Rightarrow> conversion list" where
  "adminListConversions side userId cursor limit s =
     find_page conv_id (filter (\<lambda>c. (side = None \<or> side = Some (conv_side c)) \<and>
       (userId = None \<or> userId = Some (conv_user c))) (conversions s)) cursor limit"

definition systemAccountBalance :: "account_kind \<Rightarrow> string \<Rightarrow> db \<Rightarrow> rat" where
  "systemAccountBalance kind asset s =
     (case find (\<lambda>a. acc_kind a = kind \<and> acc_user a = None \<and> acc_asset a = asset) (accounts s) of
        None \<Rightarrow> 0
      | Some a \<Rightarrow> bal_of s (acc_id a))"

section \<open>Quotes\<close>

definition assertKycApproved_c :: "nat \<Rightarrow> (db, unit) svc" where
  "assertKycApproved_c userId =
     bindS (readS (findUserKyc_c userId)) (\<lambda>found.
     case found of
       None \<Rightarrow> throwS not_found
     | Some u \<Rightarrow>
         bindS (requireS (\<not> user_status u \<noteq> USER_ACTIVE) (ForbiddenError ''ACCOUNT_INACTIVE'')) (\<lambda>_.
         requireS (\<not> (kyc_status u \<noteq> KYC_APPROVED \<or> kyc_tier u < 1)) (ForbiddenError ''KYC_REQUIRED'')))"

definition createQuote ::
  "rounding \<Rightarrow> conversion_config \<Rightarrow> nat \<Rightarrow> conversion_side \<Rightarrow> rat \<Rightarrow> (db, quote_dto) svc" where
  "createQuote D cfg userId side amount =
     bindS (assertKycApproved_c userId) (\<lambda>_.
     case getPriceProvider cfg of
       Inl e \<Rightarrow> throwS e
     | Inr provider \<Rightarrow>
     (case provider USDT_c INR_c of
       Inl e \<Rightarrow> throwS e
     | Inr mid \<Rightarrow>
       let rate = applySpread D (mid_value mid) side (cfg_spread_bps cfg);
           plan = computePlan D side amount rate (cfg_fee_bps cfg) (cfg_tds_bps cfg)
       in bindS (requireS (\<not> (plan_usdt plan \<le> 0 \<or> plan_inr plan \<le> 0))
            (AppError 422 ''AMOUNT_TOO_SMALL'')) (\<lambda>_.
          bindS (readS now) (\<lambda>t.
          bindS (insertQuote userId side rate (cfg_spread_bps cfg) (t + quoteTtlMs cfg)) (\<lambda>quote.
          bindS (authRedisSet (quote_id quote)
            \<lparr>snap_quote = quote_id quote, snap_user = userId, snap_plan = plan\<rparr> (quoteTtlMs cfg)) (\<lambda>_.
          bindS (recordAudit ACTOR_USER (Some userId) ''conversion.quote_created''
            (Some ''price_quote'') (Some (quote_id quote))) (\<lambda>_.
          returnS (toQuoteDto quote plan))))))))"

section \<open>Executing\<close>

text \<open>The legs of a conversion.\<close>

definition leg :: "nat option \<Rightarrow> string \<Rightarrow> account_kind \<Rightarrow> entry_direction \<Rightarrow> rat \<Rightarrow> posting_line" where
  "leg u asset kind dir amount =
     \<lparr>line_user = u, line_asset = asset, line_kind = kind, line_direction = dir, line_amount = amount\<rparr>"

definition buildLines :: "rounding \<Rightarrow> nat \<Rightarrow> conversion_plan \<Rightarrow> posting_line list" where
  "buildLines D userId plan =
     (let feePositive = 0 < plan_fee plan; tdsPositive = 0 < plan_tds plan
      in if plan_side plan = INR_TO_USDT then
           (let netInr = toFixed (dsub D (plan_inr plan) (plan_fee plan)) 2
            in [leg (Some userId) INR_c USER_AVAILABLE DEBIT (plan_inr plan),
                leg None INR_c LIQUIDITY CREDIT netInr]
               @ (if feePositive then [leg None INR_c FEE_REVENUE CREDIT (plan_fee plan)] else [])
               @ [leg None USDT_c LIQUIDITY DEBIT (plan_usdt plan),
                  leg (Some userId) USDT_c USER_AVAILABLE CREDIT (plan_usdt plan)])
         else
           [leg (Some userId) USDT_c USER_AVAILABLE DEBIT (plan_usdt plan),
            leg None USDT_c LIQUIDITY CREDIT (plan_usdt plan),
            leg None INR_c LIQUIDITY DEBIT (plan_gross plan),
            leg (Some userId) INR_c USER_AVAILABLE CREDIT (plan_inr plan)]
           @ (if feePositive then [leg None INR_c FEE_REVENUE CREDIT (plan_fee plan)] else [])
           @ (if tdsPositive then [leg None INR_c TDS_PAYABLE CREDIT (plan_tds plan)] else []))"

definition conversion_input :: "rounding \<Rightarrow> nat \<Rightarrow> nat \<Rightarrow> conversion_plan \<Rightarrow> posting_input" where
  "conversion_input D userId quoteId plan =
     \<lparr>post_kind = ''CONVERSION'', post_reference_type = Some ''conversion'',
      post_reference_id = Some quoteId, post_lines = buildLines D userId plan\<rparr>"

definition auditExpiry :: "nat \<Rightarrow> nat \<Rightarrow> (db, unit) svc" where
  "auditExpiry userId quoteId =
     recordAudit ACTOR_USER (Some userId) ''conversion.quote_expired'' (Some ''price_quote'') (Some quoteId)"

definition quote_expired :: "nat \<Rightarrow> nat \<Rightarrow> (db, 'a) svc" where
  "quote_expired userId quoteId =
     bindS (auditExpiry userId quoteId) (\<lambda>_. throwS (AppError 422 ''QUOTE_EXPIRED''))"

datatype execution = Converted conversion_dto | Priced conversion_plan

text \<open>\<open>executeConversion\<close> up to the treasury check.\<close>

definition execute_check :: "nat \<Rightarrow> nat \<Rightarrow> (db, execution) svc" where
  "execute_check userId quoteId =
     bindS (assertKycApproved_c userId) (\<lambda>_.
     bindS (readS (findQuoteById quoteId)) (\<lambda>quote.
     case quote of
       None \<Rightarrow> throwS (NotFoundError ''QUOTE_NOT_FOUND'')
     | Some q \<Rightarrow>
     if quote_user q \<noteq> userId then throwS (NotFoundError ''QUOTE_NOT_FOUND'')
     else
       bindS (readS (findConversionByQuoteId quoteId)) (\<lambda>existing.
       case existing of
         Some c \<Rightarrow> returnS (Converted (toConversionDto c))
       | None \<Rightarrow>
         bindS (readS now) (\<lambda>t.
         if expires_at q \<le> t then quote_expired userId quoteId
         else
           bindS (authRedisGet quoteId) (\<lambda>raw.
           case raw of
             None \<Rightarrow> quote_expired userId quoteId
           | Some snapshot \<Rightarrow>
             if snap_user snapshot \<noteq> userId then throwS (NotFoundError ''QUOTE_NOT_FOUND'')
             else
               let plan = snap_plan snapshot
               in bindS (readS (systemAccountBalance LIQUIDITY (liquidity_asset plan))) (\<lambda>liquidity.
                  bindS (requireS (\<not> liquidity < liquidity_need plan)
                    (AppError 503 ''INSUFFICIENT_LIQUIDITY'')) (\<lambda>_.
                  returnS (Priced plan))))))))"

text \<open>The rest of it: settle, record, consume the snapshot.\<close>

definition execute_settle :: "rounding \<Rightarrow> nat \<Rightarrow> nat \<Rightarrow> conversion_plan \<Rightarrow> (db, conversion_dto) svc" where
  "execute_settle D userId quoteId plan =
     bindS (retry_post (post D (conversion_input D userId quoteId plan) (Some userId))) (\<lambda>posted.
     bindS (createConversion userId quoteId plan (posted_id posted)) (\<lambda>conversion.
     bindS (catchS (authRedisGetDel quoteId) (\<lambda>e. returnS None)) (\<lambda>_.
     bindS (recordAudit ACTOR_USER (Some userId) ''conversion.executed'' (Some ''conversion'')
       (Some (conv_id conversion))) (\<lambda>_.
     returnS (toConversionDto conversion)))))"

definition executeConversion :: "rounding \<Rightarrow> nat \<Rightarrow> nat \<Rightarrow> (db, conversion_dto) svc" where
  "executeConversion D userId quoteId =
     bindS (execute_check userId quoteId) (\<lambda>x.
     case x of
       Converted dto \<Rightarrow> returnS dto
     | Priced plan \<Rightarrow> execute_settle D userId quoteId plan)"

section \<open>Listings\<close>

definition conversion_page :: "conversion list \<Rightarrow> nat \<Rightarrow> conversion_dto list \<times> nat option" where
  "conversion_page rows limit =
     (let (slice, nextCursor) = page_last conv_id rows limit
      in (map toConversionDto slice, nextCursor))"

definition listHistory ::
  "nat \<Rightarrow> conversion_side option \<Rightarrow> nat option \<Rightarrow> nat \<Rightarrow> (db, conversion_dto list \<times> nat option) svc" where
  "listHistory userId side cursor limit =
     readS (\<lambda>s. conversion_page (listUserConversions userId side cursor limit s) limit)"

definition adminList_c ::
  "conversion_side option \<Rightarrow> nat option \<Rightarrow> nat option \<Rightarrow> nat \<Rightarrow> nat option \<Rightarrow>
    (db, conversion_dto list \<times> nat option) svc" where
  "adminList_c side userId cursor limit actorId =
     bindS (readS (adminListConversions side userId cursor limit)) (\<lambda>rows.
     let result = conversion_page rows limit
     in bindS (recordAudit ACTOR_ADMIN actorId ''conversion.admin_list'' (Some ''conversion_queue'') None) (\<lambda>_.
        bindS (case actorId of
            None \<Rightarrow> returnS ()
          | Some a \<Rightarrow> writeAdminLog a ''conversion.admin_list'' (Some ''conversion_queue'') None) (\<lambda>_.
        returnS result)))"

section \<open>Evaluation\<close>

lemma run_execution:
  "(case x of Converted a \<Rightarrow> m a | Priced b \<Rightarrow> f b) s = (case x of Converted a \<Rightarrow> m a s | Priced b \<Rightarrow> f b s)"
  by (cases x) simp_all

text \<open>A local definition is computed before the rest of its scope is unfolded.\<close>

lemma let_case: "Let e f = (case (e, ()) of (a, u) \<Rightarrow> f a)"
  by simp

lemmas amounts_code [code] =
  plan_buy_def [unfolded let_case] plan_sell_def [unfolded let_case] applySpread_def [unfolded let_case]

lemmas conversion_code [code] =
  fun_cong [OF authRedis_def, unfolded run_code]
  fun_cong [OF authRedisGet_def, unfolded run_code]
  fun_cong [OF authRedisGetDel_def, unfolded run_code]
  fun_cong [OF authRedisSet_def, unfolded run_code]
  fun_cong [OF insertQuote_def, unfolded run_code let_case]
  fun_cong [OF createConversion_def, unfolded run_code let_case]
  fun_cong [OF assertKycApproved_c_def, unfolded run_code]
  fun_cong [OF createQuote_def, unfolded run_code let_case]
  fun_cong [OF auditExpiry_def, unfolded run_code]
  fun_cong [OF quote_expired_def, unfolded run_code]
  fun_cong [OF execute_check_def, unfolded run_code let_case]
  fun_cong [OF execute_settle_def, unfolded run_code]
  fun_cong [OF executeConversion_def, unfolded run_code run_execution]
  fun_cong [OF listHistory_def, unfolded run_code]
  fun_cong [OF adminList_c_def, unfolded run_code]

end
