(* ===== verification/Conversion_Properties.thy ===== *)
theory Conversion_Properties
  imports Conversion
begin

text \<open>
  The properties of instant conversion: the arithmetic of rates and amounts, the settlement of a
  quote and its single use, and what two calls at the same time can do.
\<close>

section \<open>Rounding bounds\<close>

lemma decimal_le: "decimal_context D \<Longrightarrow> 0 \<le> x \<Longrightarrow> D x \<le> x * (1 + 1 / 10 ^ 19)"
proof -
  assume "decimal_context D" "0 \<le> x"
  then have "D x - x \<le> x / 10 ^ 19" using decimal_error [of D x] by (simp only: abs_le_iff abs_of_nonneg)
  then show ?thesis by (simp only: distrib_left mult_1_right times_divide_eq_right)
qed

text \<open>A share of a paise amount, in basis points up to the whole, stays below the amount.\<close>

lemma share_bounds:
  assumes D: "decimal_context D" and x: "grid 2 x" "0 \<le> x" "x < 10 ^ 13" and b: "b \<le> 10000"
  shows "0 \<le> floorTo (ddiv D (dmul D x (of_nat b)) 10000) 2"
    and "floorTo (ddiv D (dmul D x (of_nat b)) 10000) 2 \<le> x"
    and "grid 2 (floorTo (ddiv D (dmul D x (of_nat b)) 10000) 2)"
proof -
  have "grid 2 (x * 10000)" using grid_mult [of 2 x 0 10000] x(1) by (simp add: grid_def)
  then have fit: "fits20 2 (x * 10000)" "fits20 2 x" using x by (auto simp: fits20_def)
  have le: "x * of_nat b \<le> x * 10000" using b x(2) by (intro mult_left_mono) simp_all
  have "D (x * of_nat b) \<le> x * 10000" using decimal_mono [OF D le] decimal_exact [OF D fit(1)] by simp
  then have "D (x * of_nat b) / 10000 \<le> x" by simp
  from decimal_mono [OF D this] have up: "D (D (x * of_nat b) / 10000) \<le> x"
    using decimal_exact [OF D fit(2)] by simp
  have low: "0 \<le> D (D (x * of_nat b) / 10000)"
    using x(2) by (intro decimal_nonneg [OF D] divide_nonneg_nonneg mult_nonneg_nonneg) simp_all
  show "0 \<le> floorTo (ddiv D (dmul D x (of_nat b)) 10000) 2"
    using low by (simp add: ddiv_def dmul_def)
  show "floorTo (ddiv D (dmul D x (of_nat b)) 10000) 2 \<le> x"
    using order_trans [OF floorTo_le [OF low] up] by (simp add: ddiv_def dmul_def)
  show "grid 2 (floorTo (ddiv D (dmul D x (of_nat b)) 10000) 2)" by (rule grid_floorTo)
qed

lemma toFixed_floorTo [simp]: "toFixed (floorTo x s) s = floorTo x s"
  by (rule toFixed_grid) (rule grid_floorTo)

lemma buy_plan:
  assumes D: "decimal_context D" and x: "0 \<le> x" "x < 10 ^ 13" and b: "fee \<le> 10000"
    and p: "p = computePlan D INR_TO_USDT x rate fee tds"
  shows "plan_side p = INR_TO_USDT" "plan_inr p = floorTo x 2" "plan_gross p = plan_inr p"
    "plan_tds p = 0" "grid 2 (plan_inr p)" "grid 2 (plan_fee p)" "0 \<le> plan_fee p"
    "plan_fee p \<le> plan_inr p" "dsub D (plan_inr p) (plan_fee p) = plan_inr p - plan_fee p"
    "plan_usdt p = floorTo (D ((plan_inr p - plan_fee p) / rate)) 6"
    "liquidity_asset p = USDT_c" "liquidity_need p = plan_usdt p"
proof -
  have f: "grid 2 (floorTo x 2)" "0 \<le> floorTo x 2" "floorTo x 2 < 10 ^ 13"
    using x floorTo_le [OF x(1), of 2] by (auto intro: grid_floorTo)
  note s = share_bounds [OF D f b]
  have inr: "plan_inr p = floorTo x 2"
    and fee: "plan_fee p = floorTo (ddiv D (dmul D (floorTo x 2) (of_nat fee)) 10000) 2"
    by (simp_all add: p computePlan_def plan_buy_def Let_def)
  show "plan_side p = INR_TO_USDT" "plan_inr p = floorTo x 2" "plan_gross p = plan_inr p" "plan_tds p = 0"
    "liquidity_asset p = USDT_c" "liquidity_need p = plan_usdt p"
    by (simp_all add: p computePlan_def plan_buy_def Let_def)
  show "grid 2 (plan_inr p)" "grid 2 (plan_fee p)" "0 \<le> plan_fee p" "plan_fee p \<le> plan_inr p"
    using f s by (simp_all add: inr fee)
  have "fits20 2 (plan_inr p)" using f by (simp add: inr fits20_def)
  then show net: "dsub D (plan_inr p) (plan_fee p) = plan_inr p - plan_fee p"
    by (rule dsub_exact [OF D]) (use s in \<open>simp_all add: inr fee\<close>)
  show "plan_usdt p = floorTo (D ((plan_inr p - plan_fee p) / rate)) 6"
    unfolding net [symmetric] unfolding inr fee
    by (simp add: p computePlan_def plan_buy_def Let_def ddiv_def)
qed

lemma sell_plan:
  assumes D: "decimal_context D" and x: "0 \<le> x" and rate: "0 \<le> rate"
    and g: "plan_gross p < 10 ^ 13" and b: "fee \<le> 10000" "tds \<le> 10000"
    and p: "p = computePlan D USDT_TO_INR x rate fee tds"
  shows "plan_side p = USDT_TO_INR" "plan_usdt p = floorTo x 6"
    "plan_gross p = floorTo (D (plan_usdt p * rate)) 2" "grid 2 (plan_gross p)"
    "grid 2 (plan_fee p)" "grid 2 (plan_tds p)" "grid 2 (plan_inr p)"
    "0 \<le> plan_fee p" "0 \<le> plan_tds p" "0 \<le> plan_gross p"
    "plan_inr p = plan_gross p - plan_fee p - plan_tds p"
    "liquidity_asset p = INR_c" "liquidity_need p = plan_gross p"
proof -
  let ?u = "floorTo x 6" let ?g = "floorTo (D (?u * rate)) 2"
  let ?f = "floorTo (ddiv D (dmul D ?g (of_nat fee)) 10000) 2"
  let ?t = "floorTo (ddiv D (dmul D ?g (of_nat tds)) 10000) 2"
  have gross: "plan_gross p = ?g" by (simp add: p computePlan_def plan_sell_def Let_def dmul_def)
  have "0 \<le> D (?u * rate)" using x rate by (intro decimal_nonneg [OF D] mult_nonneg_nonneg) simp_all
  then have g': "grid 2 ?g" "0 \<le> ?g" "?g < 10 ^ 13" using g gross by (auto intro: grid_floorTo)
  note f = share_bounds [OF D g' b(1)] and t = share_bounds [OF D g' b(2)]
  have fit: "fits20 2 ?g" using g' by (simp add: fits20_def)
  have 1: "dsub D ?g ?f = ?g - ?f" by (rule dsub_exact [OF D fit f(3,1,2)])
  have "fits20 2 (?g - ?f - ?t)"
    by (rule fits20_mono [OF fit]) (use f t g' in \<open>auto intro!: grid_diff simp: abs_le_iff\<close>)
  then have 2: "dsub D (?g - ?f) ?t = ?g - ?f - ?t" by (simp add: dsub_def decimal_exact [OF D])
  have gi: "grid 2 (?g - ?f - ?t)" using f t g' by (intro grid_diff)
  have fee: "plan_fee p = ?f" and tax: "plan_tds p = ?t"
    by (simp_all add: p computePlan_def plan_sell_def Let_def dmul_def)
  have inr: "plan_inr p = ?g - ?f - ?t"
    using 1 2 toFixed_grid [OF gi] by (simp add: p computePlan_def plan_sell_def Let_def dmul_def)
  show "plan_side p = USDT_TO_INR" "plan_usdt p = floorTo x 6"
    "liquidity_asset p = INR_c" "liquidity_need p = plan_gross p"
    by (simp_all add: p computePlan_def plan_sell_def Let_def)
  then show "plan_gross p = floorTo (D (plan_usdt p * rate)) 2" using gross by simp
  show "grid 2 (plan_gross p)" "grid 2 (plan_fee p)" "grid 2 (plan_tds p)" "grid 2 (plan_inr p)"
    "0 \<le> plan_fee p" "0 \<le> plan_tds p" "0 \<le> plan_gross p"
    "plan_inr p = plan_gross p - plan_fee p - plan_tds p"
    using f t g' gi by (simp_all add: gross fee tax inr)
qed

section \<open>Rates and amounts\<close>

lemma applySpread_bounds:
  assumes "decimal_context D" and "0 \<le> mid" and "b \<le> b'" and "b' \<le> 10000"
  shows "0 \<le> applySpread D mid USDT_TO_INR b \<and>
    applySpread D mid USDT_TO_INR b \<le> applySpread D mid INR_TO_USDT b \<and>
    applySpread D mid INR_TO_USDT b \<le> applySpread D mid INR_TO_USDT b' \<and>
    applySpread D mid USDT_TO_INR b' \<le> applySpread D mid USDT_TO_INR b"
proof -
  note mono = decimal_mono [OF assms(1)] and nonneg = decimal_nonneg [OF assms(1)]
  have one: "D 1 = 1" by (rule decimal_exact [OF assms(1), of 0]) (simp add: fits20_def grid_def)
  let ?f = "\<lambda>b :: nat. D (of_nat b / 10000)"
  have f: "0 \<le> ?f b" "?f b \<le> ?f b'" "?f b' \<le> 1"
  proof -
    show "0 \<le> ?f b" by (rule nonneg) simp
    show "?f b \<le> ?f b'" by (rule mono) (use assms(3) in \<open>simp add: divide_right_mono\<close>)
    have "?f b' \<le> D 1" by (rule mono) (use assms(4) in simp)
    then show "?f b' \<le> 1" by (simp add: one)
  qed
  have sell: "0 \<le> D (1 - ?f b')" "D (1 - ?f b') \<le> D (1 - ?f b)" "D (1 - ?f b) \<le> D (1 + ?f b)"
    "D (1 + ?f b) \<le> D (1 + ?f b')"
    using f by (auto intro!: mono nonneg)
  have step: "floorTo (D (mid * x)) 8 \<le> floorTo (D (mid * y)) 8" if "0 \<le> x" "x \<le> y" for x y
    using that assms(2) by (intro floorTo_mono mono mult_left_mono nonneg mult_nonneg_nonneg)
  have low: "0 \<le> D (1 - ?f b)" using sell by (auto intro: order_trans)
  show ?thesis
    using step [OF sell(1,2)] step [OF low sell(3)] step [OF order_trans [OF low sell(3)] sell(4)]
      floorTo_nonneg [OF nonneg [OF mult_nonneg_nonneg [OF assms(2) low]], of 8]
    by (simp add: applySpread_def Let_def ddiv_def dmul_def dadd_def dsub_def)
qed

lemma applySpread_nonneg:
  assumes "decimal_context D" and "0 \<le> mid" and "b \<le> 10000"
  shows "0 \<le> applySpread D mid USDT_TO_INR b" and "0 \<le> applySpread D mid INR_TO_USDT b"
  using applySpread_bounds [OF assms(1,2) order_refl assms(3)] by (auto intro: order_trans)

text \<open>
  The spread always works for the platform: the rate for buying USDT is never below the rate
  for selling it, and a larger spread raises the one and lowers the other.
\<close>

theorem applySpread_order:
  assumes "decimal_context D" and "0 \<le> mid" and "b \<le> b'" and "b' \<le> 10000"
  shows "0 \<le> applySpread D mid USDT_TO_INR b \<and>
    applySpread D mid USDT_TO_INR b \<le> applySpread D mid INR_TO_USDT b \<and>
    applySpread D mid INR_TO_USDT b \<le> applySpread D mid INR_TO_USDT b' \<and>
    applySpread D mid USDT_TO_INR b' \<le> applySpread D mid USDT_TO_INR b"
  using assms by (rule applySpread_bounds)

theorem applySpread_order_witness:
  "applySpread exact 90 USDT_TO_INR 50 \<le> applySpread exact 90 INR_TO_USDT 50"
  using applySpread_order [OF decimal_context_exact, of 90 50 50] by simp

lemma grid_le_between:
  assumes "grid s x" and "grid s y" and "x < y + 1 / 10 ^ s" shows "x \<le> y"
proof (rule ccontr)
  assume "\<not> x \<le> y"
  then have "1 / 10 ^ s \<le> x - y" using grid_pos_ge [OF grid_diff [OF assms(1,2)]] by simp
  then show False using assms(3) by simp
qed

text \<open>
  C18.  No money from rounding: a user who buys USDT for INR and sells all of it back at the quotes
  of the same moment never gets back more than was converted, the payment less the fee.
\<close>

theorem conversion_round_trip:
  assumes D: "decimal_context D" and x: "0 \<le> x" "x < 10 ^ 13" and mid: "0 \<le> mid"
    and b: "spread \<le> 10000" "fee \<le> 10000" "tds \<le> 10000"
    and buy: "buy = computePlan D INR_TO_USDT x (applySpread D mid INR_TO_USDT spread) fee tds"
    and sell: "sell = computePlan D USDT_TO_INR (plan_usdt buy) (applySpread D mid USDT_TO_INR spread) fee tds"
    and g: "plan_gross sell < 10 ^ 13"
  shows "plan_inr sell \<le> plan_inr buy - plan_fee buy"
proof -
  let ?rb = "applySpread D mid INR_TO_USDT spread" let ?rs = "applySpread D mid USDT_TO_INR spread"
  have rates: "0 \<le> ?rs" "?rs \<le> ?rb" using applySpread_bounds [OF D mid order_refl b(1)] by simp_all
  note B = buy_plan [OF D x b(2) buy]
  let ?net = "plan_inr buy - plan_fee buy"
  have net: "0 \<le> ?net" "grid 2 ?net" "?net < 10 ^ 13"
    using B floorTo_le [OF x(1), of 2] x(2) by (auto intro: grid_diff)
  have q: "0 \<le> ?net / ?rb" using net rates by simp
  let ?e = "1 + 1 / 10 ^ 19 :: rat"
  have e: "1 \<le> ?e" by simp
  have u0: "0 \<le> D (?net / ?rb)" by (rule decimal_nonneg [OF D q])
  then have u: "0 \<le> plan_usdt buy" "plan_usdt buy \<le> ?net / ?rb * ?e"
    using B(10) floorTo_le [OF u0, of 6] decimal_le [OF D q] by auto
  note S = sell_plan [OF D u(1) rates(1) g b(2,3) sell]
  have "grid 6 (plan_usdt buy)" by (simp add: B(10) grid_floorTo)
  then have us: "plan_usdt sell = plan_usdt buy" by (simp add: S(2) floorTo_grid)
  have prod: "0 \<le> plan_usdt buy * ?rs" using u rates by simp
  have "plan_usdt buy * ?rs \<le> ?net / ?rb * ?e * ?rb"
    using u rates e q by (intro mult_mono) simp_all
  also have "\<dots> \<le> ?net * ?e" using net(1) e by (cases "?rb = 0") simp_all
  finally have v: "plan_usdt buy * ?rs \<le> ?net * ?e" .
  have "plan_gross sell \<le> D (plan_usdt buy * ?rs)"
    unfolding S(3) us by (rule floorTo_le [OF decimal_nonneg [OF D prod]])
  also have "\<dots> \<le> plan_usdt buy * ?rs * ?e" by (rule decimal_le [OF D prod])
  also have "\<dots> \<le> ?net * ?e * ?e" using v e by (intro mult_right_mono) simp_all
  also have "\<dots> < ?net + 1 / 10 ^ 2" using net(1,3) by simp
  finally have "plan_gross sell \<le> ?net" by (rule grid_le_between [OF S(4) net(2)])
  then show ?thesis using S(8,9,11) by simp
qed

theorem conversion_round_trip_witness:
  "plan_inr (computePlan exact USDT_TO_INR
      (plan_usdt (computePlan exact INR_TO_USDT 1000 (applySpread exact 90 INR_TO_USDT 50) 20 100))
      (applySpread exact 90 USDT_TO_INR 50) 20 100) \<le> 998"
proof -
  let ?b = "computePlan exact INR_TO_USDT 1000 (applySpread exact 90 INR_TO_USDT 50) 20 100"
  have "plan_inr ?b - plan_fee ?b = 998" "plan_gross (computePlan exact USDT_TO_INR (plan_usdt ?b)
    (applySpread exact 90 USDT_TO_INR 50) 20 100) < 10 ^ 13" by code_simp+
  with conversion_round_trip [OF decimal_context_exact, of 1000 90 50 20 100 ?b, OF _ _ _ _ _ _ refl refl]
  show ?thesis by simp
qed

lemma lines_balanced:
  assumes D: "decimal_context D" and x: "0 \<le> x" "x < 10 ^ 13" and rate: "0 \<le> rate"
    and b: "fee \<le> 10000" "tds \<le> 10000" and p: "p = computePlan D side x rate fee tds"
    and pos: "0 < plan_inr p" "0 < plan_usdt p" and fit: "plan_gross p < 10 ^ 13" "plan_usdt p < 10 ^ 13"
  shows "balanced_lines 6 (buildLines D u p)"
proof (cases side)
  case INR_TO_USDT
  note B = buy_plan [OF D x b(1) p [unfolded INR_TO_USDT]]
  let ?net = "plan_inr p - plan_fee p"
  have net: "toFixed (dsub D (plan_inr p) (plan_fee p)) 2 = ?net"
    using B(5,6) by (simp add: B(9) toFixed_grid grid_diff)
  have "?net \<noteq> 0" using pos(2) D unfolding B(10) by (auto simp: floorTo_def)
  then have netpos: "0 < ?net" using B(8) by simp
  have g6: "grid 6 (plan_inr p)" "grid 6 (plan_fee p)" "grid 6 ?net" "grid 6 (plan_usdt p)"
    using B(5,6,10) by (auto intro: grid_mono [of 2] grid_diff grid_floorTo)
  show ?thesis
    unfolding balanced_lines_def amounts_fit_def buildLines_def Let_def net B(1)
    using pos netpos B(3,4,7,8) g6 fit
    by (auto simp: leg_def well_addressed_def isUserAccount_def net_def signed_amount_def INR_c_def
        USDT_c_def)
next
  case USDT_TO_INR
  note S = sell_plan [OF D x(1) rate fit(1) b p [unfolded USDT_TO_INR]]
  have g6: "grid 6 (plan_inr p)" "grid 6 (plan_fee p)" "grid 6 (plan_tds p)" "grid 6 (plan_gross p)"
    "grid 6 (plan_usdt p)"
    using S(2,4-7) by (auto intro: grid_mono [of 2] grid_floorTo)
  have "0 < plan_gross p" using pos(1) S(8,9,11) by simp
  then show ?thesis
    unfolding balanced_lines_def amounts_fit_def buildLines_def Let_def S(1)
    using pos S(8,9,11) g6 fit
    by (auto simp: leg_def well_addressed_def isUserAccount_def net_def signed_amount_def INR_c_def
        USDT_c_def)
qed

text \<open>
  The legs of a plan balance in both assets, whatever the side and the roundings: every amount
  is positive, every account is of the right owner, and the sums are computed exactly, so that the
  ledger accepts the posting.
\<close>

theorem buildLines_balanced:
  assumes D: "decimal_context D" and x: "0 \<le> x" "x < 10 ^ 13" and rate: "0 \<le> rate"
    and b: "fee \<le> 10000" "tds \<le> 10000" and p: "p = computePlan D side x rate fee tds"
    and pos: "0 < plan_inr p" "0 < plan_usdt p" and fit: "plan_gross p < 10 ^ 13" "plan_usdt p < 10 ^ 13"
  shows "balanced_lines 6 (buildLines D u p)"
  by (rule lines_balanced [OF assms])

theorem buildLines_balanced_witness:
  "balanced_lines 6 (buildLines exact 7 (computePlan exact USDT_TO_INR 10 90 20 100))"
proof -
  have "0 < plan_inr (computePlan exact USDT_TO_INR 10 90 20 100)"
    "0 < plan_usdt (computePlan exact USDT_TO_INR 10 90 20 100)"
    "plan_gross (computePlan exact USDT_TO_INR 10 90 20 100) < 10 ^ 13"
    "plan_usdt (computePlan exact USDT_TO_INR 10 90 20 100) < 10 ^ 13" by code_simp+
  then show ?thesis
    using buildLines_balanced [OF decimal_context_exact, of 10 90 20 100 _ USDT_TO_INR, OF _ _ _ _ _ refl]
    by simp
qed

section \<open>Executing a quote\<close>

lemma systemAccountBalance_bal: "systemAccountBalance k as s = bal s None as k"
proof -
  have "(\<lambda>a. acc_kind a = k \<and> acc_user a = None \<and> acc_asset a = as) =
      (\<lambda>a. acc_user a = None \<and> acc_asset a = as \<and> acc_kind a = k)" by auto
  then have "find (\<lambda>a. acc_kind a = k \<and> acc_user a = None \<and> acc_asset a = as) (accounts s) =
      find (\<lambda>a. acc_user a = None \<and> acc_asset a = as \<and> acc_kind a = k) (accounts s)"
    by (rule arg_cong [where f = "\<lambda>P. find P (accounts s)"])
  then show ?thesis by (simp add: systemAccountBalance_def bal_def)
qed

definition verified :: "nat \<Rightarrow> db \<Rightarrow> bool" where
  "verified u s \<longleftrightarrow> (\<exists>usr. findUserKyc_c u s = Some usr \<and> user_status usr = USER_ACTIVE \<and>
     kyc_status usr = KYC_APPROVED \<and> 1 \<le> kyc_tier usr)"

lemma assertKycApproved_c_run:
  "assertKycApproved_c u s = (r, t) \<Longrightarrow> t = s \<and> (r = Inr () \<longleftrightarrow> verified u s)"
  by (auto simp: assertKycApproved_c_def verified_def svc_simps split: option.splits if_splits)

lemma assertKycApproved_c_ok: "verified u s \<Longrightarrow> assertKycApproved_c u s = (Inr (), s)"
  using assertKycApproved_c_run [of u s] by (cases "assertKycApproved_c u s") simp

text \<open>What the checks establish when they let a quote through.\<close>

definition executable :: "nat \<Rightarrow> nat \<Rightarrow> conversion_plan \<Rightarrow> db \<Rightarrow> bool" where
  "executable u i plan s \<longleftrightarrow> verified u s \<and>
     (\<exists>q. findQuoteById i s = Some q \<and> quote_user q = u \<and> now s < expires_at q) \<and>
     findConversionByQuoteId i s = None \<and> \<not> redis_down s \<and>
     (\<exists>snap. redis_find i s = Some snap \<and> snap_user snap = u \<and> snap_plan snap = plan) \<and>
     liquidity_need plan \<le> bal s None (liquidity_asset plan) LIQUIDITY"

lemma execute_check_run:
  assumes "execute_check u i s = (r, t)"
  shows "ledger_tables t = ledger_tables s \<and> conversions t = conversions s \<and>
    quote_snapshots t = quote_snapshots s \<and> next_uuid t = next_uuid s \<and>
    (\<forall>x. r = Inr x \<longrightarrow> t = s) \<and> (\<forall>plan. r = Inr (Priced plan) \<longrightarrow> executable u i plan s)"
proof -
  obtain r1 s1 where 1: "assertKycApproved_c u s = (r1, s1)" by (cases "assertKycApproved_c u s")
  note k = assertKycApproved_c_run [OF 1]
  show ?thesis
  proof (cases r1)
    case (Inl e)
    then show ?thesis using assms 1 k by (auto simp: execute_check_def svc_simps)
  next
    case (Inr x)
    then have "verified u s" using k by simp
    then show ?thesis
      using assms 1 k Inr unfolding execute_check_def
      by (auto simp: svc_simps quote_expired_def auditExpiry_def recordAudit_def authRedisGet_def
          authRedis_def systemAccountBalance_bal executable_def ledger_tables_def Let_def not_less
          split: option.splits if_splits)
  qed
qed

lemma execute_check_ok:
  assumes "executable u i plan s" shows "execute_check u i s = (Inr (Priced plan), s)"
  using assms assertKycApproved_c_ok [of u s]
  by (auto simp: executable_def execute_check_def svc_simps authRedisGet_def authRedis_def
      systemAccountBalance_bal Let_def not_le not_less)

definition conversion_row :: "nat \<Rightarrow> nat \<Rightarrow> nat \<Rightarrow> conversion_plan \<Rightarrow> nat \<Rightarrow> nat \<Rightarrow> conversion" where
  "conversion_row c u i plan txn t =
     \<lparr>conv_id = c, conv_user = u, conv_quote = Some i, conv_side = plan_side plan,
      conv_inr = plan_inr plan, conv_usdt = plan_usdt plan, conv_rate = plan_rate plan,
      conv_fee = plan_fee plan, conv_tds = plan_tds plan, conv_txn = Some txn, conv_created = t\<rparr>"

definition plan_positive :: "conversion_plan \<Rightarrow> bool" where
  "plan_positive plan \<longleftrightarrow> 0 < plan_inr plan \<and> 0 < plan_usdt plan"

lemma execute_settle_run:
  assumes run: "execute_settle D u i plan s = (r, t)" and inv: "ledger_inv s" and pos: "plan_positive plan"
  shows "(\<exists>e. r = Inl e \<and> bal t = bal s \<and> conversions t = conversions s) \<or>
    (\<exists>s1 p row. retry_post (post D (conversion_input D u i plan) (Some u)) s = (Inr p, s1) \<and>
       bal t = bal s1 \<and> ledger_transactions t = ledger_transactions s1 \<and>
       row = conversion_row (next_uuid s1) u i plan (posted_id p) (now s) \<and>
       conversions t = conversions s @ [row] \<and> r = Inr (toConversionDto row) \<and>
       users t = users s \<and> price_quotes t = price_quotes s)"
proof -
  obtain r1 s1 where 1: "retry_post (post D (conversion_input D u i plan) (Some u)) s = (r1, s1)"
    by (cases "retry_post (post D (conversion_input D u i plan) (Some u)) s")
  show ?thesis
  proof (cases r1)
    case (Inl e)
    then obtain cs where "s1 = s\<lparr>conflicts := cs\<rparr>" using retry_post_error 1 by blast
    moreover have "r = Inl e" "t = s1" using run 1 Inl by (simp_all add: execute_settle_def svc_simps)
    ultimately show ?thesis using bal_tables [of t s] by (auto simp: ledger_tables_def)
  next
    case (Inr p)
    have only: "only_ledger s s1" using retry_post_only_ledger [OF 1 inv] by blast
    note same = only_ledger_simps [OF only]
    let ?row = "conversion_row (next_uuid s1) u i plan (posted_id p) (now s)"
    have "r = Inr (toConversionDto ?row) \<and> conversions t = conversions s1 @ [?row] \<and>
        ledger_tables t = ledger_tables s1 \<and> users t = users s1 \<and> price_quotes t = price_quotes s1"
      using run 1 Inr pos same(16)
      by (auto simp: execute_settle_def svc_simps createConversion_def fresh_uuid_def Let_def
          conversion_checks_def plan_positive_def conversion_row_def authRedisGetDel_def authRedis_def
          recordAudit_def ledger_tables_def split: if_splits)
    then show ?thesis
      using 1 Inr same bal_tables [of t s1] by (auto simp: ledger_tables_def)
  qed
qed

text \<open>
  The snapshots in Redis: every stored plan has positive amounts, which is what \<open>createQuote\<close>
  demands and \<open>executeConversion\<close> relies on.
\<close>

definition snapshots_ok :: "db \<Rightarrow> bool" where
  "snapshots_ok s \<longleftrightarrow> (\<forall>(i, v, e) \<in> set (quote_snapshots s). plan_positive (snap_plan v))"

lemma snapshots_okD:
  "snapshots_ok s \<Longrightarrow> (i, v, e) \<in> set (quote_snapshots s) \<Longrightarrow> plan_positive (snap_plan v)"
  by (auto simp: snapshots_ok_def)

abbreviation conversion_state :: "db \<Rightarrow> bool" where
  "conversion_state \<equiv> with_ledger snapshots_ok"

lemma snapshots_frame: "ledger_frame snapshots_ok"
  by (auto simp: ledger_frame_def snapshots_ok_def only_ledger_simps(21))

lemma conversion_state_write:
  "conversion_state s \<Longrightarrow> ledger_tables t = ledger_tables s \<Longrightarrow> next_uuid s \<le> next_uuid t \<Longrightarrow>
     set (quote_snapshots t) \<subseteq> set (quote_snapshots s) \<Longrightarrow> conversion_state t"
  by (rule with_ledger_write) (auto simp: snapshots_ok_def dest: snapshots_okD [OF with_ledgerD(2)])

lemma redis_find_positive:
  "snapshots_ok s \<Longrightarrow> redis_find i s = Some snap \<Longrightarrow> plan_positive (snap_plan snap)"
  by (auto simp: redis_find_def dest!: find_SomeD intro: snapshots_okD)

lemma state_conversion_other [preserves_intros]:
  "preserves conversion_state (recordAudit aty a act ety e)"
  "preserves conversion_state fresh_uuid"
  "preserves conversion_state (authRedisGetDel i)"
  unfolding recordAudit_def fresh_uuid_def authRedisGetDel_def authRedis_def
  by (rule preserves_write, erule conversion_state_write, simp_all add: ledger_tables_def)
    (rule preservesI, simp, erule conversion_state_write, simp_all add: ledger_tables_def,
     intro preserves_intros preserves_write, erule conversion_state_write,
     auto simp: ledger_tables_def)

lemma state_insertQuote [preserves_intros]: "preserves conversion_state (insertQuote u sd r sp ex)"
  unfolding insertQuote_def Let_def
  by (intro preserves_intros preserves_write, erule conversion_state_write) (simp_all add: ledger_tables_def)

lemma state_authRedisSet [preserves_intros]:
  "plan_positive (snap_plan v) \<Longrightarrow> preserves conversion_state (authRedisSet i v ttl)"
  unfolding authRedisSet_def authRedis_def
  by (intro preserves_intros preserves_write, rule with_ledger_write, assumption)
    (auto simp: ledger_tables_def snapshots_ok_def dest: snapshots_okD [OF with_ledgerD(2)])

lemma state_createConversion [preserves_intros]:
  "preserves conversion_state (createConversion u i plan txn)"
  unfolding createConversion_def Let_def
  by (intro preserves_intros preserves_write, erule conversion_state_write) (simp_all add: ledger_tables_def)

lemma state_kyc_c [preserves_intros]: "preserves conversion_state (assertKycApproved_c u)"
  unfolding assertKycApproved_c_def by (intro preserves_intros)

lemma state_createQuote: "preserves conversion_state (createQuote D cfg u side x)"
proof -
  have req: "preserves conversion_state (bindS (requireS c e) (\<lambda>_. m))"
    if "c \<Longrightarrow> preserves conversion_state m" for c e and m :: "(db, 'b) svc"
    using that by (cases c) (auto simp: preserves_def svc_simps)
  show ?thesis unfolding createQuote_def Let_def
    by (intro preserves_bind [OF state_kyc_c] preserves_sum preserves_throw req preserves_bind preserves_read
        preserves_return state_insertQuote state_authRedisSet state_conversion_other)
      (simp add: plan_positive_def)
qed

lemma state_execute_settle: "preserves conversion_state (execute_settle D u i plan)"
  unfolding execute_settle_def
  by (intro preserves_intros preserves_retry_post [OF snapshots_frame])

lemma state_execute_check: "preserves conversion_state (execute_check u i)"
proof (rule preservesI)
  fix s assume "conversion_state s"
  then show "conversion_state (snd (execute_check u i s))"
    using execute_check_run [of u i s, OF surjective_pairing] by (elim conversion_state_write) simp_all
qed

text \<open>User 7 has 5000 INR, the treasury 20 USDT; the mid price is 90, a quote lives for 30 milliseconds.\<close>

definition conv_config :: conversion_config where
  "conv_config = \<lparr>live_prices = False, mockUsdtInr = 90, cfg_spread_bps = 50, cfg_fee_bps = 20,
     cfg_tds_bps = 100, quoteTtlMs = 30\<rparr>"

definition funding :: "nat option \<Rightarrow> string \<Rightarrow> account_kind \<Rightarrow> rat \<Rightarrow> posting_input" where
  "funding u as k x = \<lparr>post_kind = ''DEPOSIT'', post_reference_type = None, post_reference_id = None,
     post_lines = [leg None as SYSTEM DEBIT x, leg u as k CREDIT x]\<rparr>"

definition treasury_db :: db where
  "treasury_db = snd (post exact (funding None USDT_c LIQUIDITY 20) None
     (snd (post exact (funding (Some 7) INR_c USER_AVAILABLE 5000) None
       (empty_db\<lparr>users := [\<lparr>user_id = 7, user_email = [], user_status = USER_ACTIVE,
         kyc_status = KYC_APPROVED, kyc_tier = 1, withdrawals_blocked = False, risk_level = RISK_LOW,
         risk_note = None\<rparr>], next_uuid := 100\<rparr>))))"

lemma treasury_db_state: "conversion_state treasury_db"
proof -
  have "conversion_state (empty_db\<lparr>users := us, next_uuid := 100\<rparr>)" for us
    by (auto simp: with_ledger_def snapshots_ok_def empty_db_def ledger_tables_def
        intro!: ledger_inv_cong [OF _ _ empty_db_inv])
  then show ?thesis unfolding treasury_db_def
    by (intro preservesD [OF preserves_post [OF snapshots_frame]])
qed

definition quoted_db :: db where
  "quoted_db = snd (createQuote exact conv_config 7 INR_TO_USDT 1000 treasury_db)"

definition the_quote :: nat where
  "the_quote = qd_id (projr (fst (createQuote exact conv_config 7 INR_TO_USDT 1000 treasury_db)))"

lemma quoted_db_state: "conversion_state quoted_db"
  unfolding quoted_db_def by (rule preservesD [OF state_createQuote treasury_db_state])

text \<open>
  C17.  Executing a quote that was not executed before settles it exactly: it belongs to the caller
  and has not expired, the treasury held what it gives, the balances move by the legs of the stored
  plan, and one conversion with the amounts of the plan is recorded.  Executing the quote again
  returns the same conversion and changes nothing.
\<close>

theorem executeConversion_settles:
  assumes s: "conversion_state s" and new: "findConversionByQuoteId i s = None"
    and ref: "\<forall>txn \<in> set (ledger_transactions s). \<not> has_ref ''conversion'' i txn"
    and run: "executeConversion D u i s = (Inr dto, t)"
  shows "(\<exists>plan row. executable u i plan s \<and>
      bal t v as k = bal s v as k + delta (buildLines D u plan) v as k \<and>
      conversions t = conversions s @ [row] \<and> dto = toConversionDto row \<and> conv_user row = u \<and>
      conv_quote row = Some i \<and> conv_inr row = plan_inr plan \<and> conv_usdt row = plan_usdt plan) \<and>
    executeConversion D u i t = (Inr dto, t)"
proof -
  obtain r1 s1 where 1: "execute_check u i s = (r1, s1)" by (cases "execute_check u i s")
  note c = execute_check_run [OF 1]
  obtain x where x: "r1 = Inr x" using run 1 by (cases r1) (auto simp: executeConversion_def bindS_apply)
  then have s1: "s1 = s" using c by simp
  obtain plan where plan: "x = Priced plan"
  proof (cases x)
    case (Converted d)
    then have "findConversionByQuoteId i s \<noteq> None"
      using 1 x by (auto simp: execute_check_def svc_simps quote_expired_def authRedisGet_def authRedis_def
          Let_def split: option.splits if_splits prod.splits sum.splits
          dest: assertKycApproved_c_run)
    then show ?thesis using new by simp
  qed
  then have exec: "executable u i plan s" using c x by simp
  have pos: "plan_positive plan"
    using exec redis_find_positive [OF with_ledgerD(2) [OF s]] by (auto simp: executable_def)
  have 2: "execute_settle D u i plan s = (Inr dto, t)"
    using run 1 x plan s1 by (simp add: executeConversion_def bindS_apply)
  from execute_settle_run [OF 2 with_ledgerD(1) [OF s] pos] obtain s2 p row where
    post: "retry_post (post D (conversion_input D u i plan) (Some u)) s = (Inr p, s2)"
    and bal2: "bal t = bal s2" and row: "row = conversion_row (next_uuid s2) u i plan (posted_id p) (now s)"
    and conv: "conversions t = conversions s @ [row]" "dto = toConversionDto row"
    and same: "users t = users s" "price_quotes t = price_quotes s" by auto
  have "\<not> already_posted (conversion_input D u i plan) s"
    using ref by (simp add: already_posted_def conversion_input_def)
  then have bal: "bal t v as k = bal s v as k + delta (buildLines D u plan) v as k"
    using retried.success_moves [OF post with_ledgerD(1) [OF s]] bal2 by (simp add: conversion_input_def)
  have "verified u t" using exec same by (simp add: executable_def verified_def findUserKyc_c_def)
  moreover have "\<exists>q. findQuoteById i t = Some q \<and> quote_user q = u"
    using exec same by (auto simp: executable_def findQuoteById_def)
  moreover have "findConversionByQuoteId i t = Some row"
    using new conv(1) row by (simp add: findConversionByQuoteId_def find_append conversion_row_def)
  ultimately have "execute_check u i t = (Inr (Converted dto), t)"
    using assertKycApproved_c_ok [of u t] conv(2) by (auto simp: execute_check_def svc_simps)
  then have "executeConversion D u i t = (Inr dto, t)"
    by (simp add: executeConversion_def svc_simps)
  then show ?thesis
    using exec bal conv row unfolding conversion_row_def by auto
qed

theorem executeConversion_settles_witness:
  "\<exists>dto t. executeConversion exact 7 the_quote quoted_db = (Inr dto, t) \<and>
     executeConversion exact 7 the_quote t = (Inr dto, t)"
proof -
  have ok: "\<not> isl (fst (executeConversion exact 7 the_quote quoted_db))"
    "findConversionByQuoteId the_quote quoted_db = None"
    "\<forall>txn \<in> set (ledger_transactions quoted_db). \<not> has_ref ''conversion'' the_quote txn" by code_simp+
  obtain dto t where run: "executeConversion exact 7 the_quote quoted_db = (Inr dto, t)"
    using ok(1) by (rule run_Inr)
  then show ?thesis using executeConversion_settles [OF quoted_db_state ok(2,3) run] by blast
qed

text \<open>
  A conversion that fails moves no money and records no conversion: the owner, the expiry, the
  snapshot, the treasury, the balance and Redis are all checked before anything is written.
\<close>

theorem executeConversion_error:
  assumes "conversion_state s" and "executeConversion D u i s = (Inl e, t)"
  shows "bal t = bal s \<and> conversions t = conversions s"
proof -
  obtain r1 s1 where 1: "execute_check u i s = (r1, s1)" by (cases "execute_check u i s")
  note c = execute_check_run [OF 1]
  have b1: "bal s1 = bal s" using c by (intro bal_tables) simp
  show ?thesis
  proof (cases r1)
    case (Inl e')
    then have "t = s1" using assms(2) 1 by (simp add: executeConversion_def bindS_apply)
    then show ?thesis using b1 c by simp
  next
    case (Inr x)
    then have s1: "s1 = s" using c by simp
    obtain plan where plan: "x = Priced plan"
      using assms(2) 1 Inr by (cases x) (auto simp: executeConversion_def svc_simps)
    then have "executable u i plan s" using c Inr by simp
    then have pos: "plan_positive plan"
      using redis_find_positive [OF with_ledgerD(2) [OF assms(1)]] by (auto simp: executable_def)
    have "execute_settle D u i plan s = (Inl e, t)"
      using assms(2) 1 Inr plan s1 by (simp add: executeConversion_def bindS_apply)
    from execute_settle_run [OF this with_ledgerD(1) [OF assms(1)] pos] show ?thesis by auto
  qed
qed

theorem executeConversion_error_witness:
  "\<exists>e t. executeConversion exact 7 the_quote (quoted_db\<lparr>now := 30\<rparr>) = (Inl e, t) \<and>
     e = AppError 422 ''QUOTE_EXPIRED'' \<and> conversions t = []"
proof -
  let ?s = "quoted_db\<lparr>now := 30\<rparr>"
  have ok: "fst (executeConversion exact 7 the_quote ?s) = Inl (AppError 422 ''QUOTE_EXPIRED'')"
    "conversions ?s = []" by code_simp+
  obtain t where run: "executeConversion exact 7 the_quote ?s = (Inl (AppError 422 ''QUOTE_EXPIRED''), t)"
    using ok(1) by (cases "executeConversion exact 7 the_quote ?s") simp
  have "conversion_state ?s"
    by (rule conversion_state_write [OF quoted_db_state]) (simp_all add: ledger_tables_def)
  from executeConversion_error [OF this run] show ?thesis using run ok(2) by simp
qed

section \<open>A quote is honoured\<close>

definition paid_asset :: "conversion_side \<Rightarrow> string" where
  "paid_asset side = (case side of INR_TO_USDT \<Rightarrow> INR_c | USDT_TO_INR \<Rightarrow> USDT_c)"

definition paid_amount :: "conversion_plan \<Rightarrow> rat" where
  "paid_amount p = (case plan_side p of INR_TO_USDT \<Rightarrow> plan_inr p | USDT_TO_INR \<Rightarrow> plan_usdt p)"

lemma debits_buildLines:
  "isUserAccount k \<Longrightarrow> debits (buildLines D u p) v as k =
     (if v = Some u \<and> as = paid_asset (plan_side p) \<and> k = USER_AVAILABLE then paid_amount p else 0)"
  by (cases "plan_side p")
    (auto simp: debits_def buildLines_def leg_def paid_asset_def paid_amount_def isUserAccount_def Let_def)

lemma execute_settle_ok:
  assumes "retry_post (post D (conversion_input D u i plan) (Some u)) s = (Inr p, s1)"
    and "plan_positive plan"
  shows "\<exists>t. execute_settle D u i plan s =
    (Inr (toConversionDto (conversion_row (next_uuid s1) u i plan (posted_id p) (now s1))), t)"
  using assms
  by (auto simp: execute_settle_def svc_simps createConversion_def fresh_uuid_def Let_def
      conversion_checks_def plan_positive_def conversion_row_def authRedisGetDel_def authRedis_def
      recordAudit_def)

lemma createQuote_run:
  assumes "createQuote D cfg u side x s = (Inr qd, t)"
  shows "verified u s \<and> \<not> redis_down s \<and> (\<exists>p. p = computePlan D side x
      (applySpread D (mockUsdtInr cfg) side (cfg_spread_bps cfg)) (cfg_fee_bps cfg) (cfg_tds_bps cfg) \<and>
    plan_positive p \<and> qd_id qd = next_uuid s \<and> qd_expires qd = now s + quoteTtlMs cfg \<and>
    qd_inr qd = plan_inr p \<and> qd_usdt qd = plan_usdt p \<and> qd_fee qd = plan_fee p \<and> qd_tds qd = plan_tds p \<and>
    price_quotes t = price_quotes s @ [\<lparr>quote_id = next_uuid s, quote_user = u, quote_side = side,
      quote_rate = applySpread D (mockUsdtInr cfg) side (cfg_spread_bps cfg),
      spread_bps = cfg_spread_bps cfg, expires_at = now s + quoteTtlMs cfg\<rparr>] \<and>
    quote_snapshots t = filter (\<lambda>p. fst p \<noteq> next_uuid s) (quote_snapshots s) @ [(next_uuid s,
      \<lparr>snap_quote = next_uuid s, snap_user = u, snap_plan = p\<rparr>, now s + quoteTtlMs cfg)] \<and>
    ledger_tables t = ledger_tables s \<and> conversions t = conversions s \<and> users t = users s \<and>
    redis_down t = redis_down s \<and> conflicts t = conflicts s)"
proof -
  have kyc: "assertKycApproved_c u s = (Inr (), s)" "verified u s"
  proof -
    obtain r1 s1 where 1: "assertKycApproved_c u s = (r1, s1)" by (cases "assertKycApproved_c u s")
    then have "r1 = Inr ()" using assms by (cases r1) (auto simp: createQuote_def bindS_apply)
    then show "assertKycApproved_c u s = (Inr (), s)" "verified u s"
      using 1 assertKycApproved_c_run [OF 1] by auto
  qed
  have mid: "mock_getMidPrice cfg USDT_c INR_c =
      Inr \<lparr>mid_base = ''USDT'', mid_quote = ''INR'', mid_value = mockUsdtInr cfg\<rparr>"
    by (simp add: mock_getMidPrice_def USDT_c_def INR_c_def toUpperCase_def upperChar_def)
  show ?thesis
    using assms kyc
    by (auto simp: createQuote_def getPriceProvider_def mid svc_simps Let_def insertQuote_def fresh_uuid_def
        authRedisSet_def authRedis_def recordAudit_def toQuoteDto_def plan_positive_def ledger_tables_def
        split: if_splits)
qed

lemma plan_exact:
  assumes D: "decimal_context D" and x: "0 \<le> x" "x < 10 ^ 13" and rate: "0 \<le> rate"
    and b: "fee \<le> 10000" "tds \<le> 10000" and p: "p = computePlan D side x rate fee tds"
    and fit: "plan_gross p < 10 ^ 13"
  shows "plan_side p = side" "toFixed (plan_inr p) 2 = plan_inr p" "toFixed (plan_usdt p) 6 = plan_usdt p"
    "toFixed (plan_fee p) 2 = plan_fee p" "toFixed (plan_tds p) 2 = plan_tds p"
proof -
  have "plan_side p = side \<and> grid 2 (plan_inr p) \<and> grid 6 (plan_usdt p) \<and> grid 2 (plan_fee p) \<and> grid 2 (plan_tds p)"
  proof (cases side)
    case INR_TO_USDT
    then show ?thesis using buy_plan [OF D x b(1) p [unfolded INR_TO_USDT]] by (auto intro: grid_floorTo)
  next
    case USDT_TO_INR
    then show ?thesis
      using sell_plan [OF D x(1) rate fit b p [unfolded USDT_TO_INR]] by (auto intro: grid_floorTo)
  qed
  then show "plan_side p = side" "toFixed (plan_inr p) 2 = plan_inr p" "toFixed (plan_usdt p) 6 = plan_usdt p"
    "toFixed (plan_fee p) 2 = plan_fee p" "toFixed (plan_tds p) 2 = plan_tds p"
    by (auto intro: toFixed_grid)
qed

lemma conversion_posts:
  assumes D: "decimal_context D" and x: "0 \<le> x" "x < 10 ^ 13" and rate: "0 \<le> rate"
    and b: "fee \<le> 10000" "tds \<le> 10000" and p: "p = computePlan D side x rate fee tds"
    and pos: "plan_positive p" and fit: "plan_gross p < 10 ^ 13" "plan_usdt p < 10 ^ 13"
    and inv: "ledger_inv s" and funds: "paid_amount p \<le> bal s (Some u) (paid_asset (plan_side p)) USER_AVAILABLE"
    and quiet: "conflicts s = []"
  shows "\<exists>r t. retry_post (post D (conversion_input D u i p) (Some u)) s = (Inr r, t)"
proof -
  have lines: "balanced_lines 6 (post_lines (conversion_input D u i p))"
    unfolding conversion_input_def posting_input.select_convs
    using lines_balanced [OF D x rate b p _ _ fit] pos by (simp add: plan_positive_def)
  have "covered (post_lines (conversion_input D u i p)) s"
    unfolding covered_def conversion_input_def posting_input.select_convs
    using funds by (auto simp: debits_buildLines)
  then obtain r t where "post D (conversion_input D u i p) (Some u) s = (Inr r, t)"
    using post_total [OF D lines inv, of "Some u"] quiet by auto
  then have "retry_post (post D (conversion_input D u i p) (Some u)) s = (Inr r, t)"
    by (simp add: eval_nat_numeral catchS_apply)
  then show ?thesis by blast
qed

text \<open>
  A quote is honoured: as long as it has not expired, Redis answers, nothing conflicts, the
  treasury holds what it promises and the user what it costs, executing it succeeds, and the
  conversion has the very amounts, fee and tax the quote showed.
\<close>

theorem quote_honoured:
  assumes D: "decimal_context D" and s: "conversion_state s" and x: "0 \<le> x" "x < 10 ^ 13"
    and cfg: "0 \<le> mockUsdtInr cfg" "cfg_spread_bps cfg \<le> 10000" "cfg_fee_bps cfg \<le> 10000"
      "cfg_tds_bps cfg \<le> 10000"
    and quote: "createQuote D cfg u side x s = (Inr qd, s1)"
    and fresh: "findQuoteById (next_uuid s) s = None" "findConversionByQuoteId (next_uuid s) s = None"
    and time: "now s \<le> n" "n < qd_expires qd"
    and p: "p = computePlan D side x (applySpread D (mockUsdtInr cfg) side (cfg_spread_bps cfg))
      (cfg_fee_bps cfg) (cfg_tds_bps cfg)"
    and fit: "plan_gross p < 10 ^ 13" "plan_usdt p < 10 ^ 13"
    and funds: "paid_amount p \<le> bal s (Some u) (paid_asset side) USER_AVAILABLE"
      "liquidity_need p \<le> bal s None (liquidity_asset p) LIQUIDITY"
    and quiet: "conflicts s = []"
  shows "\<exists>cd t. executeConversion D u (qd_id qd) (s1\<lparr>now := n\<rparr>) = (Inr cd, t) \<and> cd_side cd = side \<and>
    cd_inr cd = qd_inr qd \<and> cd_usdt cd = qd_usdt qd \<and> cd_fee cd = qd_fee qd \<and> cd_tds cd = qd_tds qd"
proof -
  note q = createQuote_run [OF quote, folded p]
  let ?s = "s1\<lparr>now := n\<rparr>" let ?i = "next_uuid s"
  have tab: "ledger_tables ?s = ledger_tables s" using q by (simp add: ledger_tables_def)
  have bal: "bal ?s = bal s" by (rule bal_tables [OF tab])
  have inv: "ledger_inv ?s"
    by (rule ledger_inv_cong [OF tab _ with_ledgerD(1) [OF s]])
      (use quote in \<open>auto simp: createQuote_def insertQuote_def authRedisSet_def authRedis_def recordAudit_def
        fresh_uuid_def assertKycApproved_c_def svc_simps Let_def split: if_splits option.splits sum.splits\<close>)
  have pos: "plan_positive p" using q by auto
  have rate: "0 \<le> applySpread D (mockUsdtInr cfg) side (cfg_spread_bps cfg)"
    using applySpread_nonneg [OF D cfg(1,2)] by (cases side) simp_all
  note e = plan_exact [OF D x rate cfg(3,4) p fit(1)]
  have "paid_amount p \<le> bal ?s (Some u) (paid_asset (plan_side p)) USER_AVAILABLE" "conflicts ?s = []"
    using funds(1) bal e(1) q quiet by auto
  from conversion_posts [OF D x rate cfg(3,4) p pos fit inv this]
  obtain r t1 where retry: "retry_post (post D (conversion_input D u ?i p) (Some u)) ?s = (Inr r, t1)" by blast
  have "executable u ?i p ?s"
  proof -
    have "findQuoteById ?i ?s = Some \<lparr>quote_id = ?i, quote_user = u, quote_side = side,
        quote_rate = applySpread D (mockUsdtInr cfg) side (cfg_spread_bps cfg),
        spread_bps = cfg_spread_bps cfg, expires_at = now s + quoteTtlMs cfg\<rparr>"
      using q fresh(1) by (auto simp: findQuoteById_def find_append)
    moreover have "find (\<lambda>v. fst v = ?i \<and> n < snd (snd v))
        (filter (\<lambda>v. fst v \<noteq> ?i) (quote_snapshots s)) = None"
      by (auto simp: find_None_iff)
    then have "redis_find ?i ?s = Some \<lparr>snap_quote = ?i, snap_user = u, snap_plan = p\<rparr>"
      using q time(2) by (auto simp: redis_find_def find_append)
    ultimately show ?thesis
      using q fresh(2) time(2) funds(2) bal
      by (auto simp: executable_def verified_def findUserKyc_c_def findConversionByQuoteId_def)
  qed
  from execute_check_ok [OF this] obtain t where
    "executeConversion D u ?i ?s = (Inr (toConversionDto (conversion_row (next_uuid t1) u ?i p (posted_id r) (now t1))), t)"
    using execute_settle_ok [OF retry pos] by (auto simp: executeConversion_def bindS_apply)
  then show ?thesis using q e by (auto simp: toConversionDto_def conversion_row_def)
qed

theorem quote_honoured_witness:
  "\<exists>qd cd t. fst (createQuote exact conv_config 7 INR_TO_USDT 1000 treasury_db) = Inr qd \<and>
     executeConversion exact 7 (qd_id qd) (quoted_db\<lparr>now := 29\<rparr>) = (Inr cd, t) \<and>
     cd_usdt cd = qd_usdt qd"
proof -
  let ?run = "createQuote exact conv_config 7 INR_TO_USDT 1000 treasury_db"
  let ?p = "computePlan exact INR_TO_USDT 1000 (applySpread exact (mockUsdtInr conv_config) INR_TO_USDT
    (cfg_spread_bps conv_config)) (cfg_fee_bps conv_config) (cfg_tds_bps conv_config)"
  have ok: "\<not> isl (fst ?run)" "qd_expires (projr (fst ?run)) = 30"
    "findQuoteById (next_uuid treasury_db) treasury_db = None"
    "findConversionByQuoteId (next_uuid treasury_db) treasury_db = None" "now treasury_db = 0"
    "plan_gross ?p < 10 ^ 13" "plan_usdt ?p < 10 ^ 13"
    "paid_amount ?p \<le> bal treasury_db (Some 7) (paid_asset INR_TO_USDT) USER_AVAILABLE"
    "liquidity_need ?p \<le> bal treasury_db None (liquidity_asset ?p) LIQUIDITY" "conflicts treasury_db = []"
    by code_simp+
  obtain qd t where run: "?run = (Inr qd, t)" using ok(1) by (rule run_Inr)
  then have t: "t = quoted_db" by (simp add: quoted_db_def)
  have cfg: "0 \<le> mockUsdtInr conv_config" "cfg_spread_bps conv_config \<le> 10000"
    "cfg_fee_bps conv_config \<le> 10000" "cfg_tds_bps conv_config \<le> 10000"
    by (simp_all add: conv_config_def)
  from quote_honoured [OF decimal_context_exact treasury_db_state _ _ cfg run ok(3,4) _ _ refl ok(6-10), of 29]
  show ?thesis using ok(2,5) run t by auto
qed

section \<open>Two calls at the same time\<close>

lemma settle_state:
  "execute_settle D u i plan s = (r, t) \<Longrightarrow> conversion_state s \<Longrightarrow> conversion_state t"
  using preserves_run [OF state_execute_settle] by blast

text \<open>
  Two executions of one quote that have both passed the checks before either settles record
  two conversions for the one posting: the ledger moves the money once, the history and every
  report show it twice, because nothing makes the quote unique among the conversions.
\<close>

theorem settled_twice:
  assumes "conversion_state s" and "plan_positive plan"
    and "execute_settle D u i plan s = (Inr d1, s1)" and "execute_settle D u i plan s1 = (Inr d2, s2)"
  shows "bal s2 = bal s1 \<and>
    (\<exists>r1 r2. conversions s2 = conversions s @ [r1, r2] \<and> conv_quote r1 = Some i \<and>
       conv_quote r2 = Some i \<and> conv_inr r2 = conv_inr r1 \<and> conv_usdt r2 = conv_usdt r1)"
proof -
  note inv1 = settle_state [OF assms(3,1)]
  from execute_settle_run [OF assms(3) with_ledgerD(1) [OF assms(1)] assms(2)] obtain t1 p1 r1 where
    1: "retry_post (post D (conversion_input D u i plan) (Some u)) s = (Inr p1, t1)"
    and tx: "ledger_transactions s1 = ledger_transactions t1"
    and c1: "r1 = conversion_row (next_uuid t1) u i plan (posted_id p1) (now s)" "conversions s1 = conversions s @ [r1]"
    by auto
  from execute_settle_run [OF assms(4) with_ledgerD(1) [OF inv1] assms(2)] obtain t2 p2 r2 where
    2: "retry_post (post D (conversion_input D u i plan) (Some u)) s1 = (Inr p2, t2)" "bal s2 = bal t2"
    and c2: "r2 = conversion_row (next_uuid t2) u i plan (posted_id p2) (now s1)"
      "conversions s2 = conversions s1 @ [r2]"
    by auto
  have "has_reference (conversion_input D u i plan)" by (simp add: has_reference_def conversion_input_def)
  then have "already_posted (conversion_input D u i plan) t1"
    by (rule retried.success_marks [OF 1 with_ledgerD(1) [OF assms(1)]])
  then have "already_posted (conversion_input D u i plan) s1"
    using already_posted_cong [OF tx] by simp
  then have "bal t2 v as k = bal s1 v as k" for v as k
    using retried.success_moves [OF 2(1) with_ledgerD(1) [OF inv1]] by simp
  then have "bal s2 = bal s1" using 2(2) by (simp add: fun_eq_iff)
  then show ?thesis using c1 c2 by (auto simp: conversion_row_def)
qed

definition quoted_plan :: conversion_plan where
  "quoted_plan = (case fst (execute_check 7 the_quote quoted_db) of Inr (Priced p) \<Rightarrow> p)"

theorem settled_twice_witness:
  "\<exists>d1 s1 d2 s2. execute_settle exact 7 the_quote quoted_plan quoted_db = (Inr d1, s1) \<and>
     execute_settle exact 7 the_quote quoted_plan s1 = (Inr d2, s2) \<and> bal s2 = bal s1 \<and>
     length (conversions s2) = 2"
proof -
  let ?one = "execute_settle exact 7 the_quote quoted_plan"
  have ok: "plan_positive quoted_plan" "conversions quoted_db = []"
    "\<not> isl (fst (?one quoted_db))" "\<not> isl (fst (?one (snd (?one quoted_db))))" by code_simp+
  obtain d1 s1 where 1: "?one quoted_db = (Inr d1, s1)" using ok(3) by (rule run_Inr)
  then have "\<not> isl (fst (?one s1))" using ok(4) by simp
  then obtain d2 s2 where 2: "?one s1 = (Inr d2, s2)" by (rule run_Inr)
  from settled_twice [OF quoted_db_state ok(1) 1 2] show ?thesis using 1 2 ok(2) by auto
qed

definition two_quotes_db :: db where
  "two_quotes_db = snd (createQuote exact conv_config 7 INR_TO_USDT 1000 quoted_db)"

definition overdrawn_run :: "(err + conversion_dto) \<times> db" where
  "overdrawn_run =
     bindS (execute_check 7 106) (\<lambda>x.
     bindS (execute_check 7 107) (\<lambda>y.
     case x of
       Converted dto \<Rightarrow> returnS dto
     | Priced p \<Rightarrow>
     (case y of
       Converted dto \<Rightarrow> returnS dto
     | Priced q \<Rightarrow> bindS (execute_settle exact 7 106 p) (\<lambda>_. execute_settle exact 7 107 q)))) two_quotes_db"

lemma overdrawn_liquidity: "case overdrawn_run of (r, t) \<Rightarrow> \<not> isl r \<and> bal t None USDT_c LIQUIDITY < 0"
  by code_simp

lemma two_quotes_liquidity: "bal two_quotes_db None USDT_c LIQUIDITY = 20"
  by code_simp

text \<open>
  The treasury check does not protect the treasury: two quotes of 1000 INR, each of which the
  20 USDT of the treasury cover, are both checked and then both settled, and the LIQUIDITY account
  ends below zero.
\<close>

theorem treasury_overdrawn:
  "\<not> isl (fst overdrawn_run) \<and> bal two_quotes_db None USDT_c LIQUIDITY = 20 \<and>
   bal (snd overdrawn_run) None USDT_c LIQUIDITY < 0"
  using overdrawn_liquidity two_quotes_liquidity unfolding case_prod_beta by blast

end
