(* ===== verification/Encryption.thy ===== *)
theory Encryption
  imports Prelude
begin

text \<open>
  Sealing personal data at rest: \<open>lib/encryption.ts\<close>.  AES-256-GCM is code of \<open>node:crypto\<close> and a
  parameter here, with the derived key already applied; the twelve random bytes of a call are an
  argument.  What the module itself does is the layout of the sealed buffer: nonce, tag,
  ciphertext.  Bytes are numbers below 256.
\<close>

definition IV_LENGTH :: nat where "IV_LENGTH = 12"
definition AUTH_TAG_LENGTH :: nat where "AUTH_TAG_LENGTH = 16"

text \<open>Encryption gives a ciphertext and a tag; decryption throws (\<open>None\<close>) when the tag is wrong.\<close>

record gcm =
  gcm_encrypt :: "nat list \<Rightarrow> string \<Rightarrow> nat list \<times> nat list"
  gcm_decrypt :: "nat list \<Rightarrow> nat list \<Rightarrow> nat list \<Rightarrow> string option"

definition encryptPII :: "gcm \<Rightarrow> nat list \<Rightarrow> string \<Rightarrow> nat list" where
  "encryptPII C iv plaintext =
     (let (ciphertext, authTag) = gcm_encrypt C iv plaintext in iv @ authTag @ ciphertext)"

definition decryptPII :: "gcm \<Rightarrow> nat list \<Rightarrow> string option" where
  "decryptPII C payload =
     (let iv = take IV_LENGTH payload;
          authTag = take AUTH_TAG_LENGTH (drop IV_LENGTH payload);
          ciphertext = drop (IV_LENGTH + AUTH_TAG_LENGTH) payload
      in gcm_decrypt C iv authTag ciphertext)"

text \<open>What AES-GCM promises: the tag has sixteen bytes, and what was encrypted is decrypted.\<close>

definition gcm_correct :: "gcm \<Rightarrow> bool" where
  "gcm_correct C \<longleftrightarrow>
     (\<forall>iv p ct tag. length iv = IV_LENGTH \<longrightarrow> gcm_encrypt C iv p = (ct, tag) \<longrightarrow>
        length tag = AUTH_TAG_LENGTH \<and> gcm_decrypt C iv tag ct = Some p)"

lemma decrypt_encrypt:
  assumes "gcm_correct C" and "length iv = IV_LENGTH"
  shows "decryptPII C (encryptPII C iv p) = Some p"
proof -
  obtain ct tag where e: "gcm_encrypt C iv p = (ct, tag)" by (cases "gcm_encrypt C iv p")
  then have "length tag = AUTH_TAG_LENGTH" "gcm_decrypt C iv tag ct = Some p"
    using assms by (auto simp: gcm_correct_def)
  then show ?thesis using e assms(2) by (simp add: decryptPII_def encryptPII_def)
qed

text \<open>A cipher with these properties, for evaluation: it turns the text round.\<close>

definition mirror_cipher :: gcm where
  "mirror_cipher =
     \<lparr>gcm_encrypt = (\<lambda>iv p. (rev (map of_char p), replicate 16 (length p mod 256))),
      gcm_decrypt = (\<lambda>iv tag ct. if tag = replicate 16 (length ct mod 256)
        then Some (map char_of (rev ct)) else None)\<rparr>"

lemma mirror_cipher_correct: "gcm_correct mirror_cipher"
  by (simp add: gcm_correct_def mirror_cipher_def AUTH_TAG_LENGTH_def rev_map)

end
