(* ===== verification/Inr_Withdrawal.thy ===== *)
theory Inr_Withdrawal
  imports Tables Paging Encryption
begin

text \<open>
  Rupee withdrawals by manual payout: \<open>modules/inr-withdrawal\<close>.  A request is checked against the
  account and the configured bounds, written PENDING with its payout destination (the account
  number sealed), and its amount is reserved in the ledger; when the reservation fails the row is
  deleted again.  An admin approves or rejects it, and marks it paid with the bank reference.
  Every money movement is one ledger posting under a reference type of its own.

  \<open>reject\<close> and \<open>markPaid\<close> are split where another call can come between: after they have read the
  row, before the ledger posting.  \<open>requestWithdrawal\<close> is split after the row is written.  Amounts
  are the numbers the decimal strings stand for; text fields are bytes in UTF-8.
\<close>

section \<open>Configuration, requests and data transfer objects\<close>

definition INR :: string where "INR = ''INR''"
definition WITHDRAWAL_REFERENCE_TYPE :: string where "WITHDRAWAL_REFERENCE_TYPE = ''inr_withdrawal''"
definition WITHDRAWAL_RELEASE_REFERENCE_TYPE :: string where
  "WITHDRAWAL_RELEASE_REFERENCE_TYPE = ''inr_withdrawal_release''"
definition WITHDRAWAL_PAYOUT_REFERENCE_TYPE :: string where
  "WITHDRAWAL_PAYOUT_REFERENCE_TYPE = ''inr_withdrawal_payout''"

lemmas reference_types = WITHDRAWAL_REFERENCE_TYPE_def WITHDRAWAL_RELEASE_REFERENCE_TYPE_def
  WITHDRAWAL_PAYOUT_REFERENCE_TYPE_def

text \<open>\<open>config.inrOps\<close>.\<close>

record inr_ops_config =
  dualApprovalThreshold :: rat
  withdrawalMin :: rat
  withdrawalMax :: rat

record create_withdrawal_input =
  cwi_amount :: rat
  cwi_method :: payout_method
  cwi_upi :: "string option"
  cwi_account :: "string option"
  cwi_ifsc :: "string option"
  cwi_holder :: "string option"
  cwi_bank :: "string option"

record payout_destination =
  pd_method :: payout_method
  pd_upi :: "string option"
  pd_last4 :: "string option"
  pd_ifsc :: "string option"
  pd_holder :: "string option"
  pd_bank :: "string option"

record inr_withdrawal_dto =
  iwd_id :: nat
  iwd_user :: nat
  iwd_amount :: rat
  iwd_status :: inr_withdrawal_status
  iwd_payout :: payout_destination
  iwd_utr :: "string option"
  iwd_reason :: "string option"
  iwd_created :: nat
  iwd_updated :: nat
  iwd_approved_at :: "nat option"
  iwd_paid_at :: "nat option"

record admin_inr_withdrawal_dto =
  aiwd_row :: inr_withdrawal_dto
  aiwd_account :: "string option"
  aiwd_lock_txn :: "nat option"
  aiwd_final_txn :: "nat option"
  aiwd_approved_by :: "nat option"
  aiwd_reviewed_by :: "nat option"
  aiwd_paid_by :: "nat option"
  aiwd_note :: "string option"

text \<open>The name before the at sign, from its third character on, is starred out.\<close>

definition maskUpi :: "string option \<Rightarrow> string option" where
  "maskUpi upi =
     (case upi of
        None \<Rightarrow> None
      | Some u \<Rightarrow>
          if u = [] then None
          else if CHR ''@'' \<notin> set u then Some u
          else let handle = takeWhile (\<lambda>c. c \<noteq> CHR ''@'') u; sign = length handle
            in if sign \<le> 1 then Some u
               else let masked = (if length handle \<le> 2 then handle
                      else take 2 handle @ replicate (max 1 (length handle - 2)) (CHR ''*''))
                 in Some (masked @ drop sign u))"

text \<open>Four bullets (U+2022) in UTF-8.\<close>

definition bullets :: string where
  "bullets = concat (replicate 4 [CHR 0xE2, CHR 0x80, CHR 0xA2])"

definition maskedPayout :: "inr_withdrawal \<Rightarrow> payout_destination" where
  "maskedPayout row =
     \<lparr>pd_method = iw_method row, pd_upi = maskUpi (iw_upi row),
      pd_last4 = (case iw_last4 row of None \<Rightarrow> None | Some l \<Rightarrow> if l = [] then None else Some (bullets @ l)),
      pd_ifsc = iw_ifsc row, pd_holder = iw_holder row, pd_bank = iw_bank row\<rparr>"

definition toInrWithdrawalDto :: "inr_withdrawal \<Rightarrow> inr_withdrawal_dto" where
  "toInrWithdrawalDto row =
     \<lparr>iwd_id = iw_id row, iwd_user = iw_user row, iwd_amount = toFixed (iw_amount row) 2,
      iwd_status = iw_status row, iwd_payout = maskedPayout row, iwd_utr = iw_utr row,
      iwd_reason = iw_reason row, iwd_created = iw_created row, iwd_updated = iw_updated row,
      iwd_approved_at = iw_approved_at row, iwd_paid_at = iw_paid_at row\<rparr>"

definition toAdminInrWithdrawalDto ::
  "inr_withdrawal \<Rightarrow> string option \<Rightarrow> admin_inr_withdrawal_dto" where
  "toAdminInrWithdrawalDto row accountNumber =
     \<lparr>aiwd_row = toInrWithdrawalDto row, aiwd_account = accountNumber,
      aiwd_lock_txn = iw_lock_txn row, aiwd_final_txn = iw_final_txn row,
      aiwd_approved_by = iw_approved_by row, aiwd_reviewed_by = iw_reviewed_by row,
      aiwd_paid_by = iw_paid_by row, aiwd_note = iw_note row\<rparr>"

text \<open>A sealed number that does not open is shown as missing.\<close>

definition decryptAccountNumber :: "gcm \<Rightarrow> inr_withdrawal \<Rightarrow> string option" where
  "decryptAccountNumber C row =
     (case iw_account_enc row of None \<Rightarrow> None | Some enc \<Rightarrow> decryptPII C enc)"

section \<open>The repository\<close>

definition findUserState :: "nat \<Rightarrow> db \<Rightarrow> user option" where
  "findUserState userId s = find (\<lambda>u. user_id u = userId) (users s)"

definition create_iw ::
  "nat \<Rightarrow> nat \<Rightarrow> rat \<Rightarrow> payout_method \<Rightarrow> string option \<Rightarrow> nat list option \<Rightarrow> string option \<Rightarrow>
    string option \<Rightarrow> string option \<Rightarrow> string option \<Rightarrow> (db, inr_withdrawal) svc" where
  "create_iw i userId amount payoutMethod upi enc last4 ifsc holder bank =
     bindS (readS now) (\<lambda>t.
     let r = \<lparr>iw_id = i, iw_user = userId, iw_amount = amount, iw_status = IW_PENDING,
              iw_method = payoutMethod, iw_upi = upi, iw_account_enc = enc, iw_last4 = last4,
              iw_ifsc = ifsc, iw_holder = holder, iw_bank = bank, iw_lock_txn = None,
              iw_final_txn = None, iw_approved_by = None, iw_approved_at = None,
              iw_reviewed_by = None, iw_reviewed_at = None, iw_paid_by = None, iw_paid_at = None,
              iw_utr = None, iw_note = None, iw_reason = None, iw_created = t, iw_updated = t\<rparr>
     in bindS (writeS (\<lambda>s. s\<lparr>inr_withdrawals := inr_withdrawals s @ [r]\<rparr>)) (\<lambda>_. returnS r))"

definition findById_iw :: "nat \<Rightarrow> db \<Rightarrow> inr_withdrawal option" where
  "findById_iw i s = find (\<lambda>r. iw_id r = i) (inr_withdrawals s)"

definition findByIdForUser_iw :: "nat \<Rightarrow> nat \<Rightarrow> db \<Rightarrow> inr_withdrawal option" where
  "findByIdForUser_iw i userId s = find (\<lambda>r. iw_id r = i \<and> iw_user r = userId) (inr_withdrawals s)"

definition put_inr_withdrawals :: "inr_withdrawal list \<Rightarrow> db \<Rightarrow> db" where
  "put_inr_withdrawals rs s = s\<lparr>inr_withdrawals := rs\<rparr>"

text \<open>\<open>update\<close> and \<open>updateMany\<close>; both set \<open>updatedAt\<close>.  The table has no CHECK constraint.\<close>

definition updateMany_iw ::
  "nat \<Rightarrow> (inr_withdrawal \<Rightarrow> bool) \<Rightarrow> (inr_withdrawal \<Rightarrow> inr_withdrawal) \<Rightarrow> (db, nat) svc" where
  "updateMany_iw i cond upd =
     bindS (readS now) (\<lambda>t.
     update_many iw_id inr_withdrawals put_inr_withdrawals (\<lambda>_. True) ''inr_withdrawals'' i
       cond (\<lambda>r. upd r\<lparr>iw_updated := t\<rparr>))"

definition setLockTxn :: "nat \<Rightarrow> nat \<Rightarrow> (db, inr_withdrawal) svc" where
  "setLockTxn i lockLedgerTxnId =
     bindS (readS now) (\<lambda>t.
     update_one iw_id inr_withdrawals put_inr_withdrawals (\<lambda>_. True) ''inr_withdrawals'' i
       (\<lambda>r. r\<lparr>iw_lock_txn := Some lockLedgerTxnId, iw_updated := t\<rparr>))"

definition deleteIfPending :: "nat \<Rightarrow> (db, unit) svc" where
  "deleteIfPending i = writeS (\<lambda>s.
     put_inr_withdrawals (filter (\<lambda>r. \<not> (iw_id r = i \<and> iw_status r = IW_PENDING)) (inr_withdrawals s)) s)"

definition approve_iw_row :: "nat \<Rightarrow> nat \<Rightarrow> (db, bool \<times> inr_withdrawal option) svc" where
  "approve_iw_row i approvedBy =
     bindS (readS now) (\<lambda>t.
     bindS (updateMany_iw i (\<lambda>r. iw_status r = IW_PENDING)
       (\<lambda>r. r\<lparr>iw_status := IW_APPROVED, iw_approved_by := Some approvedBy, iw_approved_at := Some t\<rparr>)) (\<lambda>n.
     bindS (readS (findById_iw i)) (\<lambda>row. returnS (n = 1, row))))"

definition reject_iw_row :: "nat \<Rightarrow> nat \<Rightarrow> string \<Rightarrow> (db, bool \<times> inr_withdrawal option) svc" where
  "reject_iw_row i reviewedBy reason =
     bindS (readS now) (\<lambda>t.
     bindS (updateMany_iw i (\<lambda>r. iw_status r \<in> {IW_PENDING, IW_APPROVED})
       (\<lambda>r. r\<lparr>iw_status := IW_REJECTED, iw_reviewed_by := Some reviewedBy, iw_reviewed_at := Some t,
              iw_reason := Some reason\<rparr>)) (\<lambda>n.
     bindS (readS (findById_iw i)) (\<lambda>row. returnS (n = 1, row))))"

definition markPaid_iw_row ::
  "nat \<Rightarrow> nat \<Rightarrow> string \<Rightarrow> nat \<Rightarrow> string option \<Rightarrow> (db, bool \<times> inr_withdrawal option) svc" where
  "markPaid_iw_row i paidBy utr finalTxn note =
     bindS (readS now) (\<lambda>t.
     bindS (updateMany_iw i (\<lambda>r. iw_status r = IW_APPROVED)
       (\<lambda>r. r\<lparr>iw_status := IW_PAID, iw_paid_by := Some paidBy, iw_paid_at := Some t,
              iw_utr := Some utr, iw_final_txn := Some finalTxn,
              iw_note := (if note = None \<or> note = Some [] then iw_note r else note)\<rparr>)) (\<lambda>n.
     bindS (readS (findById_iw i)) (\<lambda>row. returnS (n = 1, row))))"

definition listForUser_iw ::
  "nat \<Rightarrow> inr_withdrawal_status option \<Rightarrow> nat option \<Rightarrow> nat \<Rightarrow> db \<Rightarrow> inr_withdrawal list" where
  "listForUser_iw userId status cursor limit s =
     find_page_by iw_created iw_id
       (filter (\<lambda>r. iw_user r = userId \<and> (status = None \<or> status = Some (iw_status r)))
         (inr_withdrawals s)) cursor limit"

record admin_withdrawal_filter =
  awf_status :: "inr_withdrawal_status option"
  awf_user :: "nat option"
  awf_email :: "string option"
  awf_from :: "nat option"
  awf_to :: "nat option"

definition buildAdminWhere_iw :: "admin_withdrawal_filter \<Rightarrow> db \<Rightarrow> inr_withdrawal \<Rightarrow> bool" where
  "buildAdminWhere_iw q s r \<longleftrightarrow>
     (awf_status q = None \<or> awf_status q = Some (iw_status r)) \<and>
     (awf_user q = None \<or> awf_user q = Some (iw_user r)) \<and>
     (case awf_email q of None \<Rightarrow> True | Some e \<Rightarrow> e = [] \<or>
        (case findUserState (iw_user r) s of None \<Rightarrow> False | Some u \<Rightarrow> contains_ci e (user_email u))) \<and>
     (case awf_from q of None \<Rightarrow> True | Some t \<Rightarrow> t \<le> iw_created r) \<and>
     (case awf_to q of None \<Rightarrow> True | Some t \<Rightarrow> iw_created r \<le> t)"

definition adminList_iw_rows ::
  "admin_withdrawal_filter \<Rightarrow> nat option \<Rightarrow> nat \<Rightarrow> db \<Rightarrow> inr_withdrawal list" where
  "adminList_iw_rows q cursor limit s =
     find_page_by iw_created iw_id (filter (buildAdminWhere_iw q s) (inr_withdrawals s)) cursor limit"

section \<open>Ledger movements\<close>

definition lock_iw :: "nat \<Rightarrow> nat \<Rightarrow> rat \<Rightarrow> posting_input" where
  "lock_iw i userId amount =
     \<lparr>post_kind = ''INR_WITHDRAWAL_LOCK'', post_reference_type = Some WITHDRAWAL_REFERENCE_TYPE,
      post_reference_id = Some i,
      post_lines = move_lines (Some userId) INR USER_AVAILABLE USER_LOCKED (toFixed amount 2)\<rparr>"

definition release_iw :: "nat \<Rightarrow> nat \<Rightarrow> rat \<Rightarrow> posting_input" where
  "release_iw i userId amount =
     \<lparr>post_kind = ''INR_WITHDRAWAL_RELEASE'',
      post_reference_type = Some WITHDRAWAL_RELEASE_REFERENCE_TYPE, post_reference_id = Some i,
      post_lines = move_lines (Some userId) INR USER_LOCKED USER_AVAILABLE (toFixed amount 2)\<rparr>"

definition payout_iw :: "nat \<Rightarrow> nat \<Rightarrow> rat \<Rightarrow> posting_input" where
  "payout_iw i userId amount =
     \<lparr>post_kind = ''INR_WITHDRAWAL_PAYOUT'',
      post_reference_type = Some WITHDRAWAL_PAYOUT_REFERENCE_TYPE, post_reference_id = Some i,
      post_lines =
        [\<lparr>line_user = Some userId, line_asset = INR, line_kind = USER_LOCKED,
          line_direction = DEBIT, line_amount = toFixed amount 2\<rparr>,
         \<lparr>line_user = None, line_asset = INR, line_kind = MANUAL_BANK_CLEARING,
          line_direction = CREDIT, line_amount = toFixed amount 2\<rparr>]\<rparr>"

section \<open>Requesting\<close>

definition request_iw_guards ::
  "rounding \<Rightarrow> inr_ops_config \<Rightarrow> nat \<Rightarrow> rat \<Rightarrow> (db, unit) svc" where
  "request_iw_guards D cfg userId amount =
     bindS (readS (findUserState userId)) (\<lambda>found.
     case found of
       None \<Rightarrow> throwS not_found
     | Some u \<Rightarrow>
         bindS (requireS (\<not> user_status u \<noteq> USER_ACTIVE) (ForbiddenError ''ACCOUNT_INACTIVE'')) (\<lambda>_.
         bindS (requireS (\<not> (kyc_status u \<noteq> KYC_APPROVED \<or> kyc_tier u < 1))
           (ForbiddenError ''KYC_REQUIRED'')) (\<lambda>_.
         bindS (requireS (\<not> withdrawals_blocked u) (ForbiddenError ''WITHDRAWALS_BLOCKED'')) (\<lambda>_.
         bindS (requireS (\<not> amount < withdrawalMin cfg) (AppError 422 ''AMOUNT_BELOW_MINIMUM'')) (\<lambda>_.
         bindS (requireS (\<not> withdrawalMax cfg < amount) (AppError 422 ''LIMIT_EXCEEDED'')) (\<lambda>_.
         bindS (requireS (of_int \<lfloor>dmul D amount 100\<rfloor> = dmul D amount 100) BadRequestError) (\<lambda>_.
         bindS (catchS (bindS (getInrWallet D userId) (\<lambda>w. returnS (wallet_available w)))
           (\<lambda>_. returnS 0)) (\<lambda>available.
         requireS (\<not> available < amount) (ConflictError ''INSUFFICIENT_BALANCE'')))))))))"

text \<open>The payout snapshot: which fields the row gets; \<open>iv\<close> are the random bytes of the sealing.\<close>

definition request_iw_create ::
  "rounding \<Rightarrow> inr_ops_config \<Rightarrow> gcm \<Rightarrow> nat list \<Rightarrow> nat \<Rightarrow> create_withdrawal_input \<Rightarrow>
    (db, inr_withdrawal) svc" where
  "request_iw_create D cfg C iv userId inp =
     bindS (request_iw_guards D cfg userId (cwi_amount inp)) (\<lambda>_.
     let isBank = (cwi_method inp = PAY_BANK)
     in bindS (if isBank then bindS (trim_field (cwi_account inp)) (\<lambda>a. returnS (Some a))
               else returnS None) (\<lambda>accountNumber.
        bindS fresh_uuid (\<lambda>i.
        bindS (if isBank then returnS None
               else bindS (trim_field (cwi_upi inp)) (\<lambda>u. returnS (Some u))) (\<lambda>upi.
        let sealed = (case accountNumber of None \<Rightarrow> None | Some a \<Rightarrow> if a = [] then None else Some a)
        in bindS (if isBank then bindS (trim_field (cwi_ifsc inp)) (\<lambda>x. returnS (Some (toUpperCase x)))
                  else returnS None) (\<lambda>ifsc.
           bindS (if isBank then bindS (trim_field (cwi_holder inp)) (\<lambda>h. returnS (Some h))
                  else returnS None) (\<lambda>holder.
           create_iw i userId (cwi_amount inp) (cwi_method inp) upi
             (map_option (encryptPII C iv) sealed) (map_option (slice_last 4) sealed) ifsc holder
             (if isBank then map_option trim (cwi_bank inp) else None)))))))"

definition is_conflict_error :: "err \<Rightarrow> bool" where
  "is_conflict_error e = (case e of ConflictError c \<Rightarrow> True | _ \<Rightarrow> False)"

definition request_iw_reserve ::
  "rounding \<Rightarrow> nat \<Rightarrow> inr_withdrawal \<Rightarrow> (db, inr_withdrawal_dto) svc" where
  "request_iw_reserve D userId row =
     bindS (catchS (post D (lock_iw (iw_id row) userId (iw_amount row)) (Some userId))
       (\<lambda>err.
         bindS (deleteIfPending (iw_id row)) (\<lambda>_.
         bindS (recordAudit ACTOR_USER (Some userId) ''inr.withdrawal.reserve_failed''
           (Some WITHDRAWAL_REFERENCE_TYPE) (Some (iw_id row))) (\<lambda>_.
         throwS (if is_conflict_error err then err else ConflictError ''INSUFFICIENT_BALANCE''))))) (\<lambda>posted.
     bindS (setLockTxn (iw_id row) (posted_id posted)) (\<lambda>bound.
     bindS (recordAudit ACTOR_USER (Some userId) ''inr.withdrawal.requested''
       (Some WITHDRAWAL_REFERENCE_TYPE) (Some (iw_id row))) (\<lambda>_.
     bindS (notify userId ''WITHDRAWAL_REQUESTED'') (\<lambda>_.
     returnS (toInrWithdrawalDto bound)))))"

definition requestWithdrawal_iw ::
  "rounding \<Rightarrow> inr_ops_config \<Rightarrow> gcm \<Rightarrow> nat list \<Rightarrow> nat \<Rightarrow> create_withdrawal_input \<Rightarrow>
    (db, inr_withdrawal_dto) svc" where
  "requestWithdrawal_iw D cfg C iv userId inp =
     bindS (request_iw_create D cfg C iv userId inp) (\<lambda>row. request_iw_reserve D userId row)"

section \<open>Reading\<close>

definition listUserWithdrawals_iw ::
  "nat \<Rightarrow> inr_withdrawal_status option \<Rightarrow> nat option \<Rightarrow> nat \<Rightarrow>
    (db, inr_withdrawal_dto list \<times> nat option) svc" where
  "listUserWithdrawals_iw userId status cursor limit = readS (\<lambda>s.
     let (slice, nextCursor) = page_last iw_id (listForUser_iw userId status cursor limit s) limit
     in (map toInrWithdrawalDto slice, nextCursor))"

definition getUserWithdrawal_iw :: "nat \<Rightarrow> nat \<Rightarrow> (db, inr_withdrawal_dto) svc" where
  "getUserWithdrawal_iw userId i =
     bindS (readS (findByIdForUser_iw i userId)) (\<lambda>row.
     case row of None \<Rightarrow> throwS not_found | Some r \<Rightarrow> returnS (toInrWithdrawalDto r))"

definition adminList_iw ::
  "admin_withdrawal_filter \<Rightarrow> nat option \<Rightarrow> nat \<Rightarrow> nat option \<Rightarrow>
    (db, admin_inr_withdrawal_dto list \<times> nat option) svc" where
  "adminList_iw q cursor limit actorId =
     bindS (readS (adminList_iw_rows q cursor limit)) (\<lambda>rows.
     let (slice, nextCursor) = page_last iw_id rows limit
     in bindS (case actorId of None \<Rightarrow> returnS ()
          | Some a \<Rightarrow> writeAdminLog a ''inr.withdrawal.admin_list'' (Some ''inr_withdrawal_queue'') None) (\<lambda>_.
        returnS (map (\<lambda>r. toAdminInrWithdrawalDto r None) slice, nextCursor)))"

definition adminGet_iw :: "gcm \<Rightarrow> nat \<Rightarrow> (db, admin_inr_withdrawal_dto) svc" where
  "adminGet_iw C i =
     bindS (readS (findById_iw i)) (\<lambda>row.
     case row of
       None \<Rightarrow> throwS not_found
     | Some r \<Rightarrow> returnS (toAdminInrWithdrawalDto r (decryptAccountNumber C r)))"

section \<open>Deciding\<close>

definition audit_iw :: "string \<Rightarrow> inr_withdrawal \<Rightarrow> nat \<Rightarrow> (db, unit) svc" where
  "audit_iw action row actor =
     bindS (recordAudit ACTOR_ADMIN (Some actor) action (Some WITHDRAWAL_REFERENCE_TYPE)
       (Some (iw_id row))) (\<lambda>_.
     writeAdminLog actor action (Some WITHDRAWAL_REFERENCE_TYPE) (Some (iw_id row)))"

text \<open>What every decision ends with: the trail and the notification when the row was flipped.\<close>

definition decided_iw ::
  "gcm \<Rightarrow> string \<Rightarrow> string \<Rightarrow> nat \<Rightarrow> bool \<times> inr_withdrawal option \<Rightarrow> (db, admin_inr_withdrawal_dto) svc" where
  "decided_iw C action note actor res =
     (case snd res of
        None \<Rightarrow> throwS not_found
      | Some row \<Rightarrow>
          bindS (whenS (fst res) (bindS (audit_iw action row actor) (\<lambda>_. notify (iw_user row) note))) (\<lambda>_.
          returnS (toAdminInrWithdrawalDto row (decryptAccountNumber C row))))"

definition approve_iw :: "gcm \<Rightarrow> nat \<Rightarrow> nat option \<Rightarrow> (db, admin_inr_withdrawal_dto) svc" where
  "approve_iw C i actorId =
     (case actorId of
        None \<Rightarrow> throwS (ForbiddenError ''FORBIDDEN'')
      | Some actor \<Rightarrow>
          bindS (readS (findById_iw i)) (\<lambda>found.
          case found of
            None \<Rightarrow> throwS not_found
          | Some existing \<Rightarrow>
              if iw_status existing = IW_APPROVED
              then returnS (toAdminInrWithdrawalDto existing (decryptAccountNumber C existing))
              else bindS (requireS (\<not> iw_status existing \<noteq> IW_PENDING) (ConflictError ''INVALID_STATE'')) (\<lambda>_.
                bindS (approve_iw_row i actor)
                  (decided_iw C ''inr.withdrawal.approved'' ''WITHDRAWAL_APPROVED'' actor))))"

text \<open>What a call finds when it reads the row: \<open>Inl\<close> to go on with, or the answer.\<close>

definition reject_iw_check ::
  "gcm \<Rightarrow> nat \<Rightarrow> nat option \<Rightarrow> (db, (nat \<times> inr_withdrawal) + admin_inr_withdrawal_dto) svc" where
  "reject_iw_check C i actorId =
     (case actorId of
        None \<Rightarrow> throwS (ForbiddenError ''FORBIDDEN'')
      | Some actor \<Rightarrow>
          bindS (readS (findById_iw i)) (\<lambda>found.
          case found of
            None \<Rightarrow> throwS not_found
          | Some existing \<Rightarrow>
              if iw_status existing = IW_REJECTED
              then returnS (Inr (toAdminInrWithdrawalDto existing (decryptAccountNumber C existing)))
              else bindS (requireS (\<not> iw_status existing = IW_PAID) (ConflictError ''ALREADY_PAID'')) (\<lambda>_.
                bindS (requireS (\<not> (iw_status existing \<noteq> IW_PENDING \<and> iw_status existing \<noteq> IW_APPROVED))
                  (ConflictError ''INVALID_STATE'')) (\<lambda>_.
                returnS (Inl (actor, existing))))))"

definition reject_iw_settle ::
  "rounding \<Rightarrow> gcm \<Rightarrow> nat \<Rightarrow> string \<Rightarrow> nat \<times> inr_withdrawal \<Rightarrow> (db, admin_inr_withdrawal_dto) svc" where
  "reject_iw_settle D C i reason go =
     (case go of (actor, existing) \<Rightarrow>
        bindS (post D (release_iw i (iw_user existing) (iw_amount existing)) (Some (iw_user existing))) (\<lambda>_.
        bindS (reject_iw_row i actor reason)
          (decided_iw C ''inr.withdrawal.rejected'' ''WITHDRAWAL_REJECTED'' actor)))"

definition reject_iw ::
  "rounding \<Rightarrow> gcm \<Rightarrow> nat \<Rightarrow> string \<Rightarrow> nat option \<Rightarrow> (db, admin_inr_withdrawal_dto) svc" where
  "reject_iw D C i reason actorId =
     bindS (reject_iw_check C i actorId) (\<lambda>res.
     case res of Inl go \<Rightarrow> reject_iw_settle D C i reason go | Inr dto \<Rightarrow> returnS dto)"

definition markPaid_iw_check ::
  "gcm \<Rightarrow> nat \<Rightarrow> nat option \<Rightarrow> (db, (nat \<times> inr_withdrawal) + admin_inr_withdrawal_dto) svc" where
  "markPaid_iw_check C i actorId =
     (case actorId of
        None \<Rightarrow> throwS (ForbiddenError ''FORBIDDEN'')
      | Some actor \<Rightarrow>
          bindS (readS (findById_iw i)) (\<lambda>found.
          case found of
            None \<Rightarrow> throwS not_found
          | Some existing \<Rightarrow>
              if iw_status existing = IW_PAID
              then returnS (Inr (toAdminInrWithdrawalDto existing (decryptAccountNumber C existing)))
              else bindS (requireS (\<not> iw_status existing \<noteq> IW_APPROVED) (ConflictError ''INVALID_STATE'')) (\<lambda>_.
                returnS (Inl (actor, existing)))))"

definition markPaid_iw_settle ::
  "rounding \<Rightarrow> gcm \<Rightarrow> nat \<Rightarrow> string \<Rightarrow> string option \<Rightarrow> nat \<times> inr_withdrawal \<Rightarrow>
    (db, admin_inr_withdrawal_dto) svc" where
  "markPaid_iw_settle D C i utr note go =
     (case go of (actor, existing) \<Rightarrow>
        bindS (post D (payout_iw i (iw_user existing) (iw_amount existing)) (Some (iw_user existing))) (\<lambda>posted.
        bindS (markPaid_iw_row i actor utr (posted_id posted) note)
          (decided_iw C ''inr.withdrawal.paid'' ''INR_WITHDRAWAL_PAID'' actor)))"

definition markPaid_iw ::
  "rounding \<Rightarrow> gcm \<Rightarrow> nat \<Rightarrow> string \<Rightarrow> string option \<Rightarrow> nat option \<Rightarrow> (db, admin_inr_withdrawal_dto) svc" where
  "markPaid_iw D C i utr note actorId =
     bindS (markPaid_iw_check C i actorId) (\<lambda>res.
     case res of Inl go \<Rightarrow> markPaid_iw_settle D C i utr note go | Inr dto \<Rightarrow> returnS dto)"

lemmas inr_withdrawal_code [code] =
  fun_cong [OF create_iw_def, unfolded run_code]
  fun_cong [OF updateMany_iw_def, unfolded run_code]
  fun_cong [OF setLockTxn_def, unfolded run_code]
  fun_cong [OF deleteIfPending_def, unfolded run_code]
  fun_cong [OF approve_iw_row_def, unfolded run_code]
  fun_cong [OF reject_iw_row_def, unfolded run_code]
  fun_cong [OF markPaid_iw_row_def, unfolded run_code]
  fun_cong [OF request_iw_guards_def, unfolded run_code]
  fun_cong [OF request_iw_create_def, unfolded run_code]
  fun_cong [OF request_iw_reserve_def, unfolded run_code]
  fun_cong [OF requestWithdrawal_iw_def, unfolded run_code]
  fun_cong [OF audit_iw_def, unfolded run_code]
  fun_cong [OF decided_iw_def, unfolded run_code]
  fun_cong [OF approve_iw_def, unfolded run_code]
  fun_cong [OF reject_iw_check_def, unfolded run_code]
  fun_cong [OF reject_iw_settle_def, unfolded run_code]
  fun_cong [OF reject_iw_def, unfolded run_code]
  fun_cong [OF markPaid_iw_check_def, unfolded run_code]
  fun_cong [OF markPaid_iw_settle_def, unfolded run_code]
  fun_cong [OF markPaid_iw_def, unfolded run_code]
  fun_cong [OF adminList_iw_def, unfolded run_code]
  fun_cong [OF adminGet_iw_def, unfolded run_code]

end
