(* ===== verification/Inr_Withdrawal_Laws.thy ===== *)
theory Inr_Withdrawal_Laws
  imports Inr_Withdrawal
begin

text \<open>
  What the table of rupee withdrawals promises: its rows and the ledger agree on whether the money
  of a withdrawal is reserved, given back or paid out, and every call moves exactly the balances
  that the change of the rows accounts for.
\<close>

section \<open>The table\<close>

interpretation inr_rows: table iw_id inr_withdrawals put_inr_withdrawals "\<lambda>_. True" "''inr_withdrawals''"
  by unfold_locales (simp_all add: put_inr_withdrawals_def ledger_tables_def)

lemma findById_iw_row: "findById_iw i s = inr_rows.find_row i s"
  by (simp add: findById_iw_def)

abbreviation locked_iw :: "nat \<Rightarrow> db \<Rightarrow> bool" where
  "locked_iw \<equiv> posted_as WITHDRAWAL_REFERENCE_TYPE"

abbreviation released_iw :: "nat \<Rightarrow> db \<Rightarrow> bool" where
  "released_iw \<equiv> posted_as WITHDRAWAL_RELEASE_REFERENCE_TYPE"

abbreviation paid_iw :: "nat \<Rightarrow> db \<Rightarrow> bool" where
  "paid_iw \<equiv> posted_as WITHDRAWAL_PAYOUT_REFERENCE_TYPE"

text \<open>
  A row against the ledger: the amount is reserved; it was given back exactly when the row is
  REJECTED, and paid out exactly when it is PAID; who decided is recorded.
\<close>

definition iw_ok :: "db \<Rightarrow> inr_withdrawal \<Rightarrow> bool" where
  "iw_ok s r \<longleftrightarrow> grid 2 (iw_amount r) \<and> 0 < iw_amount r \<and> locked_iw (iw_id r) s \<and>
     iw_lock_txn r \<noteq> None \<and> iw_status r \<noteq> IW_FAILED \<and>
     (released_iw (iw_id r) s \<longleftrightarrow> iw_status r = IW_REJECTED) \<and>
     (paid_iw (iw_id r) s \<longleftrightarrow> iw_status r = IW_PAID) \<and>
     (iw_status r \<in> {IW_APPROVED, IW_PAID} \<longrightarrow> iw_approved_by r \<noteq> None) \<and>
     (iw_status r = IW_REJECTED \<longrightarrow> iw_reviewed_by r \<noteq> None \<and> iw_reason r \<noteq> None) \<and>
     (iw_status r = IW_PAID \<longrightarrow> iw_paid_by r \<noteq> None \<and> iw_utr r \<noteq> None \<and> iw_final_txn r \<noteq> None)"

definition fresh_references :: "db \<Rightarrow> bool" where
  "fresh_references s \<longleftrightarrow>
     (\<forall>i. locked_iw i s \<or> released_iw i s \<or> paid_iw i s \<longrightarrow> i < next_uuid s)"

definition inr_state :: "db \<Rightarrow> bool" where
  "inr_state s \<longleftrightarrow> ledger_inv s \<and> distinct (map iw_id (inr_withdrawals s)) \<and> fresh_references s \<and>
     (\<forall>r \<in> set (inr_withdrawals s). iw_id r < next_uuid s \<and> iw_ok s r)"

lemma inr_stateD:
  assumes "inr_state s"
  shows "ledger_inv s" and "distinct (map iw_id (inr_withdrawals s))" and "fresh_references s"
    and "r \<in> set (inr_withdrawals s) \<Longrightarrow> iw_id r < next_uuid s \<and> iw_ok s r"
    and "findById_iw i s = Some x \<Longrightarrow> iw_id x = i \<and> i < next_uuid s \<and> iw_ok s x"
  using assms unfolding inr_state_def findById_iw_def by (auto dest: find_SomeD)

text \<open>What a state keeps when the table and the references stay.\<close>

definition same_references :: "db \<Rightarrow> db \<Rightarrow> bool" where
  "same_references s t \<longleftrightarrow> (\<forall>i. locked_iw i t = locked_iw i s \<and> released_iw i t = released_iw i s \<and>
     paid_iw i t = paid_iw i s)"

lemma iw_ok_cong: "same_references s t \<Longrightarrow> iw_ok t r = iw_ok s r"
  by (simp add: iw_ok_def same_references_def)

lemma inr_state_other:
  assumes "inr_state s" and "ledger_inv t" and "inr_withdrawals t = inr_withdrawals s"
    and "next_uuid s \<le> next_uuid t" and "same_references s t"
  shows "inr_state t"
proof -
  have ok: "iw_ok t r = iw_ok s r" for r by (rule iw_ok_cong [OF assms(5)])
  have "fresh_references t"
    unfolding fresh_references_def
  proof (intro allI impI)
    fix i assume "locked_iw i t \<or> released_iw i t \<or> paid_iw i t"
    then have "i < next_uuid s"
      using assms(1,5) unfolding inr_state_def fresh_references_def same_references_def by blast
    then show "i < next_uuid t" using assms(4) by simp
  qed
  moreover have "iw_id r < next_uuid t \<and> iw_ok t r" if "r \<in> set (inr_withdrawals t)" for r
  proof -
    have "iw_id r < next_uuid s \<and> iw_ok s r"
      by (rule inr_stateD(4) [OF assms(1)]) (use that assms(3) in simp)
    then show ?thesis using ok [of r] assms(4) by simp
  qed
  moreover have "distinct (map iw_id (inr_withdrawals t))"
    using inr_stateD(2) [OF assms(1)] by (simp add: assms(3))
  ultimately show ?thesis
    using assms(2) unfolding inr_state_def by blast
qed

lemma same_references_tables: "ledger_tables t = ledger_tables s \<Longrightarrow> same_references s t"
  using posted_as_tables [of t s] by (simp add: same_references_def)

lemma inr_state_write:
  assumes "inr_state s" and "ledger_tables t = ledger_tables s"
    and "inr_withdrawals t = inr_withdrawals s" and "next_uuid s \<le> next_uuid t"
  shows "inr_state t"
  by (rule inr_state_other [OF assms(1) ledger_inv_cong [OF assms(2,4) inr_stateD(1) [OF assms(1)]]
        assms(3,4) same_references_tables [OF assms(2)]])

lemma types_distinct [simp]:
  "WITHDRAWAL_REFERENCE_TYPE \<noteq> WITHDRAWAL_RELEASE_REFERENCE_TYPE"
  "WITHDRAWAL_REFERENCE_TYPE \<noteq> WITHDRAWAL_PAYOUT_REFERENCE_TYPE"
  "WITHDRAWAL_RELEASE_REFERENCE_TYPE \<noteq> WITHDRAWAL_PAYOUT_REFERENCE_TYPE"
  "WITHDRAWAL_RELEASE_REFERENCE_TYPE \<noteq> WITHDRAWAL_REFERENCE_TYPE"
  "WITHDRAWAL_PAYOUT_REFERENCE_TYPE \<noteq> WITHDRAWAL_REFERENCE_TYPE"
  "WITHDRAWAL_PAYOUT_REFERENCE_TYPE \<noteq> WITHDRAWAL_RELEASE_REFERENCE_TYPE"
  "WITHDRAWAL_REFERENCE_TYPE \<noteq> []" "WITHDRAWAL_RELEASE_REFERENCE_TYPE \<noteq> []"
  "WITHDRAWAL_PAYOUT_REFERENCE_TYPE \<noteq> []"
  by (simp_all add: reference_types)

lemma movements_posted:
  "already_posted (lock_iw i u x) s \<longleftrightarrow> locked_iw i s"
  "already_posted (release_iw i u x) s \<longleftrightarrow> released_iw i s"
  "already_posted (payout_iw i u x) s \<longleftrightarrow> paid_iw i s"
  by (simp_all add: already_posted_as lock_iw_def release_iw_def payout_iw_def)

text \<open>A posting of the module, whatever its outcome.\<close>

lemma movement_run:
  assumes "post D inp c s = (r, t)" and "ledger_inv s"
  shows "ledger_inv t" and "inr_withdrawals t = inr_withdrawals s" and "next_uuid s \<le> next_uuid t"
    and "now t = now s" and "users t = users s"
    and "isl r \<Longrightarrow> ledger_tables t = ledger_tables s"
  using post_only_ledger [OF assms] post_state(1) [OF assms] only_ledger_simps [of s t]
    post_Inl [of D inp c s _ t] assms(1)
  by (auto simp: isl_def ledger_tables_def)

section \<open>The book of the rows\<close>

text \<open>
  What a row accounts for: an open row is reserved, a PAID row has left through the bank account,
  and both are missing from the available balance.
\<close>

definition iw_open :: "inr_withdrawal \<Rightarrow> bool" where
  "iw_open r \<longleftrightarrow> iw_status r \<in> {IW_PENDING, IW_APPROVED}"

definition iw_row_book :: "inr_withdrawal \<Rightarrow> nat option \<Rightarrow> string \<Rightarrow> account_kind \<Rightarrow> rat" where
  "iw_row_book r v b k =
     (if b \<noteq> INR then 0
      else if v = None \<and> k = MANUAL_BANK_CLEARING \<and> iw_status r = IW_PAID then iw_amount r
      else if v = Some (iw_user r) \<and> k = USER_LOCKED \<and> iw_open r then iw_amount r
      else if v = Some (iw_user r) \<and> k = USER_AVAILABLE \<and> (iw_open r \<or> iw_status r = IW_PAID)
      then - iw_amount r
      else 0)"

definition iw_book :: "db \<Rightarrow> nat option \<Rightarrow> string \<Rightarrow> account_kind \<Rightarrow> rat" where
  "iw_book s v b k = sum_list (map (\<lambda>r. iw_row_book r v b k) (inr_withdrawals s))"

text \<open>A call books what it moves.\<close>

definition booked :: "db \<Rightarrow> db \<Rightarrow> bool" where
  "booked s t \<longleftrightarrow> (\<forall>v b k. bal t v b k - iw_book t v b k = bal s v b k - iw_book s v b k)"

lemma iw_book_cong: "inr_withdrawals t = inr_withdrawals s \<Longrightarrow> iw_book t = iw_book s"
  by (intro ext) (simp add: iw_book_def)

lemma booked_refl [simp]: "booked s s" by (simp add: booked_def)

lemma booked_trans: "booked s t \<Longrightarrow> booked t u \<Longrightarrow> booked s u" by (simp add: booked_def)

lemma booked_same:
  "ledger_tables t = ledger_tables s \<Longrightarrow> inr_withdrawals t = inr_withdrawals s \<Longrightarrow> booked s t"
  using bal_tables [of t s] iw_book_cong [of t s] by (simp add: booked_def)

definition set_row :: "nat \<Rightarrow> (inr_withdrawal \<Rightarrow> inr_withdrawal) \<Rightarrow> db \<Rightarrow> db" where
  "set_row i upd s =
     put_inr_withdrawals (map (\<lambda>x. if iw_id x = i then upd x else x) (inr_withdrawals s)) s"

lemma set_row_simps [simp]:
  "ledger_tables (set_row i upd s) = ledger_tables s" "next_uuid (set_row i upd s) = next_uuid s"
  "now (set_row i upd s) = now s" "users (set_row i upd s) = users s"
  by (simp_all add: set_row_def put_inr_withdrawals_def ledger_tables_def)

lemma booked_set_row:
  assumes "inr_state s" and "findById_iw i s = Some x"
    and "inr_withdrawals t = inr_withdrawals s"
    and "\<And>v b k. bal t v b k = bal s v b k + iw_row_book (upd x) v b k - iw_row_book x v b k"
  shows "booked s (set_row i upd t)"
  unfolding booked_def
proof (intro allI)
  fix v b k
  have "iw_book (set_row i upd t) v b k = iw_book s v b k + iw_row_book (upd x) v b k - iw_row_book x v b k"
    using sum_updated [OF inr_stateD(2) [OF assms(1)], of i x "\<lambda>r. iw_row_book r v b k" upd] assms(2,3)
    by (simp add: iw_book_def set_row_def findById_iw_def put_inr_withdrawals_def)
  moreover have "bal (set_row i upd t) = bal t" by (rule bal_tables) simp
  ultimately show "bal (set_row i upd t) v b k - iw_book (set_row i upd t) v b k =
      bal s v b k - iw_book s v b k"
    using assms(4) [of v b k] by simp
qed

lemma find_set_row:
  assumes "\<And>y. iw_id (upd y) = iw_id y"
  shows "findById_iw j (set_row i upd s) =
    map_option (\<lambda>x. if iw_id x = i then upd x else x) (findById_iw j s)"
  unfolding findById_iw_row set_row_def by (rule inr_rows.find_row_updated_one [OF assms])

lemma updateMany_iw_run:
  assumes d: "distinct (map iw_id (inr_withdrawals s))" and "findById_iw i s = Some x" and "\<And>y. iw_id (upd y) = iw_id y"
  shows "updateMany_iw i c upd s =
    (if c x then (Inr 1, set_row i (\<lambda>r. upd r\<lparr>iw_updated := now s\<rparr>) s) else (Inr 0, s))"
proof -
  let ?upd = "\<lambda>r. upd r\<lparr>iw_updated := now s\<rparr>"
  have hit: "filter (\<lambda>r. iw_id r = i \<and> c r) (inr_withdrawals s) = (if c x then [x] else [])"
    using filter_key [OF d, of i c] assms(2) by (simp add: findById_iw_def)
  have x: "x \<in> set (inr_withdrawals s)" "iw_id x = i"
    using assms(2) by (auto simp: findById_iw_def dest: find_SomeD)
  have only: "y = x" if "y \<in> set (inr_withdrawals s)" "iw_id y = i" for y
    using d x that by (auto simp: distinct_map inj_on_def)
  have rows: "map (\<lambda>y. if iw_id y = i \<and> c y then ?upd y else y) (inr_withdrawals s) =
    (if c x then map (\<lambda>y. if iw_id y = i then ?upd y else y) (inr_withdrawals s) else inr_withdrawals s)"
    using only by (auto intro!: map_idI)
  have "updateMany_iw i c upd s = (Inr (length (if c x then [x] else [])),
      put_inr_withdrawals (map (\<lambda>y. if iw_id y = i \<and> c y then ?upd y else y) (inr_withdrawals s)) s)"
    unfolding updateMany_iw_def update_many_def bindS_apply readS_apply prod.case sum.case hit
    by (cases "c x") (simp_all add: requireS_apply writeS_apply returnS_apply)
  then show ?thesis unfolding rows by (simp add: set_row_def)
qed

text \<open>Changing the decided row and the references keeps the state.\<close>

lemma inr_state_set_row:
  assumes s: "inr_state s" and x: "findById_iw i s = Some x"
    and id: "\<And>y. iw_id (upd y) = iw_id y"
    and ledger: "ledger_inv t" "next_uuid s \<le> next_uuid t" "inr_withdrawals t = inr_withdrawals s"
    and refs: "\<And>j. j \<noteq> i \<Longrightarrow> locked_iw j t = locked_iw j s \<and> released_iw j t = released_iw j s \<and>
        paid_iw j t = paid_iw j s"
    and ok: "iw_ok t (upd x)"
  shows "inr_state (set_row i upd t)"
proof -
  let ?t = "set_row i upd t"
  have same: "same_references t ?t" by (rule same_references_tables) simp
  have keys: "map iw_id (inr_withdrawals ?t) = map iw_id (inr_withdrawals s)"
    by (simp add: set_row_def put_inr_withdrawals_def ledger(3) id)
  have x': "iw_id x = i" "i < next_uuid s" using inr_stateD(5) [OF s x] by simp_all
  have "fresh_references ?t"
    unfolding fresh_references_def
  proof (intro allI impI)
    fix j assume j: "locked_iw j ?t \<or> released_iw j ?t \<or> paid_iw j ?t"
    show "j < next_uuid ?t"
    proof (cases "j = i")
      case True then show ?thesis using x'(2) ledger(2) by simp
    next
      case False
      then have "j < next_uuid s"
        using j same refs [OF False] inr_stateD(3) [OF s] unfolding fresh_references_def same_references_def by blast
      then show ?thesis using ledger(2) by simp
    qed
  qed
  moreover have "iw_id r < next_uuid ?t \<and> iw_ok ?t r" if r: "r \<in> set (inr_withdrawals ?t)" for r
  proof -
    obtain y where y: "y \<in> set (inr_withdrawals s)" "r = (if iw_id y = i then upd y else y)"
      using r by (auto simp: set_row_def put_inr_withdrawals_def ledger(3))
    have bound: "iw_id y < next_uuid s" "iw_ok s y" using inr_stateD(4) [OF s y(1)] by simp_all
    show ?thesis
    proof (cases "iw_id y = i")
      case True
      then have "y = x" using y(1) x inr_stateD(2) [OF s]
        by (auto simp: findById_iw_def distinct_map inj_on_def dest!: find_SomeD)
      then show ?thesis using True y(2) ok bound ledger(2) id iw_ok_cong [OF same] by simp
    next
      case False
      then have "iw_ok t y" using bound(2) refs [OF False] by (simp add: iw_ok_def)
      then show ?thesis using False y(2) bound(1) ledger(2) iw_ok_cong [OF same] by simp
    qed
  qed
  ultimately show ?thesis
    unfolding inr_state_def keys using inr_stateD(2) [OF s] ledger(1)
      ledger_inv_cong [of ?t t] by simp
qed

section \<open>Requesting\<close>

text \<open>Everything a request is checked for before a row is written.\<close>

definition iw_admissible :: "rounding \<Rightarrow> inr_ops_config \<Rightarrow> nat \<Rightarrow> rat \<Rightarrow> db \<Rightarrow> bool" where
  "iw_admissible D cfg u x s \<longleftrightarrow>
     (\<exists>usr. findUserState u s = Some usr \<and> user_status usr = USER_ACTIVE \<and>
        kyc_status usr = KYC_APPROVED \<and> 1 \<le> kyc_tier usr \<and> \<not> withdrawals_blocked usr) \<and>
     withdrawalMin cfg \<le> x \<and> x \<le> withdrawalMax cfg \<and> of_int \<lfloor>dmul D x 100\<rfloor> = dmul D x 100 \<and>
     x \<le> sum_balances D s USER_AVAILABLE (getWalletAccounts u INR s)"

lemma request_iw_guards_run:
  "request_iw_guards D cfg u x s = (r, t) \<Longrightarrow> t = s \<and> (r = Inr () \<longleftrightarrow> iw_admissible D cfg u x s)"
  by (auto simp: request_iw_guards_def iw_admissible_def getInrWallet_def walletDto_def INR_def svc_simps
      split: if_splits option.splits)

definition iw_requested :: "nat \<Rightarrow> create_withdrawal_input \<Rightarrow> nat \<Rightarrow> nat \<Rightarrow> inr_withdrawal \<Rightarrow> bool" where
  "iw_requested u inp i t row \<longleftrightarrow> iw_id row = i \<and> iw_user row = u \<and> iw_amount row = cwi_amount inp \<and>
     iw_method row = cwi_method inp \<and> iw_status row = IW_PENDING \<and> iw_created row = t"

lemma trim_field_run: "trim_field x s = (r, t) \<Longrightarrow> t = s"
  by (auto simp: trim_field_def svc_simps split: option.splits)

lemma request_iw_create_sealed:
  assumes "request_iw_create D cfg C iv u inp s = (Inr row, t)" and "cwi_method inp = PAY_BANK"
    and "cwi_account inp = Some a" and "trim a \<noteq> []"
  shows "iw_account_enc row = Some (encryptPII C iv (trim a))" and "iw_last4 row = Some (slice_last 4 (trim a))"
proof -
  obtain r1 s1 where 1: "request_iw_guards D cfg u (cwi_amount inp) s = (r1, s1)"
    by (cases "request_iw_guards D cfg u (cwi_amount inp) s")
  then obtain v where "r1 = Inr v"
    using assms(1) by (cases r1) (auto simp: request_iw_create_def svc_simps)
  then show "iw_account_enc row = Some (encryptPII C iv (trim a))" "iw_last4 row = Some (slice_last 4 (trim a))"
    using assms 1 by (cases "cwi_ifsc inp"; cases "cwi_holder inp";
      auto simp: request_iw_create_def fresh_uuid_def create_iw_def trim_field_def svc_simps Let_def)+
qed

lemma request_iw_create_run:
  assumes "request_iw_create D cfg C iv u inp s = (r, t)"
  shows "ledger_tables t = ledger_tables s \<and> now t = now s \<and> next_uuid s \<le> next_uuid t \<and>
     (case r of
        Inl e \<Rightarrow> inr_withdrawals t = inr_withdrawals s
      | Inr row \<Rightarrow> iw_admissible D cfg u (cwi_amount inp) s \<and> next_uuid s < next_uuid t \<and>
          iw_requested u inp (next_uuid s) (now s) row \<and>
          inr_withdrawals t = inr_withdrawals s @ [row])"
proof -
  obtain r1 s1 where 1: "request_iw_guards D cfg u (cwi_amount inp) s = (r1, s1)"
    by (cases "request_iw_guards D cfg u (cwi_amount inp) s")
  note g = request_iw_guards_run [OF 1]
  show ?thesis
  proof (cases r1)
    case (Inl e)
    then show ?thesis using assms 1 g by (auto simp: request_iw_create_def svc_simps)
  next
    case (Inr v)
    then show ?thesis using assms 1 g
      by (cases "cwi_method inp"; cases "cwi_account inp"; cases "cwi_ifsc inp"; cases "cwi_holder inp";
          cases "cwi_upi inp")
        (auto simp: request_iw_create_def fresh_uuid_def create_iw_def trim_field_def svc_simps Let_def
          ledger_tables_def iw_requested_def)
  qed
qed

text \<open>Reserving the amount of the new row.\<close>

lemma new_iw_row:
  assumes "inr_state s" and "inr_withdrawals t = inr_withdrawals s @ [row]" and "iw_id row = next_uuid s"
  shows "findById_iw (iw_id row) t = Some row"
    and "inr_withdrawals (set_row (iw_id row) upd t) = inr_withdrawals s @ [upd row]"
    and "filter (\<lambda>r. \<not> (iw_id r = iw_id row \<and> iw_status r = IW_PENDING)) (inr_withdrawals t) =
      inr_withdrawals s @ (if iw_status row = IW_PENDING then [] else [row])"
proof -
  have other: "iw_id r \<noteq> iw_id row" if "r \<in> set (inr_withdrawals s)" for r
    using inr_stateD(4) [OF assms(1) that] assms(3) by simp
  then have "find (\<lambda>r. iw_id r = iw_id row) (inr_withdrawals s) = None" by (auto simp: find_None_iff)
  then show "findById_iw (iw_id row) t = Some row"
    by (simp add: findById_iw_def assms(2) find_append)
  show "inr_withdrawals (set_row (iw_id row) upd t) = inr_withdrawals s @ [upd row]"
    using other by (simp add: set_row_def put_inr_withdrawals_def assms(2) map_idI)
  show "filter (\<lambda>r. \<not> (iw_id r = iw_id row \<and> iw_status r = IW_PENDING)) (inr_withdrawals t) =
      inr_withdrawals s @ (if iw_status row = IW_PENDING then [] else [row])"
    using other by (simp add: assms(2))
qed

lemma setLockTxn_run:
  assumes "findById_iw i s = Some x"
  shows "setLockTxn i n s = (Inr (x\<lparr>iw_lock_txn := Some n, iw_updated := now s\<rparr>),
    set_row i (\<lambda>r. r\<lparr>iw_lock_txn := Some n, iw_updated := now s\<rparr>) s)"
  using inr_rows.update_one_run [of i s x "\<lambda>r. r\<lparr>iw_lock_txn := Some n, iw_updated := now s\<rparr>"] assms
  by (simp add: setLockTxn_def svc_simps findById_iw_def set_row_def)

definition reserved_row :: "inr_withdrawal \<Rightarrow> nat \<Rightarrow> nat \<Rightarrow> inr_withdrawal" where
  "reserved_row row txn t = row\<lparr>iw_lock_txn := Some txn, iw_updated := t\<rparr>"

lemma request_iw_reserve_run:
  assumes s: "inr_state s" and rows: "inr_withdrawals s1 = inr_withdrawals s @ [row]"
    and id: "iw_id row = next_uuid s" and pending: "iw_status row = IW_PENDING"
    and tab: "ledger_tables s1 = ledger_tables s" and uuid: "next_uuid s < next_uuid s1"
    and run: "request_iw_reserve D u row s1 = (r, t)"
  shows "case r of
      Inl e \<Rightarrow> is_conflict_error e \<and> ledger_tables t = ledger_tables s \<and>
        inr_withdrawals t = inr_withdrawals s \<and> next_uuid s \<le> next_uuid t
    | Inr dto \<Rightarrow> \<exists>p s2. post D (lock_iw (iw_id row) u (iw_amount row)) (Some u) s1 = (Inr p, s2) \<and>
        dto = toInrWithdrawalDto (reserved_row row (posted_id p) (now s1)) \<and>
        inr_withdrawals t = inr_withdrawals s @ [reserved_row row (posted_id p) (now s1)] \<and>
        ledger_tables t = ledger_tables s2 \<and> next_uuid s2 \<le> next_uuid t"
proof -
  let ?inp = "lock_iw (iw_id row) u (iw_amount row)"
  have inv1: "ledger_inv s1"
    using ledger_inv_cong [OF tab _ inr_stateD(1) [OF s]] uuid by simp
  obtain r2 s2 where 2: "post D ?inp (Some u) s1 = (r2, s2)" by (cases "post D ?inp (Some u) s1")
  note m = movement_run [OF 2 inv1]
  note new = new_iw_row [OF s _ id]
  show ?thesis
  proof (cases r2)
    case (Inl e)
    then show ?thesis
      using run 2 m new(3) [of s2] rows pending uuid tab
      by (auto simp: request_iw_reserve_def svc_simps deleteIfPending_def recordAudit_def
          put_inr_withdrawals_def ledger_tables_def is_conflict_error_def)
  next
    case (Inr p)
    have rows2: "inr_withdrawals s2 = inr_withdrawals s @ [row]" using m(2) rows by simp
    have "r = Inr (toInrWithdrawalDto (reserved_row row (posted_id p) (now s1)))"
      "inr_withdrawals t = inr_withdrawals (set_row (iw_id row)
         (\<lambda>r. r\<lparr>iw_lock_txn := Some (posted_id p), iw_updated := now s2\<rparr>) s2)"
      "ledger_tables t = ledger_tables s2" "next_uuid t = next_uuid s2"
      using run 2 Inr setLockTxn_run [OF new(1) [OF rows2]] m(4)
      by (auto simp: request_iw_reserve_def svc_simps recordAudit_def notify_def ledger_tables_def
          set_row_def put_inr_withdrawals_def reserved_row_def)
    then show ?thesis using 2 Inr new(2) [OF rows2] m(4) by (auto simp: reserved_row_def)
  qed
qed

lemma movement_lines:
  assumes "grid 2 x"
  shows "post_lines (lock_iw i u x) = move_lines (Some u) INR USER_AVAILABLE USER_LOCKED x"
    and "post_lines (release_iw i u x) = move_lines (Some u) INR USER_LOCKED USER_AVAILABLE x"
    and "delta (post_lines (payout_iw i u x)) v b k = (if b \<noteq> INR then 0
      else if v = Some u \<and> k = USER_LOCKED then - x
      else if v = None \<and> k = MANUAL_BANK_CLEARING then x else 0)"
  using toFixed_grid [OF assms]
  by (auto simp: lock_iw_def release_iw_def payout_iw_def delta_def line_delta_def signed_amount_def)

lemma posted_positive:
  assumes "post D inp c s = (Inr p, t)" and "l \<in> set (post_lines inp)"
  shows "0 < line_amount l"
  by (rule post_Inr [OF assms(1)]) (use assms(2) in blast)

text \<open>The references after a movement of the module for row \<open>i\<close>.\<close>

lemma movement_marks:
  assumes "post D inp c s = (Inr p, t)" and "ledger_inv s"
    and "post_reference_type inp = Some rt" "rt \<noteq> []" "post_reference_id inp = Some i"
  shows "locked_iw j t \<longleftrightarrow> locked_iw j s \<or> rt = WITHDRAWAL_REFERENCE_TYPE \<and> j = i"
    and "released_iw j t \<longleftrightarrow> released_iw j s \<or> rt = WITHDRAWAL_RELEASE_REFERENCE_TYPE \<and> j = i"
    and "paid_iw j t \<longleftrightarrow> paid_iw j s \<or> rt = WITHDRAWAL_PAYOUT_REFERENCE_TYPE \<and> j = i"
  using post_marks [OF assms, of WITHDRAWAL_REFERENCE_TYPE j]
    post_marks [OF assms, of WITHDRAWAL_RELEASE_REFERENCE_TYPE j]
    post_marks [OF assms, of WITHDRAWAL_PAYOUT_REFERENCE_TYPE j] by auto

lemma movement_references [simp]:
  "post_reference_type (lock_iw i u x) = Some WITHDRAWAL_REFERENCE_TYPE"
  "post_reference_type (release_iw i u x) = Some WITHDRAWAL_RELEASE_REFERENCE_TYPE"
  "post_reference_type (payout_iw i u x) = Some WITHDRAWAL_PAYOUT_REFERENCE_TYPE"
  "post_reference_id (lock_iw i u x) = Some i" "post_reference_id (release_iw i u x) = Some i"
  "post_reference_id (payout_iw i u x) = Some i"
  by (simp_all add: lock_iw_def release_iw_def payout_iw_def)

lemma reserved_state:
  assumes s: "inr_state s" and inv: "ledger_inv s1" and tab: "ledger_tables s1 = ledger_tables s"
    and row: "iw_id row = next_uuid s" "iw_status row = IW_PENDING" "grid 2 (iw_amount row)"
    and run: "post D (lock_iw (iw_id row) (iw_user row) (iw_amount row)) c s1 = (Inr p, s2)"
    and uuid: "next_uuid s < next_uuid s1"
    and t: "inr_withdrawals t = inr_withdrawals s @ [reserved_row row n m]"
      "ledger_tables t = ledger_tables s2" "next_uuid s2 \<le> next_uuid t"
  shows "inr_state t" and "booked s t" and "bal t v b k = bal s v b k +
    (if v = Some (iw_user row) \<and> b = INR then (if k = USER_AVAILABLE then - iw_amount row
       else if k = USER_LOCKED then iw_amount row else 0) else 0)"
proof -
  let ?i = "next_uuid s"
  note m = movement_run [OF run inv]
  have same: "same_references s2 t" by (rule same_references_tables [OF t(2)])
  note mark = movement_marks [OF run inv movement_references(1) types_distinct(7) movement_references(4)]
  have old: "locked_iw j s1 = locked_iw j s" "released_iw j s1 = released_iw j s" "paid_iw j s1 = paid_iw j s"
    for j using posted_as_tables [OF tab] by simp_all
  have refs: "locked_iw j t \<longleftrightarrow> locked_iw j s \<or> j = ?i" "released_iw j t \<longleftrightarrow> released_iw j s"
    "paid_iw j t \<longleftrightarrow> paid_iw j s" for j
    using same mark [of j] old [of j] row(1) by (simp_all add: same_references_def)
  have fresh: "\<not> locked_iw ?i s" "\<not> released_iw ?i s" "\<not> paid_iw ?i s"
    using inr_stateD(3) [OF s] unfolding fresh_references_def by blast+
  have up: "?i < next_uuid t" using uuid m(3) t(3) by simp
  have lines: "post_lines (lock_iw (iw_id row) (iw_user row) (iw_amount row)) =
    move_lines (Some (iw_user row)) INR USER_AVAILABLE USER_LOCKED (iw_amount row)"
    by (rule movement_lines(1) [OF row(3)])
  have "\<forall>l \<in> set (post_lines (lock_iw (iw_id row) (iw_user row) (iw_amount row))). 0 < line_amount l"
    using posted_positive [OF run] by blast
  then have pos: "0 < iw_amount row" by (simp add: lines move_lines_def)
  have "\<not> already_posted (lock_iw (iw_id row) (iw_user row) (iw_amount row)) s1"
    using fresh(1) old(1) row(1) by (simp add: movements_posted)
  then have bal: "bal s2 v b k = bal s v b k + (if v = Some (iw_user row) \<and> b = INR then
      (if k = USER_AVAILABLE then - iw_amount row else if k = USER_LOCKED then iw_amount row else 0) else 0)"
    for v b k
    using posting.success_moves [OF run inv] bal_tables [OF tab] by (simp add: lines delta_move_lines)
  then show moved: "bal t v b k = bal s v b k + (if v = Some (iw_user row) \<and> b = INR then
      (if k = USER_AVAILABLE then - iw_amount row else if k = USER_LOCKED then iw_amount row else 0) else 0)"
    for v b k using bal_tables [OF t(2)] by simp
  show "booked s t"
    unfolding booked_def moved iw_book_def t(1)
    by (auto simp: iw_row_book_def reserved_row_def row(2) iw_open_def)
  have ok: "iw_id r < next_uuid t \<and> iw_ok t r" if "r \<in> set (inr_withdrawals s)" for r
    using inr_stateD(4) [OF s that] up refs [of "iw_id r"] by (simp add: iw_ok_def)
  moreover have "iw_ok t (reserved_row row n m)"
    using row pos fresh refs [of ?i] by (simp add: iw_ok_def reserved_row_def)
  moreover have "fresh_references t"
    using inr_stateD(3) [OF s] up refs unfolding fresh_references_def by (auto intro: less_trans)
  moreover have "distinct (map iw_id (inr_withdrawals t))"
  proof -
    have "\<forall>r \<in> set (inr_withdrawals s). iw_id r \<noteq> iw_id row"
      using inr_stateD(4) [OF s] row(1) by fastforce
    then show ?thesis using inr_stateD(2) [OF s] by (force simp: t(1) reserved_row_def)
  qed
  ultimately show "inr_state t"
    using ledger_inv_cong [OF t(2,3) m(1)] up row(1) by (auto simp: inr_state_def t(1) reserved_row_def)
qed

text \<open>A request is admissible and reserves exactly its amount, or it leaves rows and ledger alone.\<close>

definition request_iw_outcome ::
  "rounding \<Rightarrow> inr_ops_config \<Rightarrow> gcm \<Rightarrow> nat list \<Rightarrow> nat \<Rightarrow> create_withdrawal_input \<Rightarrow> db \<Rightarrow>
    err + inr_withdrawal_dto \<Rightarrow> db \<Rightarrow> bool" where
  "request_iw_outcome D cfg C iv u inp s r t \<longleftrightarrow> (case r of
      Inl e \<Rightarrow> ledger_tables t = ledger_tables s \<and> inr_withdrawals t = inr_withdrawals s
    | Inr dto \<Rightarrow> iw_admissible D cfg u (cwi_amount inp) s \<and>
        (\<exists>row txn. fst (request_iw_create D cfg C iv u inp s) = Inr row \<and>
           iw_requested u inp (next_uuid s) (now s) row \<and>
           dto = toInrWithdrawalDto (reserved_row row txn (now s)) \<and>
           inr_withdrawals t = inr_withdrawals s @ [reserved_row row txn (now s)]) \<and>
        (\<forall>v b k. bal t v b k = bal s v b k + (if v = Some u \<and> b = INR then
           (if k = USER_AVAILABLE then - cwi_amount inp else if k = USER_LOCKED then cwi_amount inp else 0)
           else 0)))"

lemma requestWithdrawal_iw_run:
  assumes s: "inr_state s" and x: "grid 2 (cwi_amount inp)"
    and run: "requestWithdrawal_iw D cfg C iv u inp s = (r, t)"
  shows "inr_state t" and "booked s t"
    and "request_iw_outcome D cfg C iv u inp s r t"
proof -
  obtain r1 s1 where 1: "request_iw_create D cfg C iv u inp s = (r1, s1)"
    by (cases "request_iw_create D cfg C iv u inp s")
  note c = request_iw_create_run [OF 1]
  have "inr_state t \<and> booked s t \<and> request_iw_outcome D cfg C iv u inp s r t"
  proof (cases r1)
    case (Inl e)
    then have "r = Inl e" "t = s1" using run 1 by (auto simp: requestWithdrawal_iw_def svc_simps)
    then show ?thesis using c Inl inr_state_write [OF s, of s1] booked_same [of s1 s]
      by (simp add: request_iw_outcome_def)
  next
    case (Inr row)
    then have row: "iw_admissible D cfg u (cwi_amount inp) s" "next_uuid s < next_uuid s1"
      "iw_requested u inp (next_uuid s) (now s) row" "inr_withdrawals s1 = inr_withdrawals s @ [row]"
      "ledger_tables s1 = ledger_tables s" "now s1 = now s" using c by auto
    then have f: "iw_id row = next_uuid s" "iw_status row = IW_PENDING" "iw_user row = u"
      "iw_amount row = cwi_amount inp" by (simp_all add: iw_requested_def)
    have 2: "request_iw_reserve D u row s1 = (r, t)"
      using run 1 Inr by (auto simp: requestWithdrawal_iw_def svc_simps)
    note v = request_iw_reserve_run [OF s row(4) f(1,2) row(5,2) 2]
    show ?thesis
    proof (cases r)
      case (Inl e)
      then show ?thesis using v inr_state_write [OF s, of t] booked_same [of t s]
        by (simp add: request_iw_outcome_def)
    next
      case (Inr dto)
      then obtain p s2 where p: "post D (lock_iw (iw_id row) u (iw_amount row)) (Some u) s1 = (Inr p, s2)"
        "dto = toInrWithdrawalDto (reserved_row row (posted_id p) (now s1))"
        "inr_withdrawals t = inr_withdrawals s @ [reserved_row row (posted_id p) (now s1)]"
        "ledger_tables t = ledger_tables s2" "next_uuid s2 \<le> next_uuid t" using v by auto
      have inv1: "ledger_inv s1"
        using ledger_inv_cong [OF row(5) _ inr_stateD(1) [OF s]] row(2) by simp
      note w = reserved_state [OF s inv1 row(5) f(1,2) _ p(1) [folded f(3)] row(2) p(3-5)]
      show ?thesis using w x f p(2,3) row(1,3,6) Inr 1 \<open>r1 = Inr row\<close>
        by (auto simp: request_iw_outcome_def)
    qed
  qed
  then show "inr_state t" "booked s t" "request_iw_outcome D cfg C iv u inp s r t" by blast+
qed

section \<open>Deciding\<close>

lemma decided_iw_run:
  assumes "decided_iw C action note actor res s = (r, t)"
  shows "ledger_tables t = ledger_tables s" and "inr_withdrawals t = inr_withdrawals s"
    and "next_uuid t = next_uuid s"
    and "r = (case snd res of None \<Rightarrow> Inl not_found
      | Some row \<Rightarrow> Inr (toAdminInrWithdrawalDto row (decryptAccountNumber C row)))"
  using assms
  by (auto simp: decided_iw_def audit_iw_def recordAudit_def writeAdminLog_def notify_def svc_simps
      ledger_tables_def split: option.splits if_splits)

text \<open>The rows as the decisions leave them.\<close>

definition approved_row_iw :: "nat \<Rightarrow> nat \<Rightarrow> inr_withdrawal \<Rightarrow> inr_withdrawal" where
  "approved_row_iw a t x = x\<lparr>iw_status := IW_APPROVED, iw_approved_by := Some a, iw_approved_at := Some t,
     iw_updated := t\<rparr>"

definition rejected_row_iw :: "nat \<Rightarrow> string \<Rightarrow> nat \<Rightarrow> inr_withdrawal \<Rightarrow> inr_withdrawal" where
  "rejected_row_iw a reason t x = x\<lparr>iw_status := IW_REJECTED, iw_reviewed_by := Some a,
     iw_reviewed_at := Some t, iw_reason := Some reason, iw_updated := t\<rparr>"

definition paid_row_iw ::
  "nat \<Rightarrow> string \<Rightarrow> nat \<Rightarrow> string option \<Rightarrow> nat \<Rightarrow> inr_withdrawal \<Rightarrow> inr_withdrawal" where
  "paid_row_iw a utr txn note t x = x\<lparr>iw_status := IW_PAID, iw_paid_by := Some a, iw_paid_at := Some t,
     iw_utr := Some utr, iw_final_txn := Some txn,
     iw_note := (if note = None \<or> note = Some [] then iw_note x else note), iw_updated := t\<rparr>"

lemmas decided_rows = approved_row_iw_def rejected_row_iw_def paid_row_iw_def

lemma flip_runs:
  assumes s: "inr_state s" and x: "findById_iw i s = Some x"
    and t: "inr_withdrawals t = inr_withdrawals s"
  shows "approve_iw_row i a t = (if iw_status x = IW_PENDING
      then (Inr (True, Some (approved_row_iw a (now t) x)), set_row i (approved_row_iw a (now t)) t)
      else (Inr (False, Some x), t))"
    and "reject_iw_row i a reason t = (if iw_open x
      then (Inr (True, Some (rejected_row_iw a reason (now t) x)), set_row i (rejected_row_iw a reason (now t)) t)
      else (Inr (False, Some x), t))"
    and "markPaid_iw_row i a utr txn note t = (if iw_status x = IW_APPROVED
      then (Inr (True, Some (paid_row_iw a utr txn note (now t) x)), set_row i (paid_row_iw a utr txn note (now t)) t)
      else (Inr (False, Some x), t))"
proof -
  have d: "distinct (map iw_id (inr_withdrawals t))" and x': "findById_iw i t = Some x" "iw_id x = i"
    using inr_stateD(2) [OF s] inr_stateD(5) [OF s x] x by (simp_all add: findById_iw_def t)
  note run = updateMany_iw_run [OF d x'(1)]
  note found = find_set_row [where i = i and j = i and s = t, unfolded x'(1)]
  show "approve_iw_row i a t = (if iw_status x = IW_PENDING
      then (Inr (True, Some (approved_row_iw a (now t) x)), set_row i (approved_row_iw a (now t)) t)
      else (Inr (False, Some x), t))"
    unfolding approve_iw_row_def bindS_apply readS_apply prod.case sum.case
    by (subst run, simp, cases "iw_status x = IW_PENDING")
      (simp_all add: x' found svc_simps approved_row_iw_def [abs_def])
  show "reject_iw_row i a reason t = (if iw_open x
      then (Inr (True, Some (rejected_row_iw a reason (now t) x)), set_row i (rejected_row_iw a reason (now t)) t)
      else (Inr (False, Some x), t))"
    unfolding reject_iw_row_def bindS_apply readS_apply prod.case sum.case
    by (subst run, simp, cases "iw_open x")
      (simp_all add: x' found svc_simps rejected_row_iw_def [abs_def] iw_open_def)
  show "markPaid_iw_row i a utr txn note t = (if iw_status x = IW_APPROVED
      then (Inr (True, Some (paid_row_iw a utr txn note (now t) x)), set_row i (paid_row_iw a utr txn note (now t)) t)
      else (Inr (False, Some x), t))"
    unfolding markPaid_iw_row_def bindS_apply readS_apply prod.case sum.case
    by (subst run, simp, cases "iw_status x = IW_APPROVED")
      (simp_all add: x' found svc_simps paid_row_iw_def [abs_def])
qed

text \<open>Changing the one row after a movement for it.\<close>

lemma settled_state:
  assumes s: "inr_state s" and x: "findById_iw i s = Some x"
    and run: "post D inp c s = (Inr p, s1)" and rt: "post_reference_type inp = Some rt" "rt \<noteq> []"
    and i: "post_reference_id inp = Some i" and id: "\<And>y. iw_id (upd y) = iw_id y"
    and t: "ledger_tables t = ledger_tables s1" "inr_withdrawals t = inr_withdrawals (set_row i upd s1)"
      "next_uuid t = next_uuid s1"
    and ok: "iw_ok s1 (upd x)"
    and moved: "\<And>v b k. bal s1 v b k = bal s v b k + iw_row_book (upd x) v b k - iw_row_book x v b k"
  shows "inr_state t" and "booked s t"
proof -
  have inv: "ledger_inv s" using inr_stateD(1) [OF s] .
  note m = movement_run [OF run inv]
  note mark = movement_marks [OF run inv rt i]
  have "inr_state (set_row i upd s1)"
    by (rule inr_state_set_row [OF s x id m(1,3,2) _ ok]) (simp add: mark)
  then show "inr_state t" by (rule inr_state_write) (simp_all add: t)
  have "booked s (set_row i upd s1)" by (rule booked_set_row [OF s x m(2)]) (rule moved)
  moreover have "booked (set_row i upd s1) t" by (rule booked_same) (simp_all add: t)
  ultimately show "booked s t" by (rule booked_trans)
qed

text \<open>What rejecting and paying out change, once the row was read as open, or approved.\<close>

definition decided_as ::
  "gcm \<Rightarrow> nat \<Rightarrow> inr_withdrawal \<Rightarrow> (posting_line list) \<Rightarrow> db \<Rightarrow> err + admin_inr_withdrawal_dto \<Rightarrow> db \<Rightarrow> bool" where
  "decided_as C i x ls s r t \<longleftrightarrow> (case r of
      Inl e \<Rightarrow> ledger_tables t = ledger_tables s \<and> inr_withdrawals t = inr_withdrawals s
    | Inr dto \<Rightarrow> findById_iw i t = Some x \<and> dto = toAdminInrWithdrawalDto x (decryptAccountNumber C x) \<and>
        (\<forall>v b k. bal t v b k = bal s v b k + delta ls v b k))"

lemma reject_iw_settle_run:
  assumes s: "inr_state s" and x: "findById_iw i s = Some x" and open_row: "iw_open x"
    and run: "reject_iw_settle D C i reason (a, x) s = (r, t)"
  shows "inr_state t" and "booked s t"
    and "decided_as C i (rejected_row_iw a reason (now s) x)
      (move_lines (Some (iw_user x)) INR USER_LOCKED USER_AVAILABLE (iw_amount x)) s r t"
proof -
  let ?inp = "release_iw i (iw_user x) (iw_amount x)"
  let ?upd = "rejected_row_iw a reason (now s)"
  note inv = inr_stateD(1) [OF s]
  have xi: "iw_id x = i" and xok: "iw_ok s x" using inr_stateD(5) [OF s x] by simp_all
  obtain r1 s1 where 1: "post D ?inp (Some (iw_user x)) s = (r1, s1)"
    by (cases "post D ?inp (Some (iw_user x)) s")
  note m = movement_run [OF 1 inv]
  have "inr_state t \<and> booked s t \<and> decided_as C i (?upd x)
    (move_lines (Some (iw_user x)) INR USER_LOCKED USER_AVAILABLE (iw_amount x)) s r t"
  proof (cases r1)
    case (Inl e)
    then have "r = Inl e" "t = s1" using run 1 by (auto simp: reject_iw_settle_def svc_simps)
    then show ?thesis using m Inl inr_state_write [OF s, of s1] booked_same [of s1 s]
      by (simp add: decided_as_def)
  next
    case (Inr p)
    note 1 = 1 [unfolded Inr]
    have row: "reject_iw_row i a reason s1 = (Inr (True, Some (?upd x)), set_row i ?upd s1)"
      using flip_runs(2) [OF s x m(2)] open_row m(4) by simp
    have 2: "decided_iw C ''inr.withdrawal.rejected'' ''WITHDRAWAL_REJECTED'' a (True, Some (?upd x))
        (set_row i ?upd s1) = (r, t)"
      using run 1 row by (simp add: reject_iw_settle_def svc_simps)
    note d = decided_iw_run [OF 2]
    have not_released: "\<not> released_iw i s" "\<not> paid_iw i s"
      using xok open_row by (auto simp: iw_ok_def iw_open_def xi)
    have moved: "bal s1 v b k = bal s v b k +
        delta (move_lines (Some (iw_user x)) INR USER_LOCKED USER_AVAILABLE (iw_amount x)) v b k" for v b k
      using posting.success_moves [OF 1 inv] not_released movement_lines(2) [of "iw_amount x"] xok
      by (simp add: movements_posted iw_ok_def)
    have ok: "iw_ok s1 (?upd x)"
      using xok not_released movement_marks [OF 1 inv movement_references(2) types_distinct(8) movement_references(5)]
      by (simp add: iw_ok_def rejected_row_iw_def xi)
    have booking: "bal s1 v b k = bal s v b k + iw_row_book (?upd x) v b k - iw_row_book x v b k" for v b k
      unfolding moved using open_row
      by (auto simp: delta_move_lines iw_row_book_def iw_open_def rejected_row_iw_def)
    note w = settled_state [OF s x 1 movement_references(2) types_distinct(8) movement_references(5) _
        _ d(2) _ ok booking]
    have "inr_state t \<and> booked s t" using w d by (simp add: rejected_row_iw_def)
    moreover have "findById_iw i t = Some (?upd x)"
      using d(2) find_set_row [of ?upd i i s1] x m(2) xi by (simp add: findById_iw_def rejected_row_iw_def)
    moreover have "bal t = bal s1" by (rule bal_tables) (simp add: d(1))
    ultimately show ?thesis using d(4) moved by (simp add: decided_as_def)
  qed
  then show "inr_state t" "booked s t" "decided_as C i (?upd x)
      (move_lines (Some (iw_user x)) INR USER_LOCKED USER_AVAILABLE (iw_amount x)) s r t" by blast+
qed

lemma markPaid_iw_settle_run:
  assumes s: "inr_state s" and x: "findById_iw i s = Some x" and approved: "iw_status x = IW_APPROVED"
    and run: "markPaid_iw_settle D C i utr note (a, x) s = (r, t)"
  shows "inr_state t" and "booked s t"
    and "\<exists>txn. decided_as C i (paid_row_iw a utr txn note (now s) x)
      (post_lines (payout_iw i (iw_user x) (iw_amount x))) s r t"
proof -
  let ?inp = "payout_iw i (iw_user x) (iw_amount x)"
  note inv = inr_stateD(1) [OF s]
  have xi: "iw_id x = i" and xok: "iw_ok s x" using inr_stateD(5) [OF s x] by simp_all
  obtain r1 s1 where 1: "post D ?inp (Some (iw_user x)) s = (r1, s1)"
    by (cases "post D ?inp (Some (iw_user x)) s")
  note m = movement_run [OF 1 inv]
  have "inr_state t \<and> booked s t \<and> (\<exists>txn. decided_as C i (paid_row_iw a utr txn note (now s) x)
    (post_lines ?inp) s r t)"
  proof (cases r1)
    case (Inl e)
    then have "r = Inl e" "t = s1" using run 1 by (auto simp: markPaid_iw_settle_def svc_simps)
    then show ?thesis using m Inl inr_state_write [OF s, of s1] booked_same [of s1 s]
      by (simp add: decided_as_def)
  next
    case (Inr p)
    note 1 = 1 [unfolded Inr]
    let ?upd = "paid_row_iw a utr (posted_id p) note (now s)"
    have row: "markPaid_iw_row i a utr (posted_id p) note s1 = (Inr (True, Some (?upd x)), set_row i ?upd s1)"
      using flip_runs(3) [OF s x m(2)] approved m(4) by simp
    have 2: "decided_iw C ''inr.withdrawal.paid'' ''INR_WITHDRAWAL_PAID'' a (True, Some (?upd x))
        (set_row i ?upd s1) = (r, t)"
      using run 1 row by (simp add: markPaid_iw_settle_def svc_simps)
    note d = decided_iw_run [OF 2]
    have new: "\<not> released_iw i s" "\<not> paid_iw i s" using xok approved by (simp_all add: iw_ok_def xi)
    have moved: "bal s1 v b k = bal s v b k + delta (post_lines ?inp) v b k" for v b k
      using posting.success_moves [OF 1 inv] new by (simp add: movements_posted)
    have ok: "iw_ok s1 (?upd x)"
      using xok new approved
        movement_marks [OF 1 inv movement_references(3) types_distinct(9) movement_references(6)]
      by (simp add: iw_ok_def paid_row_iw_def xi)
    have booking: "bal s1 v b k = bal s v b k + iw_row_book (?upd x) v b k - iw_row_book x v b k" for v b k
      unfolding moved using approved xok
      by (auto simp: movement_lines(3) iw_row_book_def iw_open_def paid_row_iw_def iw_ok_def)
    note w = settled_state [OF s x 1 movement_references(3) types_distinct(9) movement_references(6) _
        _ d(2) _ ok booking]
    have "inr_state t \<and> booked s t" using w d by (simp add: paid_row_iw_def)
    moreover have "findById_iw i t = Some (?upd x)"
      using d(2) find_set_row [of ?upd i i s1] x m(2) xi by (simp add: findById_iw_def paid_row_iw_def)
    moreover have "bal t = bal s1" by (rule bal_tables) (simp add: d(1))
    ultimately show ?thesis using d(4) moved by (auto simp: decided_as_def)
  qed
  then show "inr_state t" "booked s t" "\<exists>txn. decided_as C i (paid_row_iw a utr txn note (now s) x)
      (post_lines ?inp) s r t" by blast+
qed

text \<open>The whole calls.\<close>

lemma approve_iw_run:
  assumes s: "inr_state s" and run: "approve_iw C i actor s = (r, t)"
  shows "inr_state t" and "booked s t"
proof -
  have quiet: "inr_state t \<and> booked s t" if "t = s" using that s by simp
  have "inr_state t \<and> booked s t"
  proof (cases "\<exists>a x. actor = Some a \<and> findById_iw i s = Some x \<and> iw_status x = IW_PENDING")
    case True
    then obtain a x where a: "actor = Some a" "findById_iw i s = Some x" "iw_status x = IW_PENDING" by blast
    let ?upd = "approved_row_iw a (now s)"
    have xok: "iw_ok s x" using inr_stateD(5) [OF s a(2)] by simp
    have "decided_iw C ''inr.withdrawal.approved'' ''WITHDRAWAL_APPROVED'' a (True, Some (?upd x))
        (set_row i ?upd s) = (r, t)"
      using run a flip_runs(1) [OF s a(2) refl, of a] by (simp add: approve_iw_def svc_simps)
    note d = decided_iw_run [OF this]
    have "inr_state (set_row i ?upd s)"
      by (rule inr_state_set_row [OF s a(2)])
        (use xok a(3) inr_stateD(1) [OF s] in \<open>simp_all add: approved_row_iw_def iw_ok_def\<close>)
    then have "inr_state t" by (rule inr_state_write) (simp_all add: d)
    moreover have "booked s (set_row i ?upd s)"
      by (rule booked_set_row [OF s a(2) refl])
        (auto simp: approved_row_iw_def iw_row_book_def iw_open_def a(3))
    moreover have "booked (set_row i ?upd s) t" by (rule booked_same) (simp_all add: d)
    ultimately show ?thesis by (blast intro: booked_trans)
  next
    case False
    then have "t = s" using run
      by (auto simp: approve_iw_def svc_simps split: option.splits if_splits)
    then show ?thesis by (rule quiet)
  qed
  then show "inr_state t" "booked s t" by blast+
qed

lemma reject_iw_check_run:
  assumes "reject_iw_check C i actor s = (r, t)"
  shows "t = s" and "r = Inr (Inl (a, x)) \<Longrightarrow> actor = Some a \<and> findById_iw i s = Some x \<and> iw_open x"
  using assms by (auto simp: reject_iw_check_def svc_simps iw_open_def split: option.splits if_splits)

lemma markPaid_iw_check_run:
  assumes "markPaid_iw_check C i actor s = (r, t)"
  shows "t = s" and "r = Inr (Inl (a, x)) \<Longrightarrow> actor = Some a \<and> findById_iw i s = Some x \<and>
    iw_status x = IW_APPROVED"
  using assms by (auto simp: markPaid_iw_check_def svc_simps split: option.splits if_splits)

text \<open>A decision either leaves rows and ledger alone or decides the row it found.\<close>

definition reject_iw_outcome where
  "reject_iw_outcome C i reason actor s r t \<longleftrightarrow>
     (ledger_tables t = ledger_tables s \<and> inr_withdrawals t = inr_withdrawals s) \<or>
     (\<exists>a x. actor = Some a \<and> findById_iw i s = Some x \<and> iw_open x \<and>
        decided_as C i (rejected_row_iw a reason (now s) x)
          (move_lines (Some (iw_user x)) INR USER_LOCKED USER_AVAILABLE (iw_amount x)) s r t)"

definition markPaid_iw_outcome where
  "markPaid_iw_outcome C i utr note actor s r t \<longleftrightarrow>
     (ledger_tables t = ledger_tables s \<and> inr_withdrawals t = inr_withdrawals s) \<or>
     (\<exists>a x txn. actor = Some a \<and> findById_iw i s = Some x \<and> iw_status x = IW_APPROVED \<and>
        decided_as C i (paid_row_iw a utr txn note (now s) x)
          (post_lines (payout_iw i (iw_user x) (iw_amount x))) s r t)"

lemma reject_iw_run:
  assumes s: "inr_state s" and run: "reject_iw D C i reason actor s = (r, t)"
  shows "inr_state t" and "booked s t" and "reject_iw_outcome C i reason actor s r t"
proof -
  obtain c s1 where 1: "reject_iw_check C i actor s = (c, s1)" by (cases "reject_iw_check C i actor s")
  note k = reject_iw_check_run [OF 1]
  have "inr_state t \<and> booked s t \<and> reject_iw_outcome C i reason actor s r t"
  proof (cases "\<exists>go. c = Inr (Inl go)")
    case True
    then obtain a x where c: "c = Inr (Inl (a, x))" by auto
    have x: "actor = Some a" "findById_iw i s = Some x" "iw_open x" using k(2) [OF c] by simp_all
    have "reject_iw_settle D C i reason (a, x) s = (r, t)"
      using run 1 c k(1) by (simp add: reject_iw_def svc_simps)
    note w = reject_iw_settle_run [OF s x(2,3) this]
    show ?thesis unfolding reject_iw_outcome_def using w x by blast
  next
    case False
    then have "t = s" using run 1 k(1) by (auto simp: reject_iw_def svc_simps split: sum.splits)
    then show ?thesis using s by (simp add: reject_iw_outcome_def)
  qed
  then show "inr_state t" "booked s t" "reject_iw_outcome C i reason actor s r t" by blast+
qed

lemma markPaid_iw_run:
  assumes s: "inr_state s" and run: "markPaid_iw D C i utr note actor s = (r, t)"
  shows "inr_state t" and "booked s t" and "markPaid_iw_outcome C i utr note actor s r t"
proof -
  obtain c s1 where 1: "markPaid_iw_check C i actor s = (c, s1)" by (cases "markPaid_iw_check C i actor s")
  note k = markPaid_iw_check_run [OF 1]
  have "inr_state t \<and> booked s t \<and> markPaid_iw_outcome C i utr note actor s r t"
  proof (cases "\<exists>go. c = Inr (Inl go)")
    case True
    then obtain a x where c: "c = Inr (Inl (a, x))" by auto
    have x: "actor = Some a" "findById_iw i s = Some x" "iw_status x = IW_APPROVED"
      using k(2) [OF c] by simp_all
    have "markPaid_iw_settle D C i utr note (a, x) s = (r, t)"
      using run 1 c k(1) by (simp add: markPaid_iw_def svc_simps)
    note w = markPaid_iw_settle_run [OF s x(2,3) this]
    show ?thesis unfolding markPaid_iw_outcome_def using w x by blast
  next
    case False
    then have "t = s" using run 1 k(1) by (auto simp: markPaid_iw_def svc_simps split: sum.splits)
    then show ?thesis using s by (simp add: markPaid_iw_outcome_def)
  qed
  then show "inr_state t" "booked s t" "markPaid_iw_outcome C i utr note actor s r t" by blast+
qed

section \<open>Sequences of calls\<close>

text \<open>
  One call of the module, whatever its arguments and its outcome.  The amount of a request has two
  decimals: the schema of the route lets no other through.
\<close>

inductive inr_call :: "rounding \<Rightarrow> inr_ops_config \<Rightarrow> gcm \<Rightarrow> db \<Rightarrow> db \<Rightarrow> bool" for D cfg C where
  request: "grid 2 (cwi_amount inp) \<Longrightarrow> requestWithdrawal_iw D cfg C iv u inp s = (r, t) \<Longrightarrow>
    inr_call D cfg C s t"
| approve: "approve_iw C i actor s = (r', t) \<Longrightarrow> inr_call D cfg C s t"
| reject: "reject_iw D C i reason actor s = (r', t) \<Longrightarrow> inr_call D cfg C s t"
| mark_paid: "markPaid_iw D C i utr note actor s = (r', t) \<Longrightarrow> inr_call D cfg C s t"

inductive_cases inr_callE: "inr_call D cfg C s t"

lemma call_state: "inr_call D cfg C s t \<Longrightarrow> inr_state s \<Longrightarrow> inr_state t \<and> booked s t"
  by (elim inr_callE) (blast intro: requestWithdrawal_iw_run approve_iw_run reject_iw_run markPaid_iw_run)+

text \<open>What the other services may do meanwhile: anything but touching the rows or these references.\<close>

inductive inr_step :: "rounding \<Rightarrow> inr_ops_config \<Rightarrow> gcm \<Rightarrow> db \<Rightarrow> db \<Rightarrow> bool" for D cfg C where
  call: "inr_call D cfg C s t \<Longrightarrow> inr_step D cfg C s t"
| other: "ledger_inv t \<Longrightarrow> inr_withdrawals t = inr_withdrawals s \<Longrightarrow> next_uuid s \<le> next_uuid t \<Longrightarrow>
    same_references s t \<Longrightarrow> inr_step D cfg C s t"

lemma step_keeps: "inr_step D cfg C s t \<Longrightarrow> inr_state s \<Longrightarrow> inr_state t"
  by (cases rule: inr_step.cases) (auto dest: call_state intro: inr_state_other)

lemma steps_keep: "(inr_step D cfg C)\<^sup>*\<^sup>* s t \<Longrightarrow> inr_state s \<Longrightarrow> inr_state t"
  by (induction rule: rtranclp_induct) (auto intro: step_keeps)

text \<open>The postings of the other services, which use other reference types, are such steps.\<close>

lemma other_posting:
  assumes "post D inp c s = (r, t)" and "ledger_inv s" and "post_reference_type inp = Some rt"
    and "post_reference_id inp = Some i" and "rt \<notin> {[], WITHDRAWAL_REFERENCE_TYPE,
      WITHDRAWAL_RELEASE_REFERENCE_TYPE, WITHDRAWAL_PAYOUT_REFERENCE_TYPE}"
  shows "inr_step D cfg C s t"
proof -
  have rt: "rt \<noteq> []" using assms(5) by simp
  note mark = post_marks [OF assms(1-3) rt assms(4)]
  have "same_references s t" using mark assms(5) by (auto simp: same_references_def)
  then show ?thesis
    using movement_run [OF assms(1,2)] by (intro inr_step.other)
qed

lemma no_inr_withdrawals:
  assumes "ledger_inv s" and "inr_withdrawals s = []"
    and "\<And>i. \<not> locked_iw i s \<and> \<not> released_iw i s \<and> \<not> paid_iw i s"
  shows "inr_state s"
  using assms by (simp add: inr_state_def fresh_references_def)

end
