(* ===== verification/Inr_Withdrawal_Properties.thy ===== *)
theory Inr_Withdrawal_Properties
  imports Inr_Withdrawal_Laws
begin

text \<open>The properties of rupee withdrawals, each with a run they apply to.\<close>

section \<open>Example states\<close>

text \<open>
  User 7 has 1000 INR; a withdrawal of 300 to a bank account is requested and approved by admin 1.
  In \<open>busy_db\<close> the user has reserved another 400 with a second request.
\<close>

definition iw_config :: inr_ops_config where
  "iw_config = \<lparr>dualApprovalThreshold = 500, withdrawalMin = 100, withdrawalMax = 5000\<rparr>"

definition inr_credit :: posting_input where
  "inr_credit = \<lparr>post_kind = ''DEPOSIT'', post_reference_type = None, post_reference_id = None,
     post_lines =
       [\<lparr>line_user = None, line_asset = INR, line_kind = MANUAL_BANK_CLEARING, line_direction = DEBIT,
         line_amount = 1000\<rparr>,
        \<lparr>line_user = Some 7, line_asset = INR, line_kind = USER_AVAILABLE, line_direction = CREDIT,
         line_amount = 1000\<rparr>]\<rparr>"

definition rupee_db :: db where
  "rupee_db = snd (post exact inr_credit None (empty_db\<lparr>users := [verified_user 7], now := 5\<rparr>))"

definition bank_request :: "rat \<Rightarrow> create_withdrawal_input" where
  "bank_request x = \<lparr>cwi_amount = x, cwi_method = PAY_BANK, cwi_upi = None,
     cwi_account = Some '' 12345678'', cwi_ifsc = Some ''hdfc0001234'', cwi_holder = Some ''A'',
     cwi_bank = None\<rparr>"

definition some_iv :: "nat list" where
  "some_iv = [1, 2, 3, 4, 5, 6, 7, 8, 9, 10, 11, 12]"

definition asked_db :: db where
  "asked_db = snd (requestWithdrawal_iw exact iw_config mirror_cipher some_iv 7 (bank_request 300) rupee_db)"

definition agreed_db :: db where
  "agreed_db = snd (approve_iw mirror_cipher (next_uuid rupee_db) (Some 1) asked_db)"

definition busy_db :: db where
  "busy_db = snd (requestWithdrawal_iw exact iw_config mirror_cipher some_iv 7 (bank_request 400) agreed_db)"

lemma rupee_db_inv: "ledger_inv rupee_db"
  unfolding rupee_db_def
  by (rule preservesD [OF posting.preserves_posting], rule ledger_inv_cong [OF _ _ empty_db_inv])
    (simp_all add: ledger_tables_def empty_db_def)

lemma rupee_db_fresh: "inr_withdrawals rupee_db = []"
  "\<not> locked_iw i rupee_db \<and> \<not> released_iw i rupee_db \<and> \<not> paid_iw i rupee_db"
proof -
  show "inr_withdrawals rupee_db = []" by code_simp
  have "\<forall>t \<in> set (ledger_transactions rupee_db). txn_reference_type t = None" by code_simp
  then show "\<not> locked_iw i rupee_db \<and> \<not> released_iw i rupee_db \<and> \<not> paid_iw i rupee_db"
    by (auto simp: posted_as_def has_ref_def)
qed

lemma rupee_db_state: "inr_state rupee_db"
  by (rule no_inr_withdrawals [OF rupee_db_inv rupee_db_fresh])

lemma two_decimals: "grid 2 (cwi_amount (bank_request 300))" "grid 2 (cwi_amount (bank_request 400))"
  by (simp_all add: bank_request_def grid_def)

lemma run_call:
  "grid 2 (cwi_amount inp) \<Longrightarrow> inr_call D cfg C s (snd (requestWithdrawal_iw D cfg C iv u inp s))"
  "inr_call D cfg C s (snd (approve_iw C i a s))"
  by (rule inr_call.request [OF _ surjective_pairing], assumption)
    (rule inr_call.approve [OF surjective_pairing])

lemma rupee_runs:
  "(inr_step exact iw_config mirror_cipher)\<^sup>*\<^sup>* rupee_db agreed_db"
  "inr_state asked_db" "inr_state agreed_db" "inr_state busy_db"
proof -
  have 1: "inr_call exact iw_config mirror_cipher rupee_db asked_db"
    unfolding asked_db_def by (rule run_call(1) [OF two_decimals(1)])
  have 2: "inr_call exact iw_config mirror_cipher asked_db agreed_db"
    unfolding agreed_db_def by (rule run_call(2))
  have 3: "inr_call exact iw_config mirror_cipher agreed_db busy_db"
    unfolding busy_db_def by (rule run_call(1) [OF two_decimals(2)])
  show "(inr_step exact iw_config mirror_cipher)\<^sup>*\<^sup>* rupee_db agreed_db"
    using 1 2 by (meson inr_step.call r_into_rtranclp rtranclp_trans)
  show "inr_state asked_db" using call_state [OF 1 rupee_db_state] by blast
  then show "inr_state agreed_db" using call_state [OF 2] by blast
  then show "inr_state busy_db" using call_state [OF 3] by blast
qed

section \<open>The books\<close>

text \<open>
  C19.  Rupee withdrawals are paid once: whatever calls of users and admins come in whatever order,
  with other services posting in between, the amount of every row is reserved in the ledger, it was
  given back exactly when the row is REJECTED and paid out exactly when it is PAID, never both; a
  paid row has the bank reference and was approved.
\<close>

theorem inr_withdrawals_paid_once:
  assumes "ledger_inv s" and "inr_withdrawals s = []"
    and "\<And>i. \<not> locked_iw i s \<and> \<not> released_iw i s \<and> \<not> paid_iw i s"
    and "(inr_step D cfg C)\<^sup>*\<^sup>* s t" and "r \<in> set (inr_withdrawals t)"
  shows "locked_iw (iw_id r) t \<and> (released_iw (iw_id r) t \<longleftrightarrow> iw_status r = IW_REJECTED) \<and>
    (paid_iw (iw_id r) t \<longleftrightarrow> iw_status r = IW_PAID) \<and>
    \<not> (released_iw (iw_id r) t \<and> paid_iw (iw_id r) t) \<and>
    (iw_status r = IW_PAID \<longrightarrow> iw_approved_by r \<noteq> None \<and> iw_utr r \<noteq> None \<and> iw_final_txn r \<noteq> None)"
proof -
  have "inr_state t" using steps_keep [OF assms(4) no_inr_withdrawals [OF assms(1-3)]] .
  then have "iw_ok t r" using inr_stateD(4) assms(5) by blast
  then show ?thesis by (auto simp: iw_ok_def)
qed

theorem inr_withdrawals_paid_once_witness:
  "\<exists>r \<in> set (inr_withdrawals agreed_db). iw_status r = IW_APPROVED \<and> locked_iw (iw_id r) agreed_db \<and>
     \<not> paid_iw (iw_id r) agreed_db"
proof -
  have "map iw_status (inr_withdrawals agreed_db) = [IW_APPROVED]" by code_simp
  then obtain r where r: "r \<in> set (inr_withdrawals agreed_db)" "iw_status r = IW_APPROVED" by auto
  show ?thesis
    using inr_withdrawals_paid_once [OF rupee_db_inv rupee_db_fresh rupee_runs(1) r(1)] r by auto
qed

text \<open>
  C20.  The ledger follows the book of the rows: whatever call is made with whatever outcome, every
  balance changes by exactly what the rows now account for more.  The locked INR of a user rises
  and falls with the open rows, the bank clearing account with the PAID ones, the available INR
  falls with both, and no other balance moves.
\<close>

theorem inr_calls_keep_book:
  assumes "inr_state s" and "inr_call D cfg C s t"
  shows "bal t v b k - bal s v b k =
      sum_list (map (\<lambda>r. iw_row_book r v b k) (inr_withdrawals t)) -
      sum_list (map (\<lambda>r. iw_row_book r v b k) (inr_withdrawals s)) \<and> inr_state t"
  using call_state [OF assms(2,1)] by (simp add: booked_def iw_book_def algebra_simps)

theorem inr_calls_keep_book_witness:
  "bal asked_db (Some 7) INR USER_LOCKED = 300 \<and> inr_state asked_db"
proof -
  have call: "inr_call exact iw_config mirror_cipher rupee_db asked_db"
    unfolding asked_db_def by (rule run_call(1) [OF two_decimals(1)])
  have "bal rupee_db (Some 7) INR USER_LOCKED = 0" "inr_withdrawals rupee_db = []"
    "map (\<lambda>r. iw_row_book r (Some 7) INR USER_LOCKED) (inr_withdrawals asked_db) = [300]" by code_simp+
  then show ?thesis
    using inr_calls_keep_book [OF rupee_db_state call, of "Some 7" INR USER_LOCKED] by simp
qed

section \<open>Calls\<close>

text \<open>
  A request succeeds only for an active, verified, unblocked user, an amount of whole paise
  within the bounds that the available balance covers; then a PENDING row is stored and exactly
  the amount has moved from the available to the locked balance.  A request that fails, for
  whatever reason, leaves no row behind and moves nothing.
\<close>

theorem requestWithdrawal_iw_reserves:
  assumes "inr_state s" and "grid 2 (cwi_amount inp)"
    and "requestWithdrawal_iw D cfg C iv u inp s = (r, t)"
  shows "case r of
      Inl e \<Rightarrow> bal t = bal s \<and> inr_withdrawals t = inr_withdrawals s
    | Inr dto \<Rightarrow> iw_admissible D cfg u (cwi_amount inp) s \<and>
        (\<exists>row. inr_withdrawals t = inr_withdrawals s @ [row] \<and> dto = toInrWithdrawalDto row \<and>
           iw_id row = next_uuid s \<and> iw_user row = u \<and> iw_amount row = cwi_amount inp \<and>
           iw_status row = IW_PENDING \<and> iw_lock_txn row \<noteq> None) \<and>
        bal t v b k = bal s v b k + (if v = Some u \<and> b = INR then
           (if k = USER_AVAILABLE then - cwi_amount inp else if k = USER_LOCKED then cwi_amount inp else 0)
           else 0)"
proof (cases r)
  case (Inl e)
  then show ?thesis
    using requestWithdrawal_iw_run(3) [OF assms] bal_tables [of t s] by (simp add: request_iw_outcome_def)
next
  case (Inr dto)
  then obtain row txn where "iw_admissible D cfg u (cwi_amount inp) s"
    "iw_requested u inp (next_uuid s) (now s) row" "dto = toInrWithdrawalDto (reserved_row row txn (now s))"
    "inr_withdrawals t = inr_withdrawals s @ [reserved_row row txn (now s)]"
    "\<forall>v b k. bal t v b k = bal s v b k + (if v = Some u \<and> b = INR then
       (if k = USER_AVAILABLE then - cwi_amount inp else if k = USER_LOCKED then cwi_amount inp else 0) else 0)"
    using requestWithdrawal_iw_run(3) [OF assms] by (auto simp: request_iw_outcome_def)
  then show ?thesis
    unfolding Inr sum.case
    by (intro conjI exI [of _ "reserved_row row txn (now s)"]) (simp_all add: iw_requested_def reserved_row_def)
qed

theorem requestWithdrawal_iw_reserves_witness:
  "bal asked_db (Some 7) INR USER_AVAILABLE = 700 \<and>
   bal (snd (requestWithdrawal_iw exact iw_config mirror_cipher some_iv 7 (bank_request 400)
     (asked_db\<lparr>conflicts := [True]\<rparr>))) = bal asked_db"
proof -
  let ?run = "requestWithdrawal_iw exact iw_config mirror_cipher some_iv 7 (bank_request 300) rupee_db"
  let ?s = "asked_db\<lparr>conflicts := [True]\<rparr>"
  let ?fail = "requestWithdrawal_iw exact iw_config mirror_cipher some_iv 7 (bank_request 400) ?s"
  have ok: "\<not> isl (fst ?run)" "bal rupee_db (Some 7) INR USER_AVAILABLE = 1000"
    "fst ?fail = Inl (ConflictError ''INSUFFICIENT_BALANCE'')" by code_simp+
  obtain dto t where run: "?run = (Inr dto, t)" using ok(1) by (rule run_Inr)
  have s: "inr_state ?s" by (rule inr_state_write [OF rupee_runs(2)]) (simp_all add: ledger_tables_def)
  have "?fail = (Inl (ConflictError ''INSUFFICIENT_BALANCE''), snd ?fail)" using ok(3) by (simp add: prod_eq_iff)
  from requestWithdrawal_iw_reserves [OF s two_decimals(2) this]
  have "bal (snd ?fail) = bal asked_db" by (simp add: bal_tables [of ?s asked_db] ledger_tables_def)
  moreover have "t = asked_db" using run by (simp add: asked_db_def)
  ultimately show ?thesis
    using requestWithdrawal_iw_reserves [OF rupee_db_state two_decimals(1) run, of "Some 7" INR USER_AVAILABLE] ok(2)
    by (simp add: bank_request_def)
qed

text \<open>
  Marking an approved withdrawal paid takes its amount out of the user's locked balance and books it to
  the bank clearing account, nothing else moves, and the row is PAID with the admin and the bank reference.  It is
  final: marking it paid again, by whomever, changes nothing and returns the row, and it can no
  longer be rejected.
\<close>

theorem markPaid_iw_final:
  assumes "inr_state s" and "findById_iw i s = Some x" and "iw_status x = IW_APPROVED"
    and "markPaid_iw D C i utr note (Some a) s = (Inr dto, t)"
  shows "\<exists>y. findById_iw i t = Some y \<and> dto = toAdminInrWithdrawalDto y (decryptAccountNumber C y) \<and>
      iw_status y = IW_PAID \<and> iw_paid_by y = Some a \<and> iw_utr y = Some utr \<and>
      bal t v b k = bal s v b k + (if b \<noteq> INR then 0
        else if v = Some (iw_user x) \<and> k = USER_LOCKED then - iw_amount x
        else if v = None \<and> k = MANUAL_BANK_CLEARING then iw_amount x else 0) \<and>
      (\<forall>utr' note' a'. markPaid_iw D C i utr' note' (Some a') t = (Inr dto, t)) \<and>
      (\<forall>reason a'. reject_iw D C i reason (Some a') t = (Inl (ConflictError ''ALREADY_PAID''), t))"
proof -
  have "markPaid_iw_settle D C i utr note (a, x) s = (Inr dto, t)"
    using assms(2-4) by (simp add: markPaid_iw_def markPaid_iw_check_def svc_simps)
  from markPaid_iw_settle_run(3) [OF assms(1-3) this] obtain txn where
    d: "decided_as C i (paid_row_iw a utr txn note (now s) x) (post_lines (payout_iw i (iw_user x) (iw_amount x)))
      s (Inr dto) t" by blast
  let ?y = "paid_row_iw a utr txn note (now s) x"
  have y: "findById_iw i t = Some ?y" "dto = toAdminInrWithdrawalDto ?y (decryptAccountNumber C ?y)"
    using d by (simp_all add: decided_as_def)
  have "iw_ok s x" using inr_stateD(5) [OF assms(1,2)] by simp
  then have "bal t v b k = bal s v b k + (if b \<noteq> INR then 0
        else if v = Some (iw_user x) \<and> k = USER_LOCKED then - iw_amount x
        else if v = None \<and> k = MANUAL_BANK_CLEARING then iw_amount x else 0)"
    using d by (simp add: decided_as_def movement_lines(3) iw_ok_def)
  moreover have "markPaid_iw D C i utr' note' (Some a') t = (Inr dto, t)" for utr' note' a'
    using y by (simp add: markPaid_iw_def markPaid_iw_check_def svc_simps paid_row_iw_def)
  moreover have "reject_iw D C i reason (Some a') t = (Inl (ConflictError ''ALREADY_PAID''), t)" for reason a'
    using y(1) by (simp add: reject_iw_def reject_iw_check_def svc_simps paid_row_iw_def)
  ultimately show ?thesis using y by (intro exI [of _ ?y]) (simp add: paid_row_iw_def)
qed

definition the_row :: "db \<Rightarrow> inr_withdrawal" where
  "the_row s = hd (inr_withdrawals s)"

lemma agreed_row:
  "findById_iw (next_uuid rupee_db) agreed_db = Some (the_row agreed_db)"
  "findById_iw (next_uuid rupee_db) busy_db = Some (the_row busy_db)"
  "iw_status (the_row agreed_db) = IW_APPROVED" "iw_amount (the_row agreed_db) = 300"
  "iw_status (the_row busy_db) = IW_APPROVED" "iw_amount (the_row busy_db) = 300"
  "iw_user (the_row agreed_db) = 7" "iw_user (the_row busy_db) = 7"
proof -
  have "\<forall>s \<in> set [agreed_db, busy_db]. iw_id (the_row s) = next_uuid rupee_db \<and> inr_withdrawals s \<noteq> [] \<and>
    iw_status (the_row s) = IW_APPROVED \<and> iw_amount (the_row s) = 300 \<and> iw_user (the_row s) = 7" by code_simp
  then show "findById_iw (next_uuid rupee_db) agreed_db = Some (the_row agreed_db)"
    "findById_iw (next_uuid rupee_db) busy_db = Some (the_row busy_db)"
    "iw_status (the_row agreed_db) = IW_APPROVED" "iw_amount (the_row agreed_db) = 300"
    "iw_status (the_row busy_db) = IW_APPROVED" "iw_amount (the_row busy_db) = 300"
    "iw_user (the_row agreed_db) = 7" "iw_user (the_row busy_db) = 7"
    by (auto simp: findById_iw_def the_row_def neq_Nil_conv)
qed

theorem markPaid_iw_final_witness:
  "bal (snd (markPaid_iw exact mirror_cipher (next_uuid rupee_db) ''UTR001'' None (Some 2) agreed_db))
     None INR MANUAL_BANK_CLEARING = - 700"
proof -
  let ?run = "markPaid_iw exact mirror_cipher (next_uuid rupee_db) ''UTR001'' None (Some 2) agreed_db"
  have ok: "\<not> isl (fst ?run)" "bal agreed_db None INR MANUAL_BANK_CLEARING = - 1000" by code_simp+
  obtain dto t where run: "?run = (Inr dto, t)" using ok(1) by (rule run_Inr)
  show ?thesis
    using markPaid_iw_final [OF rupee_runs(3) agreed_row(1,3) run, of None INR MANUAL_BANK_CLEARING]
      ok(2) run agreed_row(4) by auto
qed

text \<open>
  C21.  A rejection that read the row before another admin marked it paid goes through all the same:
  it posts the release before its guarded update, so the user has the amount back and the bank
  has paid it out; the locked balance is short of twice the amount, taken from what the user had
  locked for something else, and the row reads PAID.
\<close>

theorem reject_after_payout_pays_twice:
  assumes "inr_state s" and "reject_iw_check C i (Some a) s = (Inr (Inl go), s1)"
    and "markPaid_iw D C i utr note (Some a') s1 = (Inr dto, s2)"
    and "reject_iw_settle D C i reason go s2 = (Inr dto', t)"
  shows "\<exists>x y. findById_iw i s = Some x \<and> findById_iw i t = Some y \<and> iw_status y = IW_PAID \<and>
      bal t (Some (iw_user x)) INR USER_AVAILABLE = bal s (Some (iw_user x)) INR USER_AVAILABLE + iw_amount x \<and>
      bal t None INR MANUAL_BANK_CLEARING = bal s None INR MANUAL_BANK_CLEARING + iw_amount x \<and>
      bal t (Some (iw_user x)) INR USER_LOCKED = bal s (Some (iw_user x)) INR USER_LOCKED - 2 * iw_amount x"
proof -
  note k = reject_iw_check_run [OF assms(2)]
  obtain x where x: "go = (a, x)" "findById_iw i s = Some x" "iw_open x" and s1: "s1 = s"
    using k by (cases go) auto
  have approved: "iw_status x = IW_APPROVED"
    using assms(3) x(2,3) s1
    by (auto simp: markPaid_iw_def markPaid_iw_check_def svc_simps iw_open_def split: if_splits)
  have settle: "markPaid_iw_settle D C i utr note (a', x) s = (Inr dto, s2)"
    using assms(3) x(2) s1 approved by (simp add: markPaid_iw_def markPaid_iw_check_def svc_simps)
  note p = markPaid_iw_settle_run [OF assms(1) x(2) approved settle]
  obtain txn where d: "decided_as C i (paid_row_iw a' utr txn note (now s) x)
      (post_lines (payout_iw i (iw_user x) (iw_amount x))) s (Inr dto) s2" using p(3) by blast
  let ?y = "paid_row_iw a' utr txn note (now s) x"
  have y: "findById_iw i s2 = Some ?y" using d by (simp add: decided_as_def)
  have xok: "iw_ok s x" and xi: "iw_id x = i" using inr_stateD(5) [OF assms(1) x(2)] by simp_all
  have amount: "grid 2 (iw_amount x)" using xok by (simp add: iw_ok_def)
  obtain q s3 where 3: "post D (release_iw i (iw_user x) (iw_amount x)) (Some (iw_user x)) s2 = (Inr q, s3)"
    using assms(4) x(1) by (auto simp: reject_iw_settle_def bindS_apply split: prod.splits sum.splits)
  note m = movement_run [OF 3 inr_stateD(1) [OF p(1)]]
  have "iw_ok s2 ?y" using inr_stateD(5) [OF p(1) y] by simp
  then have new: "\<not> released_iw i s2" by (simp add: iw_ok_def paid_row_iw_def xi)
  have moved: "bal s3 v b k = bal s2 v b k + delta (move_lines (Some (iw_user x)) INR USER_LOCKED USER_AVAILABLE
      (iw_amount x)) v b k" for v b k
    using posting.success_moves [OF 3 inr_stateD(1) [OF p(1)]] new movement_lines(2) [OF amount]
    by (simp add: movements_posted)
  have "reject_iw_row i a reason s3 = (Inr (False, Some ?y), s3)"
    using flip_runs(2) [OF p(1) y m(2)] by (simp add: iw_open_def paid_row_iw_def)
  then have "decided_iw C ''inr.withdrawal.rejected'' ''WITHDRAWAL_REJECTED'' a (False, Some ?y) s3 = (Inr dto', t)"
    using assms(4) x(1) 3 by (simp add: reject_iw_settle_def svc_simps)
  note e = decided_iw_run [OF this]
  have "findById_iw i t = Some ?y" using e(2) m(2) y by (simp add: findById_iw_def)
  moreover have "bal t = bal s3" by (rule bal_tables [OF e(1)])
  ultimately show ?thesis
    using d moved x(2) by (intro exI [of _ x] exI [of _ ?y])
      (simp add: decided_as_def movement_lines(3) [OF amount] delta_move_lines paid_row_iw_def)
qed

theorem reject_after_payout_pays_twice_witness:
  "\<exists>t. bal t (Some 7) INR USER_AVAILABLE = 600 \<and> bal t (Some 7) INR USER_LOCKED = 100 \<and>
     bal t None INR MANUAL_BANK_CLEARING = - 700 \<and> \<not> inr_state t"
proof -
  let ?i = "next_uuid rupee_db"
  let ?x = "the_row busy_db"
  have check: "reject_iw_check mirror_cipher ?i (Some 1) busy_db = (Inr (Inl (1, ?x)), busy_db)"
    using agreed_row(2,5) by (simp add: reject_iw_check_def svc_simps)
  let ?pay = "markPaid_iw exact mirror_cipher ?i ''UTR001'' None (Some 2) busy_db"
  let ?rej = "reject_iw_settle exact mirror_cipher ?i ''no'' (1, the_row busy_db) (snd ?pay)"
  have "let s = busy_db; p = markPaid_iw exact mirror_cipher ?i ''UTR001'' None (Some 2) s;
      q = reject_iw_settle exact mirror_cipher ?i ''no'' (1, the_row s) (snd p)
    in \<not> isl (fst p) \<and> \<not> isl (fst q) \<and> bal s (Some 7) INR USER_AVAILABLE = 300 \<and>
      bal s (Some 7) INR USER_LOCKED = 700 \<and> bal s None INR MANUAL_BANK_CLEARING = - 1000 \<and>
      released_iw ?i (snd q)" by code_simp
  then have ok: "\<not> isl (fst ?pay)" "\<not> isl (fst ?rej)" "bal busy_db (Some 7) INR USER_AVAILABLE = 300"
    "bal busy_db (Some 7) INR USER_LOCKED = 700" "bal busy_db None INR MANUAL_BANK_CLEARING = - 1000"
    "released_iw ?i (snd ?rej)" by (simp_all add: Let_def)
  obtain dto s2 where pay: "?pay = (Inr dto, s2)" using ok(1) by (rule run_Inr)
  then obtain dto' t where rej: "reject_iw_settle exact mirror_cipher ?i ''no'' (1, the_row busy_db) s2 = (Inr dto', t)"
    using ok(2) by (auto elim: run_Inr)
  from reject_after_payout_pays_twice [OF rupee_runs(4) check pay rej] obtain y where
    y: "findById_iw ?i t = Some y" "iw_status y = IW_PAID"
    "bal t (Some 7) INR USER_AVAILABLE = 600" "bal t None INR MANUAL_BANK_CLEARING = - 700"
    "bal t (Some 7) INR USER_LOCKED = 100"
    using agreed_row ok(3-5) by auto
  have "released_iw ?i t" using ok(6) pay rej by simp
  then have "\<not> inr_state t" using y(1,2) inr_stateD(5) [of t ?i y] by (auto simp: iw_ok_def)
  then show ?thesis using y by blast
qed

section \<open>The payout destination\<close>

text \<open>
  C22.  The account number of a bank payout makes the round trip: what the user typed, without
  surrounding blanks, is what the admin reads after it was sealed, stored and opened again, while
  the user is only ever shown its last four digits.
\<close>

theorem account_number_roundtrip:
  assumes "gcm_correct C" and "length iv = IV_LENGTH" and "inr_state s" and "grid 2 (cwi_amount inp)"
    and "cwi_method inp = PAY_BANK" and "cwi_account inp = Some a" and "trim a \<noteq> []"
    and "requestWithdrawal_iw D cfg C iv u inp s = (Inr dto, t)"
  shows "\<exists>view. adminGet_iw C (iwd_id dto) t = (Inr view, t) \<and> aiwd_account view = Some (trim a) \<and>
    pd_last4 (iwd_payout dto) = Some (bullets @ slice_last 4 (trim a))"
proof -
  from requestWithdrawal_iw_run(3) [OF assms(3,4,8)] obtain row txn where
    row: "fst (request_iw_create D cfg C iv u inp s) = Inr row" "iw_requested u inp (next_uuid s) (now s) row"
    and t: "dto = toInrWithdrawalDto (reserved_row row txn (now s))"
      "inr_withdrawals t = inr_withdrawals s @ [reserved_row row txn (now s)]"
    by (auto simp: request_iw_outcome_def)
  have "request_iw_create D cfg C iv u inp s = (Inr row, snd (request_iw_create D cfg C iv u inp s))"
    using row(1) by (simp add: prod_eq_iff)
  note sealed = request_iw_create_sealed [OF this assms(5-7)]
  have "findById_iw (iw_id (reserved_row row txn (now s))) t = Some (reserved_row row txn (now s))"
    by (rule new_iw_row(1) [OF assms(3) t(2)]) (use row(2) in \<open>simp add: iw_requested_def reserved_row_def\<close>)
  moreover have "length (trim a) - 4 < length (trim a)" using assms(7) by simp
  then have "slice_last 4 (trim a) \<noteq> []" by (simp add: slice_last_def)
  ultimately show ?thesis
    using sealed decrypt_encrypt [OF assms(1,2)]
    by (simp add: t(1) adminGet_iw_def svc_simps toInrWithdrawalDto_def toAdminInrWithdrawalDto_def
        decryptAccountNumber_def maskedPayout_def reserved_row_def)
qed

theorem account_number_roundtrip_witness:
  "\<exists>view. adminGet_iw mirror_cipher (next_uuid rupee_db) asked_db = (Inr view, asked_db) \<and>
     aiwd_account view = Some ''12345678''"
proof -
  let ?run = "requestWithdrawal_iw exact iw_config mirror_cipher some_iv 7 (bank_request 300) rupee_db"
  have ok: "\<not> isl (fst ?run)" "iwd_id (projr (fst ?run)) = next_uuid rupee_db"
    "trim '' 12345678'' = ''12345678''" by code_simp+
  obtain dto t where run: "?run = (Inr dto, t)" using ok(1) by (rule run_Inr)
  have "t = asked_db" "iwd_id dto = next_uuid rupee_db" using run ok(2) by (simp_all add: asked_db_def)
  then show ?thesis
    using account_number_roundtrip [OF mirror_cipher_correct _ rupee_db_state two_decimals(1) _ _ _ run,
        of "'' 12345678''"] ok(3)
    by (simp add: some_iv_def IV_LENGTH_def bank_request_def) blast
qed

end
