(* ===== verification/Deposit.thy ===== *)
theory Deposit
  imports Tables Paging
begin

text \<open>
  Rupee deposits: \<open>modules/deposit\<close>.  A gateway deposit starts with an order at the payment provider
  and is credited when the provider's signed webhook reports the captured payment.  A manual deposit
  starts with the bank reference (UTR) the user submits and is credited when an admin approves it,
  a large one when a second admin does.  Either way one ledger posting under the deposit's id
  credits the user.

  The webhook events are stored under a unique key, which is how a redelivery is recognised.  An
  approval is split where another call can come between, after it has read the row.  The payment
  provider is the record of functions of \<open>RazorpayProvider\<close>; \<open>mock_razorpay\<close> is the implementation in
  the source, with HMAC-SHA256 and SHA-256 of \<open>node:crypto\<close> as parameters.  The metadata columns
  are left out, and so are the transfer instructions, which are text of the configuration.
\<close>

section \<open>JSON\<close>

datatype json = JNull | JBool bool | JNum rat | JStr string | JArr "json list" | JObj "(string \<times> json) list"

text \<open>Reading a property, \<open>undefined\<close> on anything but an object; of equal keys the last counts.\<close>

definition json_field :: "string \<Rightarrow> json option \<Rightarrow> json option" where
  "json_field k j = (case j of Some (JObj fs) \<Rightarrow> map_of (rev fs) k | _ \<Rightarrow> None)"

section \<open>Rows and data transfer objects\<close>

definition MANUAL_PROVIDER :: string where "MANUAL_PROVIDER = ''MANUAL''"
definition RAZORPAY_PROVIDER_ID :: string where "RAZORPAY_PROVIDER_ID = ''razorpay''"
definition REFERENCE_TYPE :: string where "REFERENCE_TYPE = ''inr_transaction''"

record deposit_config =
  depositMin :: rat
  depositMax :: rat
  dualApproval :: rat
  razorpay_key :: "string option"
  razorpay_secret :: string
  webhook_secret :: string

record inr_deposit_dto =
  idd_id :: nat
  idd_user :: nat
  idd_type :: inr_txn_type
  idd_amount :: rat
  idd_fee :: rat
  idd_status :: inr_txn_status
  idd_provider :: "string option"
  idd_order :: "string option"
  idd_payment :: "string option"
  idd_txn :: "nat option"
  idd_utr :: "string option"
  idd_method :: "string option"
  idd_proof :: "string option"
  idd_first :: "nat option"
  idd_first_at :: "nat option"
  idd_reviewed :: "nat option"
  idd_reviewed_at :: "nat option"
  idd_reason :: "string option"
  idd_created :: nat
  idd_updated :: nat

record inr_deposit_intent =
  idi_id :: nat
  idi_provider :: string
  idi_order :: string
  idi_key :: "string option"
  idi_amount :: rat
  idi_status :: inr_txn_status

definition toInrDepositDto :: "inr_transaction \<Rightarrow> inr_deposit_dto" where
  "toInrDepositDto r =
     \<lparr>idd_id = inr_id r, idd_user = inr_user r, idd_type = inr_type r, idd_amount = inr_amount r,
      idd_fee = inr_fee r, idd_status = inr_status r, idd_provider = inr_provider r,
      idd_order = provider_order_id r, idd_payment = provider_payment_id r, idd_txn = inr_ledger_txn r,
      idd_utr = inr_utr r, idd_method = inr_method r, idd_proof = proof_key r,
      idd_first = first_approved_by r, idd_first_at = first_approved_at r, idd_reviewed = reviewed_by r,
      idd_reviewed_at = reviewed_at r, idd_reason = rejection_reason r, idd_created = inr_created r,
      idd_updated = inr_updated r\<rparr>"

definition rupeesToPaise :: "rounding \<Rightarrow> rat \<Rightarrow> err + rat" where
  "rupeesToPaise D amount =
     (let paise = dmul D amount 100
      in if of_int \<lfloor>paise\<rfloor> = paise then Inr paise else Inl (JsError ''precision''))"

definition paiseToRupees :: "rounding \<Rightarrow> rat \<Rightarrow> rat" where
  "paiseToRupees D paise = toFixed (ddiv D paise 100) 2"

record parsed_payment =
  pp_payment :: string
  pp_order :: string
  pp_paise :: rat

definition parsePaymentEntity :: "json option \<Rightarrow> parsed_payment option" where
  "parsePaymentEntity payload =
     (let e = json_field ''entity'' (json_field ''payment'' payload)
      in case (json_field ''id'' e, json_field ''order_id'' e, json_field ''amount'' e) of
           (Some (JStr paymentId), Some (JStr orderId), Some (JNum amount)) \<Rightarrow>
             Some \<lparr>pp_payment = paymentId, pp_order = orderId, pp_paise = amount\<rparr>
         | _ \<Rightarrow> None)"

section \<open>The payment provider\<close>

text \<open>
  The hexadecimal digits of a signature as bytes; \<open>Buffer.from(x, 'hex')\<close> drops a digit without a
  partner.
\<close>

definition is_hex :: "char \<Rightarrow> bool" where
  "is_hex c \<longleftrightarrow> (let n = of_char c :: nat in (48 \<le> n \<and> n \<le> 57) \<or> (65 \<le> n \<and> n \<le> 70) \<or> (97 \<le> n \<and> n \<le> 102))"

definition hex_value :: "char \<Rightarrow> nat" where
  "hex_value c = (let n = of_char c in if n \<le> 57 then n - 48 else if n \<le> 70 then n - 55 else n - 87)"

fun hex_bytes :: "string \<Rightarrow> nat list" where
  "hex_bytes (a # b # rest) = (16 * hex_value a + hex_value b) # hex_bytes rest"
| "hex_bytes _ = []"

definition safeEqualHex :: "string \<Rightarrow> string \<Rightarrow> bool" where
  "safeEqualHex a b \<longleftrightarrow>
     \<not> (length a \<noteq> length b \<or> \<not> (a \<noteq> [] \<and> list_all is_hex a) \<or> \<not> (b \<noteq> [] \<and> list_all is_hex b)) \<and>
     length (hex_bytes a) = length (hex_bytes b) \<and> hex_bytes a = hex_bytes b"

text \<open>\<open>hmac payload secret\<close> stands for \<open>hmacSha256Hex\<close>.\<close>

definition verifyPaymentSignature ::
  "(string \<Rightarrow> string \<Rightarrow> string) \<Rightarrow> string \<Rightarrow> string \<Rightarrow> string \<Rightarrow> string \<Rightarrow> bool" where
  "verifyPaymentSignature hmac orderId paymentId signature keySecret =
     safeEqualHex (hmac (orderId @ ''|'' @ paymentId) keySecret) signature"

definition verifyWebhookSignature ::
  "(string \<Rightarrow> string \<Rightarrow> string) \<Rightarrow> string \<Rightarrow> string \<Rightarrow> string \<Rightarrow> bool" where
  "verifyWebhookSignature hmac rawBody signature webhookSecret =
     safeEqualHex (hmac rawBody webhookSecret) signature"

record razorpay =
  rz_key :: "string option"
  rz_createOrder :: "rat \<Rightarrow> string \<Rightarrow> (db, string) svc"
  rz_verifyPayment :: "string \<Rightarrow> string \<Rightarrow> string \<Rightarrow> bool"
  rz_verifyWebhook :: "string \<Rightarrow> string \<Rightarrow> bool"

definition mock_razorpay ::
  "deposit_config \<Rightarrow> (string \<Rightarrow> string) \<Rightarrow> (string \<Rightarrow> string \<Rightarrow> string) \<Rightarrow> razorpay" where
  "mock_razorpay cfg sha256 hmac =
     \<lparr>rz_key = (case razorpay_key cfg of None \<Rightarrow> Some ''rzp_test_mock'' | Some k \<Rightarrow> Some k),
      rz_createOrder = (\<lambda>amountPaise receipt. returnS (''order_'' @ take 14 (sha256 receipt))),
      rz_verifyPayment = (\<lambda>orderId paymentId signature.
        verifyPaymentSignature hmac orderId paymentId signature (razorpay_secret cfg)),
      rz_verifyWebhook = (\<lambda>rawBody signature.
        verifyWebhookSignature hmac rawBody signature (webhook_secret cfg))\<rparr>"

section \<open>The repository\<close>

definition findUserKyc_d :: "nat \<Rightarrow> db \<Rightarrow> user option" where
  "findUserKyc_d userId s = find (\<lambda>u. user_id u = userId) (users s)"

definition put_inr_transactions :: "inr_transaction list \<Rightarrow> db \<Rightarrow> db" where
  "put_inr_transactions rs s = s\<lparr>inr_transactions := rs\<rparr>"

text \<open>The CHECK constraint \<open>inr_transactions_amount_chk\<close> and the columns a new deposit leaves empty.\<close>

definition amount_chk :: "inr_transaction \<Rightarrow> bool" where
  "amount_chk r \<longleftrightarrow> 0 < inr_amount r"

definition new_deposit ::
  "nat \<Rightarrow> nat \<Rightarrow> rat \<Rightarrow> inr_txn_status \<Rightarrow> string \<Rightarrow> nat \<Rightarrow> inr_transaction" where
  "new_deposit i userId amount status provider t =
     \<lparr>inr_id = i, inr_user = userId, inr_type = INR_DEPOSIT, inr_amount = amount, inr_fee = 0,
      inr_status = status, inr_provider = Some provider, provider_order_id = None,
      provider_payment_id = None, inr_ledger_txn = None, inr_utr = None, inr_method = None,
      proof_key = None, first_approved_by = None, first_approved_at = None, reviewed_by = None,
      reviewed_at = None, rejection_reason = None, inr_created = t, inr_updated = t\<rparr>"

definition insert_deposit :: "inr_transaction \<Rightarrow> (db, inr_transaction) svc" where
  "insert_deposit r =
     bindS (requireS (amount_chk r) (DbCheckError ''inr_transactions'')) (\<lambda>_.
     bindS (writeS (\<lambda>s. put_inr_transactions (inr_transactions s @ [r]) s)) (\<lambda>_. returnS r))"

definition createDeposit_row ::
  "nat \<Rightarrow> nat \<Rightarrow> rat \<Rightarrow> string \<Rightarrow> string \<Rightarrow> (db, inr_transaction) svc" where
  "createDeposit_row i userId amount provider orderId =
     bindS (readS now) (\<lambda>t.
     insert_deposit (new_deposit i userId amount INR_INITIATED provider t
       \<lparr>provider_order_id := Some orderId\<rparr>))"

text \<open>The unique index on provider and UTR becomes a \<open>DUPLICATE_UTR\<close> conflict.\<close>

definition utr_taken :: "string \<Rightarrow> string \<Rightarrow> db \<Rightarrow> bool" where
  "utr_taken provider utr s \<longleftrightarrow>
     (\<exists>r \<in> set (inr_transactions s). inr_provider r = Some provider \<and> inr_utr r = Some utr)"

definition createManualDeposit_row ::
  "nat \<Rightarrow> nat \<Rightarrow> rat \<Rightarrow> string \<Rightarrow> string \<Rightarrow> string \<Rightarrow> string option \<Rightarrow> (db, inr_transaction) svc" where
  "createManualDeposit_row i userId amount provider utr method proofKey =
     catchS
       (bindS (readS (utr_taken provider utr)) (\<lambda>taken.
        bindS (requireS (\<not> taken) (PrismaError ''P2002'')) (\<lambda>_.
        bindS (readS now) (\<lambda>t.
        insert_deposit (new_deposit i userId amount INR_PENDING provider t
          \<lparr>inr_utr := Some utr, inr_method := Some method, proof_key := proofKey\<rparr>)))))
       (\<lambda>e. if e = PrismaError ''P2002'' then throwS (ConflictError ''DUPLICATE_UTR'') else throwS e)"

definition findDepositById :: "nat \<Rightarrow> db \<Rightarrow> inr_transaction option" where
  "findDepositById i s = find (\<lambda>r. inr_id r = i) (inr_transactions s)"

definition findDepositByOrderId :: "string \<Rightarrow> string \<Rightarrow> db \<Rightarrow> inr_transaction option" where
  "findDepositByOrderId provider orderId s =
     find (\<lambda>r. inr_provider r = Some provider \<and> provider_order_id r = Some orderId \<and>
       inr_type r = INR_DEPOSIT) (inr_transactions s)"

definition updateMany_d ::
  "nat \<Rightarrow> (inr_transaction \<Rightarrow> bool) \<Rightarrow> (inr_transaction \<Rightarrow> inr_transaction) \<Rightarrow> (db, nat) svc" where
  "updateMany_d i cond upd =
     bindS (readS now) (\<lambda>t.
     update_many inr_id inr_transactions put_inr_transactions amount_chk ''inr_transactions'' i cond
       (\<lambda>r. upd r\<lparr>inr_updated := t\<rparr>))"

definition update_d ::
  "nat \<Rightarrow> (inr_transaction \<Rightarrow> inr_transaction) \<Rightarrow> (db, inr_transaction) svc" where
  "update_d i upd =
     bindS (readS now) (\<lambda>t.
     update_one inr_id inr_transactions put_inr_transactions amount_chk ''inr_transactions'' i
       (\<lambda>r. upd r\<lparr>inr_updated := t\<rparr>))"

text \<open>The unique index on provider and payment id, which the updates that write a payment id meet.\<close>

definition payment_taken :: "nat \<Rightarrow> string \<Rightarrow> db \<Rightarrow> bool" where
  "payment_taken i paymentId s \<longleftrightarrow>
     (case findDepositById i s of
        None \<Rightarrow> False
      | Some x \<Rightarrow> inr_provider x \<noteq> None \<and> (\<exists>r \<in> set (inr_transactions s). inr_id r \<noteq> i \<and>
          inr_provider r = inr_provider x \<and> provider_payment_id r = Some paymentId))"

definition update_payment ::
  "nat \<Rightarrow> string \<Rightarrow> (inr_transaction \<Rightarrow> inr_transaction) \<Rightarrow> (db, inr_transaction) svc" where
  "update_payment i paymentId upd =
     bindS (readS (payment_taken i paymentId)) (\<lambda>taken.
     bindS (requireS (\<not> taken) (PrismaError ''P2002'')) (\<lambda>_.
     update_d i (\<lambda>r. upd r\<lparr>provider_payment_id := Some paymentId\<rparr>)))"

definition markManualApproved ::
  "nat \<Rightarrow> nat \<Rightarrow> nat \<Rightarrow> (db, bool \<times> inr_transaction option) svc" where
  "markManualApproved i admin txn =
     bindS (readS now) (\<lambda>t.
     bindS (updateMany_d i (\<lambda>r. inr_status r = INR_PENDING)
       (\<lambda>r. r\<lparr>inr_status := INR_SUCCESS, reviewed_by := Some admin, reviewed_at := Some t,
              inr_ledger_txn := Some txn\<rparr>)) (\<lambda>n.
     bindS (readS (findDepositById i)) (\<lambda>row. returnS (n = 1, row))))"

definition markFirstApproval :: "nat \<Rightarrow> nat \<Rightarrow> (db, bool \<times> inr_transaction option) svc" where
  "markFirstApproval i admin =
     bindS (readS now) (\<lambda>t.
     bindS (updateMany_d i (\<lambda>r. inr_status r = INR_PENDING \<and> first_approved_by r = None)
       (\<lambda>r. r\<lparr>first_approved_by := Some admin, first_approved_at := Some t\<rparr>)) (\<lambda>n.
     bindS (readS (findDepositById i)) (\<lambda>row. returnS (n = 1, row))))"

definition markManualRejected ::
  "nat \<Rightarrow> nat \<Rightarrow> string option \<Rightarrow> (db, bool \<times> inr_transaction option) svc" where
  "markManualRejected i admin reason =
     bindS (readS now) (\<lambda>t.
     bindS (updateMany_d i (\<lambda>r. inr_status r = INR_PENDING)
       (\<lambda>r. r\<lparr>inr_status := INR_FAILED, reviewed_by := Some admin, reviewed_at := Some t,
              rejection_reason := (if reason = None then rejection_reason r else reason)\<rparr>)) (\<lambda>n.
     bindS (readS (findDepositById i)) (\<lambda>row. returnS (n = 1, row))))"

definition attachPayment :: "nat \<Rightarrow> string \<Rightarrow> inr_txn_status \<Rightarrow> (db, inr_transaction) svc" where
  "attachPayment i paymentId status = update_payment i paymentId (\<lambda>r. r\<lparr>inr_status := status\<rparr>)"

definition markCredited :: "nat \<Rightarrow> string \<Rightarrow> nat \<Rightarrow> (db, inr_transaction) svc" where
  "markCredited i paymentId txn =
     update_payment i paymentId (\<lambda>r. r\<lparr>inr_status := INR_SUCCESS, inr_ledger_txn := Some txn\<rparr>)"

text \<open>An empty payment id is falsy and left out.\<close>

definition markFailed_d :: "nat \<Rightarrow> string \<Rightarrow> (db, inr_transaction) svc" where
  "markFailed_d i paymentId =
     (if paymentId = [] then update_d i (\<lambda>r. r\<lparr>inr_status := INR_FAILED\<rparr>)
      else update_payment i paymentId (\<lambda>r. r\<lparr>inr_status := INR_FAILED\<rparr>))"

text \<open>A redelivered event meets the unique index and the stored row is read instead.\<close>

definition recordWebhookEvent ::
  "string \<Rightarrow> string \<Rightarrow> string \<Rightarrow> bool \<Rightarrow> nat option \<Rightarrow> (db, bool \<times> payment_webhook_event) svc" where
  "recordWebhookEvent provider eventId eventType signatureOk processedAt =
     bindS (readS (\<lambda>s. find (\<lambda>e. we_provider e = provider \<and> we_event e = eventId)
       (payment_webhook_events s))) (\<lambda>found.
     case found of
       Some e \<Rightarrow> returnS (False, e)
     | None \<Rightarrow>
         bindS fresh_uuid (\<lambda>i.
         let e = \<lparr>we_id = i, we_provider = provider, we_event = eventId, we_type = eventType,
                  we_signature_ok = signatureOk, we_processed = processedAt\<rparr>
         in bindS (writeS (\<lambda>s. s\<lparr>payment_webhook_events := payment_webhook_events s @ [e]\<rparr>)) (\<lambda>_.
            returnS (True, e))))"

record deposit_filter =
  df_status :: "inr_txn_status option"
  df_provider :: "string option"
  df_user :: "nat option"
  df_email :: "string option"
  df_utr :: "string option"
  df_from :: "nat option"
  df_to :: "nat option"
  df_min :: "rat option"
  df_max :: "rat option"

definition buildAdminDepositWhere :: "deposit_filter \<Rightarrow> db \<Rightarrow> inr_transaction \<Rightarrow> bool" where
  "buildAdminDepositWhere q s r \<longleftrightarrow> inr_type r = INR_DEPOSIT \<and>
     (df_status q = None \<or> df_status q = Some (inr_status r)) \<and>
     (df_provider q = None \<or> df_provider q = Some [] \<or> df_provider q = inr_provider r) \<and>
     (df_user q = None \<or> df_user q = Some (inr_user r)) \<and>
     (case df_utr q of None \<Rightarrow> True | Some u \<Rightarrow> u = [] \<or>
        (case inr_utr r of None \<Rightarrow> False | Some v \<Rightarrow> contains_text u v)) \<and>
     (case df_email q of None \<Rightarrow> True | Some e \<Rightarrow> e = [] \<or>
        (case findUserKyc_d (inr_user r) s of None \<Rightarrow> False | Some u \<Rightarrow> contains_ci e (user_email u))) \<and>
     (case df_min q of None \<Rightarrow> True | Some x \<Rightarrow> x \<le> inr_amount r) \<and>
     (case df_max q of None \<Rightarrow> True | Some x \<Rightarrow> inr_amount r \<le> x) \<and>
     (case df_from q of None \<Rightarrow> True | Some t \<Rightarrow> t \<le> inr_created r) \<and>
     (case df_to q of None \<Rightarrow> True | Some t \<Rightarrow> inr_created r \<le> t)"

definition listUserDeposits_rows ::
  "nat \<Rightarrow> inr_txn_status option \<Rightarrow> nat option \<Rightarrow> nat \<Rightarrow> db \<Rightarrow> inr_transaction list" where
  "listUserDeposits_rows userId status cursor limit s =
     find_page_by inr_created inr_id
       (filter (\<lambda>r. inr_user r = userId \<and> inr_type r = INR_DEPOSIT \<and>
         (status = None \<or> status = Some (inr_status r))) (inr_transactions s)) cursor limit"

definition adminListDeposits_rows ::
  "deposit_filter \<Rightarrow> nat option \<Rightarrow> nat \<Rightarrow> db \<Rightarrow> inr_transaction list" where
  "adminListDeposits_rows q cursor limit s =
     find_page_by inr_created inr_id (filter (buildAdminDepositWhere q s) (inr_transactions s)) cursor limit"

definition adminExportDeposits :: "deposit_filter \<Rightarrow> db \<Rightarrow> inr_transaction list" where
  "adminExportDeposits q s =
     take 5000 (rev (sort_key inr_created (filter (buildAdminDepositWhere q s) (inr_transactions s))))"

definition countManualDepositsByStatus :: "db \<Rightarrow> (inr_txn_status \<times> nat) list" where
  "countManualDepositsByStatus s =
     (let rs = filter (\<lambda>r. inr_type r = INR_DEPOSIT \<and> inr_provider r = Some MANUAL_PROVIDER) (inr_transactions s)
      in map (\<lambda>st. (st, length (filter (\<lambda>r. inr_status r = st) rs))) (remdups (map inr_status rs)))"

section \<open>Gateway deposits\<close>

text \<open>The checks both ways of depositing start with.\<close>

definition deposit_guards :: "rounding \<Rightarrow> deposit_config \<Rightarrow> nat \<Rightarrow> rat \<Rightarrow> (db, rat) svc" where
  "deposit_guards D cfg userId amount =
     bindS (readS (findUserKyc_d userId)) (\<lambda>found.
     case found of
       None \<Rightarrow> throwS not_found
     | Some u \<Rightarrow>
         bindS (requireS (\<not> user_status u \<noteq> USER_ACTIVE) (ForbiddenError ''ACCOUNT_INACTIVE'')) (\<lambda>_.
         bindS (requireS (\<not> (kyc_status u \<noteq> KYC_APPROVED \<or> kyc_tier u < 1))
           (ForbiddenError ''KYC_REQUIRED'')) (\<lambda>_.
         bindS (requireS (\<not> amount < depositMin cfg) (AppError 422 ''AMOUNT_BELOW_MINIMUM'')) (\<lambda>_.
         bindS (requireS (\<not> depositMax cfg < amount) (AppError 422 ''LIMIT_EXCEEDED'')) (\<lambda>_.
         case rupeesToPaise D amount of Inl e \<Rightarrow> throwS e | Inr paise \<Rightarrow> returnS paise)))))"

definition createDeposit ::
  "rounding \<Rightarrow> deposit_config \<Rightarrow> razorpay \<Rightarrow> nat \<Rightarrow> rat \<Rightarrow> (db, inr_deposit_intent) svc" where
  "createDeposit D cfg P userId amount =
     bindS (deposit_guards D cfg userId amount) (\<lambda>amountPaise.
     bindS fresh_uuid (\<lambda>depositId.
     bindS (rz_createOrder P amountPaise (nat_text depositId)) (\<lambda>orderId.
     bindS (createDeposit_row depositId userId amount RAZORPAY_PROVIDER_ID orderId) (\<lambda>deposit.
     bindS (recordAudit ACTOR_USER (Some userId) ''inr.deposit.initiated'' (Some REFERENCE_TYPE)
       (Some (inr_id deposit))) (\<lambda>_.
     returnS \<lparr>idi_id = inr_id deposit, idi_provider = RAZORPAY_PROVIDER_ID, idi_order = orderId,
       idi_key = rz_key P, idi_amount = toFixed (inr_amount deposit) 2,
       idi_status = inr_status deposit\<rparr>)))))"

definition verifyPayment ::
  "razorpay \<Rightarrow> nat \<Rightarrow> string \<Rightarrow> string \<Rightarrow> string \<Rightarrow> (db, inr_deposit_dto) svc" where
  "verifyPayment P userId orderId paymentId signature =
     bindS (readS (findDepositByOrderId RAZORPAY_PROVIDER_ID orderId)) (\<lambda>found.
     case found of
       None \<Rightarrow> throwS not_found
     | Some deposit \<Rightarrow>
         bindS (requireS (\<not> inr_user deposit \<noteq> userId) not_found) (\<lambda>_.
         if \<not> rz_verifyPayment P orderId paymentId signature
         then bindS (recordAudit ACTOR_USER (Some userId) ''inr.deposit.payment_verify_failed''
                (Some REFERENCE_TYPE) (Some (inr_id deposit))) (\<lambda>_.
              throwS (AppError 400 ''INVALID_SIGNATURE''))
         else bindS (if inr_status deposit = INR_INITIATED
                then attachPayment (inr_id deposit) paymentId INR_PENDING else returnS deposit) (\<lambda>updated.
              bindS (recordAudit ACTOR_USER (Some userId) ''inr.deposit.payment_verified''
                (Some REFERENCE_TYPE) (Some (inr_id deposit))) (\<lambda>_.
              returnS (toInrDepositDto updated)))))"

datatype settle_result = Unknown_Order | Deposit_Status inr_txn_status

definition credit_lines :: "account_kind \<Rightarrow> nat \<Rightarrow> rat \<Rightarrow> posting_line list" where
  "credit_lines clearing userId amount =
     [\<lparr>line_user = None, line_asset = ''INR'', line_kind = clearing, line_direction = DEBIT,
       line_amount = amount\<rparr>,
      \<lparr>line_user = Some userId, line_asset = ''INR'', line_kind = USER_AVAILABLE,
       line_direction = CREDIT, line_amount = amount\<rparr>]"

definition gateway_credit :: "inr_transaction \<Rightarrow> posting_input" where
  "gateway_credit d =
     \<lparr>post_kind = ''INR_DEPOSIT'', post_reference_type = Some REFERENCE_TYPE,
      post_reference_id = Some (inr_id d),
      post_lines = credit_lines GATEWAY_CLEARING (inr_user d) (toFixed (inr_amount d) 2)\<rparr>"

definition manual_credit :: "inr_transaction \<Rightarrow> posting_input" where
  "manual_credit d =
     \<lparr>post_kind = ''INR_DEPOSIT_MANUAL'', post_reference_type = Some REFERENCE_TYPE,
      post_reference_id = Some (inr_id d),
      post_lines = credit_lines MANUAL_BANK_CLEARING (inr_user d) (toFixed (inr_amount d) 2)\<rparr>"

definition audit_deposit :: "string \<Rightarrow> inr_transaction \<Rightarrow> (db, unit) svc" where
  "audit_deposit action d =
     recordAudit ACTOR_SYSTEM None action (Some REFERENCE_TYPE) (Some (inr_id d))"

definition settleCapturedPayment :: "rounding \<Rightarrow> parsed_payment \<Rightarrow> (db, settle_result) svc" where
  "settleCapturedPayment D payment =
     bindS (readS (findDepositByOrderId RAZORPAY_PROVIDER_ID (pp_order payment))) (\<lambda>found.
     case found of
       None \<Rightarrow> returnS Unknown_Order
     | Some deposit \<Rightarrow>
         if inr_status deposit \<in> {INR_SUCCESS, INR_FAILED, INR_REVERSED}
         then returnS (Deposit_Status (inr_status deposit))
         else case rupeesToPaise D (toFixed (inr_amount deposit) 2) of
           Inl e \<Rightarrow> throwS e
         | Inr expectedPaise \<Rightarrow>
             if pp_paise payment \<noteq> expectedPaise
             then bindS (markFailed_d (inr_id deposit) (pp_payment payment)) (\<lambda>_.
                  bindS (audit_deposit ''inr.deposit.failed'' deposit) (\<lambda>_.
                  returnS (Deposit_Status INR_FAILED)))
             else bindS (post D (gateway_credit deposit) (Some (inr_user deposit))) (\<lambda>posted.
                  bindS (markCredited (inr_id deposit) (pp_payment payment) (posted_id posted)) (\<lambda>credited.
                  bindS (audit_deposit ''inr.deposit.credited'' deposit) (\<lambda>_.
                  returnS (Deposit_Status (inr_status credited))))))"

definition markPaymentFailed :: "parsed_payment \<Rightarrow> (db, settle_result) svc" where
  "markPaymentFailed payment =
     bindS (readS (findDepositByOrderId RAZORPAY_PROVIDER_ID (pp_order payment))) (\<lambda>found.
     case found of
       None \<Rightarrow> returnS Unknown_Order
     | Some deposit \<Rightarrow>
         if inr_status deposit = INR_SUCCESS then returnS (Deposit_Status INR_SUCCESS)
         else bindS (markFailed_d (inr_id deposit) (pp_payment payment)) (\<lambda>failed.
              bindS (audit_deposit ''inr.deposit.failed'' deposit) (\<lambda>_.
              returnS (Deposit_Status (inr_status failed)))))"

record webhook_result =
  wr_duplicate :: bool
  wr_status :: "settle_result option"

record webhook_delivery =
  wd_raw :: "string option"
  wd_signature :: "string option"
  wd_event :: "string option"
  wd_body :: json

definition event_type :: "json \<Rightarrow> string" where
  "event_type body = (case json_field ''event'' (Some body) of Some (JStr e) \<Rightarrow> e | _ \<Rightarrow> ''unknown'')"

text \<open>What is done with an event that is new and signed.\<close>

definition process_event :: "rounding \<Rightarrow> json \<Rightarrow> (db, webhook_result) svc" where
  "process_event D body =
     (let t = event_type body; payment = parsePaymentEntity (json_field ''payload'' (Some body))
      in bindS
        (case payment of
           None \<Rightarrow> returnS None
         | Some p \<Rightarrow>
             if t \<in> {''payment.captured'', ''order.paid''}
             then bindS (settleCapturedPayment D p) (\<lambda>r. returnS (Some r))
             else if t = ''payment.failed'' then bindS (markPaymentFailed p) (\<lambda>r. returnS (Some r))
             else returnS None)
        (\<lambda>status. returnS \<lparr>wr_duplicate = False, wr_status = status\<rparr>))"

definition handleWebhook ::
  "rounding \<Rightarrow> razorpay \<Rightarrow> (string \<Rightarrow> string) \<Rightarrow> webhook_delivery \<Rightarrow> (db, webhook_result) svc" where
  "handleWebhook D P sha256 input =
     (case wd_raw input of
        None \<Rightarrow> throwS BadRequestError
      | Some rawBody \<Rightarrow>
          bindS (requireS (rawBody \<noteq> []) BadRequestError) (\<lambda>_.
          case wd_signature input of
            None \<Rightarrow> throwS BadRequestError
          | Some signature \<Rightarrow>
              bindS (requireS (signature \<noteq> []) BadRequestError) (\<lambda>_.
              let signatureOk = rz_verifyWebhook P rawBody signature;
                  providerEventId = (case wd_event input of None \<Rightarrow> ''body:'' @ take 32 (sha256 rawBody) | Some e \<Rightarrow> e)
              in bindS (readS now) (\<lambda>t.
                 bindS (recordWebhookEvent RAZORPAY_PROVIDER_ID providerEventId (event_type (wd_body input))
                   signatureOk (if signatureOk then Some t else None)) (\<lambda>(created, event).
                 if \<not> signatureOk
                 then bindS (recordAudit ACTOR_SYSTEM None ''inr.deposit.webhook_invalid_signature''
                        (Some ''payment_webhook_event'') (Some (we_id event))) (\<lambda>_.
                      throwS (AppError 400 ''INVALID_WEBHOOK_SIGNATURE''))
                 else if \<not> created then returnS \<lparr>wr_duplicate = True, wr_status = None\<rparr>
                 else process_event D (wd_body input))))))"

section \<open>Reading\<close>

definition getDeposit :: "nat \<Rightarrow> nat \<Rightarrow> (db, inr_deposit_dto) svc" where
  "getDeposit userId i =
     bindS (readS (findDepositById i)) (\<lambda>found.
     case found of
       None \<Rightarrow> throwS not_found
     | Some d \<Rightarrow>
         if inr_user d \<noteq> userId \<or> inr_type d \<noteq> INR_DEPOSIT then throwS not_found
         else returnS (toInrDepositDto d))"

definition listUserDeposits ::
  "nat \<Rightarrow> inr_txn_status option \<Rightarrow> nat option \<Rightarrow> nat \<Rightarrow> (db, inr_deposit_dto list \<times> nat option) svc" where
  "listUserDeposits userId status cursor limit = readS (\<lambda>s.
     let (slice, nextCursor) = page_last inr_id (listUserDeposits_rows userId status cursor limit s) limit
     in (map toInrDepositDto slice, nextCursor))"

section \<open>Manual deposits\<close>

definition createManualDeposit ::
  "rounding \<Rightarrow> deposit_config \<Rightarrow> nat \<Rightarrow> rat \<Rightarrow> string \<Rightarrow> string \<Rightarrow> string option \<Rightarrow>
    (db, inr_deposit_dto) svc" where
  "createManualDeposit D cfg userId amount utr method proofKey =
     bindS (deposit_guards D cfg userId amount) (\<lambda>_.
     bindS fresh_uuid (\<lambda>i.
     bindS (createManualDeposit_row i userId amount MANUAL_PROVIDER utr method proofKey) (\<lambda>deposit.
     bindS (recordAudit ACTOR_USER (Some userId) ''inr.deposit.manual_submitted'' (Some REFERENCE_TYPE)
       (Some (inr_id deposit))) (\<lambda>_.
     bindS (notify userId ''INR_DEPOSIT_SUBMITTED'') (\<lambda>_.
     returnS (toInrDepositDto deposit))))))"

text \<open>The two trails of an admin action.\<close>

definition audit_admin_d :: "nat \<Rightarrow> string \<Rightarrow> nat \<Rightarrow> (db, unit) svc" where
  "audit_admin_d actor action i =
     bindS (recordAudit ACTOR_ADMIN (Some actor) action (Some REFERENCE_TYPE) (Some i)) (\<lambda>_.
     writeAdminLog actor action (Some REFERENCE_TYPE) (Some i))"

definition find_manual :: "nat \<Rightarrow> (db, inr_transaction) svc" where
  "find_manual depositId =
     bindS (readS (findDepositById depositId)) (\<lambda>found.
     case found of
       None \<Rightarrow> throwS not_found
     | Some d \<Rightarrow>
         if inr_type d \<noteq> INR_DEPOSIT \<or> inr_provider d \<noteq> Some MANUAL_PROVIDER then throwS not_found
         else returnS d)"

text \<open>Up to the credit step: \<open>Inl\<close> to go on with it, or the answer.\<close>

definition approve_d_check ::
  "deposit_config \<Rightarrow> nat \<Rightarrow> nat option \<Rightarrow> (db, (nat \<times> inr_transaction) + inr_deposit_dto) svc" where
  "approve_d_check cfg depositId actorId =
     (case actorId of
        None \<Rightarrow> throwS (ForbiddenError ''FORBIDDEN'')
      | Some actor \<Rightarrow>
          bindS (find_manual depositId) (\<lambda>deposit.
          if inr_status deposit = INR_SUCCESS then returnS (Inr (toInrDepositDto deposit))
          else bindS (requireS (\<not> inr_status deposit \<noteq> INR_PENDING) (ConflictError ''INVALID_STATE'')) (\<lambda>_.
            let requiresDual = (dualApproval cfg \<le> inr_amount deposit)
            in if requiresDual \<and> first_approved_by deposit = None
               then bindS (markFirstApproval (inr_id deposit) actor) (\<lambda>(updated, row).
                    case row of
                      None \<Rightarrow> throwS not_found
                    | Some r \<Rightarrow>
                        bindS (whenS updated (audit_admin_d actor ''inr.deposit.manual_first_approved''
                          (inr_id deposit))) (\<lambda>_.
                        returnS (Inr (toInrDepositDto r))))
               else bindS (requireS (\<not> (requiresDual \<and> first_approved_by deposit = Some actor))
                      (ForbiddenError ''SAME_APPROVER'')) (\<lambda>_.
                    returnS (Inl (actor, deposit))))))"

definition approve_d_credit ::
  "rounding \<Rightarrow> deposit_config \<Rightarrow> nat \<times> inr_transaction \<Rightarrow> (db, inr_deposit_dto) svc" where
  "approve_d_credit D cfg go =
     (case go of (actor, deposit) \<Rightarrow>
        bindS (post D (manual_credit deposit) (Some (inr_user deposit))) (\<lambda>posted.
        bindS (markManualApproved (inr_id deposit) actor (posted_id posted)) (\<lambda>(updated, row).
        case row of
          None \<Rightarrow> throwS not_found
        | Some r \<Rightarrow>
            bindS (whenS updated (bindS (audit_admin_d actor
                (if dualApproval cfg \<le> inr_amount deposit then ''inr.deposit.manual_second_approved''
                 else ''inr.deposit.manual_approved'') (inr_id deposit)) (\<lambda>_.
              notify (inr_user deposit) ''INR_DEPOSIT_APPROVED''))) (\<lambda>_.
            returnS (toInrDepositDto r)))))"

definition approveManualDeposit ::
  "rounding \<Rightarrow> deposit_config \<Rightarrow> nat \<Rightarrow> nat option \<Rightarrow> (db, inr_deposit_dto) svc" where
  "approveManualDeposit D cfg depositId actorId =
     bindS (approve_d_check cfg depositId actorId) (\<lambda>res.
     case res of Inl go \<Rightarrow> approve_d_credit D cfg go | Inr dto \<Rightarrow> returnS dto)"

definition rejectManualDeposit ::
  "nat \<Rightarrow> string option \<Rightarrow> nat option \<Rightarrow> (db, inr_deposit_dto) svc" where
  "rejectManualDeposit depositId reason actorId =
     (case actorId of
        None \<Rightarrow> throwS (ForbiddenError ''FORBIDDEN'')
      | Some actor \<Rightarrow>
          bindS (find_manual depositId) (\<lambda>deposit.
          bindS (requireS (\<not> inr_status deposit = INR_SUCCESS) (ConflictError ''ALREADY_CREDITED'')) (\<lambda>_.
          if inr_status deposit = INR_FAILED then returnS (toInrDepositDto deposit)
          else bindS (requireS (\<not> inr_status deposit \<noteq> INR_PENDING) (ConflictError ''INVALID_STATE'')) (\<lambda>_.
            bindS (markManualRejected (inr_id deposit) actor reason) (\<lambda>(updated, row).
            case row of
              None \<Rightarrow> throwS not_found
            | Some r \<Rightarrow>
                bindS (whenS updated (bindS (audit_admin_d actor ''inr.deposit.manual_rejected''
                  (inr_id deposit)) (\<lambda>_. notify (inr_user deposit) ''INR_DEPOSIT_REJECTED''))) (\<lambda>_.
                returnS (toInrDepositDto r)))))))"

definition adminListDeposits ::
  "deposit_filter \<Rightarrow> nat option \<Rightarrow> nat \<Rightarrow> nat option \<Rightarrow> (db, inr_deposit_dto list \<times> nat option) svc" where
  "adminListDeposits q cursor limit actorId =
     bindS (readS (adminListDeposits_rows q cursor limit)) (\<lambda>rows.
     let (slice, nextCursor) = page_last inr_id rows limit
     in bindS (recordAudit ACTOR_ADMIN actorId ''inr.deposit.admin_list'' (Some ''inr_deposit_queue'') None) (\<lambda>_.
        bindS (case actorId of None \<Rightarrow> returnS ()
          | Some a \<Rightarrow> writeAdminLog a ''inr.deposit.admin_list'' (Some ''inr_deposit_queue'') None) (\<lambda>_.
        returnS (map toInrDepositDto slice, nextCursor))))"

section \<open>The CSV export\<close>

text \<open>\<open>toISOString()\<close> of a time in milliseconds, up to the year 9999.\<close>

definition digit :: "int \<Rightarrow> char" where
  "digit n = char_of (48 + n mod 10)"

definition civil_date :: "int \<Rightarrow> int \<times> int \<times> int" where
  "civil_date days =
     (let z = days + 719468; era = z div 146097; doe = z - era * 146097;
          yoe = (doe - doe div 1460 + doe div 36524 - doe div 146096) div 365;
          doy = doe - (365 * yoe + yoe div 4 - yoe div 100);
          mp = (5 * doy + 2) div 153; d = doy - (153 * mp + 2) div 5 + 1;
          m = (if mp < 10 then mp + 3 else mp - 9)
      in (yoe + era * 400 + (if m \<le> 2 then 1 else 0), m, d))"

definition toISOString :: "nat \<Rightarrow> string" where
  "toISOString t =
     (let ms = int t; (y, m, d) = civil_date (ms div 86400000); r = ms mod 86400000
      in [digit (y div 1000), digit (y div 100), digit (y div 10), digit y, CHR ''-'',
          digit (m div 10), digit m, CHR ''-'', digit (d div 10), digit d, CHR ''T'',
          digit (r div 36000000), digit (r div 3600000), CHR '':'',
          digit (r div 600000 mod 6), digit (r div 60000), CHR '':'',
          digit (r div 10000 mod 6), digit (r div 1000), CHR ''.'',
          digit (r div 100), digit (r div 10), digit r, CHR ''Z''])"

text \<open>\<open>toFixed(2)\<close> as text.\<close>

definition fixed2_text :: "rat \<Rightarrow> string" where
  "fixed2_text x =
     (let paise = \<lfloor>toFixed x 2 * 100\<rfloor>; n = \<bar>paise\<bar>
      in (if paise < 0 then ''-'' else []) @ nat_text (nat (n div 100)) @
         [CHR ''.'', digit (n div 10), digit n])"

fun status_text :: "inr_txn_status \<Rightarrow> string" where
  "status_text INR_INITIATED = ''INITIATED''"
| "status_text INR_PENDING = ''PENDING''"
| "status_text INR_SUCCESS = ''SUCCESS''"
| "status_text INR_FAILED = ''FAILED''"
| "status_text INR_REVERSED = ''REVERSED''"

definition quote_char :: char where "quote_char = CHR 34"
definition newline :: char where "newline = CHR 10"

text \<open>\<open>csvCell\<close>: quoted, with every quote doubled, when it contains a comma, a quote or a newline.\<close>

definition csvCell :: "string \<Rightarrow> string" where
  "csvCell value =
     (if \<exists>c \<in> set value. c \<in> {quote_char, CHR '','', newline}
      then quote_char # concat (map (\<lambda>c. if c = quote_char then [quote_char, quote_char] else [c]) value)
        @ [quote_char]
      else value)"

fun join :: "char \<Rightarrow> string list \<Rightarrow> string" where
  "join sep [] = []"
| "join sep [x] = x"
| "join sep (x # y # ys) = x @ sep # join sep (y # ys)"

definition or_empty :: "string option \<Rightarrow> string" where
  "or_empty x = (case x of None \<Rightarrow> [] | Some v \<Rightarrow> v)"

definition csv_header :: "string list" where
  "csv_header = [''id'', ''user_email'', ''amount'', ''utr'', ''method'', ''status'',
     ''first_approved_by'', ''reviewed_by'', ''reviewed_at'', ''created_at'']"

definition csv_cells :: "db \<Rightarrow> inr_transaction \<Rightarrow> string list" where
  "csv_cells s r =
     [nat_text (inr_id r), (case findUserKyc_d (inr_user r) s of None \<Rightarrow> [] | Some u \<Rightarrow> user_email u),
      fixed2_text (inr_amount r), or_empty (inr_utr r), or_empty (inr_method r),
      status_text (inr_status r), or_empty (map_option nat_text (first_approved_by r)),
      or_empty (map_option nat_text (reviewed_by r)), or_empty (map_option toISOString (reviewed_at r)),
      toISOString (inr_created r)]"

definition adminExportDepositsCsv :: "deposit_filter \<Rightarrow> nat option \<Rightarrow> (db, string) svc" where
  "adminExportDepositsCsv q actorId =
     bindS (readS (\<lambda>s. map (csv_cells s) (adminExportDeposits q s))) (\<lambda>rows.
     bindS (case actorId of None \<Rightarrow> returnS ()
       | Some a \<Rightarrow> writeAdminLog a ''inr.deposit.export'' (Some ''inr_deposit_queue'') None) (\<lambda>_.
     returnS (join newline (join (CHR '','') csv_header #
       map (\<lambda>cells. join (CHR '','') (map csvCell cells)) rows))))"

lemmas deposit_code [code] =
  fun_cong [OF insert_deposit_def, unfolded run_code]
  fun_cong [OF createDeposit_row_def, unfolded run_code]
  fun_cong [OF createManualDeposit_row_def, unfolded run_code]
  fun_cong [OF updateMany_d_def, unfolded run_code]
  fun_cong [OF update_d_def, unfolded run_code]
  fun_cong [OF update_payment_def, unfolded run_code]
  fun_cong [OF markManualApproved_def, unfolded run_code]
  fun_cong [OF markFirstApproval_def, unfolded run_code]
  fun_cong [OF markManualRejected_def, unfolded run_code]
  fun_cong [OF markFailed_d_def, unfolded run_code]
  fun_cong [OF recordWebhookEvent_def, unfolded run_code]
  fun_cong [OF deposit_guards_def, unfolded run_code]
  fun_cong [OF createDeposit_def, unfolded run_code]
  fun_cong [OF verifyPayment_def, unfolded run_code]
  fun_cong [OF settleCapturedPayment_def, unfolded run_code]
  fun_cong [OF markPaymentFailed_def, unfolded run_code]
  fun_cong [OF process_event_def, unfolded run_code]
  fun_cong [OF handleWebhook_def, unfolded run_code]
  fun_cong [OF createManualDeposit_def, unfolded run_code]
  fun_cong [OF audit_admin_d_def, unfolded run_code]
  fun_cong [OF find_manual_def, unfolded run_code]
  fun_cong [OF approve_d_check_def, unfolded run_code]
  fun_cong [OF approve_d_credit_def, unfolded run_code]
  fun_cong [OF approveManualDeposit_def, unfolded run_code]
  fun_cong [OF rejectManualDeposit_def, unfolded run_code]
  fun_cong [OF adminExportDepositsCsv_def, unfolded run_code]

end
