(* ===== verification/Deposit_Laws.thy ===== *)
theory Deposit_Laws
  imports Deposit
begin

text \<open>
  What the table of deposits promises whatever calls come in whatever order, an admin's approval
  split where another call can come between: a credited deposit is in the ledger, a large manual
  one was approved by two admins, and the balances move by the deposits credited.
\<close>

section \<open>The table\<close>

interpretation deposit_rows: table inr_id inr_transactions put_inr_transactions amount_chk "''inr_transactions''"
  by unfold_locales (simp_all add: put_inr_transactions_def ledger_tables_def)

lemma findDepositById_row: "findDepositById i s = deposit_rows.find_row i s"
  by (simp add: findDepositById_def)

abbreviation credited :: "nat \<Rightarrow> db \<Rightarrow> bool" where
  "credited \<equiv> posted_as REFERENCE_TYPE"

definition manual :: "inr_transaction \<Rightarrow> bool" where
  "manual r \<longleftrightarrow> inr_provider r = Some MANUAL_PROVIDER"

text \<open>What is fixed when a row is written; the first approval is fixed once it is given.\<close>

definition row_extends :: "inr_transaction \<Rightarrow> inr_transaction \<Rightarrow> bool" where
  "row_extends d r \<longleftrightarrow> inr_id r = inr_id d \<and> inr_user r = inr_user d \<and> inr_type r = inr_type d \<and>
     inr_amount r = inr_amount d \<and> inr_provider r = inr_provider d \<and>
     (first_approved_by d \<noteq> None \<longrightarrow> first_approved_by r = first_approved_by d)"

lemma row_extends_refl [simp]: "row_extends d d" by (simp add: row_extends_def)

lemma row_extends_trans: "row_extends c d \<Longrightarrow> row_extends d r \<Longrightarrow> row_extends c r"
  by (auto simp: row_extends_def)

text \<open>A row against the ledger.\<close>

definition dep_ok :: "deposit_config \<Rightarrow> db \<Rightarrow> inr_transaction \<Rightarrow> bool" where
  "dep_ok cfg s r \<longleftrightarrow> grid 2 (inr_amount r) \<and> 0 < inr_amount r \<and>
     (inr_status r = INR_SUCCESS \<longrightarrow> credited (inr_id r) s \<and> inr_ledger_txn r \<noteq> None) \<and>
     (manual r \<longrightarrow>
        inr_status r \<in> {INR_PENDING, INR_SUCCESS, INR_FAILED} \<and>
        (credited (inr_id r) s \<and> dualApproval cfg \<le> inr_amount r \<longrightarrow> first_approved_by r \<noteq> None) \<and>
        (inr_status r = INR_SUCCESS \<longrightarrow> reviewed_by r \<noteq> None) \<and>
        (inr_status r = INR_SUCCESS \<and> dualApproval cfg \<le> inr_amount r \<longrightarrow>
           first_approved_by r \<noteq> reviewed_by r))"

definition deposit_state :: "deposit_config \<Rightarrow> db \<Rightarrow> bool" where
  "deposit_state cfg s \<longleftrightarrow> ledger_inv s \<and> distinct (map inr_id (inr_transactions s)) \<and>
     (\<forall>i. credited i s \<longrightarrow> i < next_uuid s) \<and>
     (\<forall>r \<in> set (inr_transactions s). inr_id r < next_uuid s \<and> dep_ok cfg s r)"

definition known :: "inr_transaction \<Rightarrow> db \<Rightarrow> bool" where
  "known d s \<longleftrightarrow> (\<exists>x. findDepositById (inr_id d) s = Some x \<and> row_extends d x)"

section \<open>The book of the deposits\<close>

text \<open>A credited deposit went from the account of its way of payment to the user's available balance.\<close>

definition clearing_of :: "inr_transaction \<Rightarrow> account_kind" where
  "clearing_of r = (if manual r then MANUAL_BANK_CLEARING else GATEWAY_CLEARING)"

definition dep_row_book :: "db \<Rightarrow> inr_transaction \<Rightarrow> nat option \<Rightarrow> string \<Rightarrow> account_kind \<Rightarrow> rat" where
  "dep_row_book s r v b k =
     (if credited (inr_id r) s \<and> b = ''INR'' then
        (if v = Some (inr_user r) \<and> k = USER_AVAILABLE then inr_amount r
         else if v = None \<and> k = clearing_of r then - inr_amount r else 0)
      else 0)"

definition dep_book :: "db \<Rightarrow> nat option \<Rightarrow> string \<Rightarrow> account_kind \<Rightarrow> rat" where
  "dep_book s v b k = sum_list (map (\<lambda>r. dep_row_book s r v b k) (inr_transactions s))"

definition dep_booked :: "db \<Rightarrow> db \<Rightarrow> bool" where
  "dep_booked s t \<longleftrightarrow> (\<forall>v b k. bal t v b k - dep_book t v b k = bal s v b k - dep_book s v b k)"

text \<open>How the states before and after a call of the module are related.\<close>

definition dep_rel :: "db \<Rightarrow> db \<Rightarrow> bool" where
  "dep_rel s t \<longleftrightarrow> dep_booked s t \<and> (\<forall>d. known d s \<longrightarrow> known d t) \<and> (\<forall>i. credited i s \<longrightarrow> credited i t)"

interpretation dep: kept_calls "deposit_state cfg" dep_rel
  for cfg by unfold_locales (auto simp: dep_rel_def dep_booked_def)

lemma deposit_stateD:
  assumes "deposit_state cfg s"
  shows "ledger_inv s" and "distinct (map inr_id (inr_transactions s))"
    and "credited i s \<Longrightarrow> i < next_uuid s"
    and "r \<in> set (inr_transactions s) \<Longrightarrow> inr_id r < next_uuid s \<and> dep_ok cfg s r"
    and "findDepositById i s = Some x \<Longrightarrow> inr_id x = i \<and> x \<in> set (inr_transactions s) \<and>
      i < next_uuid s \<and> dep_ok cfg s x"
  using assms unfolding deposit_state_def findDepositById_def by (auto dest: find_SomeD)

lemma find_deposit_id: "findDepositById i s = Some d \<Longrightarrow> inr_id d = i"
  by (auto simp: findDepositById_def dest: find_SomeD)

lemma found_known: "findDepositById i s = Some d \<Longrightarrow> known d s"
  using find_deposit_id [of i s d] by (simp add: known_def)

lemma known_by_rows: "inr_transactions t = inr_transactions s \<Longrightarrow> known d s \<Longrightarrow> known d t"
  by (simp add: known_def findDepositById_def)

lemma credited_tables: "ledger_tables t = ledger_tables s \<Longrightarrow> credited i t = credited i s"
  by (rule posted_as_tables)

text \<open>Steps that leave the rows and the credits alone.\<close>

lemma dep_other:
  assumes "deposit_state cfg s" and "ledger_inv t" and "inr_transactions t = inr_transactions s"
    and "next_uuid s \<le> next_uuid t" and "\<And>i. credited i t = credited i s"
  shows "deposit_state cfg t"
proof -
  have ok: "dep_ok cfg t r = dep_ok cfg s r" for r by (simp add: dep_ok_def assms(5))
  show ?thesis
    using assms(1-4) unfolding deposit_state_def ok assms(3,5) by (auto intro: less_le_trans)
qed

lemma dep_quiet:
  assumes "deposit_state cfg s" and "ledger_tables t = ledger_tables s"
    and "inr_transactions t = inr_transactions s" and "next_uuid s \<le> next_uuid t"
  shows "deposit_state cfg t" and "dep_rel s t"
proof -
  note c = credited_tables [OF assms(2)]
  show "deposit_state cfg t"
    by (rule dep_other [OF assms(1) ledger_inv_cong [OF assms(2,4) deposit_stateD(1) [OF assms(1)]] assms(3,4) c])
  have "dep_book t = dep_book s" by (intro ext) (simp add: dep_book_def dep_row_book_def assms(3) c)
  then show "dep_rel s t"
    using bal_tables [OF assms(2)] known_by_rows [OF assms(3)] c by (simp add: dep_rel_def dep_booked_def)
qed

lemma quiet_call:
  assumes "\<And>s r t. m s = (r, t) \<Longrightarrow> ledger_tables t = ledger_tables s \<and>
    inr_transactions t = inr_transactions s \<and> next_uuid s \<le> next_uuid t"
  shows "dep.triple cfg P m (\<lambda>_ _. True)"
proof (rule dep.tripleI)
  fix s r t assume s: "deposit_state cfg s" and run: "m s = (r, t)"
  show "deposit_state cfg t \<and> dep_rel s t \<and> (\<forall>x. r = Inr x \<longrightarrow> True)"
    using dep_quiet [OF s, of t] assms [OF run] by simp
qed

text \<open>The bookkeeping calls.\<close>

lemma quiet_calls:
  "dep.triple cfg P (recordAudit actor a act et e) (\<lambda>_ _. True)"
  "dep.triple cfg P (writeAdminLog n act et e) (\<lambda>_ _. True)"
  "dep.triple cfg P (notify u k) (\<lambda>_ _. True)"
  "dep.triple cfg P (audit_admin_d n act i) (\<lambda>_ _. True)"
  "dep.triple cfg P (audit_deposit act d) (\<lambda>_ _. True)"
  "dep.triple cfg P (recordWebhookEvent p ev ty ok at') (\<lambda>_ _. True)"
  "dep.triple cfg P (deposit_guards D c u x) (\<lambda>_ _. True)"
  by (rule dep.triple_weaken [OF quiet_call], auto simp: recordAudit_def writeAdminLog_def notify_def
      audit_admin_d_def audit_deposit_def recordWebhookEvent_def deposit_guards_def fresh_uuid_def
      svc_simps Let_def ledger_tables_def split: option.splits if_splits sum.splits)+

section \<open>Writing a row\<close>

text \<open>A change of a row that the table allows.\<close>

definition allowed :: "deposit_config \<Rightarrow> db \<Rightarrow> inr_transaction \<Rightarrow> inr_transaction \<Rightarrow> bool" where
  "allowed cfg s r r' \<longleftrightarrow> row_extends r r' \<and> dep_ok cfg s r'"

lemma dep_ok_updated [simp]: "dep_ok cfg s (r\<lparr>inr_updated := t\<rparr>) = dep_ok cfg s r"
  by (simp add: dep_ok_def manual_def)

lemma row_extends_updated [simp]: "row_extends d (r\<lparr>inr_updated := t\<rparr>) = row_extends d r"
  by (simp add: row_extends_def)

lemma dep_ok_payment [simp]: "dep_ok cfg s (r\<lparr>provider_payment_id := p\<rparr>) = dep_ok cfg s r"
  by (simp add: dep_ok_def manual_def)

lemma row_extends_payment [simp]: "row_extends d (r\<lparr>provider_payment_id := p\<rparr>) = row_extends d r"
  by (simp add: row_extends_def)

lemma rewritten:
  assumes s: "deposit_state cfg s"
    and upd: "\<And>r. r \<in> set (inr_transactions s) \<Longrightarrow> allowed cfg s r (upd r)"
  shows "deposit_state cfg (put_inr_transactions (map upd (inr_transactions s)) s)" (is "deposit_state cfg ?t")
    and "dep_rel s (put_inr_transactions (map upd (inr_transactions s)) s)"
proof -
  have tab: "ledger_tables ?t = ledger_tables s" by simp
  have up: "row_extends r (upd r)" "dep_ok cfg s (upd r)" if "r \<in> set (inr_transactions s)" for r
    using upd [OF that] by (simp_all add: allowed_def)
  have ids: "map inr_id (map upd (inr_transactions s)) = map inr_id (inr_transactions s)"
    using up(1) by (auto simp: row_extends_def)
  have ok: "dep_ok cfg ?t r = dep_ok cfg s r" for r by (simp add: dep_ok_def credited_tables [OF tab])
  show "deposit_state cfg ?t"
    unfolding deposit_state_def
  proof (intro conjI allI ballI impI)
    show "ledger_inv ?t" by (rule ledger_inv_cong [OF tab _ deposit_stateD(1) [OF s]]) simp
    show "distinct (map inr_id (inr_transactions ?t))"
      using deposit_stateD(2) [OF s] ids by (simp del: map_map)
    show "credited i ?t \<Longrightarrow> i < next_uuid ?t" for i
      using deposit_stateD(3) [OF s] credited_tables [OF tab] by simp
    fix r assume "r \<in> set (inr_transactions ?t)"
    then obtain x where x: "x \<in> set (inr_transactions s)" "r = upd x" by auto
    then show "inr_id r < next_uuid ?t" "dep_ok cfg ?t r"
      using up [OF x(1)] deposit_stateD(4) [OF s x(1)] ok by (simp_all add: row_extends_def)
  qed
  have book: "dep_row_book ?t (upd r) = dep_row_book s r" if "r \<in> set (inr_transactions s)" for r
    using up(1) [OF that] credited_tables [OF tab]
    by (intro ext) (simp add: dep_row_book_def row_extends_def clearing_of_def manual_def)
  have "dep_book ?t = dep_book s"
    by (intro ext) (auto simp: dep_book_def o_def book intro!: arg_cong [where f = sum_list] map_cong)
  moreover have "known d ?t" if "known d s" for d
  proof -
    obtain x where x: "findDepositById (inr_id d) s = Some x" "row_extends d x"
      using \<open>known d s\<close> by (auto simp: known_def)
    have find: "find (\<lambda>r. inr_id r = i) (map upd xs) = map_option upd (find (\<lambda>r. inr_id r = i) xs)"
      if "\<forall>r \<in> set xs. inr_id (upd r) = inr_id r" for i xs
      using that by (induction xs) auto
    have "findDepositById (inr_id d) ?t = Some (upd x)"
      using find [of "inr_transactions s" "inr_id d"] x(1) up(1)
      by (simp add: findDepositById_def row_extends_def)
    moreover have "row_extends x (upd x)" using up(1) deposit_stateD(5) [OF s x(1)] by simp
    ultimately show ?thesis using x(2) row_extends_trans by (auto simp: known_def)
  qed
  ultimately show "dep_rel s ?t"
    using bal_tables [OF tab] credited_tables [OF tab] by (simp add: dep_rel_def dep_booked_def)
qed

lemma updateMany_keeps:
  assumes "\<And>s r. deposit_state cfg s \<Longrightarrow> P s \<Longrightarrow> r \<in> set (inr_transactions s) \<Longrightarrow> inr_id r = i \<Longrightarrow>
    cond r \<Longrightarrow> dep_ok cfg s r \<Longrightarrow> allowed cfg s r (upd r)"
  shows "dep.triple cfg P (updateMany_d i cond upd) (\<lambda>_ _. True)"
proof (rule dep.tripleI)
  fix s r t assume s: "deposit_state cfg s" "P s" and run: "updateMany_d i cond upd s = (r, t)"
  let ?upd = "\<lambda>x. if inr_id x = i \<and> cond x then upd x\<lparr>inr_updated := now s\<rparr> else x"
  have "allowed cfg s x (?upd x)" if "x \<in> set (inr_transactions s)" for x
    using assms [OF s that] deposit_stateD(4) [OF s(1) that] by (simp add: allowed_def)
  note w = rewritten [OF s(1) this]
  have "t = s \<or> t = put_inr_transactions (map ?upd (inr_transactions s)) s"
    using run by (auto simp: updateMany_d_def update_many_def svc_simps split: if_splits)
  then show "deposit_state cfg t \<and> dep_rel s t \<and> (\<forall>x. r = Inr x \<longrightarrow> True)"
    using w s(1) dep.rel_refl by blast
qed

lemma update_d_keeps:
  assumes "\<And>s r. deposit_state cfg s \<Longrightarrow> P s \<Longrightarrow> findDepositById i s = Some r \<Longrightarrow> dep_ok cfg s r \<Longrightarrow>
    allowed cfg s r (upd r)"
  shows "dep.triple cfg P (update_d i upd) (\<lambda>_ _. True)"
proof (rule dep.tripleI)
  fix s r t assume s: "deposit_state cfg s" "P s" and run: "update_d i upd s = (r, t)"
  let ?upd = "\<lambda>x. if inr_id x = i then upd x\<lparr>inr_updated := now s\<rparr> else x"
  have "allowed cfg s x (?upd x)" if x: "x \<in> set (inr_transactions s)" for x
  proof (cases "inr_id x = i")
    case True
    then have "findDepositById i s = Some x"
      using find_by_key [OF deposit_stateD(2) [OF s(1)] x] by (simp add: findDepositById_def)
    then show ?thesis using True assms [OF s] deposit_stateD(4) [OF s(1) x] by (simp add: allowed_def)
  qed (use deposit_stateD(4) [OF s(1) x] in \<open>simp add: allowed_def\<close>)
  note w = rewritten [OF s(1) this]
  have "t = s \<or> t = put_inr_transactions (map ?upd (inr_transactions s)) s"
    using run by (auto simp: update_d_def update_one_def svc_simps split: option.splits if_splits)
  then show "deposit_state cfg t \<and> dep_rel s t \<and> (\<forall>x. r = Inr x \<longrightarrow> True)"
    using w s(1) dep.rel_refl by blast
qed

lemma update_payment_keeps:
  assumes "\<And>s r. deposit_state cfg s \<Longrightarrow> P s \<Longrightarrow> findDepositById i s = Some r \<Longrightarrow> dep_ok cfg s r \<Longrightarrow>
    allowed cfg s r (upd r)"
  shows "dep.triple cfg P (update_payment i payment upd) (\<lambda>_ _. True)"
  unfolding update_payment_def
  by (intro dep.triple_bind_read dep.triple_bind_require update_d_keeps)
    (use assms in \<open>simp add: allowed_def\<close>)

section \<open>Inserting a row\<close>

definition unused :: "nat \<Rightarrow> db \<Rightarrow> bool" where
  "unused i s \<longleftrightarrow> i < next_uuid s \<and> (\<forall>r \<in> set (inr_transactions s). inr_id r \<noteq> i) \<and> \<not> credited i s"

lemma fresh_unused: "dep.triple cfg P fresh_uuid unused"
proof (rule dep.tripleI)
  fix s r t assume s: "deposit_state cfg s" and run: "fresh_uuid s = (r, t)"
  then have t: "r = Inr (next_uuid s)" "t = s\<lparr>next_uuid := Suc (next_uuid s)\<rparr>" by (auto simp: fresh_uuid_def)
  have tab: "ledger_tables t = ledger_tables s" by (simp add: t(2) ledger_tables_def)
  have "unused (next_uuid s) t"
    using deposit_stateD(3,4) [OF s] credited_tables [OF tab] by (force simp: unused_def t(2))
  then show "deposit_state cfg t \<and> dep_rel s t \<and> (\<forall>x. r = Inr x \<longrightarrow> unused x t)"
    using dep_quiet [OF s tab] t by simp
qed

lemma insert_keeps:
  assumes row: "inr_id d = i" "grid 2 (inr_amount d)" "inr_status d \<in> {INR_INITIATED, INR_PENDING}"
    "manual d \<Longrightarrow> inr_status d = INR_PENDING"
  shows "dep.triple cfg (unused i) (insert_deposit d) (\<lambda>_ _. True)"
proof (rule dep.tripleI)
  fix s r t assume s: "deposit_state cfg s" "unused i s" and run: "insert_deposit d s = (r, t)"
  show "deposit_state cfg t \<and> dep_rel s t \<and> (\<forall>x. r = Inr x \<longrightarrow> True)"
  proof (cases "0 < inr_amount d")
    case False
    then have "t = s" using run by (simp add: insert_deposit_def amount_chk_def svc_simps)
    then show ?thesis using s(1) dep.rel_refl by simp
  next
    case True
    then have t: "t = put_inr_transactions (inr_transactions s @ [d]) s"
      using run by (simp add: insert_deposit_def amount_chk_def svc_simps)
    have tab: "ledger_tables t = ledger_tables s" by (simp add: t)
    note c = credited_tables [OF tab]
    have new: "\<not> credited (inr_id d) s" "inr_id d \<notin> inr_id ` set (inr_transactions s)" "inr_id d < next_uuid s"
      using s(2) row(1) by (auto simp: unused_def)
    have ok: "dep_ok cfg t x = dep_ok cfg s x" for x by (simp add: dep_ok_def c)
    have "dep_ok cfg s d" using row True new(1) by (auto simp: dep_ok_def)
    moreover have "ledger_inv t" by (rule ledger_inv_cong [OF tab _ deposit_stateD(1) [OF s(1)]]) (simp add: t)
    ultimately have "deposit_state cfg t"
      using s(1) new(2,3) unfolding deposit_state_def ok c by (auto simp: t)
    moreover have "dep_book t = dep_book s"
      by (intro ext) (simp add: dep_book_def dep_row_book_def c new(1), simp add: t new(1))
    moreover have "known e t" if "known e s" for e
      using that by (auto simp: known_def findDepositById_def t find_append)
    ultimately show ?thesis
      using bal_tables [OF tab] c by (simp add: dep_rel_def dep_booked_def)
  qed
qed

section \<open>Crediting\<close>

lemma delta_credit:
  "delta (credit_lines c u x) v b k = (if b = ''INR'' then
     (if v = Some u \<and> k = USER_AVAILABLE then x else if v = None \<and> k = c then - x else 0) else 0)"
  by (auto simp: credit_lines_def delta_def line_delta_def signed_amount_def)

lemma known_row:
  assumes "known d s" and "deposit_state cfg s" and "r \<in> set (inr_transactions s)" and "inr_id r = inr_id d"
  shows "row_extends d r"
proof -
  have "findDepositById (inr_id r) s = Some r"
    using find_by_key [OF deposit_stateD(2) [OF assms(2)] assms(3)] by (simp add: findDepositById_def)
  then show ?thesis using assms(1,4) by (auto simp: known_def)
qed

definition credits_deposit :: "inr_transaction \<Rightarrow> posting_input \<Rightarrow> bool" where
  "credits_deposit d inp \<longleftrightarrow> post_reference_type inp = Some REFERENCE_TYPE \<and>
     post_reference_id inp = Some (inr_id d) \<and>
     post_lines inp = credit_lines (clearing_of d) (inr_user d) (toFixed (inr_amount d) 2)"

definition agreed :: "deposit_config \<Rightarrow> inr_transaction \<Rightarrow> bool" where
  "agreed cfg d \<longleftrightarrow> (manual d \<and> dualApproval cfg \<le> inr_amount d \<longrightarrow> first_approved_by d \<noteq> None)"

lemma reference_type [simp]: "REFERENCE_TYPE \<noteq> []"
  by (simp add: REFERENCE_TYPE_def)

lemma credit_run:
  assumes s: "deposit_state cfg s" "known d s" "agreed cfg d" and inp: "credits_deposit d inp"
    and run: "post D inp c s = (r, t)"
  shows "deposit_state cfg t" and "dep_rel s t" and "r = Inr p \<Longrightarrow> credited (inr_id d) t"
    and "inr_transactions t = inr_transactions s" and "now t = now s"
proof -
  note inv = deposit_stateD(1) [OF s(1)]
  have ref: "post_reference_type inp = Some REFERENCE_TYPE" "post_reference_id inp = Some (inr_id d)"
    and lines: "post_lines inp = credit_lines (clearing_of d) (inr_user d) (toFixed (inr_amount d) 2)"
    using inp by (simp_all add: credits_deposit_def)
  note only = post_only_ledger [OF run inv]
  show rows: "inr_transactions t = inr_transactions s" and "now t = now s"
    using only only_ledger_simps [of s t] by simp_all
  have mark: "credited j t \<longleftrightarrow> credited j s \<or> (\<not> isl r \<and> j = inr_id d)" for j
    using post_marks [OF run inv ref(1) reference_type ref(2), of REFERENCE_TYPE j] by simp
  obtain x where "findDepositById (inr_id d) s = Some x" and ext: "row_extends d x"
    using s(2) by (auto simp: known_def)
  then have x: "inr_id x = inr_id d" "x \<in> set (inr_transactions s)" "inr_id d < next_uuid s" "dep_ok cfg s x"
    using deposit_stateD(5) [OF s(1)] by blast+
  have "deposit_state cfg t \<and> dep_rel s t \<and> (r = Inr p \<longrightarrow> credited (inr_id d) t)"
  proof (cases r)
    case (Inl e)
    then have "ledger_tables t = ledger_tables s" using post_state(2) [OF run inv] by simp
    then show ?thesis using dep_quiet [OF s(1) _ rows] only Inl by simp
  next
    case (Inr q)
    have mark: "credited j t \<longleftrightarrow> credited j s \<or> j = inr_id d" for j using mark Inr by simp
    have ok: "dep_ok cfg t y" if y: "y \<in> set (inr_transactions s)" for y
    proof (cases "inr_id y = inr_id d")
      case True
      then have "row_extends d y" using known_row [OF s(2,1) y] by simp
      then show ?thesis
        using deposit_stateD(4) [OF s(1) y] s(3) mark
        by (auto simp: dep_ok_def row_extends_def agreed_def manual_def)
    next
      case False
      then show ?thesis using deposit_stateD(4) [OF s(1) y] mark by (simp add: dep_ok_def)
    qed
    have state: "deposit_state cfg t"
      using s(1) ok mark x(1,3) only post_state(1) [OF run inv] unfolding deposit_state_def rows
      by (auto intro: less_le_trans)
    have money: "toFixed (inr_amount d) 2 = inr_amount d"
      using x(4) ext by (simp add: dep_ok_def row_extends_def toFixed_grid)
    let ?row = "\<lambda>v b k. if b = ''INR'' then (if v = Some (inr_user d) \<and> k = USER_AVAILABLE then inr_amount d
      else if v = None \<and> k = clearing_of d then - inr_amount d else 0) else 0"
    have moved: "bal t v b k = bal s v b k + (if credited (inr_id d) s then 0 else ?row v b k)" for v b k
      using posting.success_moves [OF run [unfolded Inr] inv, of v b k]
        already_posted_as [OF ref(1) reference_type ref(2)]
      by (simp add: lines delta_credit money)
    have "dep_row_book t y v b k = dep_row_book s y v b k +
        (if inr_id y = inr_id x then (if credited (inr_id d) s then 0 else ?row v b k) else 0)"
      if y: "y \<in> set (inr_transactions s)" for y v b k
    proof (cases "inr_id y = inr_id x")
      case True
      then have "row_extends d y" using known_row [OF s(2,1) y] x(1) by simp
      then show ?thesis using True x(1)
        by (simp add: dep_row_book_def mark row_extends_def clearing_of_def manual_def)
    next
      case False
      then show ?thesis using x(1) by (simp add: dep_row_book_def mark)
    qed
    then have "dep_book t v b k = sum_list (map (\<lambda>y. dep_row_book s y v b k +
        (if inr_id y = inr_id x then (if credited (inr_id d) s then 0 else ?row v b k) else 0))
        (inr_transactions s))" for v b k
      unfolding dep_book_def rows by (intro arg_cong [where f = sum_list] map_cong) simp_all
    then have "dep_book t v b k = dep_book s v b k + (if credited (inr_id d) s then 0 else ?row v b k)" for v b k
      using sum_at_key [where key = inr_id and g = "\<lambda>_. if credited (inr_id d) s then 0 else ?row v b k",
        OF deposit_stateD(2) [OF s(1)] x(2)]
      by (simp only: sum_list_addf dep_book_def)
    then have "dep_booked s t" using moved by (simp add: dep_booked_def)
    then show ?thesis
      using state mark known_by_rows [OF rows] by (simp add: dep_rel_def)
  qed
  then show "deposit_state cfg t" "dep_rel s t" "r = Inr p \<Longrightarrow> credited (inr_id d) t" by blast+
qed

lemma post_credits:
  assumes "credits_deposit d inp" and "agreed cfg d"
  shows "dep.triple cfg (known d) (post D inp c) (\<lambda>_ s. credited (inr_id d) s \<and> known d s)"
proof (rule dep.tripleI)
  fix s r t assume "deposit_state cfg s" "known d s" "post D inp c s = (r, t)"
  note w = credit_run [OF this(1,2) assms(2,1) this(3)]
  then show "deposit_state cfg t \<and> dep_rel s t \<and> (\<forall>x. r = Inr x \<longrightarrow> credited (inr_id d) t \<and> known d t)"
    using \<open>known d s\<close> by (auto simp: dep_rel_def)
qed

section \<open>The calls\<close>

text \<open>An approval between its check and its credit.\<close>

definition ticket :: "deposit_config \<Rightarrow> nat \<times> inr_transaction \<Rightarrow> db \<Rightarrow> bool" where
  "ticket cfg go s \<longleftrightarrow> (case go of (a, d) \<Rightarrow> known d s \<and> manual d \<and>
     (dualApproval cfg \<le> inr_amount d \<longrightarrow> (\<exists>b. first_approved_by d = Some b \<and> b \<noteq> a)))"

lemma rel_keeps:
  "dep_rel s t \<Longrightarrow> known d s \<Longrightarrow> known d t" "dep_rel s t \<Longrightarrow> credited i s \<Longrightarrow> credited i t"
  "dep_rel s t \<Longrightarrow> ticket cfg go s \<Longrightarrow> ticket cfg go t"
  by (auto simp: dep_rel_def ticket_def)

definition pure_orders :: "razorpay \<Rightarrow> bool" where
  "pure_orders P \<longleftrightarrow> (\<forall>x receipt s. snd (rz_createOrder P x receipt s) = s)"

lemma order_keeps:
  assumes "pure_orders P"
  shows "dep.triple cfg Q (rz_createOrder P x receipt) (\<lambda>_. Q)"
proof (rule dep.tripleI)
  fix s r t assume s: "deposit_state cfg s" "Q s" and run: "rz_createOrder P x receipt s = (r, t)"
  then have "t = s" using assms unfolding pure_orders_def by (metis snd_conv)
  then show "deposit_state cfg t \<and> dep_rel s t \<and> (\<forall>y. r = Inr y \<longrightarrow> Q t)" using s dep.rel_refl by blast
qed

lemma createDeposit_keeps:
  assumes "pure_orders P" and "grid 2 x"
  shows "dep.triple cfg (\<lambda>_. True) (createDeposit D c P u x) (\<lambda>_ _. True)"
  unfolding createDeposit_def createDeposit_row_def
proof (intro dep.triple_bind [OF quiet_calls(7)] dep.triple_bind [OF fresh_unused]
    dep.triple_bind [OF order_keeps [OF assms(1)]])
  fix amt i ord
  show "dep.triple cfg (unused i)
    (bindS (bindS (readS now) (\<lambda>t. insert_deposit
       (new_deposit i u x INR_INITIATED RAZORPAY_PROVIDER_ID t\<lparr>provider_order_id := Some ord\<rparr>)))
     (\<lambda>deposit. bindS (recordAudit ACTOR_USER (Some u) ''inr.deposit.initiated'' (Some REFERENCE_TYPE)
       (Some (inr_id deposit))) (\<lambda>_. returnS \<lparr>idi_id = inr_id deposit, idi_provider = RAZORPAY_PROVIDER_ID,
       idi_order = ord, idi_key = rz_key P, idi_amount = toFixed (inr_amount deposit) 2,
       idi_status = inr_status deposit\<rparr>))) (\<lambda>_ _. True)"
    by (intro dep.triple_bind [where R = "\<lambda>_ _. True"] dep.triple_bind_read quiet_calls dep.triple_return
        dep.triple_weaken [OF insert_keeps [of _ i]])
      (auto simp: new_deposit_def assms manual_def RAZORPAY_PROVIDER_ID_def MANUAL_PROVIDER_def)
qed

lemma createManualDeposit_keeps:
  assumes "grid 2 x"
  shows "dep.triple cfg (\<lambda>_. True) (createManualDeposit D c u x utr method proof) (\<lambda>_ _. True)"
  unfolding createManualDeposit_def createManualDeposit_row_def
  by (intro dep.triple_bind [OF quiet_calls(7)] dep.triple_bind [OF fresh_unused]
      dep.triple_bind [where R = "\<lambda>_ _. True"] dep.triple_bind_read dep.triple_bind_require quiet_calls dep.triple_return
      dep.triple_catch dep.triple_weaken [OF insert_keeps])
    (auto simp: new_deposit_def assms dep.triple_throw)

lemma allowed_open:
  "dep_ok cfg s r \<Longrightarrow> allowed cfg s r (r\<lparr>inr_status := INR_PENDING\<rparr>)"
  "dep_ok cfg s r \<Longrightarrow> allowed cfg s r (r\<lparr>inr_status := INR_FAILED\<rparr>)"
  "dep_ok cfg s r \<Longrightarrow> allowed cfg s r (r\<lparr>inr_status := INR_FAILED, reviewed_by := a, reviewed_at := b,
     rejection_reason := c\<rparr>)"
  "dep_ok cfg s r \<Longrightarrow> allowed cfg s r (r\<lparr>inr_status := INR_FAILED, reviewed_by := a, reviewed_at := b\<rparr>)"
  by (auto simp: allowed_def dep_ok_def manual_def row_extends_def)

lemma markFailed_keeps: "dep.triple cfg P (markFailed_d i payment) (\<lambda>_ _. True)"
  unfolding markFailed_d_def
  by (auto intro!: update_d_keeps update_payment_keeps allowed_open)

lemma verifyPayment_keeps: "dep.triple cfg (\<lambda>_. True) (verifyPayment P u ord payment sig) (\<lambda>_ _. True)"
  unfolding verifyPayment_def attachPayment_def
  by (intro dep.triple_bind_read)
    (auto split: option.splits intro!: dep.triple_bind [where R = "\<lambda>_ _. True"] dep.triple_bind_require
      dep.triple_throw dep.triple_return quiet_calls update_payment_keeps allowed_open)

lemma findDepositByOrderId_row:
  assumes "findDepositByOrderId p ord s = Some d" and "deposit_state cfg s"
  shows "known d s" and "inr_provider d = Some p" and "findDepositById (inr_id d) s = Some d"
    and "dep_ok cfg s d"
proof -
  have d: "d \<in> set (inr_transactions s)" "inr_provider d = Some p"
    using assms(1) by (auto simp: findDepositByOrderId_def dest: find_SomeD)
  then show "findDepositById (inr_id d) s = Some d" "inr_provider d = Some p" "dep_ok cfg s d"
    using find_by_key [OF deposit_stateD(2) [OF assms(2)]] deposit_stateD(4) [OF assms(2)]
    by (auto simp: findDepositById_def)
  then show "known d s" by (simp add: found_known)
qed

lemma markCredited_keeps:
  assumes "\<not> manual d"
  shows "dep.triple cfg (\<lambda>s. credited (inr_id d) s \<and> known d s) (markCredited (inr_id d) payment txn) (\<lambda>_ _. True)"
  unfolding markCredited_def
proof (rule update_payment_keeps)
  fix s r assume "credited (inr_id d) s \<and> known d s" "findDepositById (inr_id d) s = Some r" "dep_ok cfg s r"
  then show "allowed cfg s r (r\<lparr>inr_status := INR_SUCCESS, inr_ledger_txn := Some txn\<rparr>)"
    using assms by (auto simp: allowed_def dep_ok_def known_def row_extends_def manual_def)
qed

lemma settle_keeps: "dep.triple cfg (\<lambda>_. True) (settleCapturedPayment D payment) (\<lambda>_ _. True)"
  unfolding settleCapturedPayment_def
proof (rule dep.triple_bind_read, goal_cases)
  case (1 found)
  show ?case
  proof (cases found)
    case None then show ?thesis by (simp add: dep.triple_return)
  next
    case (Some d)
    have credit: "dep.triple cfg (\<lambda>s. findDepositByOrderId RAZORPAY_PROVIDER_ID (pp_order payment) s = Some d)
      (bindS (post D (gateway_credit d) (Some (inr_user d))) (\<lambda>posted.
       bindS (markCredited (inr_id d) (pp_payment payment) (posted_id posted)) (\<lambda>credited.
       bindS (audit_deposit ''inr.deposit.credited'' d) (\<lambda>_. returnS (Deposit_Status (inr_status credited))))))
      (\<lambda>_ _. True)"
    proof (cases "inr_provider d = Some RAZORPAY_PROVIDER_ID")
      case True
      then have gateway: "\<not> manual d" by (simp add: manual_def MANUAL_PROVIDER_def RAZORPAY_PROVIDER_ID_def)
      then have inp: "credits_deposit d (gateway_credit d)" "agreed cfg d"
        by (simp_all add: credits_deposit_def gateway_credit_def agreed_def clearing_of_def)
      show ?thesis
        by (rule dep.triple_weaken [OF dep.triple_bind [OF post_credits [OF inp]
              dep.triple_bind [OF markCredited_keeps [OF gateway]]]])
          (auto intro!: dep.triple_bind [where R = "\<lambda>_ _. True"] quiet_calls dep.triple_return
            dest: findDepositByOrderId_row)
    next
      case False
      then show ?thesis
        using findDepositByOrderId_row(2) [of RAZORPAY_PROVIDER_ID "pp_order payment" _ d cfg]
        by (auto intro!: dep.tripleI)
    qed
    show ?thesis
      using credit unfolding Some
      by (auto split: sum.splits intro!: dep.triple_return dep.triple_throw dep.triple_bind [where R = "\<lambda>_ _. True"]
          markFailed_keeps quiet_calls)
  qed
qed

lemma paymentFailed_keeps: "dep.triple cfg (\<lambda>_. True) (markPaymentFailed payment) (\<lambda>_ _. True)"
  unfolding markPaymentFailed_def
  by (intro dep.triple_bind_read)
    (auto split: option.splits intro!: dep.triple_bind [where R = "\<lambda>_ _. True"]
      dep.triple_return quiet_calls markFailed_keeps)

lemma process_keeps: "dep.triple cfg (\<lambda>_. True) (process_event D body) (\<lambda>_ _. True)"
  unfolding process_event_def Let_def
  by (auto split: option.splits intro!: dep.triple_bind [where R = "\<lambda>_ _. True"]
      dep.triple_return settle_keeps paymentFailed_keeps)

lemma handleWebhook_keeps: "dep.triple cfg (\<lambda>_. True) (handleWebhook D P sha inp) (\<lambda>_ _. True)"
  unfolding handleWebhook_def Let_def
  by (auto split: option.splits prod.splits intro!: dep.triple_bind [where R = "\<lambda>_ _. True"]
      dep.triple_bind_require dep.triple_bind_read dep.triple_weaken [OF process_keeps] dep.triple_return dep.triple_throw quiet_calls)

lemma find_manual_run:
  assumes "find_manual i s = (r, t)"
  shows "t = s" and "r = Inr d \<Longrightarrow> findDepositById i s = Some d \<and> inr_id d = i \<and> manual d \<and> inr_type d = INR_DEPOSIT"
  using assms find_deposit_id [of i s d]
  by (auto simp: find_manual_def manual_def svc_simps split: option.splits if_splits)

lemma find_manual_keeps: "dep.triple cfg (\<lambda>_. True) (find_manual i) (\<lambda>d s. known d s \<and> manual d \<and> inr_id d = i)"
proof (rule dep.tripleI)
  fix s r t assume s: "deposit_state cfg s" and run: "find_manual i s = (r, t)"
  show "deposit_state cfg t \<and> dep_rel s t \<and> (\<forall>d. r = Inr d \<longrightarrow> known d t \<and> manual d \<and> inr_id d = i)"
    using s dep.rel_refl find_manual_run [OF run] found_known by auto
qed

lemma reject_keeps: "dep.triple cfg (\<lambda>_. True) (rejectManualDeposit i reason actor) (\<lambda>_ _. True)"
proof (cases actor)
  case (Some a)
  have row: "dep.triple cfg (\<lambda>_. True) (markManualRejected j a reason) (\<lambda>_ _. True)" for j
    unfolding markManualRejected_def
    by (intro dep.triple_bind_read dep.triple_bind [where R = "\<lambda>_ _. True"] updateMany_keeps)
      (auto intro!: allowed_open dep.triple_return)
  have rest: "dep.triple cfg (\<lambda>s. known d s \<and> manual d \<and> inr_id d = i)
     (bindS (requireS (\<not> inr_status d = INR_SUCCESS) (ConflictError ''ALREADY_CREDITED'')) (\<lambda>_.
      if inr_status d = INR_FAILED then returnS (toInrDepositDto d)
      else bindS (requireS (\<not> inr_status d \<noteq> INR_PENDING) (ConflictError ''INVALID_STATE'')) (\<lambda>_.
        bindS (markManualRejected (inr_id d) a reason) (\<lambda>(updated, row).
        case row of None \<Rightarrow> throwS not_found
        | Some r \<Rightarrow> bindS (whenS updated (bindS (audit_admin_d a ''inr.deposit.manual_rejected'' (inr_id d))
            (\<lambda>_. notify (inr_user d) ''INR_DEPOSIT_REJECTED''))) (\<lambda>_. returnS (toInrDepositDto r)))))) (\<lambda>_ _. True)" for d
    by (auto simp: whenS_def split: prod.splits option.splits intro!: dep.triple_bind_require dep.triple_return
        dep.triple_throw dep.triple_bind [where R = "\<lambda>_ _. True"] dep.triple_weaken [OF row] quiet_calls)
  show ?thesis
    unfolding rejectManualDeposit_def Some option.case
    by (rule dep.triple_bind [OF find_manual_keeps rest])
qed (simp add: rejectManualDeposit_def dep.triple_throw)

lemma firstApproval_keeps: "dep.triple cfg (\<lambda>_. True) (markFirstApproval i a) (\<lambda>_ _. True)"
  unfolding markFirstApproval_def
  by (intro dep.triple_bind_read dep.triple_bind [where R = "\<lambda>_ _. True"] updateMany_keeps)
    (auto simp: allowed_def row_extends_def dep_ok_def manual_def intro!: dep.triple_return)

lemma approve_check_keeps:
  "dep.triple cfg (\<lambda>_. True) (approve_d_check cfg i actor)
     (\<lambda>res s. \<forall>go. res = Inl go \<longrightarrow> ticket cfg go s)"
proof (cases actor)
  case (Some a)
  have rest: "dep.triple cfg (\<lambda>s. known d s \<and> manual d \<and> inr_id d = i)
     (if inr_status d = INR_SUCCESS then returnS (Inr (toInrDepositDto d))
      else bindS (requireS (\<not> inr_status d \<noteq> INR_PENDING) (ConflictError ''INVALID_STATE'')) (\<lambda>_.
        let requiresDual = (dualApproval cfg \<le> inr_amount d)
        in if requiresDual \<and> first_approved_by d = None
           then bindS (markFirstApproval (inr_id d) a) (\<lambda>(updated, row).
                case row of None \<Rightarrow> throwS not_found
                | Some r \<Rightarrow> bindS (whenS updated (audit_admin_d a ''inr.deposit.manual_first_approved'' (inr_id d)))
                    (\<lambda>_. returnS (Inr (toInrDepositDto r))))
           else bindS (requireS (\<not> (requiresDual \<and> first_approved_by d = Some a)) (ForbiddenError ''SAME_APPROVER''))
                  (\<lambda>_. returnS (Inl (a, d)))))
     (\<lambda>res s. \<forall>go. res = Inl go \<longrightarrow> ticket cfg go s)" for d
    unfolding Let_def
    by (auto simp: whenS_def ticket_def split: prod.splits option.splits if_splits
        intro!: dep.triple_bind_require dep.triple_return dep.triple_throw
          dep.triple_bind [where R = "\<lambda>_ _. True"] dep.triple_weaken [OF firstApproval_keeps] quiet_calls)
  show ?thesis
    unfolding approve_d_check_def Some option.case
    by (rule dep.triple_bind [OF find_manual_keeps rest])
qed (simp add: approve_d_check_def dep.triple_throw)

lemma manualApproved_keeps:
  "dep.triple cfg (\<lambda>s. credited (inr_id d) s \<and> ticket cfg (a, d) s) (markManualApproved (inr_id d) a txn) (\<lambda>_ _. True)"
  unfolding markManualApproved_def
proof (intro dep.triple_bind_read dep.triple_bind [where R = "\<lambda>_ _. True"] updateMany_keeps)
  fix t s r assume s: "deposit_state cfg s" "(credited (inr_id d) s \<and> ticket cfg (a, d) s) \<and> now s = t"
    and r: "r \<in> set (inr_transactions s)" "inr_id r = inr_id d" "dep_ok cfg s r"
  have "row_extends d r" using known_row [OF _ s(1) r(1,2)] s(2) by (simp add: ticket_def)
  then show "allowed cfg s r (r\<lparr>inr_status := INR_SUCCESS, reviewed_by := Some a, reviewed_at := Some t,
      inr_ledger_txn := Some txn\<rparr>)"
    using s(2) r(2,3) by (auto simp: allowed_def dep_ok_def row_extends_def manual_def ticket_def)
qed (auto intro!: dep.triple_return)

lemma approve_credit_keeps: "dep.triple cfg (ticket cfg go) (approve_d_credit D cfg go) (\<lambda>_ _. True)"
proof (cases go)
  case (Pair a d)
  show ?thesis
  proof (cases "manual d \<and> agreed cfg d")
    case True
    then have inp: "credits_deposit d (manual_credit d)" "agreed cfg d"
      by (simp_all add: credits_deposit_def manual_credit_def clearing_of_def)
    have credit: "dep.triple cfg (ticket cfg go) (post D (manual_credit d) c)
        (\<lambda>_ s. credited (inr_id d) s \<and> ticket cfg (a, d) s)" for c
    proof (rule dep.tripleI)
      fix s r t assume s: "deposit_state cfg s" "ticket cfg go s" and run: "post D (manual_credit d) c s = (r, t)"
      have "known d s" using s(2) Pair by (simp add: ticket_def)
      note w = dep.tripleD [OF post_credits [OF inp] s(1) this run]
      show "deposit_state cfg t \<and> dep_rel s t \<and> (\<forall>x. r = Inr x \<longrightarrow> credited (inr_id d) t \<and> ticket cfg (a, d) t)"
        using w rel_keeps(3) [OF w(2) s(2)] Pair by blast
    qed
    show ?thesis
      unfolding approve_d_credit_def Pair prod.case
      by (rule dep.triple_bind [OF credit [unfolded Pair] dep.triple_bind [OF manualApproved_keeps]])
        (auto simp: whenS_def split: prod.splits option.splits intro!: dep.triple_return
          dep.triple_throw dep.triple_bind [where R = "\<lambda>_ _. True"] quiet_calls)
  next
    case False
    then have "\<not> ticket cfg go s" for s by (auto simp: ticket_def agreed_def Pair)
    then show ?thesis by (auto intro!: dep.tripleI)
  qed
qed

section \<open>Sequences of calls\<close>

text \<open>
  A state of the system is the database with the approvals that have read their row and not yet
  credited it.  A step is one call of the module with whatever arguments and outcome, the check or
  the credit of an approval, or anything other services do but touching these rows and references.
  The amounts have two decimals: the schema of the routes lets no other through.
\<close>

inductive dep_call ::
  "rounding \<Rightarrow> deposit_config \<Rightarrow> razorpay \<Rightarrow> (string \<Rightarrow> string) \<Rightarrow>
    db \<times> (nat \<times> inr_transaction) list \<Rightarrow> db \<times> (nat \<times> inr_transaction) list \<Rightarrow> bool" for D cfg P sha where
  create: "grid 2 x \<Longrightarrow> createDeposit D cfg P u x s = (r1, t) \<Longrightarrow> dep_call D cfg P sha (s, T) (t, T)"
| verify: "verifyPayment P u ord payment sig s = (r2, t) \<Longrightarrow> dep_call D cfg P sha (s, T) (t, T)"
| webhook: "handleWebhook D P sha inp s = (r3, t) \<Longrightarrow> dep_call D cfg P sha (s, T) (t, T)"
| manual: "grid 2 x \<Longrightarrow> createManualDeposit D cfg u x utr meth pk s = (r4, t) \<Longrightarrow>
    dep_call D cfg P sha (s, T) (t, T)"
| reject: "rejectManualDeposit i reason actor s = (r5, t) \<Longrightarrow> dep_call D cfg P sha (s, T) (t, T)"
| check: "approve_d_check cfg i actor s = (r6, t) \<Longrightarrow>
    dep_call D cfg P sha (s, T) (t, (case r6 of Inr (Inl go) \<Rightarrow> go # T | _ \<Rightarrow> T))"
| credit: "go \<in> set T \<Longrightarrow> approve_d_credit D cfg go s = (r7, t) \<Longrightarrow> dep_call D cfg P sha (s, T) (t, T)"

inductive dep_step ::
  "rounding \<Rightarrow> deposit_config \<Rightarrow> razorpay \<Rightarrow> (string \<Rightarrow> string) \<Rightarrow>
    db \<times> (nat \<times> inr_transaction) list \<Rightarrow> db \<times> (nat \<times> inr_transaction) list \<Rightarrow> bool" for D cfg P sha where
  call: "dep_call D cfg P sha S S' \<Longrightarrow> dep_step D cfg P sha S S'"
| other: "ledger_inv t \<Longrightarrow> inr_transactions t = inr_transactions s \<Longrightarrow> next_uuid s \<le> next_uuid t \<Longrightarrow>
    (\<And>i. credited i t = credited i s) \<Longrightarrow> dep_step D cfg P sha (s, T) (t, T)"

definition deposits_inv :: "deposit_config \<Rightarrow> db \<times> (nat \<times> inr_transaction) list \<Rightarrow> bool" where
  "deposits_inv cfg S \<longleftrightarrow> deposit_state cfg (fst S) \<and> (\<forall>go \<in> set (snd S). ticket cfg go (fst S))"

lemma deposits_invI:
  "deposit_state cfg t \<Longrightarrow> dep_rel s t \<Longrightarrow> deposits_inv cfg (s, T) \<Longrightarrow> deposits_inv cfg (t, T)"
  using rel_keeps(3) by (auto simp: deposits_inv_def)

text \<open>What a call does to the state and the balances.\<close>

definition dep_kept :: "deposit_config \<Rightarrow> db \<times> (nat \<times> inr_transaction) list \<Rightarrow>
    db \<times> (nat \<times> inr_transaction) list \<Rightarrow> bool" where
  "dep_kept cfg S S' \<longleftrightarrow> (deposits_inv cfg S \<longrightarrow> deposits_inv cfg S' \<and> dep_rel (fst S) (fst S'))"

lemma run_kept:
  assumes "dep.triple cfg (\<lambda>_. True) m Q" and "m s = (r, t)"
  shows "dep_kept cfg (s, T) (t, T)"
  unfolding dep_kept_def
proof
  assume inv: "deposits_inv cfg (s, T)"
  then have "deposit_state cfg s" by (simp add: deposits_inv_def)
  note w = dep.tripleD [OF assms(1) this TrueI assms(2)]
  show "deposits_inv cfg (t, T) \<and> dep_rel (fst (s, T)) (fst (t, T))"
    using w(2) deposits_invI [OF w(1,2) inv] by simp
qed

lemma dep_call_keeps:
  assumes "dep_call D cfg P sha S S'" and "pure_orders P"
  shows "dep_kept cfg S S'"
  using assms(1)
proof (cases rule: dep_call.cases)
  case (create x u s r1 t T)
  then show ?thesis using run_kept [OF createDeposit_keeps [OF assms(2)]] by blast
next
  case (verify u ord payment sig s r2 t T)
  then show ?thesis using run_kept [OF verifyPayment_keeps] by blast
next
  case (webhook inp s r3 t T)
  then show ?thesis using run_kept [OF handleWebhook_keeps] by blast
next
  case (manual x u utr meth pk s r4 t T)
  then show ?thesis using run_kept [OF createManualDeposit_keeps] by blast
next
  case (reject i reason actor s r5 t T)
  then show ?thesis using run_kept [OF reject_keeps] by blast
next
  case (check i actor s r6 t T)
  show ?thesis
    unfolding dep_kept_def check(1,2)
  proof
    assume inv: "deposits_inv cfg (s, T)"
    then have "deposit_state cfg s" by (simp add: deposits_inv_def)
    note w = dep.tripleD [OF approve_check_keeps this TrueI check(3)]
    have "deposits_inv cfg (t, T)" by (rule deposits_invI [OF w(1,2) inv])
    then show "deposits_inv cfg (t, case r6 of Inl e \<Rightarrow> T | Inr (Inl go) \<Rightarrow> go # T | Inr (Inr dto) \<Rightarrow> T) \<and>
        dep_rel (fst (s, T)) (fst (t, case r6 of Inl e \<Rightarrow> T | Inr (Inl go) \<Rightarrow> go # T | Inr (Inr dto) \<Rightarrow> T))"
      using w(2,3) by (auto simp: deposits_inv_def split: sum.splits)
  qed
next
  case (credit go T s r7 t)
  show ?thesis
    unfolding dep_kept_def credit(1,2)
  proof
    assume inv: "deposits_inv cfg (s, T)"
    then have "deposit_state cfg s" "ticket cfg go s" using credit(3) by (simp_all add: deposits_inv_def)
    note w = dep.tripleD [OF approve_credit_keeps this credit(4)]
    show "deposits_inv cfg (t, T) \<and> dep_rel (fst (s, T)) (fst (t, T))"
      using w(2) deposits_invI [OF w(1,2) inv] by simp
  qed
qed

lemma dep_step_keeps:
  assumes "dep_step D cfg P sha S S'" and "pure_orders P" and "deposits_inv cfg S"
  shows "deposits_inv cfg S'"
  using assms(1)
proof (cases rule: dep_step.cases)
  case call
  then show ?thesis using dep_call_keeps [OF _ assms(2)] assms(3) by (simp add: dep_kept_def)
next
  case (other t s T)
  have s: "deposit_state cfg s" using assms(3) other(1) by (simp add: deposits_inv_def)
  have "deposit_state cfg t" by (rule dep_other [OF s other(3-6)])
  then show ?thesis using assms(3) other(1,2) known_by_rows [OF other(4)]
    by (auto simp: deposits_inv_def ticket_def)
qed

lemma dep_steps_keep:
  "(dep_step D cfg P sha)\<^sup>*\<^sup>* S S' \<Longrightarrow> pure_orders P \<Longrightarrow> deposits_inv cfg S \<Longrightarrow> deposits_inv cfg S'"
  by (induction rule: rtranclp_induct) (auto intro: dep_step_keeps)

lemma no_deposits:
  "ledger_inv s \<Longrightarrow> inr_transactions s = [] \<Longrightarrow> (\<And>i. \<not> credited i s) \<Longrightarrow> deposits_inv cfg (s, [])"
  by (simp add: deposits_inv_def deposit_state_def)

text \<open>An approval nothing comes between is its two steps.\<close>

lemma approve_steps:
  assumes "approveManualDeposit D cfg i actor s = (r, t)"
  shows "\<exists>T'. (dep_step D cfg P sha)\<^sup>*\<^sup>* (s, T) (t, T')"
proof -
  obtain c s1 where 1: "approve_d_check cfg i actor s = (c, s1)" by (cases "approve_d_check cfg i actor s")
  let ?T = "case c of Inr (Inl go) \<Rightarrow> go # T | _ \<Rightarrow> T"
  have step: "dep_step D cfg P sha (s, T) (s1, ?T)" by (rule dep_step.call [OF dep_call.check [OF 1]])
  show ?thesis
  proof (cases "\<exists>go. c = Inr (Inl go)")
    case True
    then obtain go where c: "c = Inr (Inl go)" by blast
    then have "approve_d_credit D cfg go s1 = (r, t)" using assms 1 by (simp add: approveManualDeposit_def svc_simps)
    then have "dep_step D cfg P sha (s1, go # T) (t, go # T)"
      by (intro dep_step.call dep_call.credit [where go = go]) simp_all
    then have "(dep_step D cfg P sha)\<^sup>*\<^sup>* (s, T) (t, go # T)"
      using step unfolding c by (simp add: converse_rtranclp_into_rtranclp)
    then show ?thesis by blast
  next
    case False
    then have "t = s1" using assms 1 by (auto simp: approveManualDeposit_def svc_simps split: sum.splits)
    then show ?thesis using step by blast
  qed
qed

section \<open>Decisions on one row\<close>

lemma approve_check_go:
  assumes "approve_d_check cfg i actor s = (Inr (Inl (a, x)), s1)"
  shows "s1 = s" and "findDepositById i s = Some x" and "inr_id x = i" and "manual x"
    and "inr_status x = INR_PENDING" and "agreed cfg x"
  using assms find_deposit_id [of i s x]
  by (auto simp: approve_d_check_def find_manual_def svc_simps Let_def manual_def agreed_def
      split: option.splits if_splits prod.splits sum.splits)

lemma changed_row:
  assumes "findDepositById i s = Some x" and "\<And>y. inr_id (upd y) = inr_id y"
  shows "findDepositById i (put_inr_transactions (map (\<lambda>x. if inr_id x = i \<and> c x then upd x else x)
      (inr_transactions s)) s) = Some (if c x then upd x else x)"
  using assms(1) deposit_rows.find_row_updated [of upd i i c s, OF assms(2)] find_deposit_id [OF assms(1)]
  by (simp add: findDepositById_row)

lemma updateMany_run:
  assumes "findDepositById i s = Some x" and "distinct (map inr_id (inr_transactions s))"
    and "\<And>y. inr_id (upd y) = inr_id y" and "cond x \<Longrightarrow> 0 < inr_amount (upd x)"
  obtains t where "updateMany_d i cond upd s = (Inr (if cond x then 1 else 0), t)"
    and "findDepositById i t = Some (if cond x then upd x\<lparr>inr_updated := now s\<rparr> else x)"
    and "ledger_tables t = ledger_tables s" and "next_uuid t = next_uuid s"
proof -
  obtain r t where run: "updateMany_d i cond upd s = (r, t)" by (cases "updateMany_d i cond upd s")
  then have many: "update_many inr_id inr_transactions put_inr_transactions amount_chk ''inr_transactions'' i cond
      (\<lambda>r. upd r\<lparr>inr_updated := now s\<rparr>) s = (r, t)" by (simp add: updateMany_d_def svc_simps)
  have find: "find (\<lambda>r. inr_id r = i) (inr_transactions s) = Some x" using assms(1) by (simp add: findDepositById_def)
  have hits: "filter (\<lambda>r. inr_id r = i \<and> cond r) (inr_transactions s) = (if cond x then [x] else [])"
    using filter_key [OF assms(2), of i cond] find by simp
  let ?c = "\<lambda>r. inr_id r = i \<and> cond r"
  have r: "r = Inr (if cond x then 1 else 0)"
    and t: "t = put_inr_transactions (map (\<lambda>x. if ?c x then upd x\<lparr>inr_updated := now s\<rparr> else x)
      (inr_transactions s)) s"
    using many assms(4) unfolding update_many_def bindS_apply readS_apply prod.case sum.case hits
    by (cases "cond x"; simp add: requireS_apply writeS_apply returnS_apply amount_chk_def)+
  have "findDepositById i t = Some (if cond x then upd x\<lparr>inr_updated := now s\<rparr> else x)"
    unfolding t using changed_row [OF assms(1), of "\<lambda>r. upd r\<lparr>inr_updated := now s\<rparr>" cond] assms(3) by simp
  then show thesis using that [of t] run t unfolding r by simp
qed

lemma audit_admin_run:
  "audit_admin_d n act i s = (r, t) \<Longrightarrow> ledger_tables t = ledger_tables s \<and> inr_transactions t = inr_transactions s"
  by (auto simp: audit_admin_d_def recordAudit_def writeAdminLog_def svc_simps ledger_tables_def)

lemma reject_run:
  assumes s: "deposit_state cfg s" and x: "findDepositById i s = Some x" "manual x" "inr_status x = INR_PENDING"
    and run: "rejectManualDeposit i reason (Some b) s = (Inr dto, t)"
  obtains y where "findDepositById i t = Some y" and "inr_status y = INR_FAILED" and "ledger_tables t = ledger_tables s"
proof -
  let ?cond = "\<lambda>r. inr_status r = INR_PENDING"
  let ?upd = "\<lambda>r. r\<lparr>inr_status := INR_FAILED, reviewed_by := Some b, reviewed_at := Some (now s),
              rejection_reason := (if reason = None then rejection_reason r else reason)\<rparr>"
  have ok: "0 < inr_amount x" using deposit_stateD(5) [OF s x(1)] by (simp add: dep_ok_def)
  obtain u where u: "updateMany_d i ?cond ?upd s = (Inr (if ?cond x then 1 else 0), u)"
    "findDepositById i u = Some (if ?cond x then ?upd x\<lparr>inr_updated := now s\<rparr> else x)"
    "ledger_tables u = ledger_tables s"
    by (rule updateMany_run [OF x(1) deposit_stateD(2) [OF s], of ?upd ?cond]) (use ok in simp_all)
  have "markManualRejected i b reason s = (Inr (True, Some (?upd x\<lparr>inr_updated := now s\<rparr>)), u)"
    using u x(3) by (simp add: markManualRejected_def svc_simps)
  moreover have "inr_id x = i" "inr_type x = INR_DEPOSIT \<and> inr_provider x = Some MANUAL_PROVIDER"
    using find_deposit_id [OF x(1)] x run
    by (auto simp: rejectManualDeposit_def find_manual_def svc_simps split: if_splits)
  ultimately have "inr_transactions t = inr_transactions u" "ledger_tables t = ledger_tables u"
    using run x by (auto simp: rejectManualDeposit_def find_manual_def svc_simps audit_admin_d_def recordAudit_def
        writeAdminLog_def notify_def ledger_tables_def)
  then show thesis using that u(2,3) x(3) by (simp add: findDepositById_def)
qed

lemma late_credit_run:
  assumes s: "deposit_state cfg s" and x: "known x s" "manual x" "agreed cfg x" "\<not> credited (inr_id x) s"
    and y: "findDepositById (inr_id x) s = Some y" "inr_status y \<noteq> INR_PENDING"
    and run: "approve_d_credit D cfg (a, x) s = (Inr dto, t)"
  shows "findDepositById (inr_id x) t = Some y" and "credited (inr_id x) t"
    and "bal t v b k = bal s v b k + delta (credit_lines MANUAL_BANK_CLEARING (inr_user x) (inr_amount x)) v b k"
proof -
  obtain r2 s2 where 2: "post D (manual_credit x) (Some (inr_user x)) s = (r2, s2)"
    by (cases "post D (manual_credit x) (Some (inr_user x)) s")
  then obtain p where p: "r2 = Inr p" using run by (cases r2) (auto simp: approve_d_credit_def svc_simps)
  note 2 = 2 [unfolded p]
  have inp: "credits_deposit x (manual_credit x)"
    using x(2) by (simp add: credits_deposit_def manual_credit_def clearing_of_def)
  note w = credit_run [OF s x(1,3) inp 2]
  have y2: "findDepositById (inr_id x) s2 = Some y" using y(1) w(4) by (simp add: findDepositById_def)
  let ?cond = "\<lambda>r. inr_status r = INR_PENDING"
  let ?upd = "\<lambda>r. r\<lparr>inr_status := INR_SUCCESS, reviewed_by := Some a, reviewed_at := Some (now s2),
              inr_ledger_txn := Some (posted_id p)\<rparr>"
  obtain u where u: "updateMany_d (inr_id x) ?cond ?upd s2 = (Inr (if ?cond y then 1 else 0), u)"
    "findDepositById (inr_id x) u = Some (if ?cond y then ?upd y\<lparr>inr_updated := now s2\<rparr> else y)"
    "ledger_tables u = ledger_tables s2"
    by (rule updateMany_run [OF y2 deposit_stateD(2) [OF w(1)], of ?upd ?cond]) (use y(2) in simp_all)
  have "markManualApproved (inr_id x) a (posted_id p) s2 = (Inr (False, Some y), u)"
    using u y(2) by (simp add: markManualApproved_def svc_simps)
  then have t: "t = u" using run 2 by (simp add: approve_d_credit_def svc_simps)
  show "findDepositById (inr_id x) t = Some y" using u(2) y(2) by (simp add: t)
  show "credited (inr_id x) t" using w(3) credited_tables [OF u(3)] by (simp add: t)
  obtain z where z: "findDepositById (inr_id x) s = Some z" "row_extends x z" using x(1) by (auto simp: known_def)
  have "toFixed (inr_amount x) 2 = inr_amount x"
    using deposit_stateD(5) [OF s z(1)] z(2) by (simp add: dep_ok_def row_extends_def toFixed_grid)
  moreover have "\<not> already_posted (manual_credit x) s"
    using x(4) already_posted_as [of "manual_credit x" REFERENCE_TYPE "inr_id x" s] by (simp add: manual_credit_def)
  ultimately show "bal t v b k = bal s v b k +
      delta (credit_lines MANUAL_BANK_CLEARING (inr_user x) (inr_amount x)) v b k"
    using posting.success_moves [OF 2 deposit_stateD(1) [OF s], of v b k] bal_tables [OF u(3)]
    by (simp add: t manual_credit_def)
qed

section \<open>Webhooks\<close>

definition event_id :: "(string \<Rightarrow> string) \<Rightarrow> webhook_delivery \<Rightarrow> string" where
  "event_id sha inp =
     (case wd_event inp of None \<Rightarrow> ''body:'' @ take 32 (sha (the (wd_raw inp))) | Some e \<Rightarrow> e)"

definition recorded :: "string \<Rightarrow> db \<Rightarrow> bool" where
  "recorded ev s \<longleftrightarrow> (\<exists>e \<in> set (payment_webhook_events s). we_provider e = RAZORPAY_PROVIDER_ID \<and> we_event e = ev)"

text \<open>A delivery with a body and a signature, which the provider finds right (\<open>ok\<close>) or wrong.\<close>

definition delivery :: "razorpay \<Rightarrow> bool \<Rightarrow> webhook_delivery \<Rightarrow> bool" where
  "delivery P ok inp \<longleftrightarrow> (\<exists>raw sig. wd_raw inp = Some raw \<and> raw \<noteq> [] \<and> wd_signature inp = Some sig \<and>
     sig \<noteq> [] \<and> rz_verifyWebhook P raw sig = ok)"

definition recorded_state :: "(string \<Rightarrow> string) \<Rightarrow> webhook_delivery \<Rightarrow> bool \<Rightarrow> db \<Rightarrow> db" where
  "recorded_state sha inp ok s = s\<lparr>next_uuid := Suc (next_uuid s), payment_webhook_events := payment_webhook_events s @
     [\<lparr>we_id = next_uuid s, we_provider = RAZORPAY_PROVIDER_ID, we_event = event_id sha inp,
       we_type = event_type (wd_body inp), we_signature_ok = ok, we_processed = (if ok then Some (now s) else None)\<rparr>]\<rparr>"

lemma recorded_state_simps [simp]:
  "recorded (event_id sha inp) (recorded_state sha inp ok s)"
  "inr_transactions (recorded_state sha inp ok s) = inr_transactions s"
  "ledger_tables (recorded_state sha inp ok s) = ledger_tables s"
  "conflicts (recorded_state sha inp ok s) = conflicts s"
  "next_uuid (recorded_state sha inp ok s) = Suc (next_uuid s)"
  by (simp_all add: recorded_def recorded_state_def ledger_tables_def)

lemma not_recorded: "\<not> recorded ev s \<Longrightarrow> find (\<lambda>e. we_provider e = RAZORPAY_PROVIDER_ID \<and> we_event e = ev)
    (payment_webhook_events s) = None"
  by (auto simp: recorded_def find_None_iff)

lemma webhook_duplicate:
  assumes "delivery P True inp" and "recorded (event_id sha inp) s"
  shows "handleWebhook D P sha inp s = (Inr \<lparr>wr_duplicate = True, wr_status = None\<rparr>, s)"
proof -
  obtain e where "find (\<lambda>e. we_provider e = RAZORPAY_PROVIDER_ID \<and> we_event e = event_id sha inp)
      (payment_webhook_events s) = Some e"
    using assms(2) by (cases "find (\<lambda>e. we_provider e = RAZORPAY_PROVIDER_ID \<and> we_event e = event_id sha inp)
      (payment_webhook_events s)") (auto simp: recorded_def find_None_iff)
  then show ?thesis using assms(1)
    by (auto simp: handleWebhook_def delivery_def recordWebhookEvent_def svc_simps Let_def event_id_def
        split: option.splits)
qed

lemma webhook_new:
  assumes "delivery P True inp" and "\<not> recorded (event_id sha inp) s"
  shows "handleWebhook D P sha inp s = process_event D (wd_body inp) (recorded_state sha inp True s)"
  using assms(1) not_recorded [OF assms(2)]
  by (auto simp: handleWebhook_def delivery_def recordWebhookEvent_def svc_simps Let_def event_id_def
      recorded_state_def fresh_uuid_def split: option.splits)

lemma webhook_refused:
  assumes "delivery P False inp"
  shows "fst (handleWebhook D P sha inp s) = Inl (AppError 400 ''INVALID_WEBHOOK_SIGNATURE'')"
    and "recorded (event_id sha inp) (snd (handleWebhook D P sha inp s))"
    and "ledger_tables (snd (handleWebhook D P sha inp s)) = ledger_tables s"
    and "inr_transactions (snd (handleWebhook D P sha inp s)) = inr_transactions s"
proof -
  let ?goal = "fst (handleWebhook D P sha inp s) = Inl (AppError 400 ''INVALID_WEBHOOK_SIGNATURE'') \<and>
    recorded (event_id sha inp) (snd (handleWebhook D P sha inp s)) \<and>
    ledger_tables (snd (handleWebhook D P sha inp s)) = ledger_tables s \<and>
    inr_transactions (snd (handleWebhook D P sha inp s)) = inr_transactions s"
  have ?goal
  proof (cases "find (\<lambda>e. we_provider e = RAZORPAY_PROVIDER_ID \<and> we_event e = event_id sha inp)
      (payment_webhook_events s)")
    case None
    then show ?thesis using assms
      by (auto simp: handleWebhook_def delivery_def recordWebhookEvent_def svc_simps Let_def event_id_def
          fresh_uuid_def recordAudit_def recorded_def ledger_tables_def split: option.splits)
  next
    case (Some e)
    then have "recorded (event_id sha inp) s" by (auto simp: recorded_def dest: find_SomeD)
    then show ?thesis using assms Some
      by (auto simp: handleWebhook_def delivery_def recordWebhookEvent_def svc_simps Let_def event_id_def
          fresh_uuid_def recordAudit_def recorded_def ledger_tables_def split: option.splits)
  qed
  then show "fst (handleWebhook D P sha inp s) = Inl (AppError 400 ''INVALID_WEBHOOK_SIGNATURE'')"
    "recorded (event_id sha inp) (snd (handleWebhook D P sha inp s))"
    "ledger_tables (snd (handleWebhook D P sha inp s)) = ledger_tables s"
    "inr_transactions (snd (handleWebhook D P sha inp s)) = inr_transactions s" by blast+
qed

lemma credit_balanced:
  assumes "grid 2 x" and "0 < x" and "x \<le> 10 ^ 15" and "c \<in> {GATEWAY_CLEARING, MANUAL_BANK_CLEARING}"
  shows "balanced_lines 2 (credit_lines c u x)"
proof -
  have "amounts_fit 2 [x, x]" using assms(1-3) by (simp add: amounts_fit_def)
  then show ?thesis using assms
    by (auto simp: balanced_lines_def credit_lines_def net_def well_addressed_def signed_amount_def isUserAccount_def)
qed

definition open_order :: "string \<Rightarrow> db \<Rightarrow> inr_transaction \<Rightarrow> bool" where
  "open_order ord s d \<longleftrightarrow> findDepositByOrderId RAZORPAY_PROVIDER_ID ord s = Some d \<and>
     inr_status d \<in> {INR_INITIATED, INR_PENDING}"

section \<open>A late capture\<close>

lemma find_by_order_changed:
  assumes "\<And>y. inr_id (upd y) = inr_id y \<and> inr_type (upd y) = inr_type y \<and> inr_provider (upd y) = inr_provider y \<and>
    provider_order_id (upd y) = provider_order_id y"
  shows "findDepositByOrderId p ord (put_inr_transactions (map upd (inr_transactions s)) s) =
    map_option upd (findDepositByOrderId p ord s)"
proof -
  have "find (\<lambda>r. inr_provider r = Some p \<and> provider_order_id r = Some ord \<and> inr_type r = INR_DEPOSIT) (map upd xs) =
    map_option upd (find (\<lambda>r. inr_provider r = Some p \<and> provider_order_id r = Some ord \<and> inr_type r = INR_DEPOSIT) xs)" for xs
    by (induction xs) (auto simp: assms)
  then show ?thesis by (simp add: findDepositByOrderId_def)
qed

lemma markFailed_run:
  assumes "markFailed_d i payment s = (Inr f, t)" and "findDepositByOrderId p ord s = Some d" and "inr_id d = i"
  shows "\<exists>d'. findDepositByOrderId p ord t = Some d' \<and> inr_status d' = INR_FAILED"
proof -
  have "\<exists>upd. (\<forall>y. inr_id (upd y) = inr_id y \<and> inr_type (upd y) = inr_type y \<and> inr_provider (upd y) = inr_provider y \<and>
      provider_order_id (upd y) = provider_order_id y \<and> inr_status (upd y) = INR_FAILED) \<and>
    t = put_inr_transactions (map (\<lambda>r. if inr_id r = i then upd r else r) (inr_transactions s)) s"
  proof (cases "payment = []")
    case True
    then show ?thesis using assms(1)
      by (intro exI [of _ "\<lambda>r. r\<lparr>inr_status := INR_FAILED, inr_updated := now s\<rparr>"])
        (auto simp: markFailed_d_def update_d_def update_one_def svc_simps split: option.splits if_splits)
  next
    case False
    then show ?thesis using assms(1)
      by (intro exI [of _ "\<lambda>r. r\<lparr>inr_status := INR_FAILED, provider_payment_id := Some payment, inr_updated := now s\<rparr>"])
        (auto simp: markFailed_d_def update_payment_def update_d_def update_one_def svc_simps
          split: option.splits if_splits)
  qed
  then obtain upd where upd: "\<And>y. inr_id (upd y) = inr_id y \<and> inr_type (upd y) = inr_type y \<and>
      inr_provider (upd y) = inr_provider y \<and> provider_order_id (upd y) = provider_order_id y \<and>
      inr_status (upd y) = INR_FAILED"
    and t: "t = put_inr_transactions (map (\<lambda>r. if inr_id r = i then upd r else r) (inr_transactions s)) s" by blast
  show ?thesis
    using find_by_order_changed [of "\<lambda>r. if inr_id r = i then upd r else r" p ord s] upd t assms(2,3) by auto
qed

end
