(* ===== verification/Deposit_Csv.thy ===== *)
theory Deposit_Csv
  imports Deposit
begin

text \<open>
  A reader of comma-separated text, the reference the export of the deposits is compared with:
  cells end at a comma and rows at a newline, inside quotes both are text and a doubled quote is one
  quote.
\<close>

section \<open>The reader\<close>

fun csv_scan :: "bool \<Rightarrow> string \<Rightarrow> string list \<Rightarrow> string list list \<Rightarrow> string \<Rightarrow> string list list" where
  "csv_scan quoted cell row rows [] = rows @ [row @ [cell]]"
| "csv_scan True cell row rows (c # cs) =
     (if c \<noteq> quote_char then csv_scan True (cell @ [c]) row rows cs
      else case cs of
        d # ds \<Rightarrow> if d = quote_char then csv_scan True (cell @ [c]) row rows ds
                  else csv_scan False cell row rows cs
      | [] \<Rightarrow> csv_scan False cell row rows cs)"
| "csv_scan False cell row rows (c # cs) =
     (if c = quote_char then csv_scan True cell row rows cs
      else if c = CHR '','' then csv_scan False [] (row @ [cell]) rows cs
      else if c = newline then csv_scan False [] [] (rows @ [row @ [cell]]) cs
      else csv_scan False (cell @ [c]) row rows cs)"

definition csv_read :: "string \<Rightarrow> string list list" where
  "csv_read = csv_scan False [] [] []"

lemma separators [simp]:
  "quote_char \<noteq> CHR '',''" "CHR '','' \<noteq> quote_char" "newline \<noteq> CHR '',''" "CHR '','' \<noteq> newline"
  "newline \<noteq> quote_char" "quote_char \<noteq> newline"
  by (simp_all add: quote_char_def newline_def)

section \<open>What the reader makes of a written cell\<close>

lemma scan_plain:
  "\<forall>c \<in> set v. c \<notin> {quote_char, CHR '','', newline} \<Longrightarrow>
     csv_scan False cell row rows (v @ rest) = csv_scan False (cell @ v) row rows rest"
  by (induction v arbitrary: cell) simp_all

lemma scan_quoted:
  assumes "rest = [] \<or> hd rest \<noteq> quote_char"
  shows "csv_scan True cell row rows
      (concat (map (\<lambda>c. if c = quote_char then [quote_char, quote_char] else [c]) v) @ quote_char # rest) =
    csv_scan False (cell @ v) row rows rest"
proof (induction v arbitrary: cell)
  case Nil
  then show ?case using assms by (cases rest) auto
qed simp

lemma scan_cell:
  assumes "rest = [] \<or> hd rest \<noteq> quote_char"
  shows "csv_scan False [] row rows (csvCell v @ rest) = csv_scan False v row rows rest"
proof (cases "\<exists>c \<in> set v. c \<in> {quote_char, CHR '','', newline}")
  case True
  then have "csvCell v = quote_char # concat (map (\<lambda>c. if c = quote_char then [quote_char, quote_char] else [c]) v)
      @ [quote_char]" by (simp add: csvCell_def)
  then show ?thesis using scan_quoted [OF assms, of "[]" row rows v] by simp
next
  case False
  then have "csvCell v = v" by (simp add: csvCell_def)
  then show ?thesis using scan_plain [of v "[]" row rows rest] False by simp
qed

lemma scan_row:
  assumes "cells \<noteq> []" and "rest = [] \<or> hd rest = newline"
  shows "csv_scan False [] row rows (join (CHR '','') (map csvCell cells) @ rest) =
    csv_scan False (last cells) (row @ butlast cells) rows rest"
  using assms
proof (induction cells arbitrary: row)
  case (Cons v cells)
  show ?case
  proof (cases cells)
    case Nil
    then show ?thesis using scan_cell [of rest row rows v] Cons.prems by auto
  next
    case (Cons w ws)
    have "csv_scan False [] row rows (csvCell v @ CHR '','' # join (CHR '','') (map csvCell cells) @ rest) =
      csv_scan False v row rows (CHR '','' # join (CHR '','') (map csvCell cells) @ rest)"
      by (rule scan_cell) simp
    then show ?thesis using Cons.IH [of "row @ [v]"] Cons.prems(2) Cons by simp
  qed
qed simp

lemma scan_rows:
  assumes "\<forall>cells \<in> set css. cells \<noteq> []" and "css \<noteq> []"
  shows "csv_scan False [] [] rows (join newline (map (\<lambda>cells. join (CHR '','') (map csvCell cells)) css)) = rows @ css"
  using assms
proof (induction css arbitrary: rows)
  case (Cons cells css)
  show ?case
  proof (cases css)
    case Nil
    then show ?thesis using scan_row [of cells "[]" "[]" rows] Cons.prems by simp
  next
    case (Cons cells' rest)
    have "csv_scan False [] [] rows (join (CHR '','') (map csvCell cells) @
        newline # join newline (map (\<lambda>cells. join (CHR '','') (map csvCell cells)) css)) =
      csv_scan False (last cells) ([] @ butlast cells) rows
        (newline # join newline (map (\<lambda>cells. join (CHR '','') (map csvCell cells)) css))"
      by (rule scan_row) (use Cons.prems in simp_all)
    then show ?thesis using Cons.IH [of "rows @ [cells]"] Cons.prems Cons by simp
  qed
qed simp

end
