(* ===== verification/Deposit_Properties.thy ===== *)
theory Deposit_Properties
  imports Deposit_Laws Deposit_Csv
begin

text \<open>The properties of rupee deposits, each with a run they apply to.\<close>

section \<open>Example states\<close>

text \<open>
  User 7 submits a manual deposit of 800, which needs two admins, and admin 1 approves it first; in
  \<open>both_db\<close> admin 2 approved it too.  In \<open>order_db\<close> the user has started a gateway deposit of 200.
\<close>

definition dep_config :: deposit_config where
  "dep_config = \<lparr>depositMin = 100, depositMax = 5000, dualApproval = 500, razorpay_key = None,
     razorpay_secret = ''k'', webhook_secret = ''w''\<rparr>"

definition some_hash :: "string \<Rightarrow> string" where "some_hash x = ''00ff''"
definition some_mac :: "string \<Rightarrow> string \<Rightarrow> string" where
  "some_mac payload secret = (if secret = ''w'' then ''0a'' else ''0b'')"

definition gateway :: razorpay where "gateway = mock_razorpay dep_config some_hash some_mac"

definition start_db :: db where "start_db = empty_db\<lparr>users := [verified_user 7], now := 5\<rparr>"

definition submitted_db :: db where
  "submitted_db = snd (createManualDeposit exact dep_config 7 800 ''UTR1'' ''IMPS'' None start_db)"

definition the_deposit :: "db \<Rightarrow> inr_transaction" where "the_deposit s = hd (inr_transactions s)"

definition first_db :: db where
  "first_db = snd (approveManualDeposit exact dep_config (inr_id (the_deposit submitted_db)) (Some 1) submitted_db)"

definition both_db :: db where
  "both_db = snd (approveManualDeposit exact dep_config (inr_id (the_deposit submitted_db)) (Some 2) first_db)"

definition order_db :: db where
  "order_db = snd (createDeposit exact dep_config gateway 7 200 start_db)"

definition payment_body :: "string \<Rightarrow> json" where
  "payment_body ev = JObj [(''event'', JStr ev), (''payload'', JObj [(''payment'', JObj [(''entity'',
     JObj [(''id'', JStr ''pay_1''), (''order_id'', JStr ''order_00ff''), (''amount'', JNum 20000)])])])]"

definition payment_event :: "string \<Rightarrow> webhook_delivery" where
  "payment_event ev = \<lparr>wd_raw = Some ''body'', wd_signature = Some ''0a'', wd_event = Some ''evt_1'',
     wd_body = payment_body ev\<rparr>"

lemma gateway_pure: "pure_orders gateway"
  by (simp add: pure_orders_def gateway_def mock_razorpay_def svc_simps)

lemma start_db_empty: "ledger_inv start_db" "inr_transactions start_db = []" "\<not> credited i start_db"
  by (rule ledger_inv_cong [OF _ _ empty_db_inv])
    (simp_all add: ledger_tables_def start_db_def empty_db_def posted_as_def)

lemma start_db_inv: "deposits_inv dep_config (start_db, [])"
  by (rule no_deposits [OF start_db_empty])

lemma grid_whole: "grid 2 800" "grid 2 200"
  by (simp_all add: grid_def)

lemma submitted_step: "dep_step exact dep_config gateway some_hash (start_db, []) (submitted_db, [])"
  unfolding submitted_db_def
  by (rule dep_step.call, rule dep_call.manual [OF grid_whole(1) surjective_pairing])

lemma both_reached:
  "\<exists>T. (dep_step exact dep_config gateway some_hash)\<^sup>*\<^sup>* (start_db, []) (both_db, T)"
proof -
  let ?i = "inr_id (the_deposit submitted_db)"
  have "approveManualDeposit exact dep_config ?i (Some 1) submitted_db =
      (fst (approveManualDeposit exact dep_config ?i (Some 1) submitted_db), first_db)"
    by (simp add: first_db_def)
  from approve_steps [OF this] obtain T where
    1: "(dep_step exact dep_config gateway some_hash)\<^sup>*\<^sup>* (submitted_db, []) (first_db, T)" by blast
  have "approveManualDeposit exact dep_config ?i (Some 2) first_db =
      (fst (approveManualDeposit exact dep_config ?i (Some 2) first_db), both_db)"
    by (simp add: both_db_def)
  from approve_steps [OF this] obtain T' where
    "(dep_step exact dep_config gateway some_hash)\<^sup>*\<^sup>* (first_db, T) (both_db, T')" by blast
  with 1 show ?thesis using submitted_step
    by (meson converse_rtranclp_into_rtranclp rtranclp_trans)
qed

lemma first_row:
  "inr_transactions first_db = [the_deposit first_db]"
  "findDepositById (inr_id (the_deposit submitted_db)) first_db = Some (the_deposit first_db)"
  "manual (the_deposit first_db)" "inr_type (the_deposit first_db) = INR_DEPOSIT"
  "inr_status (the_deposit first_db) = INR_PENDING" "inr_amount (the_deposit first_db) = 800"
  "first_approved_by (the_deposit first_db) = Some 1" "inr_user (the_deposit first_db) = 7"
proof -
  have run: "let s = first_db; d = the_deposit s in length (inr_transactions s) = 1 \<and>
      inr_id d = inr_id (the_deposit submitted_db) \<and> manual d \<and> inr_type d = INR_DEPOSIT \<and>
      inr_status d = INR_PENDING \<and> inr_amount d = 800 \<and> first_approved_by d = Some 1 \<and> inr_user d = 7"
    by code_simp
  then obtain x where x: "inr_transactions first_db = [x]" by (auto simp: length_Suc_conv Let_def)
  show "inr_transactions first_db = [the_deposit first_db]"
    "findDepositById (inr_id (the_deposit submitted_db)) first_db = Some (the_deposit first_db)"
    "manual (the_deposit first_db)" "inr_type (the_deposit first_db) = INR_DEPOSIT"
    "inr_status (the_deposit first_db) = INR_PENDING" "inr_amount (the_deposit first_db) = 800"
    "first_approved_by (the_deposit first_db) = Some 1" "inr_user (the_deposit first_db) = 7"
    using run x by (simp_all add: Let_def the_deposit_def findDepositById_def)
qed

lemma first_reached: "\<exists>T. deposits_inv dep_config (first_db, T)"
proof -
  let ?i = "inr_id (the_deposit submitted_db)"
  have "approveManualDeposit exact dep_config ?i (Some 1) submitted_db =
      (fst (approveManualDeposit exact dep_config ?i (Some 1) submitted_db), first_db)"
    by (simp add: first_db_def)
  from approve_steps [OF this] obtain T where
    "(dep_step exact dep_config gateway some_hash)\<^sup>*\<^sup>* (submitted_db, []) (first_db, T)" by blast
  then have "(dep_step exact dep_config gateway some_hash)\<^sup>*\<^sup>* (start_db, []) (first_db, T)"
    using submitted_step by (meson converse_rtranclp_into_rtranclp)
  then show ?thesis using dep_steps_keep [OF _ gateway_pure start_db_inv] by blast
qed

lemma second_check:
  "approve_d_check dep_config (inr_id (the_deposit submitted_db)) (Some 2) first_db =
     (Inr (Inl (2, the_deposit first_db)), first_db)"
  using first_row by (simp add: approve_d_check_def find_manual_def svc_simps manual_def dep_config_def)

lemma order_db_state: "deposit_state dep_config order_db"
proof -
  have 1: "dep_call exact dep_config gateway some_hash (start_db, []) (order_db, [])"
    unfolding order_db_def by (rule dep_call.create [OF grid_whole(2) surjective_pairing])
  then show ?thesis
    using dep_call_keeps [OF 1 gateway_pure] start_db_inv by (simp add: dep_kept_def deposits_inv_def)
qed

lemma order_row:
  "open_order ''order_00ff'' order_db (the_deposit order_db)" "inr_amount (the_deposit order_db) = 200"
  "\<not> credited (inr_id (the_deposit order_db)) order_db" "payment_webhook_events order_db = []"
proof -
  have run: "let s = order_db; d = the_deposit s in length (inr_transactions s) = 1 \<and>
      inr_provider d = Some RAZORPAY_PROVIDER_ID \<and> provider_order_id d = Some ''order_00ff'' \<and>
      inr_type d = INR_DEPOSIT \<and> inr_status d = INR_INITIATED \<and> inr_amount d = 200 \<and>
      \<not> credited (inr_id d) s \<and> payment_webhook_events s = []"
    by code_simp
  then obtain x where x: "inr_transactions order_db = [x]" by (auto simp: length_Suc_conv Let_def)
  show "open_order ''order_00ff'' order_db (the_deposit order_db)" "inr_amount (the_deposit order_db) = 200"
    "\<not> credited (inr_id (the_deposit order_db)) order_db" "payment_webhook_events order_db = []"
    using run x by (simp_all add: Let_def the_deposit_def open_order_def findDepositByOrderId_def)
qed

lemma order_paise: "rupeesToPaise exact (toFixed 200 2) = Inr 20000" by code_simp

lemma signed_event:
  "delivery gateway True (payment_event ''payment.captured'')"
  "event_type (payment_body ''payment.captured'') = ''payment.captured''"
  "parsePaymentEntity (json_field ''payload'' (Some (payment_body ''payment.captured''))) =
     Some \<lparr>pp_payment = ''pay_1'', pp_order = ''order_00ff'', pp_paise = 20000\<rparr>"
proof -
  show "delivery gateway True (payment_event ''payment.captured'')"
    by (simp add: delivery_def payment_event_def gateway_def mock_razorpay_def verifyWebhookSignature_def
        some_mac_def safeEqualHex_def is_hex_def hex_value_def dep_config_def)
qed code_simp+

section \<open>Manual deposits\<close>

text \<open>
  C28.  Two admins for a large deposit: whatever calls of users, admins and the gateway come in
  whatever order, and wherever an approval is interrupted between its check and its credit, a
  deposit that reads SUCCESS is in the ledger and names its posting, and a manual deposit at or over
  the threshold is credited only after a first approval, and reads SUCCESS only with a second one by
  a different admin.
\<close>

theorem manual_deposits_need_two_admins:
  assumes "pure_orders P" and "ledger_inv s" and "inr_transactions s = []" and "\<And>i. \<not> credited i s"
    and "(dep_step D cfg P sha)\<^sup>*\<^sup>* (s, []) (t, T)" and "r \<in> set (inr_transactions t)"
  shows "(inr_status r = INR_SUCCESS \<longrightarrow> credited (inr_id r) t \<and> inr_ledger_txn r \<noteq> None) \<and>
    (manual r \<and> dualApproval cfg \<le> inr_amount r \<and> credited (inr_id r) t \<longrightarrow>
      (\<exists>a. first_approved_by r = Some a \<and>
        (inr_status r = INR_SUCCESS \<longrightarrow> (\<exists>b. reviewed_by r = Some b \<and> b \<noteq> a))))"
proof -
  have "deposits_inv cfg (t, T)" by (rule dep_steps_keep [OF assms(5,1) no_deposits [OF assms(2-4)]])
  then have "dep_ok cfg t r" using assms(6) deposit_stateD(4) [of cfg t r] by (simp add: deposits_inv_def)
  then show ?thesis by (auto simp: dep_ok_def)
qed

theorem manual_deposits_need_two_admins_witness:
  "\<exists>r \<in> set (inr_transactions both_db). inr_status r = INR_SUCCESS \<and> credited (inr_id r) both_db \<and>
     first_approved_by r = Some 1 \<and> reviewed_by r = Some 2"
proof -
  have run: "let s = both_db in length (inr_transactions s) = 1 \<and> manual (the_deposit s) \<and>
      inr_status (the_deposit s) = INR_SUCCESS \<and> inr_amount (the_deposit s) = 800 \<and>
      first_approved_by (the_deposit s) = Some 1 \<and> reviewed_by (the_deposit s) = Some 2" by code_simp
  let ?r = "the_deposit both_db"
  have r: "?r \<in> set (inr_transactions both_db)"
    using run by (auto simp: the_deposit_def Let_def intro: hd_in_set)
  obtain T where T: "(dep_step exact dep_config gateway some_hash)\<^sup>*\<^sup>* (start_db, []) (both_db, T)"
    using both_reached by blast
  show ?thesis
    using manual_deposits_need_two_admins [OF gateway_pure start_db_empty T r] run r by (auto simp: Let_def)
qed

text \<open>
  C29.  The ledger follows the deposits: whatever call is made with whatever outcome, every balance
  changes by exactly the deposits credited in it, each with its own amount from the clearing account
  of its way of payment to the available INR of its user, so no deposit is credited twice.
\<close>

theorem deposit_calls_keep_book:
  assumes "pure_orders P" and "deposits_inv cfg (s, T)" and "dep_call D cfg P sha (s, T) (t, T')"
  shows "bal t v b k - bal s v b k =
      sum_list (map (\<lambda>r. dep_row_book t r v b k) (inr_transactions t)) -
      sum_list (map (\<lambda>r. dep_row_book s r v b k) (inr_transactions s)) \<and> deposits_inv cfg (t, T')"
  using dep_call_keeps [OF assms(3,1)] assms(2)
  by (simp add: dep_kept_def dep_rel_def dep_booked_def dep_book_def algebra_simps)

theorem deposit_calls_keep_book_witness:
  "\<exists>t. approve_d_credit exact dep_config (2, the_deposit first_db) first_db = (fst (approve_d_credit exact
       dep_config (2, the_deposit first_db) first_db), t) \<and>
     bal t (Some 7) ''INR'' USER_AVAILABLE - bal first_db (Some 7) ''INR'' USER_AVAILABLE = 800"
proof -
  let ?i = "inr_id (the_deposit submitted_db)"
  let ?d = "the_deposit first_db"
  let ?t = "snd (approve_d_credit exact dep_config (2, ?d) first_db)"
  obtain T where T: "deposits_inv dep_config (first_db, T)" using first_reached by blast
  have inv: "deposits_inv dep_config (first_db, (2, ?d) # T)"
    using dep_call_keeps [OF dep_call.check [OF second_check] gateway_pure] T by (simp add: dep_kept_def)
  have call: "dep_call exact dep_config gateway some_hash (first_db, (2, ?d) # T) (?t, (2, ?d) # T)"
    by (rule dep_call.credit [OF _ surjective_pairing]) simp
  have "let s = first_db; t = snd (approve_d_credit exact dep_config (2, the_deposit s) s); d = the_deposit t
    in length (inr_transactions t) = 1 \<and> inr_user d = 7 \<and> inr_amount d = 800 \<and> credited (inr_id d) t \<and>
      \<not> credited (inr_id (the_deposit s)) s" by code_simp
  then have rows: "length (inr_transactions ?t) = 1" "inr_user (the_deposit ?t) = 7"
    "inr_amount (the_deposit ?t) = 800" "credited (inr_id (the_deposit ?t)) ?t" "\<not> credited (inr_id ?d) first_db"
    by (simp_all add: Let_def)
  obtain x where x: "inr_transactions ?t = [x]" using rows(1) by (auto simp: length_Suc_conv)
  then have "the_deposit ?t = x" by (simp add: the_deposit_def)
  note rows = rows [unfolded this]
  have "bal ?t (Some 7) ''INR'' USER_AVAILABLE - bal first_db (Some 7) ''INR'' USER_AVAILABLE = 800"
    using deposit_calls_keep_book [OF gateway_pure inv call, of "Some 7" "''INR''" USER_AVAILABLE]
      rows unfolding x first_row(1) by (simp add: dep_row_book_def)
  then show ?thesis by (simp add: prod_eq_iff)
qed

text \<open>
  C30.  Code bug: an admin can approve a deposit another admin rejects at the same time.  When the
  rejection comes between the check and the credit of the approval, both calls return, the row reads
  FAILED and was rejected, and the user is credited the whole amount.
\<close>

theorem reject_during_approval_credits:
  assumes "deposit_state cfg s" and "\<not> credited i s"
    and "approve_d_check cfg i (Some a) s = (Inr (Inl go), s1)"
    and "rejectManualDeposit i reason (Some b) s1 = (Inr dto, s2)"
    and "approve_d_credit D cfg go s2 = (Inr dto', t)"
  shows "\<exists>x y. findDepositById i s = Some x \<and> findDepositById i t = Some y \<and> inr_status y = INR_FAILED \<and>
      credited i t \<and> bal t (Some (inr_user x)) ''INR'' USER_AVAILABLE =
        bal s (Some (inr_user x)) ''INR'' USER_AVAILABLE + inr_amount x"
proof -
  obtain a' x where go: "go = (a', x)" by (cases go)
  note k = approve_check_go [OF assms(3) [unfolded go]]
  note x = k(2-5)
  obtain y where y: "findDepositById i s2 = Some y" "inr_status y = INR_FAILED" and tab: "ledger_tables s2 = ledger_tables s"
    using reject_run [OF assms(1) x(1,3,4) assms(4) [unfolded k(1)]] by blast
  note w = dep.tripleD [OF reject_keeps assms(1) TrueI assms(4) [unfolded k(1)]]
  have x2: "known x s2" using rel_keeps(1) [OF w(2)] found_known x(1) by blast
  have "\<not> credited (inr_id x) s2" using credited_tables [OF tab] assms(2) x(2) by simp
  note c = late_credit_run [OF w(1) x2 x(3) k(6) this _ _ assms(5) [unfolded go], of y]
  have "bal s2 = bal s" by (rule bal_tables [OF tab])
  then show ?thesis using c y x(1,2) by (intro exI [of _ x] exI [of _ y]) (simp add: delta_credit)
qed

theorem reject_during_approval_credits_witness:
  "\<exists>s t. bal t (Some 7) ''INR'' USER_AVAILABLE = bal s (Some 7) ''INR'' USER_AVAILABLE + 800 \<and>
     (\<exists>y. findDepositById (inr_id (the_deposit submitted_db)) t = Some y \<and> inr_status y = INR_FAILED)"
proof -
  let ?i = "inr_id (the_deposit submitted_db)"
  let ?rej = "rejectManualDeposit ?i None (Some 3) first_db"
  let ?cred = "\<lambda>s. approve_d_credit exact dep_config (2, the_deposit first_db) s"
  have "let s = first_db; i = inr_id (the_deposit submitted_db); p = rejectManualDeposit i None (Some 3) s;
      q = approve_d_credit exact dep_config (2, the_deposit s) (snd p)
    in \<not> isl (fst p) \<and> \<not> isl (fst q) \<and> \<not> credited i s" by code_simp
  then have ok: "\<not> isl (fst ?rej)" "\<not> isl (fst (?cred (snd ?rej)))" "\<not> credited ?i first_db"
    by (simp_all add: Let_def)
  obtain dto s2 where rej: "?rej = (Inr dto, s2)" using ok(1) by (rule run_Inr)
  then have "\<not> isl (fst (?cred s2))" using ok(2) by simp
  then obtain dto' t where cred: "?cred s2 = (Inr dto', t)" by (rule run_Inr)
  obtain T where "deposits_inv dep_config (first_db, T)" using first_reached by blast
  then have state: "deposit_state dep_config first_db" by (simp add: deposits_inv_def)
  from reject_during_approval_credits [OF state ok(3) second_check rej cred] show ?thesis
    using first_row(2,6,8) by auto
qed

section \<open>Webhooks\<close>

text \<open>
  C31.  Code bug: a delivery whose crediting fails is not made up for by redelivering it.  The event is
  recorded before the payment is settled and the posting is not retried, so when it meets a write
  conflict the gateway gets an error, the deposit is left as it was and uncredited, and every
  redelivery of the same event, at any later time, is answered as a duplicate and changes nothing.
  (An event with another id for the same order would still be processed.)
\<close>

theorem webhook_conflict_loses_deposit:
  assumes "decimal_context D" and "deposit_state cfg s" and "delivery P True inp"
    and "\<not> recorded (event_id sha inp) s" and "event_type (wd_body inp) \<in> {''payment.captured'', ''order.paid''}"
    and "parsePaymentEntity (json_field ''payload'' (Some (wd_body inp))) = Some p"
    and "open_order (pp_order p) s d" and "inr_amount d \<le> 10 ^ 15"
    and "rupeesToPaise D (toFixed (inr_amount d) 2) = Inr (pp_paise p)"
    and "\<not> credited (inr_id d) s" and "conflicts s = True # cs"
  shows "\<exists>t. handleWebhook D P sha inp s = (Inl (PrismaError ''P2034''), t) \<and>
      findDepositById (inr_id d) t = Some d \<and> \<not> credited (inr_id d) t \<and>
      (\<forall>u. set (payment_webhook_events t) \<subseteq> set (payment_webhook_events u) \<longrightarrow>
         handleWebhook D P sha inp u = (Inr \<lparr>wr_duplicate = True, wr_status = None\<rparr>, u))"
proof -
  let ?s = "recorded_state sha inp True s"
  let ?t = "?s\<lparr>conflicts := cs\<rparr>"
  have d: "findDepositByOrderId RAZORPAY_PROVIDER_ID (pp_order p) s = Some d" "inr_status d \<in> {INR_INITIATED, INR_PENDING}"
    using assms(7) by (simp_all add: open_order_def)
  note row = findDepositByOrderId_row [OF d(1) assms(2)]
  have x: "grid 2 (inr_amount d)" "0 < inr_amount d" using row(4) by (simp_all add: dep_ok_def)
  have "balanced_lines 2 (post_lines (gateway_credit d))"
    using credit_balanced [OF x assms(8), of GATEWAY_CLEARING] by (simp add: gateway_credit_def toFixed_grid [OF x(1)])
  then have "assertPostingBalanced D (gateway_credit d) ?s = (Inr (), ?s)"
    by (rule assertPostingBalanced_balanced [OF assms(1)])
  then have post: "post D (gateway_credit d) (Some (inr_user d)) ?s = (Inl (PrismaError ''P2034''), ?t)"
    by (rule post_conflict) (simp add: assms(11))
  have "findDepositByOrderId RAZORPAY_PROVIDER_ID (pp_order p) ?s = Some d"
    using d(1) by (simp add: findDepositByOrderId_def)
  then have "settleCapturedPayment D p ?s = (Inl (PrismaError ''P2034''), ?t)"
    using d(2) assms(9) post by (auto simp: settleCapturedPayment_def svc_simps)
  then have run: "handleWebhook D P sha inp s = (Inl (PrismaError ''P2034''), ?t)"
    using assms(5,6) unfolding webhook_new [OF assms(3,4)] process_event_def Let_def by (auto simp: svc_simps)
  have "\<not> credited (inr_id d) ?t"
    using assms(10) credited_tables [of ?t s "inr_id d"] by (simp add: ledger_tables_def recorded_state_def)
  moreover have "findDepositById (inr_id d) ?t = Some d" using row(3) by (simp add: findDepositById_def)
  moreover have "handleWebhook D P sha inp u = (Inr \<lparr>wr_duplicate = True, wr_status = None\<rparr>, u)"
    if "set (payment_webhook_events ?t) \<subseteq> set (payment_webhook_events u)" for u
  proof (rule webhook_duplicate [OF assms(3)])
    have "recorded (event_id sha inp) ?s" by simp
    then show "recorded (event_id sha inp) u" using that by (auto simp: recorded_def)
  qed
  ultimately show ?thesis using run by blast
qed

theorem webhook_conflict_loses_deposit_witness:
  "\<exists>t. handleWebhook exact gateway some_hash (payment_event ''payment.captured'')
       (order_db\<lparr>conflicts := [True]\<rparr>) = (Inl (PrismaError ''P2034''), t) \<and>
     handleWebhook exact gateway some_hash (payment_event ''payment.captured'') t =
       (Inr \<lparr>wr_duplicate = True, wr_status = None\<rparr>, t)"
proof -
  let ?s = "order_db\<lparr>conflicts := [True]\<rparr>"
  have tab: "ledger_tables ?s = ledger_tables order_db" by (simp add: ledger_tables_def)
  have state: "deposit_state dep_config ?s"
    by (rule dep_quiet(1) [OF order_db_state tab]) simp_all
  have open_now: "open_order ''order_00ff'' ?s (the_deposit order_db)"
    using order_row(1) by (simp add: open_order_def findDepositByOrderId_def)
  have new: "\<not> recorded (event_id some_hash (payment_event ''payment.captured'')) ?s"
    using order_row(4) by (simp add: recorded_def)
  have uncredited: "\<not> credited (inr_id (the_deposit order_db)) ?s"
    using order_row(3) credited_tables [OF tab] by simp
  from webhook_conflict_loses_deposit [OF decimal_context_exact state signed_event(1) new _ _ _ _ _ uncredited,
      of "\<lparr>pp_payment = ''pay_1'', pp_order = ''order_00ff'', pp_paise = 20000\<rparr>" "[]"]
  show ?thesis using open_now order_row(2) order_paise signed_event(2,3)
    by (auto simp: payment_event_def [of "''payment.captured''"])
qed

text \<open>
  Code bug: a delivery refused for its signature is recorded under the event id as well, so
  the genuine delivery of the event is a duplicate for ever.  A forged call that names the id of an
  event, or deliveries that arrive while the webhook secret is misconfigured, keep the deposits they
  are about from being credited.
\<close>

theorem refused_webhook_never_processed:
  assumes "delivery P False inp" and "handleWebhook D P sha inp s = (r, t)"
    and "delivery P' True inp'" and "event_id sha inp' = event_id sha inp"
    and "set (payment_webhook_events t) \<subseteq> set (payment_webhook_events u)"
  shows "r = Inl (AppError 400 ''INVALID_WEBHOOK_SIGNATURE'') \<and>
    handleWebhook D P' sha inp' u = (Inr \<lparr>wr_duplicate = True, wr_status = None\<rparr>, u)"
proof -
  note k = webhook_refused [OF assms(1), where D = D and sha = sha and s = s, unfolded assms(2)]
  have "recorded (event_id sha inp') u" using k(2) assms(4,5) by (auto simp: recorded_def)
  then show ?thesis using k(1) webhook_duplicate [OF assms(3)] by simp
qed

theorem refused_webhook_never_processed_witness:
  "\<exists>t. handleWebhook exact gateway some_hash (payment_event ''payment.captured'') t =
       (Inr \<lparr>wr_duplicate = True, wr_status = None\<rparr>, t) \<and> inr_transactions t = inr_transactions order_db"
proof -
  let ?old = "mock_razorpay (dep_config\<lparr>webhook_secret := ''old''\<rparr>) some_hash some_mac"
  let ?inp = "payment_event ''payment.captured''"
  let ?run = "handleWebhook exact ?old some_hash ?inp order_db"
  have refused: "delivery ?old False ?inp"
    by (simp add: delivery_def payment_event_def mock_razorpay_def verifyWebhookSignature_def some_mac_def
        safeEqualHex_def is_hex_def hex_value_def dep_config_def)
  have "?run = (fst ?run, snd ?run)" by simp
  from refused_webhook_never_processed [OF refused this signed_event(1) refl subset_refl]
  show ?thesis using webhook_refused(4) [OF refused] by blast
qed

text \<open>
  Code bug: a payment that succeeds after a failed attempt is lost.  The gateway lets the user
  try again on the same order; the event of the failed attempt makes the deposit FAILED, and when
  the capture of the second attempt arrives, whatever its payment id and amount, it is answered
  FAILED and changes nothing.
\<close>

theorem late_capture_not_credited:
  assumes "event_type failed = ''payment.failed''" and "event_type captured \<in> {''payment.captured'', ''order.paid''}"
    and "parsePaymentEntity (json_field ''payload'' (Some failed)) = Some p"
    and "parsePaymentEntity (json_field ''payload'' (Some captured)) = Some p'" and "pp_order p' = pp_order p"
    and "open_order (pp_order p) s d" and "process_event D failed s = (Inr x, t)"
  shows "process_event D captured t =
    (Inr \<lparr>wr_duplicate = False, wr_status = Some (Deposit_Status INR_FAILED)\<rparr>, t)"
proof -
  have d: "findDepositByOrderId RAZORPAY_PROVIDER_ID (pp_order p) s = Some d" "inr_status d \<noteq> INR_SUCCESS"
    using assms(6) by (auto simp: open_order_def)
  have "\<exists>r. markPaymentFailed p s = (Inr r, t)"
    using assms(1,3,7) by (auto simp: process_event_def svc_simps Let_def split: prod.splits sum.splits)
  then obtain f t1 where f: "markFailed_d (inr_id d) (pp_payment p) s = (Inr f, t1)"
      and t: "inr_transactions t = inr_transactions t1"
    using d by (auto simp: markPaymentFailed_def svc_simps audit_deposit_def recordAudit_def
        split: prod.splits sum.splits)
  obtain d' where "findDepositByOrderId RAZORPAY_PROVIDER_ID (pp_order p) t1 = Some d'" "inr_status d' = INR_FAILED"
    using markFailed_run [OF f d(1) refl] by blast
  then have "settleCapturedPayment D p' t = (Inr (Deposit_Status INR_FAILED), t)"
    using t assms(5) by (simp add: settleCapturedPayment_def findDepositByOrderId_def svc_simps)
  then show ?thesis using assms(2,4) by (auto simp: process_event_def svc_simps Let_def)
qed

theorem late_capture_not_credited_witness:
  "\<exists>t. process_event exact (payment_body ''payment.captured'') t =
     (Inr \<lparr>wr_duplicate = False, wr_status = Some (Deposit_Status INR_FAILED)\<rparr>, t)"
proof -
  let ?run = "process_event exact (payment_body ''payment.failed'') order_db"
  have "\<not> isl (fst ?run)" by code_simp
  then obtain x t where run: "?run = (Inr x, t)" by (rule run_Inr)
  have failed: "parsePaymentEntity (json_field ''payload'' (Some (payment_body ''payment.failed''))) =
      Some \<lparr>pp_payment = ''pay_1'', pp_order = ''order_00ff'', pp_paise = 20000\<rparr>"
    "event_type (payment_body ''payment.failed'') = ''payment.failed''" by code_simp+
  show ?thesis
    using late_capture_not_credited [OF failed(2) _ failed(1) signed_event(3) _ _ run] signed_event(2) order_row(1)
    by auto
qed

section \<open>The export\<close>

text \<open>
  The CSV export can be read back: whatever commas, quotes and line breaks the references of
  the users hold, a reader of comma-separated text gets the header and exactly the cells of the rows
  that match the filter.
\<close>

theorem csv_export_roundtrip:
  "\<exists>text t. adminExportDepositsCsv q actor s = (Inr text, t) \<and>
     csv_read text = csv_header # map (csv_cells s) (adminExportDeposits q s) \<and>
     ledger_tables t = ledger_tables s \<and> inr_transactions t = inr_transactions s"
proof -
  let ?text = "join newline (join (CHR '','') csv_header # map (\<lambda>cells. join (CHR '','') (map csvCell cells))
    (map (csv_cells s) (adminExportDeposits q s)))"
  have "map csvCell csv_header = csv_header"
    by (simp add: csv_header_def csvCell_def quote_char_def newline_def)
  then have written: "?text = join newline (map (\<lambda>cells. join (CHR '','') (map csvCell cells))
      (csv_header # map (csv_cells s) (adminExportDeposits q s)))" by simp
  have "csv_read ?text = csv_header # map (csv_cells s) (adminExportDeposits q s)"
    unfolding csv_read_def written
    by (subst scan_rows) (auto simp: csv_header_def csv_cells_def)
  then show ?thesis
    by (auto simp: adminExportDepositsCsv_def svc_simps writeAdminLog_def ledger_tables_def split: option.splits)
qed

end
