(* ===== verification/Evm_Verifier.thy ===== *)
theory Evm_Verifier
  imports Tables Paging
begin

text \<open>
  Verifying a USDT transfer on an EVM chain: \<open>modules/crypto-deposit/verification\<close> and the networks
  of \<open>crypto-deposit.config.ts\<close>.  The JSON-RPC endpoint is a parameter \<open>rpc url txHash\<close>, which
  gives the receipt and the number of the latest block, or \<open>None\<close> for any failure of the transport.
  Block numbers and amounts are \<open>BigInt\<close>s, that is integers.
\<close>

section \<open>Numbers in text\<close>

text \<open>\<open>BigInt(text)\<close>, which throws (\<open>None\<close>) on text that is no integer.\<close>

definition js_bigint :: "string \<Rightarrow> int option" where
  "js_bigint text =
     (let t = trim text; p = map lowerChar (take 2 t); signed = (\<lambda>x. map_option int (digits_of 10 x))
      in if t = [] then Some 0
         else if p = ''0x'' then map_option int (digits_of 16 (drop 2 t))
         else if p = ''0o'' then map_option int (digits_of 8 (drop 2 t))
         else if p = ''0b'' then map_option int (digits_of 2 (drop 2 t))
         else if hd t = CHR ''-'' then map_option uminus (signed (tl t))
         else if hd t = CHR ''+'' then signed (tl t)
         else signed t)"

text \<open>\<open>Number.parseInt(text, 16)\<close>: the longest prefix of digits, \<open>NaN\<close> (\<open>None\<close>) when there is none.\<close>

definition js_parseInt16 :: "string \<Rightarrow> int option" where
  "js_parseInt16 text =
     (let t = dropWhile white_space text;
          neg = (t \<noteq> [] \<and> hd t = CHR ''-'');
          u = (if t \<noteq> [] \<and> hd t \<in> {CHR ''-'', CHR ''+''} then tl t else t);
          v = (if map lowerChar (take 2 u) = ''0x'' then drop 2 u else u)
      in map_option (\<lambda>n. if neg then - int n else int n) (digits_of 16 (takeWhile (\<lambda>c. digit_value c < 16) v)))"

text \<open>\<open>new Prisma.Decimal(text)\<close> of a number without an exponent; \<open>None\<close> when it throws.\<close>

definition decimal_value :: "string \<Rightarrow> rat option" where
  "decimal_value text =
     (let neg = (text \<noteq> [] \<and> hd text = CHR ''-'');
          body = (if neg then tl text else text);
          whole = takeWhile (\<lambda>c. c \<noteq> CHR ''.'') body;
          frac = drop 1 (dropWhile (\<lambda>c. c \<noteq> CHR ''.'') body)
      in map_option (\<lambda>n. (if neg then -1 else 1) * (of_nat n / 10 ^ length frac)) (digits_of 10 (whole @ frac)))"

section \<open>Networks\<close>

datatype family = EVM | TRON

record network =
  net_chain :: string
  net_family :: family
  net_name :: string
  net_asset :: string
  net_decimals :: int
  net_master :: "string option"
  net_contract :: "string option"
  net_confirmations :: int
  net_rpc :: "string option"
  net_api :: "string option"
  net_api_key :: "string option"

record crypto_config =
  cd_enabled :: bool
  cd_network :: "string \<Rightarrow> network"

definition SUPPORTED_CHAINS :: "string list" where
  "SUPPORTED_CHAINS = [''BSC'', ''ETH'', ''TRON'']"

definition isFamilyVerifiable :: "family \<Rightarrow> bool" where
  "isFamilyVerifiable f \<longleftrightarrow> f \<in> {EVM}"

definition isSupportedChain :: "string \<Rightarrow> bool" where
  "isSupportedChain c \<longleftrightarrow> c \<in> set SUPPORTED_CHAINS"

definition getNetwork :: "crypto_config \<Rightarrow> string \<Rightarrow> network option" where
  "getNetwork cfg c = (if \<not> isSupportedChain c then None else Some (cd_network cfg c))"

text \<open>An empty setting is falsy.\<close>

definition truthy :: "string option \<Rightarrow> bool" where
  "truthy x \<longleftrightarrow> x \<noteq> None \<and> x \<noteq> Some []"

definition isNetworkConfigured :: "network \<Rightarrow> bool" where
  "isNetworkConfigured n \<longleftrightarrow>
     (let endpoint = (if net_family n = EVM then net_rpc n else net_api n)
      in truthy (net_master n) \<and> truthy (net_contract n) \<and> truthy endpoint)"

definition isNetworkEnabled :: "crypto_config \<Rightarrow> network \<Rightarrow> bool" where
  "isNetworkEnabled cfg n \<longleftrightarrow> cd_enabled cfg \<and> isNetworkConfigured n \<and> isFamilyVerifiable (net_family n)"

record public_network =
  pn_chain :: string
  pn_asset :: string
  pn_label :: string
  pn_master :: "string option"
  pn_confirmations :: int
  pn_decimals :: int
  pn_enabled :: bool

definition toPublicNetwork :: "crypto_config \<Rightarrow> network \<Rightarrow> public_network" where
  "toPublicNetwork cfg n =
     (let enabled = isNetworkEnabled cfg n
      in \<lparr>pn_chain = net_chain n, pn_asset = net_asset n, pn_label = net_name n,
          pn_master = (if enabled then net_master n else None), pn_confirmations = net_confirmations n,
          pn_decimals = net_decimals n, pn_enabled = enabled\<rparr>)"

definition listEnabledPublicNetworks :: "crypto_config \<Rightarrow> public_network list" where
  "listEnabledPublicNetworks cfg =
     filter pn_enabled (map (toPublicNetwork cfg) (List.map_filter (getNetwork cfg) SUPPORTED_CHAINS))"

section \<open>Evaluating a receipt\<close>

record evm_log =
  log_address :: "string option"
  log_topics :: "string list option"
  log_data :: "string option"
  log_index :: "string option"

text \<open>The status is absent (\<open>None\<close>), \<open>null\<close> (\<open>Some None\<close>) or a text; only an absent one passes unread.\<close>

record evm_receipt =
  rc_status :: "string option option"
  rc_block :: "string option"
  rc_logs :: "evm_log list option"

definition TRANSFER_TOPIC :: string where
  "TRANSFER_TOPIC = ''0xddf252ad1be2c89b69c2b068fc378daa952ba7f163c4a11628f55a4df523b3ef''"

definition norm :: "string option \<Rightarrow> string" where
  "norm addr = toLowerCase (trim (case addr of None \<Rightarrow> [] | Some a \<Rightarrow> a))"

definition topicToAddress :: "string \<Rightarrow> string" where
  "topicToAddress topic = toLowerCase (''0x'' @ slice_last 40 topic)"

definition drop_zeros :: "string \<Rightarrow> string" where
  "drop_zeros x = rev (dropWhile (\<lambda>c. c = CHR ''0'') (rev x))"

definition formatUnits :: "int \<Rightarrow> int \<Rightarrow> string" where
  "formatUnits value decimals =
     (if decimals \<le> 0 then int_text value
      else
        let neg = value < 0; d = nat decimals;
            digits = padStart (d + 1) (int_text (if neg then - value else value));
            whole = take (length digits - d) digits;
            frac = drop_zeros (drop (length digits - d) digits)
        in (if neg then ''-'' else []) @ whole @ (if frac \<noteq> [] then CHR ''.'' # frac else []))"

text \<open>An index that is not a hexadecimal number reads as \<open>NaN\<close>.\<close>

datatype log_position = No_Index | Log_Index int | Not_A_Number

record master_transfer =
  mt_from :: string
  mt_to :: string
  mt_value :: int
  mt_log :: log_position

definition matches_master :: "string \<Rightarrow> string \<Rightarrow> evm_log \<Rightarrow> bool" where
  "matches_master contract master lg \<longleftrightarrow>
     norm (log_address lg) = contract \<and>
     (let topics = (case log_topics lg of None \<Rightarrow> [] | Some ts \<Rightarrow> ts)
      in 3 \<le> length topics \<and> norm (Some (topics ! 0)) = TRANSFER_TOPIC \<and> topicToAddress (topics ! 2) = master)"

definition transfer_value :: "evm_log \<Rightarrow> int option" where
  "transfer_value lg =
     js_bigint (case log_data lg of None \<Rightarrow> ''0x0'' | Some d \<Rightarrow> if d \<noteq> [] \<and> d \<noteq> ''0x'' then d else ''0x0'')"

fun first_transfer :: "string \<Rightarrow> string \<Rightarrow> evm_log list \<Rightarrow> master_transfer option" where
  "first_transfer contract master [] = None"
| "first_transfer contract master (lg # lgs) =
     (if \<not> matches_master contract master lg then first_transfer contract master lgs
      else case transfer_value lg of
        None \<Rightarrow> first_transfer contract master lgs
      | Some v \<Rightarrow> Some \<lparr>mt_from = topicToAddress (the (log_topics lg) ! 1), mt_to = master, mt_value = v,
          mt_log = (case log_index lg of None \<Rightarrow> No_Index
            | Some i \<Rightarrow> (case js_parseInt16 i of None \<Rightarrow> Not_A_Number | Some n \<Rightarrow> Log_Index n))\<rparr>)"

definition findMasterTransfer :: "evm_log list \<Rightarrow> string \<Rightarrow> string \<Rightarrow> master_transfer option" where
  "findMasterTransfer logs tokenContract masterAddress =
     first_transfer (norm (Some tokenContract)) (norm (Some masterAddress)) logs"

datatype outcome = CONFIRMED | PENDING | REJECTED | PROVIDER_NOT_CONFIGURED | PROVIDER_ERROR

record verification =
  vr_outcome :: outcome
  vr_amount :: "string option"
  vr_from :: "string option"
  vr_confirmations :: "int option"
  vr_log :: log_position
  vr_reason :: "string option"

definition verdict :: "outcome \<Rightarrow> string \<Rightarrow> verification" where
  "verdict out reason = \<lparr>vr_outcome = out, vr_amount = None, vr_from = None, vr_confirmations = None,
     vr_log = No_Index, vr_reason = Some reason\<rparr>"

text \<open>\<open>None\<close> when a block number is no integer and the evaluation throws.\<close>

definition evaluateEvmReceipt :: "evm_receipt option \<Rightarrow> int \<Rightarrow> network \<Rightarrow> verification option" where
  "evaluateEvmReceipt receipt latestBlock n =
     (if \<not> truthy (net_master n) \<or> \<not> truthy (net_contract n)
      then Some (verdict PROVIDER_NOT_CONFIGURED ''provider_not_configured'')
      else case receipt of
        None \<Rightarrow> Some (verdict PENDING ''transaction_not_found_yet'' \<lparr>vr_confirmations := Some 0\<rparr>)
      | Some rc \<Rightarrow>
          if rc_status rc \<noteq> None \<and> rc_status rc \<noteq> Some (Some ''0x1'') then Some (verdict REJECTED ''transaction_failed'')
          else case findMasterTransfer (case rc_logs rc of None \<Rightarrow> [] | Some ls \<Rightarrow> ls)
                 (the (net_contract n)) (the (net_master n)) of
            None \<Rightarrow> Some (verdict REJECTED ''no_matching_usdt_transfer_to_master'')
          | Some tr \<Rightarrow>
              if mt_value tr \<le> 0 then Some (verdict REJECTED ''zero_amount'')
              else case (if truthy (rc_block rc) then js_bigint (the (rc_block rc)) else Some latestBlock) of
                None \<Rightarrow> None
              | Some txBlock \<Rightarrow>
                  let confirmations = (if txBlock < latestBlock then latestBlock - txBlock else 0);
                      confirmed = net_confirmations n \<le> confirmations
                  in Some \<lparr>vr_outcome = (if confirmed then CONFIRMED else PENDING),
                       vr_amount = Some (formatUnits (mt_value tr) (net_decimals n)),
                       vr_from = Some (mt_from tr), vr_confirmations = Some confirmations, vr_log = mt_log tr,
                       vr_reason = (if confirmed then None else Some ''awaiting_confirmations'')\<rparr>)"

type_synonym rpc_endpoint = "string \<Rightarrow> string \<Rightarrow> (evm_receipt option \<times> string option) option"

definition evm_verifyTx :: "rpc_endpoint \<Rightarrow> network \<Rightarrow> string \<Rightarrow> verification" where
  "evm_verifyTx rpc n txHash =
     (if \<not> isNetworkConfigured n \<or> \<not> truthy (net_rpc n)
      then verdict PROVIDER_NOT_CONFIGURED ''provider_not_configured''
      else
        let failed = verdict PROVIDER_ERROR ''provider_error''
        in case rpc (the (net_rpc n)) txHash of
             None \<Rightarrow> failed
           | Some (receipt, latestHex) \<Rightarrow>
               (case (if truthy latestHex then js_bigint (the latestHex) else Some 0) of
                  None \<Rightarrow> failed
                | Some latestBlock \<Rightarrow>
                    (case evaluateEvmReceipt receipt latestBlock n of None \<Rightarrow> failed | Some v \<Rightarrow> v)))"

definition verifyTx :: "rpc_endpoint \<Rightarrow> network \<Rightarrow> string \<Rightarrow> verification" where
  "verifyTx rpc n txHash =
     (if net_family n = EVM then evm_verifyTx rpc n txHash
      else verdict PROVIDER_NOT_CONFIGURED ''tron_verification_not_available_in_v1'')"

end
