(* ===== verification/Crypto_Deposit.thy ===== *)
theory Crypto_Deposit
  imports Evm_Verifier
begin

text \<open>
  Deposits of USDT to the master wallet: \<open>modules/crypto-deposit\<close>.  The user names a transaction;
  the service stores the claim under the unique pair of chain and hash, asks the chain, and credits
  the user when the transfer has enough confirmations.  Resubmitting and an admin's recheck ask
  again.  Between reading the row and acting on the answer a call waits for the chain, so
  \<open>process_result\<close> is a definition of its own: it acts on the row as it was read.
\<close>

section \<open>Data transfer objects\<close>

definition DEPOSIT_ASSET :: string where "DEPOSIT_ASSET = ''USDT''"
definition MASTER_REFERENCE_TYPE :: string where "MASTER_REFERENCE_TYPE = ''master_wallet_deposit''"
definition CREDIT_KIND :: string where "CREDIT_KIND = ''CRYPTO_DEPOSIT_CREDIT''"

fun STATUS_WIRE :: "master_deposit_status \<Rightarrow> string" where
  "STATUS_WIRE MD_SUBMITTED = ''submitted''"
| "STATUS_WIRE MD_PENDING_CONFIRMATION = ''pending_confirmation''"
| "STATUS_WIRE MD_CONFIRMED = ''confirmed''"
| "STATUS_WIRE MD_REJECTED = ''rejected''"
| "STATUS_WIRE MD_DUPLICATE = ''duplicate''"
| "STATUS_WIRE MD_FAILED = ''failed''"

record master_deposit_dto =
  mdd_id :: nat
  mdd_asset :: string
  mdd_chain :: string
  mdd_master :: string
  mdd_from :: "string option"
  mdd_tx :: string
  mdd_amount :: rat
  mdd_confirmations :: int
  mdd_min :: "int option"
  mdd_status :: string
  mdd_reason :: "string option"
  mdd_credited :: "nat option"
  mdd_created :: nat
  mdd_updated :: nat

definition toMasterDepositDto :: "master_deposit \<Rightarrow> int option \<Rightarrow> master_deposit_dto" where
  "toMasterDepositDto r minConfirmations =
     \<lparr>mdd_id = md_id r, mdd_asset = md_asset r, mdd_chain = md_chain r, mdd_master = md_master r,
      mdd_from = md_from r, mdd_tx = md_tx r, mdd_amount = md_amount r,
      mdd_confirmations = md_confirmations r, mdd_min = minConfirmations,
      mdd_status = STATUS_WIRE (md_status r), mdd_reason = md_reason r, mdd_credited = md_credited_at r,
      mdd_created = md_created r, mdd_updated = md_updated r\<rparr>"

record admin_master_deposit_dto =
  amd_deposit :: master_deposit_dto
  amd_user :: nat
  amd_email :: "string option"

definition toAdminMasterDepositDto ::
  "master_deposit \<Rightarrow> string option \<Rightarrow> int option \<Rightarrow> admin_master_deposit_dto" where
  "toAdminMasterDepositDto r email minConfirmations =
     \<lparr>amd_deposit = toMasterDepositDto r minConfirmations, amd_user = md_user r, amd_email = email\<rparr>"

definition normalizeTxHash :: "string \<Rightarrow> string \<Rightarrow> string" where
  "normalizeTxHash chain txHash =
     (let t = trim txHash in if chain = ''TRON'' then t else toLowerCase t)"

definition isUniqueViolation :: "err \<Rightarrow> bool" where
  "isUniqueViolation e \<longleftrightarrow> e = PrismaError ''P2002''"

section \<open>The repository\<close>

definition put_master_deposits :: "master_deposit list \<Rightarrow> db \<Rightarrow> db" where
  "put_master_deposits rs s = s\<lparr>master_deposits := rs\<rparr>"

definition findByChainTxHash :: "string \<Rightarrow> string \<Rightarrow> db \<Rightarrow> master_deposit option" where
  "findByChainTxHash chain txHash s =
     find (\<lambda>r. md_chain r = chain \<and> md_tx r = txHash) (master_deposits s)"

definition findById_md :: "nat \<Rightarrow> db \<Rightarrow> master_deposit option" where
  "findById_md i s = find (\<lambda>r. md_id r = i) (master_deposits s)"

text \<open>The insert meets the unique index on chain and hash.\<close>

definition create_md ::
  "nat \<Rightarrow> string \<Rightarrow> string \<Rightarrow> string \<Rightarrow> string \<Rightarrow> (db, master_deposit) svc" where
  "create_md userId asset chain master txHash =
     bindS (readS (findByChainTxHash chain txHash)) (\<lambda>taken.
     bindS (requireS (taken = None) (PrismaError ''P2002'')) (\<lambda>_.
     bindS fresh_uuid (\<lambda>i.
     bindS (readS now) (\<lambda>t.
     let r = \<lparr>md_id = i, md_user = userId, md_asset = asset, md_chain = chain, md_master = master,
              md_from = None, md_tx = txHash, md_log = None, md_amount = 0, md_confirmations = 0,
              md_status = MD_SUBMITTED, md_reason = None, md_txn = None, md_credited_at = None,
              md_created = t, md_updated = t\<rparr>
     in bindS (writeS (\<lambda>s. put_master_deposits (master_deposits s @ [r]) s)) (\<lambda>_. returnS r)))))"

definition update_md :: "nat \<Rightarrow> (master_deposit \<Rightarrow> master_deposit) \<Rightarrow> (db, master_deposit) svc" where
  "update_md i upd =
     bindS (readS now) (\<lambda>t.
     update_one md_id master_deposits put_master_deposits (\<lambda>_. True) ''master_wallet_deposits'' i
       (\<lambda>r. upd r\<lparr>md_updated := t\<rparr>))"

text \<open>What the client makes of a log index and of an amount; both may throw.\<close>

definition log_column :: "log_position \<Rightarrow> (db, int option) svc" where
  "log_column p = (case p of No_Index \<Rightarrow> returnS None | Log_Index n \<Rightarrow> returnS (Some n)
     | Not_A_Number \<Rightarrow> throwS (JsError ''PrismaClientValidationError''))"

definition to_decimal :: "string \<Rightarrow> (db, rat) svc" where
  "to_decimal text = (case decimal_value text of None \<Rightarrow> throwS (JsError ''DecimalError'') | Some x \<Rightarrow> returnS x)"

definition markCredited_md ::
  "nat \<Rightarrow> nat \<Rightarrow> rat \<Rightarrow> int \<Rightarrow> string option \<Rightarrow> int option \<Rightarrow> (db, nat) svc" where
  "markCredited_md i txn amount confirmations sender logIndex =
     bindS (readS now) (\<lambda>t.
     update_many md_id master_deposits put_master_deposits (\<lambda>_. True) ''master_wallet_deposits'' i
       (\<lambda>r. md_status r \<noteq> MD_CONFIRMED)
       (\<lambda>r. r\<lparr>md_status := MD_CONFIRMED, md_txn := Some txn, md_credited_at := Some t, md_amount := amount,
              md_confirmations := confirmations, md_from := sender, md_log := logIndex,
              md_reason := None, md_updated := t\<rparr>))"

text \<open>\<open>cursor: { id }, skip: 1\<close>: the rows behind the one with the id of the cursor.\<close>

definition find_page_after :: "master_deposit list \<Rightarrow> nat option \<Rightarrow> nat \<Rightarrow> master_deposit list" where
  "find_page_after rows cursor limit =
     (let sorted = rev (sort_key md_created rows)
      in take (limit + 1) (case cursor of None \<Rightarrow> sorted
           | Some c \<Rightarrow> drop 1 (dropWhile (\<lambda>r. md_id r \<noteq> c) sorted)))"

definition listForUser_md_rows ::
  "nat \<Rightarrow> master_deposit_status option \<Rightarrow> string option \<Rightarrow> nat option \<Rightarrow> nat \<Rightarrow> db \<Rightarrow> master_deposit list" where
  "listForUser_md_rows userId status chain cursor limit s =
     find_page_after (filter (\<lambda>r. md_user r = userId \<and> (status = None \<or> status = Some (md_status r)) \<and>
       (chain = None \<or> chain = Some (md_chain r))) (master_deposits s)) cursor limit"

record master_deposit_filter =
  mf_status :: "master_deposit_status option"
  mf_chain :: "string option"
  mf_user :: "nat option"
  mf_tx :: "string option"
  mf_from :: "nat option"
  mf_to :: "nat option"

definition listForAdmin_rows ::
  "master_deposit_filter \<Rightarrow> nat option \<Rightarrow> nat \<Rightarrow> db \<Rightarrow> master_deposit list" where
  "listForAdmin_rows q cursor limit s =
     find_page_after (filter (\<lambda>r. (mf_status q = None \<or> mf_status q = Some (md_status r)) \<and>
       (mf_chain q = None \<or> mf_chain q = Some (md_chain r)) \<and> (mf_user q = None \<or> mf_user q = Some (md_user r)) \<and>
       (mf_tx q = None \<or> mf_tx q = Some (md_tx r)) \<and>
       (case mf_from q of None \<Rightarrow> True | Some t \<Rightarrow> t \<le> md_created r) \<and>
       (case mf_to q of None \<Rightarrow> True | Some t \<Rightarrow> md_created r \<le> t)) (master_deposits s)) cursor limit"

definition user_email_of :: "nat \<Rightarrow> db \<Rightarrow> string option" where
  "user_email_of u s = map_option user_email (find (\<lambda>x. user_id x = u) (users s))"

definition upsertNetworkConfig :: "network_config \<Rightarrow> (db, unit) svc" where
  "upsertNetworkConfig c = writeS (\<lambda>s.
     let same = (\<lambda>x. nc_asset x = nc_asset c \<and> nc_chain x = nc_chain c)
     in s\<lparr>network_configs :=
          (if \<exists>x \<in> set (network_configs s). same x
           then map (\<lambda>x. if same x then c else x) (network_configs s) else network_configs s @ [c])\<rparr>)"

section \<open>Crediting\<close>

definition crypto_credit :: "master_deposit \<Rightarrow> rat \<Rightarrow> posting_input" where
  "crypto_credit d amount =
     \<lparr>post_kind = CREDIT_KIND, post_reference_type = Some MASTER_REFERENCE_TYPE,
      post_reference_id = Some (md_id d),
      post_lines =
        [\<lparr>line_user = None, line_asset = DEPOSIT_ASSET, line_kind = SWEEP_CLEARING, line_direction = DEBIT,
          line_amount = amount\<rparr>,
         \<lparr>line_user = Some (md_user d), line_asset = DEPOSIT_ASSET, line_kind = USER_AVAILABLE,
          line_direction = CREDIT, line_amount = amount\<rparr>]\<rparr>"

definition or_zero :: "int option \<Rightarrow> int" where
  "or_zero x = (case x of None \<Rightarrow> 0 | Some n \<Rightarrow> n)"

definition audit_md :: "actor_type \<Rightarrow> nat option \<Rightarrow> string \<Rightarrow> nat \<Rightarrow> (db, unit) svc" where
  "audit_md actorType actor action i =
     recordAudit actorType actor action (Some MASTER_REFERENCE_TYPE) (Some i)"

definition creditDeposit ::
  "rounding \<Rightarrow> master_deposit \<Rightarrow> verification \<Rightarrow> nat option \<Rightarrow> (db, master_deposit) svc" where
  "creditDeposit D deposit result actorId =
     bindS (case vr_amount result of None \<Rightarrow> returnS None | Some [] \<Rightarrow> returnS None
       | Some a \<Rightarrow> bindS (to_decimal a) (\<lambda>x. returnS (if x \<le> 0 then None else Some x))) (\<lambda>positive.
     case positive of
       None \<Rightarrow> update_md (md_id deposit) (\<lambda>r. r\<lparr>md_status := MD_REJECTED, md_reason := Some ''zero_amount''\<rparr>)
     | Some amount \<Rightarrow>
         bindS (post D (crypto_credit deposit amount) (Some (md_user deposit))) (\<lambda>posted.
         bindS (log_column (vr_log result)) (\<lambda>logIndex.
         bindS (markCredited_md (md_id deposit) (posted_id posted) amount
           (or_zero (vr_confirmations result)) (vr_from result) logIndex) (\<lambda>count.
         bindS (whenS (count = 1) (audit_md (if actorId = None then ACTOR_SYSTEM else ACTOR_ADMIN) actorId
           ''crypto_deposit.credited'' (md_id deposit))) (\<lambda>_.
         bindS (readS (findById_md (md_id deposit))) (\<lambda>fresh.
         returnS (case fresh of None \<Rightarrow> deposit | Some r \<Rightarrow> r)))))))"

text \<open>What follows the answer of the chain.\<close>

definition process_result ::
  "rounding \<Rightarrow> master_deposit \<Rightarrow> verification \<Rightarrow> nat option \<Rightarrow> (db, master_deposit) svc" where
  "process_result D deposit result actorId =
     (case vr_outcome result of
        CONFIRMED \<Rightarrow> creditDeposit D deposit result actorId
      | PENDING \<Rightarrow>
          bindS (case vr_amount result of None \<Rightarrow> returnS None | Some [] \<Rightarrow> returnS None
            | Some a \<Rightarrow> bindS (to_decimal a) (\<lambda>x. returnS (Some x))) (\<lambda>amount.
          bindS (log_column (vr_log result)) (\<lambda>logIndex.
          update_md (md_id deposit) (\<lambda>r. r\<lparr>md_status := MD_PENDING_CONFIRMATION,
            md_confirmations := or_zero (vr_confirmations result),
            md_amount := (case amount of None \<Rightarrow> md_amount r | Some x \<Rightarrow> x),
            md_from := vr_from result, md_log := logIndex, md_reason := None\<rparr>)))
      | REJECTED \<Rightarrow>
          update_md (md_id deposit) (\<lambda>r. r\<lparr>md_status := MD_REJECTED,
            md_reason := Some (case vr_reason result of None \<Rightarrow> ''verification_failed'' | Some x \<Rightarrow> x)\<rparr>)
      | _ \<Rightarrow>
          update_md (md_id deposit) (\<lambda>r. r\<lparr>md_status := MD_FAILED,
            md_reason := Some (case vr_reason result of None \<Rightarrow> ''provider_error'' | Some x \<Rightarrow> x)\<rparr>))"

definition verifyAndProcess ::
  "rounding \<Rightarrow> crypto_config \<Rightarrow> rpc_endpoint \<Rightarrow> master_deposit \<Rightarrow> nat option \<Rightarrow> (db, master_deposit) svc" where
  "verifyAndProcess D cfg rpc deposit actorId =
     (if md_status deposit = MD_CONFIRMED then returnS deposit
      else case getNetwork cfg (md_chain deposit) of
        None \<Rightarrow> update_md (md_id deposit) (\<lambda>r. r\<lparr>md_status := MD_FAILED, md_reason := Some ''provider_not_configured''\<rparr>)
      | Some n \<Rightarrow>
          if \<not> isNetworkConfigured n
          then update_md (md_id deposit) (\<lambda>r. r\<lparr>md_status := MD_FAILED, md_reason := Some ''provider_not_configured''\<rparr>)
          else process_result D deposit (verifyTx rpc n (md_tx deposit)) actorId)"

section \<open>Submitting\<close>

text \<open>Up to the verification: \<open>Inl\<close> with the row to verify, or the answer.\<close>

definition handleExisting_check ::
  "master_deposit \<Rightarrow> nat \<Rightarrow> network \<Rightarrow> master_deposit + master_deposit_dto" where
  "handleExisting_check existing userId n =
     (if md_user existing \<noteq> userId
      then Inr \<lparr>mdd_id = md_id existing, mdd_asset = DEPOSIT_ASSET, mdd_chain = md_chain existing,
             mdd_master = (case net_master n of None \<Rightarrow> md_master existing | Some a \<Rightarrow> a), mdd_from = None,
             mdd_tx = md_tx existing, mdd_amount = 0, mdd_confirmations = 0, mdd_min = Some (net_confirmations n),
             mdd_status = ''duplicate'', mdd_reason = Some ''This transaction has already been submitted'',
             mdd_credited = None, mdd_created = md_created existing, mdd_updated = md_updated existing\<rparr>
      else Inl existing)"

definition submit_check ::
  "crypto_config \<Rightarrow> nat \<Rightarrow> string \<Rightarrow> string \<Rightarrow> (db, network \<times> (master_deposit + master_deposit_dto)) svc" where
  "submit_check cfg userId chain hash =
     bindS (requireS (cd_enabled cfg) (AppError 422 ''CRYPTO_DEPOSITS_DISABLED'')) (\<lambda>_.
     case getNetwork cfg chain of
       None \<Rightarrow> throwS BadRequestError
     | Some n \<Rightarrow>
         bindS (requireS (isNetworkEnabled cfg n \<and> truthy (net_master n)) (AppError 422 ''NETWORK_NOT_AVAILABLE'')) (\<lambda>_.
         let txHash = normalizeTxHash chain hash
         in bindS (readS (findByChainTxHash chain txHash)) (\<lambda>existing.
            case existing of
              Some r \<Rightarrow> returnS (n, handleExisting_check r userId n)
            | None \<Rightarrow>
                catchS
                  (bindS (create_md userId DEPOSIT_ASSET chain (the (net_master n)) txHash) (\<lambda>deposit.
                   bindS (audit_md ACTOR_USER (Some userId) ''crypto_deposit.submit'' (md_id deposit)) (\<lambda>_.
                   returnS (n, Inl deposit))))
                  (\<lambda>e. if isUniqueViolation e
                       then bindS (readS (findByChainTxHash chain txHash)) (\<lambda>row.
                            case row of None \<Rightarrow> throwS e | Some r \<Rightarrow> returnS (n, handleExisting_check r userId n))
                       else throwS e))))"

definition submit ::
  "rounding \<Rightarrow> crypto_config \<Rightarrow> rpc_endpoint \<Rightarrow> nat \<Rightarrow> string \<Rightarrow> string \<Rightarrow> (db, master_deposit_dto) svc" where
  "submit D cfg rpc userId chain hash =
     bindS (submit_check cfg userId chain hash) (\<lambda>(n, res).
     case res of
       Inr dto \<Rightarrow> returnS dto
     | Inl deposit \<Rightarrow>
         bindS (verifyAndProcess D cfg rpc deposit None) (\<lambda>processed.
         returnS (toMasterDepositDto processed (Some (net_confirmations n)))))"

section \<open>Reading and rechecking\<close>

definition min_confirmations :: "crypto_config \<Rightarrow> string \<Rightarrow> int option" where
  "min_confirmations cfg chain = map_option net_confirmations (getNetwork cfg chain)"

definition listForUser_md ::
  "crypto_config \<Rightarrow> nat \<Rightarrow> master_deposit_status option \<Rightarrow> string option \<Rightarrow> nat option \<Rightarrow> nat \<Rightarrow>
    (db, master_deposit_dto list \<times> nat option) svc" where
  "listForUser_md cfg userId status chain cursor limit = readS (\<lambda>s.
     let (slice, nextCursor) = page_last md_id (listForUser_md_rows userId status chain cursor limit s) limit
     in (map (\<lambda>r. toMasterDepositDto r (min_confirmations cfg (md_chain r))) slice, nextCursor))"

definition adminList_md ::
  "crypto_config \<Rightarrow> master_deposit_filter \<Rightarrow> nat option \<Rightarrow> nat \<Rightarrow>
    (db, admin_master_deposit_dto list \<times> nat option) svc" where
  "adminList_md cfg q cursor limit = readS (\<lambda>s.
     let hash = (case mf_tx q of None \<Rightarrow> None | Some [] \<Rightarrow> None
           | Some h \<Rightarrow> Some (normalizeTxHash (case mf_chain q of None \<Rightarrow> ''ETH'' | Some c \<Rightarrow> c) h));
         (slice, nextCursor) = page_last md_id (listForAdmin_rows (q\<lparr>mf_tx := hash\<rparr>) cursor limit s) limit
     in (map (\<lambda>r. toAdminMasterDepositDto r (user_email_of (md_user r) s) (min_confirmations cfg (md_chain r))) slice,
         nextCursor))"

definition adminGet_md :: "crypto_config \<Rightarrow> nat \<Rightarrow> (db, admin_master_deposit_dto) svc" where
  "adminGet_md cfg i =
     bindS (readS (findById_md i)) (\<lambda>found.
     case found of
       None \<Rightarrow> throwS not_found
     | Some r \<Rightarrow> readS (\<lambda>s. toAdminMasterDepositDto r (user_email_of (md_user r) s) (min_confirmations cfg (md_chain r))))"

definition adminRecheck ::
  "rounding \<Rightarrow> crypto_config \<Rightarrow> rpc_endpoint \<Rightarrow> nat \<Rightarrow> nat option \<Rightarrow> (db, admin_master_deposit_dto) svc" where
  "adminRecheck D cfg rpc i actorId =
     bindS (readS (findById_md i)) (\<lambda>found.
     case found of
       None \<Rightarrow> throwS not_found
     | Some deposit \<Rightarrow>
         bindS (verifyAndProcess D cfg rpc deposit actorId) (\<lambda>_.
         bindS (case actorId of None \<Rightarrow> returnS ()
           | Some a \<Rightarrow> writeAdminLog a ''crypto_deposit.recheck'' (Some MASTER_REFERENCE_TYPE) (Some i)) (\<lambda>_.
         bindS (audit_md ACTOR_ADMIN actorId ''crypto_deposit.recheck'' i) (\<lambda>_.
         adminGet_md cfg i))))"

definition listNetworks :: "crypto_config \<Rightarrow> bool \<times> public_network list" where
  "listNetworks cfg = (cd_enabled cfg, listEnabledPublicNetworks cfg)"

definition seedNetworkConfigs :: "crypto_config \<Rightarrow> (db, unit) svc" where
  "seedNetworkConfigs cfg =
     bindS (mapS (\<lambda>chain. case getNetwork cfg chain of
         None \<Rightarrow> returnS ()
       | Some n \<Rightarrow> upsertNetworkConfig \<lparr>nc_asset = net_asset n, nc_chain = net_chain n, nc_name = net_name n,
           nc_master = net_master n, nc_contract = net_contract n, nc_decimals = net_decimals n,
           nc_confirmations = net_confirmations n, nc_enabled = pn_enabled (toPublicNetwork cfg n)\<rparr>)
       SUPPORTED_CHAINS) (\<lambda>_. returnS ())"

lemmas crypto_deposit_code [code] =
  fun_cong [OF create_md_def, unfolded run_code]
  fun_cong [OF update_md_def, unfolded run_code]
  fun_cong [OF log_column_def, unfolded run_code]
  fun_cong [OF to_decimal_def, unfolded run_code]
  fun_cong [OF markCredited_md_def, unfolded run_code]
  fun_cong [OF creditDeposit_def, unfolded run_code]
  fun_cong [OF process_result_def, unfolded run_code]
  fun_cong [OF verifyAndProcess_def, unfolded run_code]
  fun_cong [OF submit_check_def, unfolded run_code]
  fun_cong [OF submit_def, unfolded run_code]
  fun_cong [OF adminRecheck_def, unfolded run_code]

end
