(* ===== verification/Crypto_Deposit_Laws.thy ===== *)
theory Crypto_Deposit_Laws
  imports Crypto_Deposit
begin

text \<open>
  What the table of master-wallet deposits promises whatever calls come in whatever order, each call
  split where it waits for the chain: no transaction is claimed twice, a confirmed deposit is in the
  ledger, and the balances move by one credit for every deposit newly credited.
\<close>

section \<open>The table\<close>

interpretation md_rows: table md_id master_deposits put_master_deposits "\<lambda>_. True" "''master_wallet_deposits''"
  by unfold_locales (simp_all add: put_master_deposits_def ledger_tables_def)

abbreviation md_credited :: "nat \<Rightarrow> db \<Rightarrow> bool" where
  "md_credited \<equiv> posted_as MASTER_REFERENCE_TYPE"

definition md_ok :: "db \<Rightarrow> master_deposit \<Rightarrow> bool" where
  "md_ok s r \<longleftrightarrow> (md_status r = MD_CONFIRMED \<longrightarrow> md_credited (md_id r) s \<and> md_txn r \<noteq> None)"

definition master_state :: "db \<Rightarrow> bool" where
  "master_state s \<longleftrightarrow> ledger_inv s \<and> distinct (map md_id (master_deposits s)) \<and>
     distinct (map (\<lambda>r. (md_chain r, md_tx r)) (master_deposits s)) \<and>
     (\<forall>i. md_credited i s \<longrightarrow> i < next_uuid s) \<and>
     (\<forall>r \<in> set (master_deposits s). md_id r < next_uuid s \<and> md_ok s r)"

text \<open>What is fixed when a claim is stored.\<close>

definition md_same :: "master_deposit \<Rightarrow> master_deposit \<Rightarrow> bool" where
  "md_same d r \<longleftrightarrow> md_id r = md_id d \<and> md_user r = md_user d \<and> md_asset r = md_asset d \<and>
     md_chain r = md_chain d \<and> md_master r = md_master d \<and> md_tx r = md_tx d"

definition md_known :: "master_deposit \<Rightarrow> db \<Rightarrow> bool" where
  "md_known d s \<longleftrightarrow> (\<exists>x \<in> set (master_deposits s). md_same d x)"

text \<open>\<open>cs\<close> are the deposits credited between two states with the amounts they were credited.\<close>

definition md_credits :: "db \<Rightarrow> (master_deposit \<times> rat) list \<Rightarrow> db \<Rightarrow> bool" where
  "md_credits s cs t \<longleftrightarrow> distinct (map (\<lambda>c. md_id (fst c)) cs) \<and>
     (\<forall>i. i \<in> md_id ` fst ` set cs \<longleftrightarrow> md_credited i t \<and> \<not> md_credited i s) \<and>
     (\<forall>c \<in> set cs. md_known (fst c) t \<and> 0 < snd c) \<and>
     (\<forall>v b k. bal t v b k = bal s v b k +
        sum_list (map (\<lambda>c. delta (post_lines (crypto_credit (fst c) (snd c))) v b k) cs))"

definition md_rel :: "db \<Rightarrow> db \<Rightarrow> bool" where
  "md_rel s t \<longleftrightarrow> (\<forall>d. md_known d s \<longrightarrow> md_known d t) \<and> (\<forall>i. md_credited i s \<longrightarrow> md_credited i t) \<and>
     (\<exists>cs. md_credits s cs t)"

lemma md_rel_refl: "md_rel s s"
  by (auto simp: md_rel_def md_credits_def intro!: exI [of _ "[]"])

lemma md_credits_trans:
  assumes "md_rel s t" and "md_rel t u" and cs: "md_credits s cs t" and ds: "md_credits t ds u"
  shows "md_credits s (cs @ ds) u"
  unfolding md_credits_def
proof (intro conjI allI)
  have mono: "md_credited i s \<Longrightarrow> md_credited i t" "md_credited i t \<Longrightarrow> md_credited i u"
    "md_known d t \<Longrightarrow> md_known d u" for i d using assms(1,2) by (auto simp: md_rel_def)
  have ids: "i \<in> md_id ` fst ` set cs \<longleftrightarrow> md_credited i t \<and> \<not> md_credited i s"
    "i \<in> md_id ` fst ` set ds \<longleftrightarrow> md_credited i u \<and> \<not> md_credited i t" for i
    using cs ds by (simp_all add: md_credits_def)
  have "set (map (\<lambda>c. md_id (fst c)) cs) \<inter> set (map (\<lambda>c. md_id (fst c)) ds) = {}"
    using ids by (fastforce simp: image_image)
  then show "distinct (map (\<lambda>c. md_id (fst c)) (cs @ ds))"
    using cs ds by (simp add: md_credits_def)
  show "i \<in> md_id ` fst ` set (cs @ ds) \<longleftrightarrow> md_credited i u \<and> \<not> md_credited i s" for i
    using ids [of i] mono(1,2) [of i] by (auto simp: image_Un)
  show "\<forall>c \<in> set (cs @ ds). md_known (fst c) u \<and> 0 < snd c"
    using cs ds mono(3) by (auto simp: md_credits_def)
  show "bal u v b k = bal s v b k +
      sum_list (map (\<lambda>c. delta (post_lines (crypto_credit (fst c) (snd c))) v b k) (cs @ ds))" for v b k
    using cs ds by (simp add: md_credits_def)
qed

lemma md_rel_trans:
  assumes "md_rel s t" and "md_rel t u"
  shows "md_rel s u"
  using assms md_credits_trans [OF assms] unfolding md_rel_def by blast

interpretation md: kept_calls master_state md_rel
  by unfold_locales (auto intro: md_rel_refl md_rel_trans)

lemma master_stateD:
  assumes "master_state s"
  shows "ledger_inv s" and "distinct (map md_id (master_deposits s))"
    and "distinct (map (\<lambda>r. (md_chain r, md_tx r)) (master_deposits s))"
    and "md_credited i s \<Longrightarrow> i < next_uuid s"
    and "r \<in> set (master_deposits s) \<Longrightarrow> md_id r < next_uuid s \<and> md_ok s r"
  using assms unfolding master_state_def by blast+

lemma md_credited_tables: "ledger_tables t = ledger_tables s \<Longrightarrow> md_credited i t = md_credited i s"
  by (rule posted_as_tables)

lemma md_credits_none:
  "ledger_tables t = ledger_tables s \<Longrightarrow> md_credits s [] t"
  using bal_tables [of t s] md_credited_tables [of t s] by (simp add: md_credits_def)

lemma md_quiet:
  assumes "master_state s" and "ledger_tables t = ledger_tables s"
    and "master_deposits t = master_deposits s" and "next_uuid s \<le> next_uuid t"
  shows "master_state t" and "md_rel s t"
proof -
  note c = md_credited_tables [OF assms(2)]
  have "md_ok t r = md_ok s r" for r by (simp add: md_ok_def c)
  then show "master_state t"
    using assms(1,4) ledger_inv_cong [OF assms(2,4) master_stateD(1) [OF assms(1)]]
    unfolding master_state_def assms(3) c by (auto intro: less_le_trans)
  show "md_rel s t"
    using md_credits_none [OF assms(2)] by (auto simp: md_rel_def md_known_def assms(3) c)
qed

lemma md_quiet_call:
  assumes "\<And>s r t. m s = (r, t) \<Longrightarrow> ledger_tables t = ledger_tables s \<and>
    master_deposits t = master_deposits s \<and> next_uuid s \<le> next_uuid t"
  shows "md.triple P m (\<lambda>_ _. True)"
proof (rule md.tripleI)
  fix s r t assume s: "master_state s" and run: "m s = (r, t)"
  show "master_state t \<and> md_rel s t \<and> (\<forall>x. r = Inr x \<longrightarrow> True)"
    using md_quiet [OF s, of t] assms [OF run] by simp
qed

lemma md_quiet_calls:
  "md.triple P (recordAudit actor a act et e) (\<lambda>_ _. True)"
  "md.triple P (audit_md at' a act i) (\<lambda>_ _. True)"
  "md.triple P (writeAdminLog n act et e) (\<lambda>_ _. True)"
  "md.triple P (log_column p) (\<lambda>_ _. True)"
  "md.triple P (to_decimal x) (\<lambda>_ _. True)"
  by (rule md.triple_weaken [OF md_quiet_call], auto simp: recordAudit_def audit_md_def writeAdminLog_def
      log_column_def to_decimal_def svc_simps ledger_tables_def split: option.splits log_position.splits)+

section \<open>Writing rows\<close>

lemma md_rewritten:
  assumes s: "master_state s"
    and upd: "\<And>r. r \<in> set (master_deposits s) \<Longrightarrow> md_same r (upd r) \<and> md_ok s (upd r)"
  shows "master_state (put_master_deposits (map upd (master_deposits s)) s)" (is "master_state ?t")
    and "md_rel s (put_master_deposits (map upd (master_deposits s)) s)"
proof -
  have tab: "ledger_tables ?t = ledger_tables s" by simp
  note c = md_credited_tables [OF tab]
  have keys: "map md_id (map upd (master_deposits s)) = map md_id (master_deposits s)"
    "map (\<lambda>r. (md_chain r, md_tx r)) (map upd (master_deposits s)) =
      map (\<lambda>r. (md_chain r, md_tx r)) (master_deposits s)"
    using upd by (auto simp: md_same_def)
  have ok: "md_ok ?t r = md_ok s r" for r by (simp add: md_ok_def c)
  have "md_id r < next_uuid s \<and> md_ok s r" if "r \<in> set (map upd (master_deposits s))" for r
    using that upd master_stateD(5) [OF s] by (fastforce simp: md_same_def)
  then show "master_state ?t"
    using s ledger_inv_cong [OF tab _ master_stateD(1) [OF s]] keys
    unfolding master_state_def ok c by (simp del: map_map set_map)
  have "md_known d ?t" if k: "md_known d s" for d
  proof -
    obtain x where x: "x \<in> set (master_deposits s)" "md_same d x" using k by (auto simp: md_known_def)
    then have "md_same d (upd x)" using upd [OF x(1)] by (simp add: md_same_def)
    then show ?thesis using x(1) by (auto simp: md_known_def)
  qed
  then show "md_rel s ?t" using md_credits_none [OF tab] c by (auto simp: md_rel_def)
qed

lemma update_md_keeps:
  assumes "\<And>r. md_same r (upd r)" and "\<And>r. md_status (upd r) \<noteq> MD_CONFIRMED"
  shows "md.triple P (update_md i upd) (\<lambda>_ _. True)"
proof (rule md.tripleI)
  fix s r t assume s: "master_state s" and run: "update_md i upd s = (r, t)"
  let ?upd = "\<lambda>x. if md_id x = i then upd x\<lparr>md_updated := now s\<rparr> else x"
  have "md_same x (?upd x) \<and> md_ok s (?upd x)" if "x \<in> set (master_deposits s)" for x
    using assms [of x] master_stateD(5) [OF s that] by (simp add: md_same_def md_ok_def)
  note w = md_rewritten [OF s this]
  have "t = s \<or> t = put_master_deposits (map ?upd (master_deposits s)) s"
    using run by (auto simp: update_md_def update_one_def svc_simps split: option.splits if_splits)
  then show "master_state t \<and> md_rel s t \<and> (\<forall>x. r = Inr x \<longrightarrow> True)"
    using w s md_rel_refl by blast
qed

lemma markCredited_md_keeps:
  "md.triple (md_credited i) (markCredited_md i txn x c f l) (\<lambda>_ _. True)"
proof (rule md.tripleI)
  fix s r t assume s: "master_state s" "md_credited i s" and run: "markCredited_md i txn x c f l s = (r, t)"
  let ?upd = "\<lambda>r. if md_id r = i \<and> md_status r \<noteq> MD_CONFIRMED then r\<lparr>md_status := MD_CONFIRMED, md_txn := Some txn,
    md_credited_at := Some (now s), md_amount := x, md_confirmations := c, md_from := f, md_log := l,
    md_reason := None, md_updated := now s\<rparr> else r"
  have "md_same y (?upd y) \<and> md_ok s (?upd y)" if "y \<in> set (master_deposits s)" for y
    using s(2) master_stateD(5) [OF s(1) that] by (simp add: md_same_def md_ok_def)
  note w = md_rewritten [OF s(1) this]
  have "t = put_master_deposits (map ?upd (master_deposits s)) s"
    using run by (auto simp: markCredited_md_def update_many_def svc_simps)
  then show "master_state t \<and> md_rel s t \<and> (\<forall>x. r = Inr x \<longrightarrow> True)" using w by simp
qed

lemma same_refl [simp]: "md_same d d" by (simp add: md_same_def)

lemma create_md_keeps: "md.triple P (create_md u a ch m h) (\<lambda>d s. md_known d s)"
proof (rule md.tripleI)
  fix s r t assume s: "master_state s" and run: "create_md u a ch m h s = (r, t)"
  show "master_state t \<and> md_rel s t \<and> (\<forall>d. r = Inr d \<longrightarrow> md_known d t)"
  proof (cases "findByChainTxHash ch h s")
    case (Some x)
    then have "t = s" "\<exists>e. r = Inl e" using run by (auto simp: create_md_def svc_simps)
    then show ?thesis using s md_rel_refl by auto
  next
    case None
    define d where "d = \<lparr>md_id = next_uuid s, md_user = u, md_asset = a, md_chain = ch, md_master = m,
      md_from = None, md_tx = h, md_log = None, md_amount = 0, md_confirmations = 0, md_status = MD_SUBMITTED,
      md_reason = None, md_txn = None, md_credited_at = None, md_created = now s, md_updated = now s\<rparr>"
    have t: "r = Inr d" "t = put_master_deposits (master_deposits s @ [d]) (s\<lparr>next_uuid := Suc (next_uuid s)\<rparr>)"
      using run None by (auto simp: create_md_def svc_simps fresh_uuid_def Let_def d_def put_master_deposits_def)
    have tab: "ledger_tables t = ledger_tables s" by (simp add: t(2) ledger_tables_def put_master_deposits_def)
    note c = md_credited_tables [OF tab]
    have rows: "master_deposits t = master_deposits s @ [d]" "next_uuid t = Suc (next_uuid s)"
      by (simp_all add: t(2) put_master_deposits_def)
    have free: "\<forall>x \<in> set (master_deposits s). \<not> (md_chain x = ch \<and> md_tx x = h)"
      using None by (auto simp: findByChainTxHash_def find_None_iff)
    have bound: "\<forall>x \<in> set (master_deposits s). md_id x < next_uuid s \<and> md_ok s x"
      using master_stateD(5) [OF s] by blast
    have ok: "md_ok t x = md_ok s x" for x by (simp add: md_ok_def c)
    have "ledger_inv t" by (rule ledger_inv_cong [OF tab _ master_stateD(1) [OF s]]) (simp add: rows)
    moreover have "distinct (map md_id (master_deposits t))"
      using master_stateD(2) [OF s] bound by (auto simp: rows d_def)
    moreover have "distinct (map (\<lambda>r. (md_chain r, md_tx r)) (master_deposits t))"
      using master_stateD(3) [OF s] free by (auto simp: rows d_def)
    moreover have "md_id x < next_uuid t \<and> md_ok t x" if "x \<in> set (master_deposits t)" for x
      using that bound by (auto simp: rows ok) (auto simp: d_def md_ok_def)
    ultimately have "master_state t"
      using master_stateD(4) [OF s] c unfolding master_state_def by (auto simp: rows intro: less_SucI)
    moreover have "md_rel s t"
      using md_credits_none [OF tab] c by (auto simp: md_rel_def md_known_def rows)
    moreover have "md_known d t" by (auto simp: md_known_def rows)
    ultimately show ?thesis by (simp add: t(1))
  qed
qed

section \<open>Crediting\<close>

lemma master_reference [simp]: "MASTER_REFERENCE_TYPE \<noteq> []"
  by (simp add: MASTER_REFERENCE_TYPE_def)

lemma crypto_credit_run:
  assumes s: "master_state s" and d: "md_known d s" and run: "post D (crypto_credit d x) c s = (r, t)"
  shows "master_state t" and "md_rel s t" and "r = Inr p \<Longrightarrow> md_credited (md_id d) t"
    and "master_deposits t = master_deposits s" and "now t = now s"
    and "r = Inr p \<Longrightarrow> md_credits s (if md_credited (md_id d) s then [] else [(d, x)]) t"
proof -
  let ?inp = "crypto_credit d x"
  note inv = master_stateD(1) [OF s]
  have ref: "post_reference_type ?inp = Some MASTER_REFERENCE_TYPE" "post_reference_id ?inp = Some (md_id d)"
    by (simp_all add: crypto_credit_def)
  note only = post_only_ledger [OF run inv]
  show rows: "master_deposits t = master_deposits s" and "now t = now s"
    using only only_ledger_simps [of s t] by simp_all
  have mark: "md_credited j t \<longleftrightarrow> md_credited j s \<or> (\<not> isl r \<and> j = md_id d)" for j
    using post_marks [OF run inv ref(1) master_reference ref(2), of MASTER_REFERENCE_TYPE j] by simp
  obtain y where y: "y \<in> set (master_deposits s)" "md_same d y" using d by (auto simp: md_known_def)
  then have bound: "md_id d < next_uuid s" using master_stateD(5) [OF s y(1)] by (simp add: md_same_def)
  have "master_state t \<and> md_rel s t \<and> (r = Inr p \<longrightarrow> md_credited (md_id d) t \<and>
      md_credits s (if md_credited (md_id d) s then [] else [(d, x)]) t)"
  proof (cases r)
    case (Inl e)
    then have "ledger_tables t = ledger_tables s" using post_state(2) [OF run inv] by simp
    then show ?thesis using md_quiet [OF s _ rows] only Inl by simp
  next
    case (Inr q)
    have mark: "md_credited j t \<longleftrightarrow> md_credited j s \<or> j = md_id d" for j using mark Inr by simp
    have "master_state t"
      using s mark bound only post_state(1) [OF run inv] unfolding master_state_def md_ok_def rows
      by (auto intro: less_le_trans)
    moreover have "md_credits s (if md_credited (md_id d) s then [] else [(d, x)]) t"
    proof -
      have pos: "0 < x"
        by (rule post_Inr [OF run [unfolded Inr]]) (auto simp: crypto_credit_def)
      have known: "md_known d t" using d by (simp add: md_known_def rows)
      have "already_posted ?inp s = md_credited (md_id d) s"
        by (rule already_posted_as [OF ref(1) master_reference ref(2)])
      then have "bal t v b k = bal s v b k + (if md_credited (md_id d) s then 0 else delta (post_lines ?inp) v b k)"
        for v b k using posting.success_moves [OF run [unfolded Inr] inv, of v b k] by simp
      then show ?thesis using pos known mark by (simp add: md_credits_def) blast
    qed
    ultimately show ?thesis using mark by (auto simp: md_rel_def md_known_def rows)
  qed
  then show "master_state t" "md_rel s t" "r = Inr p \<Longrightarrow> md_credited (md_id d) t"
    "r = Inr p \<Longrightarrow> md_credits s (if md_credited (md_id d) s then [] else [(d, x)]) t" by blast+
qed

lemma crypto_post_keeps:
  "md.triple (md_known d) (post D (crypto_credit d x) c) (\<lambda>_ s. md_credited (md_id d) s)"
proof (rule md.tripleI)
  fix s r t assume "master_state s" "md_known d s" "post D (crypto_credit d x) c s = (r, t)"
  note w = crypto_credit_run [OF this]
  then show "master_state t \<and> md_rel s t \<and> (\<forall>p. r = Inr p \<longrightarrow> md_credited (md_id d) t)" by blast
qed

lemma rel_md: "md_rel s t \<Longrightarrow> md_known d s \<Longrightarrow> md_known d t" "md_rel s t \<Longrightarrow> md_credited i s \<Longrightarrow> md_credited i t"
  by (auto simp: md_rel_def)

lemma known_frame: "md.triple (md_known d) m (\<lambda>_ _. True) \<Longrightarrow> md.triple (md_known d) m (\<lambda>_. md_known d)"
  by (rule md.triple_frame) (auto intro: rel_md)

lemma credited_frame: "md.triple (md_credited i) m (\<lambda>_ _. True) \<Longrightarrow> md.triple (md_credited i) m (\<lambda>_. md_credited i)"
  by (rule md.triple_frame) (auto intro: rel_md)

section \<open>The calls\<close>

lemma update_md_closed:
  "md.triple P (update_md i (\<lambda>r. r\<lparr>md_status := MD_REJECTED, md_reason := x\<rparr>)) (\<lambda>_ _. True)"
  "md.triple P (update_md i (\<lambda>r. r\<lparr>md_status := MD_FAILED, md_reason := x\<rparr>)) (\<lambda>_ _. True)"
  "md.triple P (update_md i (\<lambda>r. r\<lparr>md_status := MD_PENDING_CONFIRMATION, md_confirmations := n,
     md_amount := (f r), md_from := y, md_log := z, md_reason := None\<rparr>)) (\<lambda>_ _. True)"
  by (rule update_md_keeps; simp add: md_same_def)+

lemma amount_keeps:
  "md.triple P (case a of None \<Rightarrow> returnS None | Some [] \<Rightarrow> returnS None
     | Some (c # cs) \<Rightarrow> bindS (to_decimal (c # cs)) (\<lambda>x. returnS (f x))) (\<lambda>_ _. True)"
  by (auto split: option.splits list.splits intro!: md.triple_return md.triple_bind [where R = "\<lambda>_ _. True"] md_quiet_calls)

lemma creditDeposit_keeps: "md.triple (md_known d) (creditDeposit D d v actor) (\<lambda>_ _. True)"
  unfolding creditDeposit_def
proof (rule md.triple_bind [OF known_frame [OF amount_keeps]], goal_cases)
  case (1 positive)
  show ?case
  proof (cases positive)
    case None
    then show ?thesis by (simp add: update_md_closed)
  next
    case (Some x)
    show ?thesis
      unfolding Some option.case
      by (rule md.triple_bind [OF crypto_post_keeps md.triple_bind [OF credited_frame [OF md_quiet_calls(4)]
            md.triple_bind [OF markCredited_md_keeps]]])
        (auto simp: whenS_def intro!: md.triple_bind [where R = "\<lambda>_ _. True"] md_quiet_calls md.triple_read
          md.triple_return)
  qed
qed

lemma process_keeps_md: "md.triple (md_known d) (process_result D d v actor) (\<lambda>_ _. True)"
  unfolding process_result_def
  by (auto split: outcome.splits intro!: creditDeposit_keeps update_md_closed
      md.triple_bind [where R = "\<lambda>_ _. True"] amount_keeps md_quiet_calls)

lemma verifyAndProcess_keeps: "md.triple (md_known d) (verifyAndProcess D cfg rpc d actor) (\<lambda>_ _. True)"
  unfolding verifyAndProcess_def
  by (auto split: option.splits intro!: process_keeps_md update_md_closed md.triple_return)

lemma findBy_known: "findByChainTxHash ch h s = Some r \<Longrightarrow> md_known r s"
  by (auto simp: findByChainTxHash_def md_known_def dest: find_SomeD intro!: bexI [of _ r])

lemma findById_md_known: "findById_md i s = Some r \<Longrightarrow> md_known r s \<and> md_id r = i"
  by (auto simp: findById_md_def md_known_def dest: find_SomeD intro!: bexI [of _ r])

lemma existing_keeps:
  "md.triple (md_known r) (returnS (n, handleExisting_check r u m)) (\<lambda>res s. \<forall>d. snd res = Inl d \<longrightarrow> md_known d s)"
  by (rule md.triple_return) (auto simp: handleExisting_check_def split: if_splits)

lemma submit_check_keeps:
  "md.triple (\<lambda>_. True) (submit_check cfg u ch h) (\<lambda>res s. \<forall>d. snd res = Inl d \<longrightarrow> md_known d s)"
  unfolding submit_check_def Let_def
proof (rule md.triple_bind_require, goal_cases)
  case 1
  show ?case
  proof (cases "getNetwork cfg ch")
    case None then show ?thesis by (simp add: md.triple_throw)
  next
    case (Some n)
    let ?h = "normalizeTxHash ch h"
    have found: "md.triple (\<lambda>s. findByChainTxHash ch ?h s = Some r) (returnS (n, handleExisting_check r u n))
        (\<lambda>res s. \<forall>d. snd res = Inl d \<longrightarrow> md_known d s)" for r
      by (rule md.triple_weaken [OF existing_keeps]) (auto intro: findBy_known)
    have new: "md.triple (\<lambda>_. True)
        (bindS (create_md u DEPOSIT_ASSET ch (the (net_master n)) ?h) (\<lambda>deposit.
         bindS (audit_md ACTOR_USER (Some u) ''crypto_deposit.submit'' (md_id deposit)) (\<lambda>_. returnS (n, Inl deposit))))
        (\<lambda>res s. \<forall>d. snd res = Inl d \<longrightarrow> md_known d s)"
      by (rule md.triple_bind [OF create_md_keeps md.triple_bind [OF known_frame [OF md_quiet_calls(2)] md.triple_return]]) simp
    have again: "md.triple (\<lambda>_. True)
        (if isUniqueViolation e then bindS (readS (findByChainTxHash ch ?h)) (\<lambda>row.
           case row of None \<Rightarrow> throwS e | Some r \<Rightarrow> returnS (n, handleExisting_check r u n)) else throwS e)
        (\<lambda>res s. \<forall>d. snd res = Inl d \<longrightarrow> md_known d s)" for e
      by (auto split: option.splits intro!: md.triple_bind_read md.triple_throw md.triple_weaken [OF found])
    have catch: "md.triple P (catchS
        (bindS (create_md u DEPOSIT_ASSET ch (the (net_master n)) ?h) (\<lambda>deposit.
         bindS (audit_md ACTOR_USER (Some u) ''crypto_deposit.submit'' (md_id deposit)) (\<lambda>_. returnS (n, Inl deposit))))
        (\<lambda>e. if isUniqueViolation e then bindS (readS (findByChainTxHash ch ?h)) (\<lambda>row.
           case row of None \<Rightarrow> throwS e | Some r \<Rightarrow> returnS (n, handleExisting_check r u n)) else throwS e))
        (\<lambda>res s. \<forall>d. snd res = Inl d \<longrightarrow> md_known d s)" for P
      by (rule md.triple_catch [OF md.triple_weaken [OF new] again]) simp_all
    show ?thesis
      unfolding Some option.case
    proof (rule md.triple_bind_require, rule md.triple_bind_read, goal_cases)
      case (1 existing)
      show ?case
      proof (cases existing)
        case None then show ?thesis using catch by simp
      next
        case (Some r)
        show ?thesis unfolding Some option.case by (rule md.triple_weaken [OF found [of r]]) simp_all
      qed
    qed
  qed
qed

section \<open>What one answer does\<close>

lemma md_tables:
  "update_md i upd s = (r, t) \<Longrightarrow> ledger_tables t = ledger_tables s"
  "markCredited_md i txn am cf fr lg s = (r1, t) \<Longrightarrow> ledger_tables t = ledger_tables s"
  "log_column p s = (r2, t) \<Longrightarrow> t = s"
  "to_decimal tx s = (r3, t) \<Longrightarrow> t = s"
  "audit_md ty ac act i s = (r4, t) \<Longrightarrow> ledger_tables t = ledger_tables s"
  by (auto simp: update_md_def update_one_def markCredited_md_def update_many_def log_column_def to_decimal_def
      audit_md_def recordAudit_def svc_simps ledger_tables_def put_master_deposits_def
      split: option.splits log_position.splits if_splits)

text \<open>Only a confirmed answer posts, and it posts the amount it reads in the answer.\<close>

lemma credit_moves:
  assumes "creditDeposit D d v actor s = (r, t)" and "ledger_tables t \<noteq> ledger_tables s"
  obtains a x p s1 where "vr_amount v = Some a" and "decimal_value a = Some x"
    and "post D (crypto_credit d x) (Some (md_user d)) s = (p, s1)" and "ledger_tables t = ledger_tables s1"
proof -
  obtain a where a: "vr_amount v = Some a" "a \<noteq> []"
    using assms by (cases "vr_amount v") (auto simp: creditDeposit_def svc_simps dest: md_tables split: list.splits)
  obtain x where x: "decimal_value a = Some x"
    using assms a by (cases "decimal_value a") (auto simp: creditDeposit_def to_decimal_def svc_simps split: list.splits)
  have pos: "\<not> x \<le> 0"
    using assms a x by (auto simp: creditDeposit_def to_decimal_def svc_simps dest: md_tables split: list.splits)
  obtain p s1 where p: "post D (crypto_credit d x) (Some (md_user d)) s = (p, s1)"
    by (cases "post D (crypto_credit d x) (Some (md_user d)) s")
  have "ledger_tables t = ledger_tables s1"
    using assms(1) a x pos p
    by (auto simp: creditDeposit_def to_decimal_def svc_simps whenS_def dest!: md_tables
        split: list.splits prod.splits sum.splits if_splits)
  then show thesis using that a x p by blast
qed

lemma process_moves:
  assumes "verifyAndProcess D cfg rpc d actor s = (r, t)" and "ledger_tables t \<noteq> ledger_tables s"
  obtains n where "getNetwork cfg (md_chain d) = Some n" and "vr_outcome (verifyTx rpc n (md_tx d)) = CONFIRMED"
    and "creditDeposit D d (verifyTx rpc n (md_tx d)) actor s = (r, t)"
proof -
  obtain n where n: "getNetwork cfg (md_chain d) = Some n" "process_result D d (verifyTx rpc n (md_tx d)) actor s = (r, t)"
    using assms by (auto simp: verifyAndProcess_def svc_simps dest: md_tables split: if_splits option.splits)
  have "vr_outcome (verifyTx rpc n (md_tx d)) = CONFIRMED"
    using n(2) assms(2)
    by (auto simp: process_result_def svc_simps dest!: md_tables
        split: outcome.splits option.splits list.splits sum.splits prod.splits)
  then show thesis using that n by (simp add: process_result_def)
qed

text \<open>
  An answer of the chain confirms an amount; \<open>L\<close> collects the answers given, each with the row it
  was asked for.
\<close>

definition confirms :: "verification \<Rightarrow> rat \<Rightarrow> bool" where
  "confirms v x \<longleftrightarrow> vr_outcome v = CONFIRMED \<and> (\<exists>a. vr_amount v = Some a \<and> decimal_value a = Some x)"

definition answered :: "(master_deposit \<times> verification) list \<Rightarrow> master_deposit \<Rightarrow> rat \<Rightarrow> bool" where
  "answered L d x \<longleftrightarrow> (\<exists>v. (d, v) \<in> set L \<and> confirms v x)"

definition chain_answer ::
  "crypto_config \<Rightarrow> rpc_endpoint \<Rightarrow> master_deposit \<Rightarrow> (master_deposit \<times> verification) list" where
  "chain_answer cfg rpc d = (case getNetwork cfg (md_chain d) of None \<Rightarrow> []
     | Some n \<Rightarrow> [(d, verifyTx rpc n (md_tx d))])"

lemma answered_append: "answered L d x \<or> answered M d x \<Longrightarrow> answered (L @ M) d x"
  by (auto simp: answered_def)

text \<open>A credit is for the amount an answer confirmed.\<close>

lemma verify_credits:
  assumes "master_state s" and "md_known d s" and "verifyAndProcess D cfg rpc d actor s = (r, t)"
  shows "\<exists>cs. md_credits s cs t \<and> (\<forall>c \<in> set cs. answered (chain_answer cfg rpc d) (fst c) (snd c))"
proof (cases "ledger_tables t = ledger_tables s")
  case True
  then show ?thesis by (intro exI [of _ "[]"]) (simp add: md_credits_none)
next
  case False
  note inv = master_stateD(1) [OF assms(1)]
  obtain n where n: "getNetwork cfg (md_chain d) = Some n" "vr_outcome (verifyTx rpc n (md_tx d)) = CONFIRMED"
    "creditDeposit D d (verifyTx rpc n (md_tx d)) actor s = (r, t)"
    by (rule process_moves [OF assms(3) False])
  obtain a x p s1 where post: "vr_amount (verifyTx rpc n (md_tx d)) = Some a" "decimal_value a = Some x"
    "post D (crypto_credit d x) (Some (md_user d)) s = (p, s1)" "ledger_tables t = ledger_tables s1"
    by (rule credit_moves [OF n(3) False])
  obtain q where q: "p = Inr q" using post_state(2) [OF post(3) inv] False post(4) by (cases p) auto
  let ?cs = "if md_credited (md_id d) s then [] else [(d, x)]"
  have "md_credits s ?cs s1" by (rule crypto_credit_run(6) [OF assms(1,2) post(3) q])
  moreover have "md_known d t" using md.tripleD [OF verifyAndProcess_keeps assms(1,2,3)] assms(2) by (blast dest: rel_md(1))
  ultimately have "md_credits s ?cs t"
    using bal_tables [OF post(4)] md_credited_tables [OF post(4)] by (simp add: md_credits_def split: if_split_asm)
  moreover have "answered (chain_answer cfg rpc d) d x"
    using n(1,2) post(1,2) by (simp add: answered_def chain_answer_def confirms_def)
  ultimately show ?thesis by (intro exI [of _ ?cs]) simp
qed

text \<open>
  A row that is CONFIRMED afterwards was CONFIRMED before, with the same amount, or \<open>C\<close> holds of it.
\<close>

definition md_kept :: "(nat \<Rightarrow> rat \<Rightarrow> bool) \<Rightarrow> db \<Rightarrow> db \<Rightarrow> bool" where
  "md_kept C s t \<longleftrightarrow> (\<forall>y \<in> set (master_deposits t). md_status y = MD_CONFIRMED \<longrightarrow>
     (\<exists>x \<in> set (master_deposits s). md_id x = md_id y \<and> md_status x = MD_CONFIRMED \<and> md_amount x = md_amount y) \<or>
     C (md_id y) (md_amount y))"

lemma md_kept_same: "master_deposits t = master_deposits s \<Longrightarrow> md_kept C s t"
  by (auto simp: md_kept_def)

lemma md_kept_cong:
  "master_deposits s' = master_deposits s \<Longrightarrow> master_deposits t' = master_deposits t \<Longrightarrow> md_kept C s' t' = md_kept C s t"
  by (simp add: md_kept_def)

lemma update_md_kept:
  assumes "update_md i upd s = (r, t)" and "\<And>x. md_status (upd x) \<noteq> MD_CONFIRMED"
  shows "md_kept C s t"
  using assms
  by (auto simp: update_md_def update_one_def svc_simps md_kept_def put_master_deposits_def split: option.splits if_splits)

lemma mark_kept: "markCredited_md i txn x c f l s = (r, t) \<Longrightarrow> C i x \<Longrightarrow> md_kept C s t"
  by (auto simp: markCredited_md_def update_many_def svc_simps md_kept_def put_master_deposits_def split: if_splits)

lemma same_rows:
  "audit_md ty ac act i s = (r1, t) \<Longrightarrow> master_deposits t = master_deposits s"
  "log_column p s = (r2, t) \<Longrightarrow> t = s"
  "to_decimal x s = (r3, t) \<Longrightarrow> t = s"
  by (auto simp: audit_md_def recordAudit_def log_column_def to_decimal_def svc_simps
      split: option.splits log_position.splits if_splits)

lemma credit_rows:
  assumes inv: "ledger_inv s" and run: "creditDeposit D d v actor s = (r, t)" and v: "vr_outcome v = CONFIRMED"
    and C: "\<And>x. confirms v x \<Longrightarrow> C (md_id d) x"
  shows "md_kept C s t"
proof (cases "\<exists>a x. vr_amount v = Some a \<and> a \<noteq> [] \<and> decimal_value a = Some x \<and> \<not> x \<le> 0")
  case False
  then have "t = s \<or> (\<exists>r'. update_md (md_id d) (\<lambda>r. r\<lparr>md_status := MD_REJECTED, md_reason := Some ''zero_amount''\<rparr>) s = (r', t))"
    using run by (auto simp: creditDeposit_def to_decimal_def svc_simps split: option.splits list.splits if_splits)
  then show ?thesis using update_md_kept md_kept_same by fastforce
next
  case True
  then obtain a x where a: "vr_amount v = Some a" "a \<noteq> []" "decimal_value a = Some x" "\<not> x \<le> 0" by blast
  obtain p s1 where p: "post D (crypto_credit d x) (Some (md_user d)) s = (p, s1)"
    by (cases "post D (crypto_credit d x) (Some (md_user d)) s")
  have rows: "master_deposits s1 = master_deposits s"
    using post_only_ledger [OF p inv] only_ledger_simps [of s s1] by simp
  have "t = s1 \<or> (\<exists>q l m s2. markCredited_md (md_id d) q x (or_zero (vr_confirmations v)) (vr_from v) l s1 = (m, s2) \<and>
      master_deposits t = master_deposits s2)"
    using run a p
    by (auto simp: creditDeposit_def to_decimal_def svc_simps whenS_def dest!: same_rows
        split: list.splits prod.splits sum.splits if_splits)
  moreover have "C (md_id d) x" using C a v by (simp add: confirms_def)
  ultimately show ?thesis
    using mark_kept md_kept_cong [OF rows, of t] md_kept_same [OF rows] md_kept_cong [OF rows] by metis
qed

lemma verify_rows:
  assumes "ledger_inv s" and "verifyAndProcess D cfg rpc d actor s = (r, t)"
    and C: "\<And>x. answered (chain_answer cfg rpc d) d x \<Longrightarrow> C (md_id d) x"
  shows "md_kept C s t"
proof (cases "\<exists>n. getNetwork cfg (md_chain d) = Some n \<and> vr_outcome (verifyTx rpc n (md_tx d)) = CONFIRMED")
  case True
  then obtain n where n: "getNetwork cfg (md_chain d) = Some n" "vr_outcome (verifyTx rpc n (md_tx d)) = CONFIRMED" by blast
  let ?v = "verifyTx rpc n (md_tx d)"
  have "t = s \<or> (\<exists>r'. update_md (md_id d) (\<lambda>r. r\<lparr>md_status := MD_FAILED, md_reason := Some ''provider_not_configured''\<rparr>) s = (r', t)) \<or>
      creditDeposit D d ?v actor s = (r, t)"
    using assms(2) n by (auto simp: verifyAndProcess_def process_result_def svc_simps split: if_splits)
  moreover have "C (md_id d) x" if "confirms ?v x" for x
    using C [of x] that n by (simp add: answered_def chain_answer_def)
  ultimately show ?thesis
    using credit_rows [OF assms(1) _ n(2)] update_md_kept md_kept_same by fastforce
next
  case False
  have "t = s \<or> (\<exists>r' upd. update_md (md_id d) upd s = (r', t) \<and> (\<forall>x. md_status (upd x) \<noteq> MD_CONFIRMED))"
    using assms(2) False
    by (auto simp: verifyAndProcess_def process_result_def svc_simps dest!: same_rows
        split: option.splits outcome.splits list.splits sum.splits prod.splits if_splits) fastforce+
  then show ?thesis using update_md_kept md_kept_same by blast
qed

lemma submit_check_quiet:
  assumes "submit_check cfg u ch h s = (r, t)"
  shows "ledger_tables t = ledger_tables s" and "md_kept C s t"
proof -
  have create: "ledger_tables t' = ledger_tables s' \<and> md_kept C s' t'"
    if "create_md u' a ch' m h' s' = (r', t')" for u' a ch' m h' s' r' t'
    using that by (auto simp: create_md_def svc_simps fresh_uuid_def Let_def md_kept_def put_master_deposits_def
        ledger_tables_def split: option.splits if_splits)
  have audit: "ledger_tables t' = ledger_tables s' \<and> master_deposits t' = master_deposits s'"
    if "audit_md ty ac act i s' = (r', t')" for ty ac act i s' r' t'
    using that md_tables(5) same_rows(1) by blast
  have "ledger_tables t = ledger_tables s \<and> md_kept C s t"
    using assms
    by (auto simp: submit_check_def svc_simps Let_def md_kept_same dest!: create audit
        split: option.splits if_splits sum.splits prod.splits) (simp_all add: md_kept_def)
  then show "ledger_tables t = ledger_tables s" and "md_kept C s t" by blast+
qed

section \<open>Sequences of calls\<close>

text \<open>
  A state of the system is the database, the rows that a submission or a recheck has read and waits
  for the chain with, and the answers the chain has given so far, each with the row it was asked for.
  The chain may answer each of them anything at any time.
\<close>

type_synonym md_state = "db \<times> master_deposit list \<times> (master_deposit \<times> verification) list"

inductive md_call :: "rounding \<Rightarrow> crypto_config \<Rightarrow> md_state \<Rightarrow> md_state \<Rightarrow> bool" for D cfg where
  submit: "submit_check cfg u ch h s = (r1, t) \<Longrightarrow>
    md_call D cfg (s, T, L) (t, (case r1 of Inr (n, Inl d) \<Rightarrow> d # T | _ \<Rightarrow> T), L)"
| recheck: "findById_md i s = Some d \<Longrightarrow> md_call D cfg (s, T, L) (s, d # T, L)"
| answer: "d \<in> set T \<Longrightarrow> verifyAndProcess D cfg rpc d actor s = (r2, t) \<Longrightarrow>
    md_call D cfg (s, T, L) (t, T, chain_answer cfg rpc d @ L)"

definition masters_inv :: "md_state \<Rightarrow> bool" where
  "masters_inv S \<longleftrightarrow> (case S of (s, T, L) \<Rightarrow> master_state s \<and> (\<forall>d \<in> set T. md_known d s))"

text \<open>Every credit since \<open>s\<close> and every CONFIRMED row has the amount an answer confirmed.\<close>

definition md_traced :: "db \<Rightarrow> md_state \<Rightarrow> bool" where
  "md_traced s S \<longleftrightarrow> (case S of (t, T, L) \<Rightarrow> md_rel s t \<and>
     (\<exists>cs. md_credits s cs t \<and> (\<forall>c \<in> set cs. answered L (fst c) (snd c))) \<and>
     md_kept (\<lambda>i x. \<exists>d. md_id d = i \<and> answered L d x) s t)"

lemma masters_invI: "master_state t \<Longrightarrow> md_rel s t \<Longrightarrow> masters_inv (s, T, L) \<Longrightarrow> masters_inv (t, T, L')"
  by (auto simp: masters_inv_def intro: rel_md)

lemma md_kept_trans:
  assumes "md_kept C s t" and "md_kept C' t u" and "\<And>i x. C i x \<Longrightarrow> C' i x"
  shows "md_kept C' s u"
  using assms unfolding md_kept_def by metis

lemma md_traced_step:
  assumes "md_traced s0 (s, T, L)" and "md_rel s t"
    and "\<exists>cs. md_credits s cs t \<and> (\<forall>c \<in> set cs. answered (A @ L) (fst c) (snd c))"
    and "md_kept (\<lambda>i x. \<exists>d. md_id d = i \<and> answered (A @ L) d x) s t"
  shows "md_traced s0 (t, T', A @ L)"
proof -
  obtain cs where cs: "md_rel s0 s" "md_credits s0 cs s" "\<forall>c \<in> set cs. answered L (fst c) (snd c)"
    "md_kept (\<lambda>i x. \<exists>d. md_id d = i \<and> answered L d x) s0 s" using assms(1) by (auto simp: md_traced_def)
  obtain ds where ds: "md_credits s ds t" "\<forall>c \<in> set ds. answered (A @ L) (fst c) (snd c)" using assms(3) by blast
  have "md_credits s0 (cs @ ds) t" by (rule md_credits_trans [OF cs(1) assms(2) cs(2) ds(1)])
  moreover have "\<forall>c \<in> set (cs @ ds). answered (A @ L) (fst c) (snd c)"
    using cs(3) ds(2) by (auto intro: answered_append)
  moreover have "md_kept (\<lambda>i x. \<exists>d. md_id d = i \<and> answered (A @ L) d x) s0 t"
    by (rule md_kept_trans [OF cs(4) assms(4)]) (auto intro: answered_append)
  ultimately show ?thesis using md_rel_trans [OF cs(1) assms(2)] unfolding md_traced_def by blast
qed

lemma md_call_keeps:
  assumes "md_call D cfg S S'" and "masters_inv S" and "md_traced s0 S"
  shows "masters_inv S' \<and> md_traced s0 S'"
  using assms(1)
proof (cases rule: md_call.cases)
  case (submit u ch h s r1 t T L)
  have inv: "masters_inv (s, T, L)" using assms(2) submit(1) by simp
  then have "master_state s" by (simp add: masters_inv_def)
  note w = md.tripleD [OF submit_check_keeps this TrueI submit(3)] and q = submit_check_quiet [OF submit(3)]
  have "masters_inv (t, T, L)" by (rule masters_invI [OF w(1,2) inv])
  moreover have "md_traced s0 (t, T', [] @ L)" for T'
    using assms(3) submit(1) md_credits_none [OF q(1)] q(2)
    by (intro md_traced_step [OF _ w(2)]) (auto intro: exI [of _ "[]"])
  ultimately show ?thesis using w(3) submit(2) by (auto simp: masters_inv_def split: sum.splits)
next
  case (recheck i s d T L)
  have "md_traced s0 (s, d # T, L)" using assms(3) recheck(1) by (simp add: md_traced_def)
  then show ?thesis using assms(2) findById_md_known recheck by (auto simp: masters_inv_def)
next
  case (answer d T rpc actor s r2 t L)
  have inv: "masters_inv (s, T, L)" using assms(2) answer(1) by simp
  then have s: "master_state s" "md_known d s" using answer(3) by (simp_all add: masters_inv_def)
  note w = md.tripleD [OF verifyAndProcess_keeps this answer(4)]
  let ?A = "chain_answer cfg rpc d"
  obtain cs where "md_credits s cs t" "\<forall>c \<in> set cs. answered ?A (fst c) (snd c)"
    using verify_credits [OF s answer(4)] by blast
  moreover have "md_kept (\<lambda>i x. \<exists>d. md_id d = i \<and> answered (?A @ L) d x) s t"
    by (rule verify_rows [OF master_stateD(1) [OF s(1)] answer(4)]) (blast intro: answered_append)
  ultimately have "md_traced s0 (t, T, ?A @ L)"
    using assms(3) answer(1) by (intro md_traced_step [OF _ w(2)]) (blast intro: answered_append)+
  then show ?thesis using masters_invI [OF w(1,2) inv] answer(2) by simp
qed

lemma md_calls_keep:
  assumes "(md_call D cfg)\<^sup>*\<^sup>* S S'" and "masters_inv S" and "md_traced s0 S"
  shows "masters_inv S' \<and> md_traced s0 S'"
  using assms by (induction rule: rtranclp_induct) (use md_call_keeps in blast)+

lemma no_master_deposits:
  assumes "ledger_inv s" and "master_deposits s = []" and "\<And>i. \<not> md_credited i s"
  shows "masters_inv (s, [], [])" and "md_traced s (s, [], [])"
  using assms md_rel_refl [of s] md_credits_none [of s s]
  by (auto simp: masters_inv_def master_state_def md_traced_def md_kept_def intro: exI [of _ "[]"])

text \<open>A submission nothing comes between is its two steps.\<close>

lemma submit_steps:
  assumes "submit D cfg rpc u ch h s = (r, t)"
  shows "\<exists>T' L'. (md_call D cfg)\<^sup>*\<^sup>* (s, T, L) (t, T', L')"
proof -
  obtain c s1 where 1: "submit_check cfg u ch h s = (c, s1)" by (cases "submit_check cfg u ch h s")
  let ?T = "case c of Inr (n, Inl d) \<Rightarrow> d # T | _ \<Rightarrow> T"
  have step: "md_call D cfg (s, T, L) (s1, ?T, L)" by (rule md_call.submit [OF 1])
  show ?thesis
  proof (cases "\<exists>n d. c = Inr (n, Inl d)")
    case True
    then obtain n d where c: "c = Inr (n, Inl d)" by blast
    obtain r2 s2 where 2: "verifyAndProcess D cfg rpc d None s1 = (r2, s2)"
      by (cases "verifyAndProcess D cfg rpc d None s1")
    have "t = s2" using assms 1 2 c by (cases r2) (auto simp: submit_def svc_simps)
    then have "md_call D cfg (s1, d # T, L) (t, d # T, chain_answer cfg rpc d @ L)"
      using 2 by (intro md_call.answer [where d = d]) simp_all
    then have "(md_call D cfg)\<^sup>*\<^sup>* (s, T, L) (t, d # T, chain_answer cfg rpc d @ L)"
      using step unfolding c by (simp add: converse_rtranclp_into_rtranclp)
    then show ?thesis by blast
  next
    case False
    then have "t = s1" using assms 1 by (auto simp: submit_def svc_simps split: sum.splits prod.splits)
    then show ?thesis using step by blast
  qed
qed

end
