(* ===== verification/Evm_Laws.thy ===== *)
theory Evm_Laws
  imports Evm_Verifier
begin

text \<open>
  What the verifier of EVM transfers guarantees: base units written as a decimal read back exactly,
  and a transfer is confirmed only for a log of the receipt that says so.
\<close>

section \<open>Numbers in text\<close>

lemma less_ten: "n < 10 \<Longrightarrow> n \<in> {0, 1, 2, 3, 4, 5, 6, 7, 8, 9 :: nat}"
  by (simp only: insert_iff empty_iff) presburger

lemma digit_char: "n < 10 \<Longrightarrow> digit_value (char_of (48 + n :: nat)) = n"
  by (drule less_ten) (auto simp: digit_value_def lowerChar_def)

lemma digit_char_mod [simp]: "digit_value (char_of (48 + n mod 10 :: nat)) = n mod 10"
  by (rule digit_char) simp

lemma digits_value_append:
  "digits_value b acc (xs @ ys) = (case digits_value b acc xs of None \<Rightarrow> None | Some a \<Rightarrow> digits_value b a ys)"
  by (induction xs arbitrary: acc) auto

lemma digits_value_acc:
  "digits_value b acc xs = map_option (\<lambda>n. acc * b ^ length xs + n) (digits_value b 0 xs)"
proof (induction xs arbitrary: acc)
  case (Cons c cs)
  show ?case
    using Cons.IH [of "acc * b + digit_value c"] Cons.IH [of "digit_value c"]
    by (cases "digits_value b 0 cs") (auto simp: algebra_simps)
qed simp

lemma digits_nat_text: "digits_value 10 0 (nat_text n) = Some n"
proof (induction n rule: nat_text.induct)
  case (1 n)
  show ?case
  proof (cases "n < 10")
    case True
    then show ?thesis by (subst nat_text.simps) (simp add: digit_char)
  next
    case False
    then show ?thesis using "1.IH" by (subst nat_text.simps) (simp add: digits_value_append)
  qed
qed

lemma nat_text_not_empty [simp]: "nat_text n \<noteq> []"
  by (subst nat_text.simps) simp

definition plain :: "string \<Rightarrow> bool" where
  "plain x \<longleftrightarrow> (\<forall>c \<in> set x. c \<noteq> CHR ''.'' \<and> c \<noteq> CHR ''-'')"

lemma char_digit_plain: "n < 10 \<Longrightarrow> char_of (48 + n :: nat) \<noteq> CHR ''.'' \<and> char_of (48 + n :: nat) \<noteq> CHR ''-''"
proof -
  assume "n < 10"
  then have "of_char (char_of (48 + n)) = 48 + n" by simp
  moreover have "of_char CHR ''.'' = (46 :: nat)" "of_char CHR ''-'' = (45 :: nat)" by simp_all
  ultimately have "(of_char (char_of (48 + n)) :: nat) \<noteq> of_char CHR ''.''"
    "(of_char (char_of (48 + n)) :: nat) \<noteq> of_char CHR ''-''" by linarith+
  then show ?thesis by metis
qed

lemma plain_nat_text: "plain (nat_text n)"
proof (induction n rule: nat_text.induct)
  case (1 n)
  then show ?case
    using char_digit_plain [of n] char_digit_plain [of "n mod 10"]
    by (subst nat_text.simps) (auto simp: plain_def)
qed

lemma digits_zeros: "digits_value 10 acc (replicate k (CHR ''0'') @ xs) = digits_value 10 (acc * 10 ^ k) xs"
  by (induction k arbitrary: acc) (simp_all add: digit_value_def lowerChar_def mult.assoc)

text \<open>Trailing zeros scale the digits.\<close>

lemma drop_zeros_split: "\<exists>k. x = drop_zeros x @ replicate k (CHR ''0'')"
proof -
  have "\<exists>k. y = replicate k (CHR ''0'') @ dropWhile (\<lambda>c. c = CHR ''0'') y" for y
  proof (induction y)
    case (Cons c y)
    then show ?case
    proof (cases "c = CHR ''0''")
      case True
      then obtain k where "y = replicate k (CHR ''0'') @ dropWhile (\<lambda>c. c = CHR ''0'') y" using Cons by blast
      then have "c # y = replicate (Suc k) (CHR ''0'') @ dropWhile (\<lambda>c. c = CHR ''0'') (c # y)" using True by simp
      then show ?thesis by blast
    next
      case False
      then have "c # y = replicate 0 (CHR ''0'') @ dropWhile (\<lambda>c. c = CHR ''0'') (c # y)" by simp
      then show ?thesis by blast
    qed
  qed simp
  then obtain k where "rev x = replicate k (CHR ''0'') @ dropWhile (\<lambda>c. c = CHR ''0'') (rev x)" by blast
  then have "rev (rev x) = rev (replicate k (CHR ''0'') @ dropWhile (\<lambda>c. c = CHR ''0'') (rev x))" by (rule arg_cong)
  then have "x = drop_zeros x @ replicate k (CHR ''0'')" by (simp add: drop_zeros_def)
  then show ?thesis by blast
qed

lemma takeWhile_plain: "plain w \<Longrightarrow> takeWhile (\<lambda>c. c \<noteq> CHR ''.'') (w @ CHR ''.'' # f) = w"
    "plain w \<Longrightarrow> dropWhile (\<lambda>c. c \<noteq> CHR ''.'') (w @ CHR ''.'' # f) = CHR ''.'' # f"
    "plain w \<Longrightarrow> takeWhile (\<lambda>c. c \<noteq> CHR ''.'') w = w" "plain w \<Longrightarrow> dropWhile (\<lambda>c. c \<noteq> CHR ''.'') w = []"
  by (auto simp: plain_def takeWhile_append dropWhile_append)

lemma decimal_value_plain:
  assumes "plain w" and "w \<noteq> []"
  shows "decimal_value (w @ (if f \<noteq> [] then CHR ''.'' # f else [])) =
    map_option (\<lambda>n. of_nat n / 10 ^ length f) (digits_value 10 0 (w @ f))"
proof -
  define x where "x = w @ (if f \<noteq> [] then CHR ''.'' # f else [])"
  have "x \<noteq> [] \<and> hd x \<noteq> CHR ''-''" using assms by (cases w) (auto simp: plain_def x_def)
  moreover have "takeWhile (\<lambda>c. c \<noteq> CHR ''.'') x = w" "drop 1 (dropWhile (\<lambda>c. c \<noteq> CHR ''.'') x) = f"
    unfolding x_def using takeWhile_plain(1,2) [OF assms(1), of f] takeWhile_plain(3,4) [OF assms(1)]
    by (cases "f = []", simp_all)+
  ultimately have "decimal_value x = map_option (\<lambda>n. of_nat n / 10 ^ length f) (digits_value 10 0 (w @ f))"
    using assms(2) by (simp add: decimal_value_def digits_of_def Let_def del: length_drop)
  then show ?thesis by (simp only: x_def)
qed

lemma pad_facts:
  "digits_value 10 0 (padStart n x) = digits_value 10 0 x" "n \<le> length (padStart n x)"
  "plain x \<Longrightarrow> plain (padStart n x)"
  by (simp_all add: padStart_def digits_zeros) (fastforce simp: plain_def)

lemma formatUnits_value:
  assumes "0 \<le> v" and "0 \<le> d"
  shows "decimal_value (formatUnits v d) = Some (of_int v / 10 ^ nat d)"
proof (cases "d = 0")
  case True
  then show ?thesis
    using decimal_value_plain [OF plain_nat_text nat_text_not_empty, of "nat v" "[]"] assms(1) digits_nat_text [of "nat v"]
    by (simp add: formatUnits_def int_text_def)
next
  case False
  let ?k = "nat d"
  define x where "x = padStart (?k + 1) (nat_text (nat v))"
  define w where "w = take (length x - ?k) x"
  define g where "g = drop (length x - ?k) x"
  define f where "f = drop_zeros g"
  have x: "digits_value 10 0 x = Some (nat v)" "?k < length x" "plain x"
    unfolding x_def using pad_facts [where n = "?k + 1" and x = "nat_text (nat v)"] digits_nat_text [of "nat v"]
      plain_nat_text [of "nat v"] by simp_all
  have w: "plain w" "w \<noteq> []" "x = w @ g" "length g = ?k"
  proof -
    show "plain w" using x(3) unfolding w_def plain_def by (meson in_set_takeD)
    show "w \<noteq> []" using x(2) unfolding w_def take_eq_Nil by auto
    show "x = w @ g" unfolding w_def g_def by simp
    show "length g = ?k" using x(2) unfolding g_def length_drop by arith
  qed
  obtain j where j: "g = f @ replicate j (CHR ''0'')" using drop_zeros_split [of g] by (auto simp: f_def)
  obtain n where n: "digits_value 10 0 (w @ f) = Some n" "n * 10 ^ j = nat v"
    using x(1) digits_zeros [of _ j "[]"]
    by (auto simp: w(3) j digits_value_append split: option.splits)
  have len: "length f + j = ?k" using w(4) j by (metis length_append length_replicate)
  have written: "formatUnits v d = w @ (if f \<noteq> [] then CHR ''.'' # f else [])"
    using False assms by (simp add: formatUnits_def int_text_def Let_def x_def w_def f_def g_def)
  have "(of_nat n :: rat) / 10 ^ length f = of_nat (n * 10 ^ j) / 10 ^ ?k"
    by (simp add: len [symmetric] power_add)
  then show ?thesis
    using decimal_value_plain [OF w(1,2), of f] n assms(1) by (simp add: written)
qed

section \<open>Confirmed transfers\<close>

lemma first_transfer_sound:
  "first_transfer contract master lgs = Some tr \<Longrightarrow>
     \<exists>lg \<in> set lgs. matches_master contract master lg \<and> transfer_value lg = Some (mt_value tr)"
  by (induction lgs) (auto split: if_splits option.splits)

definition pays_master :: "network \<Rightarrow> evm_receipt \<Rightarrow> int \<Rightarrow> bool" where
  "pays_master n rc v \<longleftrightarrow> (rc_status rc = None \<or> rc_status rc = Some (Some ''0x1'')) \<and> 0 < v \<and>
     (\<exists>lgs lg. rc_logs rc = Some lgs \<and> lg \<in> set lgs \<and>
        matches_master (norm (net_contract n)) (norm (net_master n)) lg \<and> transfer_value lg = Some v)"

text \<open>
  Between the block of the receipt and the latest block the chain reports lie enough blocks: without
  a block of its own a receipt counts as mined in the latest one, without a latest block it is 0.
\<close>

definition deep_enough :: "network \<Rightarrow> evm_receipt \<Rightarrow> string option \<Rightarrow> bool" where
  "deep_enough n rc latestHex \<longleftrightarrow> (\<exists>latest txBlock.
     (if truthy latestHex then js_bigint (the latestHex) else Some 0) = Some latest \<and>
     (if truthy (rc_block rc) then js_bigint (the (rc_block rc)) else Some latest) = Some txBlock \<and>
     net_confirmations n \<le> max 0 (latest - txBlock))"

lemma norm_the [simp]: "truthy x \<Longrightarrow> norm (Some (the x)) = norm x"
  by (cases x) (simp_all add: truthy_def)

lemma evaluate_confirmed:
  assumes "evaluateEvmReceipt receipt latest n = Some v" and "vr_outcome v = CONFIRMED"
  obtains rc x txBlock where "receipt = Some rc" and "pays_master n rc x"
    and "vr_amount v = Some (formatUnits x (net_decimals n))"
    and "(if truthy (rc_block rc) then js_bigint (the (rc_block rc)) else Some latest) = Some txBlock"
    and "net_confirmations n \<le> max 0 (latest - txBlock)"
proof -
  have set: "truthy (net_master n)" "truthy (net_contract n)"
    using assms by (auto simp: evaluateEvmReceipt_def verdict_def split: if_splits)
  then obtain rc where rc: "receipt = Some rc"
    using assms by (cases receipt) (auto simp: evaluateEvmReceipt_def verdict_def)
  have ok: "rc_status rc = None \<or> rc_status rc = Some (Some ''0x1'')"
    using assms set by (auto simp: rc evaluateEvmReceipt_def verdict_def split: if_splits)
  let ?lgs = "case rc_logs rc of None \<Rightarrow> [] | Some ls \<Rightarrow> ls"
  obtain tr where tr: "findMasterTransfer ?lgs (the (net_contract n)) (the (net_master n)) = Some tr"
    using assms set ok by (cases "findMasterTransfer ?lgs (the (net_contract n)) (the (net_master n))")
      (auto simp: rc evaluateEvmReceipt_def verdict_def)
  have pos: "0 < mt_value tr"
    using assms set ok tr by (auto simp: rc evaluateEvmReceipt_def verdict_def split: if_splits)
  let ?block = "if truthy (rc_block rc) then js_bigint (the (rc_block rc)) else Some latest"
  let ?c = "\<lambda>txBlock. if txBlock < latest then latest - txBlock else 0"
  have ok': "\<not> (rc_status rc \<noteq> None \<and> rc_status rc \<noteq> Some (Some ''0x1''))" using ok by (simp only: de_Morgan_conj not_not)
  have "evaluateEvmReceipt receipt latest n = (case ?block of None \<Rightarrow> None
      | Some txBlock \<Rightarrow> Some \<lparr>vr_outcome = (if net_confirmations n \<le> ?c txBlock then CONFIRMED else PENDING),
          vr_amount = Some (formatUnits (mt_value tr) (net_decimals n)), vr_from = Some (mt_from tr),
          vr_confirmations = Some (?c txBlock), vr_log = mt_log tr,
          vr_reason = (if net_confirmations n \<le> ?c txBlock then None else Some ''awaiting_confirmations'')\<rparr>)"
    using set ok' tr pos unfolding evaluateEvmReceipt_def rc Let_def by (simp only: option.case if_False not_not) simp
  then obtain txBlock where block: "?block = Some txBlock"
    and v: "v = \<lparr>vr_outcome = (if net_confirmations n \<le> ?c txBlock then CONFIRMED else PENDING),
          vr_amount = Some (formatUnits (mt_value tr) (net_decimals n)), vr_from = Some (mt_from tr),
          vr_confirmations = Some (?c txBlock), vr_log = mt_log tr,
          vr_reason = (if net_confirmations n \<le> ?c txBlock then None else Some ''awaiting_confirmations'')\<rparr>"
    using assms(1) by (cases ?block) simp_all
  have amount: "vr_amount v = Some (formatUnits (mt_value tr) (net_decimals n))" by (simp add: v)
  have "net_confirmations n \<le> ?c txBlock" using assms(2) by (simp add: v split: if_split_asm)
  then have conf: "net_confirmations n \<le> max 0 (latest - txBlock)" by (simp split: if_split_asm)
  from first_transfer_sound [OF tr [unfolded findMasterTransfer_def]] obtain lg where
    lg: "lg \<in> set ?lgs" "matches_master (norm (net_contract n)) (norm (net_master n)) lg"
    "transfer_value lg = Some (mt_value tr)" using set by auto
  have pays: "pays_master n rc (mt_value tr)"
    using ok pos lg by (cases "rc_logs rc") (auto simp: pays_master_def)
  show thesis by (rule that [OF rc pays amount block conf])
qed

lemma verify_confirmed:
  assumes "verifyTx rpc n tx = v" and "vr_outcome v = CONFIRMED"
  obtains url rc latest x where "net_rpc n = Some url" and "rpc url tx = Some (Some rc, latest)"
    and "pays_master n rc x" and "vr_amount v = Some (formatUnits x (net_decimals n))"
    and "deep_enough n rc latest"
proof -
  have evm: "net_family n = EVM" "isNetworkConfigured n" "truthy (net_rpc n)"
    using assms by (auto simp: verifyTx_def evm_verifyTx_def verdict_def split: if_splits)
  obtain url where url: "net_rpc n = Some url" using evm(3) by (auto simp: truthy_def)
  have v: "evm_verifyTx rpc n tx = v" using assms(1) evm(1) by (simp add: verifyTx_def)
  obtain receipt latest where r: "rpc url tx = Some (receipt, latest)"
    using v assms(2) evm url by (cases "rpc url tx") (auto simp: evm_verifyTx_def verdict_def Let_def)
  have "\<exists>l. (if truthy latest then js_bigint (the latest) else Some 0) = Some l \<and> evaluateEvmReceipt receipt l n = Some v"
    using v assms(2) evm url r
    by (auto simp: evm_verifyTx_def verdict_def Let_def split: if_splits option.splits)
  then obtain l where l: "(if truthy latest then js_bigint (the latest) else Some 0) = Some l"
    "evaluateEvmReceipt receipt l n = Some v" by blast
  obtain rc x txBlock where "receipt = Some rc" "pays_master n rc x" "vr_amount v = Some (formatUnits x (net_decimals n))"
    "(if truthy (rc_block rc) then js_bigint (the (rc_block rc)) else Some l) = Some txBlock"
    "net_confirmations n \<le> max 0 (l - txBlock)" by (rule evaluate_confirmed [OF l(2) assms(2)])
  then show thesis using that url r l(1) unfolding deep_enough_def by blast
qed

end
