(* ===== verification/Crypto_Deposit_Properties.thy ===== *)
theory Crypto_Deposit_Properties
  imports Crypto_Deposit_Laws Evm_Laws
begin

text \<open>The properties of crypto deposits, each with a run it applies to.\<close>

section \<open>One row\<close>

lemma md_update_run:
  assumes "findById_md i s = Some x" and "\<And>y. md_id (upd y) = md_id y"
  obtains t where "update_md i upd s = (Inr (upd x\<lparr>md_updated := now s\<rparr>), t)"
    and "findById_md i t = Some (upd x\<lparr>md_updated := now s\<rparr>)" and "ledger_tables t = ledger_tables s"
proof -
  let ?upd = "\<lambda>r. upd r\<lparr>md_updated := now s\<rparr>"
  let ?t = "put_master_deposits (map (\<lambda>r. if md_id r = i then ?upd r else r) (master_deposits s)) s"
  have find: "md_rows.find_row i s = Some x" "md_id x = i"
    by (rule assms(1) [unfolded findById_md_def]) (rule findById_md_known [OF assms(1), THEN conjunct2])
  have "update_md i upd s = (Inr (?upd x), ?t)"
    using md_rows.update_one_run [of i s x ?upd] find(1) by (simp add: update_md_def svc_simps)
  moreover have "findById_md i ?t = Some (?upd x)"
    using md_rows.find_row_updated_one [of ?upd i i s] assms(2) find by (simp add: findById_md_def)
  ultimately show thesis using that [of ?t] by simp
qed

lemma md_mark_run:
  assumes "findById_md i s = Some x" and "md_status x \<noteq> MD_CONFIRMED" and "distinct (map md_id (master_deposits s))"
  obtains t y where "markCredited_md i txn a c f l s = (Inr 1, t)" and "findById_md i t = Some y"
    and "md_same x y" and "md_status y = MD_CONFIRMED" and "md_amount y = a" and "md_txn y = Some txn"
    and "ledger_tables t = ledger_tables s"
    and "map (\<lambda>r. (md_chain r, md_tx r, md_user r)) (master_deposits t) = map (\<lambda>r. (md_chain r, md_tx r, md_user r)) (master_deposits s)"
proof -
  let ?upd = "\<lambda>r. r\<lparr>md_status := MD_CONFIRMED, md_txn := Some txn, md_credited_at := Some (now s), md_amount := a,
    md_confirmations := c, md_from := f, md_log := l, md_reason := None, md_updated := now s\<rparr>"
  let ?t = "put_master_deposits (map (\<lambda>r. if md_id r = i \<and> md_status r \<noteq> MD_CONFIRMED then ?upd r else r)
    (master_deposits s)) s"
  have find: "md_rows.find_row i s = Some x" "md_id x = i"
    by (rule assms(1) [unfolded findById_md_def]) (rule findById_md_known [OF assms(1), THEN conjunct2])
  have "filter (\<lambda>r. md_id r = i \<and> md_status r \<noteq> MD_CONFIRMED) (master_deposits s) = [x]"
    using filter_key [OF assms(3), of i "\<lambda>r. md_status r \<noteq> MD_CONFIRMED"] find(1) assms(2) by simp
  then have "markCredited_md i txn a c f l s = (Inr 1, ?t)"
    by (simp add: markCredited_md_def update_many_def svc_simps)
  moreover have "findById_md i ?t = Some (?upd x)"
    using md_rows.find_row_updated [of ?upd i i "\<lambda>r. md_status r \<noteq> MD_CONFIRMED" s] assms(2) find
    by (simp add: findById_md_def)
  ultimately show thesis using that [of ?t "?upd x"] by (simp add: md_same_def)
qed

section \<open>Submitting a confirmed transaction\<close>

lemma submit_new_run:
  assumes s: "master_state s" and net: "getNetwork cfg ch = Some n" "isNetworkEnabled cfg n"
    and new: "findByChainTxHash ch (normalizeTxHash ch h) s = None"
  obtains d s1 where "submit_check cfg u ch h s = (Inr (n, Inl d), s1)"
    and "md_id d = next_uuid s" "md_user d = u" "md_chain d = ch" "md_tx d = normalizeTxHash ch h" "md_status d = MD_SUBMITTED"
    and "master_deposits s1 = master_deposits s @ [d]" and "ledger_tables s1 = ledger_tables s"
    and "conflicts s1 = conflicts s"
proof -
  have on: "cd_enabled cfg" "truthy (net_master n)"
    using net(2) by (simp_all add: isNetworkEnabled_def isNetworkConfigured_def Let_def)
  show thesis
    using that net(1) new on net(2)
    by (auto simp: submit_check_def create_md_def fresh_uuid_def audit_md_def recordAudit_def put_master_deposits_def
        svc_simps Let_def ledger_tables_def)
qed

lemma sweep_balanced:
  assumes "amounts_fit sc [x, x]" and "0 < x"
  shows "balanced_lines sc (post_lines (crypto_credit d x))" and "covered (post_lines (crypto_credit d x)) s"
  using assms
  by (auto simp: balanced_lines_def crypto_credit_def net_def well_addressed_def signed_amount_def isUserAccount_def
      covered_def debits_def)

section \<open>Example states\<close>

text \<open>
  A USDT network with one decimal and two confirmations, whose chain knows one transfer of 2.5 USDT
  to the master wallet in block 16, and user 7 who claims it at block 18.
\<close>

definition bsc :: network where
  "bsc = \<lparr>net_chain = ''BSC'', net_family = EVM, net_name = ''BNB Smart Chain'', net_asset = ''USDT'',
     net_decimals = 1, net_master = Some ''0xAB'', net_contract = Some ''0xC0'', net_confirmations = 2,
     net_rpc = Some ''rpc'', net_api = None, net_api_key = None\<rparr>"

definition bsc_config :: crypto_config where
  "bsc_config = \<lparr>cd_enabled = True, cd_network = (\<lambda>_. bsc)\<rparr>"

definition transfer_log :: "string \<Rightarrow> evm_log" where
  "transfer_log amount = \<lparr>log_address = Some ''0xc0'', log_topics = Some [TRANSFER_TOPIC, ''0x12'', ''ab''],
     log_data = Some amount, log_index = Some ''0x3''\<rparr>"

definition paid_receipt :: evm_receipt where
  "paid_receipt = \<lparr>rc_status = Some (Some ''0x1''), rc_block = Some ''0x10'',
     rc_logs = Some [transfer_log ''0x19'']\<rparr>"

definition paid_rpc :: rpc_endpoint where
  "paid_rpc url tx = (if tx = ''0xaa'' then Some (Some paid_receipt, Some ''0x12'') else None)"

definition dead_rpc :: rpc_endpoint where
  "dead_rpc url tx = None"

definition alice_db :: db where
  "alice_db = empty_db\<lparr>users := [verified_user 7, verified_user 8], now := 5\<rparr>"

definition claimed_db :: db where
  "claimed_db = snd (submit_check bsc_config 7 ''BSC'' ''0xAA'' alice_db)"

definition claim :: "db \<Rightarrow> master_deposit" where
  "claim s = hd (master_deposits s)"

definition credited_db :: db where
  "credited_db = snd (submit exact bsc_config paid_rpc 7 ''BSC'' ''0xAA'' alice_db)"

lemma alice_db_empty: "ledger_inv alice_db" "master_deposits alice_db = []" "\<not> md_credited i alice_db"
  by (rule ledger_inv_cong [OF _ _ empty_db_inv])
    (simp_all add: ledger_tables_def alice_db_def empty_db_def posted_as_def)

lemma alice_db_state: "master_state alice_db"
  using no_master_deposits(1) [OF alice_db_empty] by (simp add: masters_inv_def)

lemma bsc_network: "getNetwork bsc_config ''BSC'' = Some bsc" "isNetworkEnabled bsc_config bsc" "isNetworkConfigured bsc"
  "net_decimals bsc = 1" "normalizeTxHash ''BSC'' ''0xAA'' = ''0xaa''"
  by code_simp+

lemma paid_answer:
  "vr_outcome (verifyTx paid_rpc bsc ''0xaa'') = CONFIRMED"
  "vr_amount (verifyTx paid_rpc bsc ''0xaa'') = Some (formatUnits 25 1)"
  "vr_log (verifyTx paid_rpc bsc ''0xaa'') \<noteq> Not_A_Number"
proof -
  have run: "let v = verifyTx paid_rpc bsc ''0xaa'' in vr_outcome v = CONFIRMED \<and>
      vr_amount v = Some (formatUnits 25 1) \<and> vr_log v = Log_Index 3" by code_simp
  show "vr_outcome (verifyTx paid_rpc bsc ''0xaa'') = CONFIRMED"
    "vr_amount (verifyTx paid_rpc bsc ''0xaa'') = Some (formatUnits 25 1)"
    "vr_log (verifyTx paid_rpc bsc ''0xaa'') \<noteq> Not_A_Number"
    using run by (simp_all add: Let_def)
qed

lemma claimed_db_row:
  "submit_check bsc_config 7 ''BSC'' ''0xAA'' alice_db = (Inr (bsc, Inl (claim claimed_db)), claimed_db)"
  "md_chain (claim claimed_db) = ''BSC''" "md_tx (claim claimed_db) = ''0xaa''" "md_user (claim claimed_db) = 7"
  "md_id (claim claimed_db) = next_uuid alice_db" "md_status (claim claimed_db) = MD_SUBMITTED"
  "\<not> md_credited i claimed_db" "master_state claimed_db" "md_known (claim claimed_db) claimed_db"
proof -
  have none: "findByChainTxHash ''BSC'' (normalizeTxHash ''BSC'' ''0xAA'') alice_db = None"
    by (simp add: findByChainTxHash_def alice_db_empty)
  obtain d s1 where d: "submit_check bsc_config 7 ''BSC'' ''0xAA'' alice_db = (Inr (bsc, Inl d), s1)"
    "md_id d = next_uuid alice_db" "md_user d = 7" "md_chain d = ''BSC''" "md_tx d = normalizeTxHash ''BSC'' ''0xAA''"
    "md_status d = MD_SUBMITTED" "master_deposits s1 = master_deposits alice_db @ [d]"
    "ledger_tables s1 = ledger_tables alice_db"
    by (rule submit_new_run [OF alice_db_state bsc_network(1,2) none, of 7])
  have s1: "claimed_db = s1" "claim s1 = d" using d(1,7) by (simp_all add: claimed_db_def claim_def alice_db_empty(2))
  show "submit_check bsc_config 7 ''BSC'' ''0xAA'' alice_db = (Inr (bsc, Inl (claim claimed_db)), claimed_db)"
    "md_chain (claim claimed_db) = ''BSC''" "md_tx (claim claimed_db) = ''0xaa''" "md_user (claim claimed_db) = 7"
    "md_id (claim claimed_db) = next_uuid alice_db" "md_status (claim claimed_db) = MD_SUBMITTED"
    using d bsc_network(5) unfolding s1 by simp_all
  show "\<not> md_credited i claimed_db" using md_credited_tables [OF d(8)] alice_db_empty(3) s1 by simp
  show "master_state claimed_db" "md_known (claim claimed_db) claimed_db"
    using md.tripleD [OF submit_check_keeps alice_db_state TrueI d(1)] s1 by auto
qed

lemma credited_db_row:
  "length (master_deposits credited_db) = 1" "md_status (claim credited_db) = MD_CONFIRMED"
  "md_id (claim credited_db) = next_uuid alice_db" "md_amount (claim credited_db) = 5 / 2"
proof -
  have run: "let s = credited_db in length (master_deposits s) = 1 \<and> md_status (claim s) = MD_CONFIRMED \<and>
      md_id (claim s) = next_uuid alice_db \<and> md_amount (claim s) = 5 / 2" by code_simp
  show "length (master_deposits credited_db) = 1" "md_status (claim credited_db) = MD_CONFIRMED"
    "md_id (claim credited_db) = next_uuid alice_db" "md_amount (claim credited_db) = 5 / 2"
    using run by (simp_all add: Let_def)
qed

lemma credited_db_claims: "claim credited_db \<in> set (master_deposits credited_db)"
  "findById_md (md_id (claim claimed_db)) credited_db = Some (claim credited_db)"
  using credited_db_row(1,3) claimed_db_row(5) by (auto simp: length_Suc_conv claim_def findById_md_def)

lemma credited_db_reached: "\<exists>T L. (md_call exact bsc_config)\<^sup>*\<^sup>* (alice_db, [], []) (credited_db, T, L)"
  by (rule submit_steps [of _ _ paid_rpc 7 "''BSC''" "''0xAA''" _ "fst (submit exact bsc_config paid_rpc 7 ''BSC'' ''0xAA'' alice_db)"])
    (simp add: credited_db_def)

section \<open>The table and the books\<close>

text \<open>
  What the credit of the amounts \<open>cs\<close> means for an account: the user of each claim receives its
  amount of the deposit asset, the sweep account gives it, and nothing else moves.
\<close>

definition credited_sum :: "(master_deposit \<times> rat) list \<Rightarrow> nat option \<Rightarrow> string \<Rightarrow> account_kind \<Rightarrow> rat" where
  "credited_sum cs v b k =
     (if b \<noteq> DEPOSIT_ASSET then 0
      else if v = None \<and> k = SWEEP_CLEARING then - sum_list (map snd cs)
      else if k = USER_AVAILABLE then sum_list (map snd (filter (\<lambda>c. v = Some (md_user (fst c))) cs))
      else 0)"

lemma credited_sum_delta:
  "sum_list (map (\<lambda>c. delta (post_lines (crypto_credit (fst c) (snd c))) v b k) cs) = credited_sum cs v b k"
  by (induction cs)
    (auto simp: credited_sum_def crypto_credit_def delta_def line_delta_def signed_amount_def)

text \<open>
  C23.  A transaction is credited once, to the user of its claim, with the amount the chain confirmed:
  whatever submissions, rechecks and answers of the chain come in whatever order, no two claims are for
  the same transaction; a CONFIRMED claim is in the ledger and its amount is one that an answer for
  this claim confirmed; and every balance differs from where it started by exactly one credit for every
  claim credited since.  Each of these credits is for a stored claim, goes to the user of that claim,
  and is of an amount that the chain, asked for the transaction of that claim, answered as confirmed;
  when no answer for the claim confirmed another amount, a CONFIRMED row shows exactly this amount.
\<close>

theorem crypto_deposits_credited_once:
  assumes "ledger_inv s" and "master_deposits s = []" and "\<And>i. \<not> md_credited i s"
    and "(md_call D cfg)\<^sup>*\<^sup>* (s, [], []) (t, T, L)"
  shows "distinct (map (\<lambda>r. (md_chain r, md_tx r)) (master_deposits t)) \<and>
    (\<forall>r \<in> set (master_deposits t). md_status r = MD_CONFIRMED \<longrightarrow>
       md_credited (md_id r) t \<and> (\<exists>d. md_id d = md_id r \<and> answered L d (md_amount r))) \<and>
    (\<exists>cs. distinct (map (\<lambda>c. md_id (fst c)) cs) \<and> (\<forall>i. i \<in> md_id ` fst ` set cs \<longleftrightarrow> md_credited i t) \<and>
      (\<forall>c \<in> set cs. answered L (fst c) (snd c) \<and> 0 < snd c \<and>
         (\<exists>r \<in> set (master_deposits t). md_id r = md_id (fst c) \<and> md_user r = md_user (fst c) \<and>
            md_chain r = md_chain (fst c) \<and> md_tx r = md_tx (fst c) \<and>
            (md_status r = MD_CONFIRMED \<longrightarrow> (\<forall>d y. md_id d = md_id r \<longrightarrow> answered L d y \<longrightarrow> y = snd c) \<longrightarrow>
               md_amount r = snd c))) \<and>
      (\<forall>v b k. bal t v b k = bal s v b k + credited_sum cs v b k))"
proof -
  have "masters_inv (t, T, L) \<and> md_traced s (t, T, L)"
    by (rule md_calls_keep [OF assms(4) no_master_deposits [OF assms(1-3)]])
  then have w: "master_state t" "md_kept (\<lambda>i x. \<exists>d. md_id d = i \<and> answered L d x) s t"
    and "\<exists>cs. md_credits s cs t \<and> (\<forall>c \<in> set cs. answered L (fst c) (snd c))"
    by (auto simp: masters_inv_def md_traced_def)
  then obtain cs where cs: "md_credits s cs t" "\<forall>c \<in> set cs. answered L (fst c) (snd c)" by blast
  have amount: "\<exists>d. md_id d = md_id r \<and> answered L d (md_amount r)"
    if "r \<in> set (master_deposits t)" "md_status r = MD_CONFIRMED" for r
    using w(2) that assms(2) by (auto simp: md_kept_def)
  have row: "\<exists>r \<in> set (master_deposits t). md_id r = md_id (fst c) \<and> md_user r = md_user (fst c) \<and>
      md_chain r = md_chain (fst c) \<and> md_tx r = md_tx (fst c) \<and>
      (md_status r = MD_CONFIRMED \<longrightarrow> (\<forall>d y. md_id d = md_id r \<longrightarrow> answered L d y \<longrightarrow> y = snd c) \<longrightarrow>
         md_amount r = snd c)" if "c \<in> set cs" for c
  proof -
    have "md_known (fst c) t" using cs(1) that by (simp add: md_credits_def)
    then obtain r where r: "r \<in> set (master_deposits t)" "md_same (fst c) r" by (auto simp: md_known_def)
    then show ?thesis using amount [OF r(1)] by (intro bexI [OF _ r(1)]) (auto simp: md_same_def)
  qed
  show ?thesis
  proof (intro conjI ballI impI)
    show "distinct (map (\<lambda>r. (md_chain r, md_tx r)) (master_deposits t))" by (rule master_stateD(3) [OF w(1)])
    show "md_credited (md_id r) t" if "r \<in> set (master_deposits t)" "md_status r = MD_CONFIRMED" for r
      using master_stateD(5) [OF w(1) that(1)] that(2) by (simp add: md_ok_def)
    show "\<exists>d. md_id d = md_id r \<and> answered L d (md_amount r)"
      if "r \<in> set (master_deposits t)" "md_status r = MD_CONFIRMED" for r by (rule amount [OF that])
  qed (use cs assms(3) row in \<open>intro exI [of _ cs] conjI ballI; simp add: md_credits_def credited_sum_delta\<close>)
qed

theorem crypto_deposits_credited_once_witness:
  "\<exists>T L d. (md_call exact bsc_config)\<^sup>*\<^sup>* (alice_db, [], []) (credited_db, T, L) \<and>
    md_credited (md_id (claim credited_db)) credited_db \<and> md_id d = md_id (claim credited_db) \<and> answered L d (5 / 2)"
proof -
  obtain T L where T: "(md_call exact bsc_config)\<^sup>*\<^sup>* (alice_db, [], []) (credited_db, T, L)"
    using credited_db_reached by blast
  from crypto_deposits_credited_once [OF alice_db_empty T]
  have "md_credited (md_id (claim credited_db)) credited_db \<and>
      (\<exists>d. md_id d = md_id (claim credited_db) \<and> answered L d (md_amount (claim credited_db)))"
    using credited_db_claims(1) credited_db_row(2) by blast
  then show ?thesis using T credited_db_row(4) by auto
qed

section \<open>Crediting\<close>

text \<open>
  C24.  No credit without a transfer: when verifying a claim credits it, the chain has answered for
  the hash of the claim with a receipt that did not fail, in which the configured token contract logs
  a transfer to the configured master wallet, at least the configured number of blocks before the
  latest block the chain reports; and the user receives the value of that transfer in units of the
  token, exactly.
\<close>

theorem credit_needs_transfer:
  assumes "ledger_inv s" and "verifyAndProcess D cfg rpc d actor s = (r, t)"
    and "\<not> md_credited (md_id d) s" and "md_credited (md_id d) t"
    and "\<And>n. getNetwork cfg (md_chain d) = Some n \<Longrightarrow> 0 \<le> net_decimals n"
  shows "\<exists>n url rc latestHex x latest txBlock. getNetwork cfg (md_chain d) = Some n \<and> net_rpc n = Some url \<and>
    rpc url (md_tx d) = Some (Some rc, latestHex) \<and> pays_master n rc x \<and>
    (if truthy latestHex then js_bigint (the latestHex) else Some 0) = Some latest \<and>
    (if truthy (rc_block rc) then js_bigint (the (rc_block rc)) else Some latest) = Some txBlock \<and>
    net_confirmations n \<le> max 0 (latest - txBlock) \<and>
    bal t (Some (md_user d)) DEPOSIT_ASSET USER_AVAILABLE =
      bal s (Some (md_user d)) DEPOSIT_ASSET USER_AVAILABLE + of_int x / 10 ^ nat (net_decimals n)"
proof -
  have moved: "ledger_tables t \<noteq> ledger_tables s" using assms(3,4) md_credited_tables by metis
  obtain n where n: "getNetwork cfg (md_chain d) = Some n" "vr_outcome (verifyTx rpc n (md_tx d)) = CONFIRMED"
    "creditDeposit D d (verifyTx rpc n (md_tx d)) actor s = (r, t)"
    using process_moves [OF assms(2) moved] by blast
  obtain url rc latestHex x where paid: "net_rpc n = Some url" "rpc url (md_tx d) = Some (Some rc, latestHex)"
    "pays_master n rc x" "vr_amount (verifyTx rpc n (md_tx d)) = Some (formatUnits x (net_decimals n))"
    and conf: "deep_enough n rc latestHex"
    by (rule verify_confirmed [OF refl n(2)])
  obtain a y p s1 where post: "vr_amount (verifyTx rpc n (md_tx d)) = Some a" "decimal_value a = Some y"
    "post D (crypto_credit d y) (Some (md_user d)) s = (p, s1)" "ledger_tables t = ledger_tables s1"
    using credit_moves [OF n(3) moved] by blast
  have "0 \<le> x" using paid(3) by (simp add: pays_master_def)
  then have y: "y = of_int x / 10 ^ nat (net_decimals n)"
    using formatUnits_value [of x "net_decimals n"] assms(5) [OF n(1)] paid(4) post(1,2) by simp
  obtain q where q: "p = Inr q"
    using post_state(2) [OF post(3) assms(1)] moved post(4) by (cases p) auto
  have "already_posted (crypto_credit d y) s = md_credited (md_id d) s"
    by (rule already_posted_as) (simp_all add: crypto_credit_def)
  then have "bal s1 (Some (md_user d)) DEPOSIT_ASSET USER_AVAILABLE = bal s (Some (md_user d)) DEPOSIT_ASSET USER_AVAILABLE + y"
    using posting.success_moves [OF post(3) [unfolded q] assms(1)] assms(3)
    by (simp add: crypto_credit_def delta_def line_delta_def signed_amount_def)
  then have "bal t (Some (md_user d)) DEPOSIT_ASSET USER_AVAILABLE =
      bal s (Some (md_user d)) DEPOSIT_ASSET USER_AVAILABLE + of_int x / 10 ^ nat (net_decimals n)"
    using bal_tables [OF post(4)] y by simp
  then show ?thesis using n(1) paid(1-3) conf unfolding deep_enough_def by blast
qed

theorem credit_needs_transfer_witness:
  "\<exists>t rc x. verifyAndProcess exact bsc_config paid_rpc (claim claimed_db) None claimed_db =
      (fst (verifyAndProcess exact bsc_config paid_rpc (claim claimed_db) None claimed_db), t) \<and>
    pays_master bsc rc x \<and>
    bal t (Some 7) DEPOSIT_ASSET USER_AVAILABLE = bal claimed_db (Some 7) DEPOSIT_ASSET USER_AVAILABLE + of_int x / 10"
proof -
  let ?d = "claim claimed_db"
  obtain r t where run: "verifyAndProcess exact bsc_config paid_rpc ?d None claimed_db = (r, t)"
    by (cases "verifyAndProcess exact bsc_config paid_rpc ?d None claimed_db")
  have "submit exact bsc_config paid_rpc 7 ''BSC'' ''0xAA'' alice_db =
      (map_sum id (\<lambda>p. toMasterDepositDto p (Some (net_confirmations bsc))) r, t)"
    using claimed_db_row(1) run by (cases r) (simp_all add: submit_def svc_simps)
  then have t: "t = credited_db" by (simp add: credited_db_def)
  have "master_state t" using md.tripleD [OF verifyAndProcess_keeps claimed_db_row(8,9) run] by simp
  then have "md_credited (md_id ?d) t"
    using master_stateD(5) [of t "claim credited_db"] credited_db_claims(1) credited_db_row(2,3) claimed_db_row(5) t
    by (simp add: md_ok_def)
  from credit_needs_transfer [OF master_stateD(1) [OF claimed_db_row(8)] run claimed_db_row(7) this]
  show ?thesis using bsc_network(1,4) claimed_db_row(2,4) run by auto
qed

section \<open>Answers that come too late\<close>

text \<open>
  C27.  A stale answer: when a claim has been credited while another verification of it was waiting
  for the chain, and that verification then fails or finds nothing, the claim reads FAILED or REJECTED
  again although it is in the ledger; the credit stays.
\<close>

theorem stale_answer_overwrites_confirmed:
  assumes "findById_md (md_id d) s = Some x" and "md_status x = MD_CONFIRMED" and "md_status d \<noteq> MD_CONFIRMED"
    and "getNetwork cfg (md_chain d) = Some n" and "isNetworkConfigured n"
    and "vr_outcome (verifyTx rpc n (md_tx d)) \<notin> {CONFIRMED, PENDING}"
  shows "\<exists>y t. verifyAndProcess D cfg rpc d actor s = (Inr y, t) \<and> findById_md (md_id d) t = Some y \<and>
    md_status y \<in> {MD_FAILED, MD_REJECTED} \<and> md_txn y = md_txn x \<and> ledger_tables t = ledger_tables s"
proof -
  let ?v = "verifyTx rpc n (md_tx d)"
  define st where "st = (if vr_outcome ?v = REJECTED then MD_REJECTED else MD_FAILED)"
  define why where "why = (case vr_reason ?v of None \<Rightarrow>
    if vr_outcome ?v = REJECTED then ''verification_failed'' else ''provider_error'' | Some w \<Rightarrow> w)"
  have "verifyAndProcess D cfg rpc d actor = update_md (md_id d) (\<lambda>r. r\<lparr>md_status := st, md_reason := Some why\<rparr>)"
    using assms(3-6) by (cases "vr_outcome ?v"; cases "vr_reason ?v")
      (simp_all add: verifyAndProcess_def process_result_def st_def why_def)
  moreover obtain t where "update_md (md_id d) (\<lambda>r. r\<lparr>md_status := st, md_reason := Some why\<rparr>) s =
      (Inr (x\<lparr>md_status := st, md_reason := Some why, md_updated := now s\<rparr>), t)"
    "findById_md (md_id d) t = Some (x\<lparr>md_status := st, md_reason := Some why, md_updated := now s\<rparr>)"
    "ledger_tables t = ledger_tables s"
    by (rule md_update_run [OF assms(1), of "\<lambda>r. r\<lparr>md_status := st, md_reason := Some why\<rparr>"]) simp_all
  ultimately show ?thesis by (simp add: st_def)
qed

theorem stale_answer_overwrites_confirmed_witness:
  "\<exists>y t. verifyAndProcess exact bsc_config dead_rpc (claim claimed_db) None credited_db = (Inr y, t) \<and>
     md_status (claim credited_db) = MD_CONFIRMED \<and> md_status y \<in> {MD_FAILED, MD_REJECTED}"
proof -
  have dead: "vr_outcome (verifyTx dead_rpc bsc (md_tx (claim claimed_db))) \<notin> {CONFIRMED, PENDING}"
    using bsc_network(3) by (simp add: verifyTx_def evm_verifyTx_def dead_rpc_def verdict_def Let_def)
  show ?thesis
    using stale_answer_overwrites_confirmed [OF credited_db_claims(2) credited_db_row(2) _ _ bsc_network(3) dead, of bsc_config exact None]
      credited_db_row(2) claimed_db_row(2,6) bsc_network(1) by auto
qed

section \<open>Long amounts\<close>

lemma decimal_zero_iff: "decimal_context D \<Longrightarrow> D y = 0 \<longleftrightarrow> y = 0"
  using decimal_error [of D y] by (cases "y = 0") auto

text \<open>
  C26.  A transfer whose amount has more significant digits than the number package keeps is never
  credited: the balance check computes 0 minus the amount plus the amount with rounding, the total is
  not 0, and every verification in which the chain confirms the transfer ends in BAD_REQUEST and leaves
  the database as it was (an answer that does not confirm the transfer still writes the row).
\<close>

theorem long_amount_refused:
  assumes "decimal_context D" and "md_status d \<noteq> MD_CONFIRMED"
    and "getNetwork cfg (md_chain d) = Some n" and "0 \<le> net_decimals n"
    and "vr_outcome (verifyTx rpc n (md_tx d)) = CONFIRMED"
    and "vr_amount (verifyTx rpc n (md_tx d)) = Some (formatUnits x (net_decimals n))" and "0 < x"
    and "D (- (of_int x / 10 ^ nat (net_decimals n))) \<noteq> - (of_int x / 10 ^ nat (net_decimals n))"
  shows "verifyAndProcess D cfg rpc d actor s = (Inl BadRequestError, s)"
proof -
  let ?v = "verifyTx rpc n (md_tx d)" and ?a = "of_int x / 10 ^ nat (net_decimals n) :: rat"
  have conf: "isNetworkConfigured n"
    using assms(5) by (auto simp: verifyTx_def evm_verifyTx_def verdict_def split: if_splits)
  have val: "decimal_value (formatUnits x (net_decimals n)) = Some ?a"
    using formatUnits_value assms(4,7) by simp
  then have ne: "formatUnits x (net_decimals n) \<noteq> []" by (auto simp: decimal_value_def digits_of_def)
  have pos: "0 < ?a" using assms(7) by simp
  have "D (D (- ?a) + ?a) \<noteq> 0"
    using decimal_zero_iff [OF assms(1)] assms(8) by (simp add: eq_neg_iff_add_eq_0)
  then have "assertPostingBalanced D (crypto_credit d ?a) s = (Inl BadRequestError, s)"
    using pos by (simp add: assertPostingBalanced_def crypto_credit_def dadd_def dsub_def svc_simps)
  then have "post D (crypto_credit d ?a) (Some (md_user d)) s = (Inl BadRequestError, s)"
    by (simp add: post_def svc_simps)
  moreover obtain c cs where "formatUnits x (net_decimals n) = c # cs" using ne by (cases "formatUnits x (net_decimals n)") auto
  ultimately show ?thesis
    using assms(2,3,5,6) conf val pos
    by (simp add: verifyAndProcess_def process_result_def creditDeposit_def to_decimal_def svc_simps)
qed


text \<open>
  A package that keeps seventeen decimals of a number between 100 and 1000, and a token with eighteen
  decimals of which 100.000000000000000001 are sent.
\<close>

definition keep17 :: "rat \<Rightarrow> rat" where
  "keep17 x = of_int \<lfloor>x * 10 ^ 17\<rfloor> / 10 ^ 17"

definition rounding17 :: rounding where
  "rounding17 x = (if 100 \<le> \<bar>x\<bar> \<and> \<bar>x\<bar> \<le> 1000 then keep17 x else x)"

lemma keep17_facts:
  shows "keep17 x \<le> x" and "x < keep17 x + 1 / 10 ^ 17" and "of_int n \<le> x \<Longrightarrow> of_int n \<le> keep17 x"
    and "x \<le> y \<Longrightarrow> keep17 x \<le> keep17 y" and "grid 17 x \<Longrightarrow> keep17 x = x"
proof -
  show "keep17 x \<le> x" "x < keep17 x + 1 / 10 ^ 17"
    by (simp_all add: keep17_def field_simps) linarith
  show "keep17 x \<le> keep17 y" if "x \<le> y"
    unfolding keep17_def using that by (intro divide_right_mono) (simp_all add: floor_mono)
  show "of_int n \<le> keep17 x" if "of_int n \<le> x"
  proof -
    have "of_int (n * 10 ^ 17) \<le> x * 10 ^ 17" using that by simp
    then have "n * 10 ^ 17 \<le> \<lfloor>x * 10 ^ 17\<rfloor>" by (simp only: le_floor_iff)
    then have "of_int (n * 10 ^ 17) \<le> (of_int \<lfloor>x * 10 ^ 17\<rfloor> :: rat)" by (simp only: of_int_le_iff)
    then show ?thesis by (simp add: keep17_def field_simps)
  qed
  show "keep17 x = x" if "grid 17 x" using that by (simp add: keep17_def grid_def)
qed

lemma rounding17_context: "decimal_context rounding17"
  unfolding decimal_context_def
proof (intro conjI allI impI)
  fix s x assume fits: "fits20 s x"
  show "rounding17 x = x"
  proof (cases "100 \<le> \<bar>x\<bar>")
    case True
    have "100 * 10 ^ s \<le> \<bar>x\<bar> * 10 ^ s" by (rule mult_right_mono [OF True]) simp
    then have "100 * 10 ^ s < (10 :: rat) ^ 20" using fits unfolding fits20_def by (elim conjE) (rule le_less_trans)
    then have "(10 :: rat) ^ s < 10 ^ 18" by simp
    then have "s < 18" using power_less_imp_less_exp [of "10 :: rat" s 18] by simp
    then have "grid 17 x" using fits grid_mono [of s x 17] by (simp add: fits20_def)
    then show ?thesis by (simp add: rounding17_def keep17_facts(5))
  qed (simp add: rounding17_def)
next
  fix x y :: rat assume "x \<le> y"
  then show "rounding17 x \<le> rounding17 y"
    using keep17_facts(1,2) [of x] keep17_facts(1,2) [of y] keep17_facts(4) [of x y] keep17_facts(3) [of "-1000" x] keep17_facts(3) [of 100 x]
      keep17_facts(3) [of "-1000" y] keep17_facts(3) [of 100 y]
    by (auto simp: rounding17_def abs_if split: if_splits)
next
  fix x :: rat
  show "\<bar>rounding17 x - x\<bar> \<le> \<bar>x\<bar> / 10 ^ 19"
    using keep17_facts(1,2) [of x] by (auto simp: rounding17_def)
qed

definition fine_network :: network where
  "fine_network = bsc\<lparr>net_decimals := 18\<rparr>"

definition fine_config :: crypto_config where
  "fine_config = \<lparr>cd_enabled = True, cd_network = (\<lambda>_. fine_network)\<rparr>"

definition fine_rpc :: rpc_endpoint where
  "fine_rpc url tx =
     Some (Some (paid_receipt\<lparr>rc_logs := Some [transfer_log ''0x56bc75e2d63100001'']\<rparr>), Some ''0x12'')"

lemma fine_value: "transfer_value (transfer_log ''0x56bc75e2d63100001'') = Some 100000000000000000001"
  by (simp add: transfer_value_def transfer_log_def js_bigint_def trim_def white_space_def digits_of_def
      digit_value_def lowerChar_def Let_def)

lemma fine_matches: "matches_master (norm (Some ''0xC0'')) (norm (Some ''0xAB'')) (transfer_log x)"
  by (simp add: matches_master_def transfer_log_def) code_simp

lemma fine_answer:
  "vr_outcome (verifyTx fine_rpc fine_network ''0xaa'') = CONFIRMED"
  "vr_amount (verifyTx fine_rpc fine_network ''0xaa'') = Some (formatUnits 100000000000000000001 18)"
proof -
  have blocks: "js_bigint ''0x12'' = Some 18" "js_bigint ''0x10'' = Some 16" by code_simp+
  have net: "net_family fine_network = EVM" "isNetworkConfigured fine_network" "net_rpc fine_network = Some ''rpc''"
    "net_master fine_network = Some ''0xAB''" "net_contract fine_network = Some ''0xC0''"
    "net_confirmations fine_network = 2" "net_decimals fine_network = 18"
    by (simp_all add: fine_network_def bsc_def isNetworkConfigured_def truthy_def)
  obtain tr where tr: "findMasterTransfer [transfer_log ''0x56bc75e2d63100001''] ''0xC0'' ''0xAB'' = Some tr"
    "mt_value tr = 100000000000000000001"
    using fine_matches fine_value by (simp add: findMasterTransfer_def)
  have "verifyTx fine_rpc fine_network ''0xaa'' =
      \<lparr>vr_outcome = CONFIRMED, vr_amount = Some (formatUnits 100000000000000000001 18), vr_from = Some (mt_from tr),
       vr_confirmations = Some 2, vr_log = mt_log tr, vr_reason = None\<rparr>"
    using tr by (simp add: verifyTx_def evm_verifyTx_def net truthy_def fine_rpc_def blocks evaluateEvmReceipt_def
        paid_receipt_def)
  then show "vr_outcome (verifyTx fine_rpc fine_network ''0xaa'') = CONFIRMED"
    "vr_amount (verifyTx fine_rpc fine_network ''0xaa'') = Some (formatUnits 100000000000000000001 18)" by simp_all
qed

lemma fine_rounded: "keep17 (- (of_int 100000000000000000001 / 10 ^ 18)) \<noteq> - (of_int 100000000000000000001 / 10 ^ 18)"
proof
  assume eq: "keep17 (- (of_int 100000000000000000001 / 10 ^ 18)) = - (of_int 100000000000000000001 / 10 ^ 18)"
  define k where "k = \<lfloor>- (of_int 100000000000000000001 / 10 ^ 18) * 10 ^ 17 :: rat\<rfloor>"
  have "of_int k / 10 ^ 17 = (- (of_int 100000000000000000001 / 10 ^ 18) :: rat)"
    using eq unfolding keep17_def k_def .
  then have "of_int (k * 10) = (of_int (- 100000000000000000001) :: rat)" by simp
  then have "k * 10 = - 100000000000000000001" by (simp only: of_int_eq_iff)
  then show False by presburger
qed

theorem long_amount_refused_witness:
  "verifyAndProcess rounding17 fine_config fine_rpc (claim claimed_db) None claimed_db = (Inl BadRequestError, claimed_db)"
proof -
  have net: "getNetwork fine_config ''BSC'' = Some fine_network" "net_decimals fine_network = 18"
    by (simp_all add: getNetwork_def isSupportedChain_def SUPPORTED_CHAINS_def fine_config_def fine_network_def)
  have "rounding17 (- (of_int 100000000000000000001 / 10 ^ 18)) \<noteq> - (of_int 100000000000000000001 / 10 ^ 18)"
    using fine_rounded by (simp add: rounding17_def)
  then show ?thesis
    using long_amount_refused [OF rounding17_context, of "claim claimed_db" fine_config fine_network fine_rpc
        100000000000000000001 None claimed_db]
    by (simp add: claimed_db_row net fine_answer)
qed

section \<open>Submitting\<close>

lemma find_via_map:
  assumes "map f xs = map f ys" and "\<And>x. P x \<longleftrightarrow> Q (f x)"
  shows "map_option f (find P xs) = map_option f (find P ys)"
  using assms(1)
proof (induction xs arbitrary: ys)
  case (Cons a xs)
  then obtain b zs where "ys = b # zs" "f a = f b" "map f xs = map f zs" by (cases ys) auto
  then show ?case using Cons.IH [of zs] assms(2) by simp
qed simp

lemma audit_md_run:
  obtains t where "audit_md ty ac act i s = (Inr (), t)" and "ledger_tables t = ledger_tables s"
    and "master_deposits t = master_deposits s"
  by (auto simp: audit_md_def recordAudit_def svc_simps ledger_tables_def)

lemma master_credit_run:
  assumes s: "master_state s" "md_known d s" "findById_md (md_id d) s = Some d" "md_status d \<noteq> MD_CONFIRMED"
    and D: "decimal_context D" "balanced_lines sc (post_lines (crypto_credit d x))" "covered (post_lines (crypto_credit d x)) s"
    and calm: "conflicts s = [] \<or> \<not> hd (conflicts s)" and new: "\<not> md_credited (md_id d) s"
    and v: "vr_amount v = Some a" "a \<noteq> []" "decimal_value a = Some x" "0 < x" "vr_log v \<noteq> Not_A_Number"
  obtains y t where "creditDeposit D d v actor s = (Inr y, t)" and "md_same d y" and "md_status y = MD_CONFIRMED"
    and "md_amount y = x" and "\<forall>u b k. bal t u b k = bal s u b k + delta (post_lines (crypto_credit d x)) u b k"
    and "map (\<lambda>r. (md_chain r, md_tx r, md_user r)) (master_deposits t) = map (\<lambda>r. (md_chain r, md_tx r, md_user r)) (master_deposits s)"
proof -
  note inv = master_stateD(1) [OF s(1)]
  obtain p s2 where p: "post D (crypto_credit d x) (Some (md_user d)) s = (Inr p, s2)"
    using post_total [OF D(1,2) inv D(3) calm] by blast
  note w = crypto_credit_run [OF s(1,2) p]
  have "already_posted (crypto_credit d x) s = md_credited (md_id d) s"
    by (rule already_posted_as) (simp_all add: crypto_credit_def)
  then have moved: "bal s2 u b k = bal s u b k + delta (post_lines (crypto_credit d x)) u b k" for u b k
    using posting.success_moves [OF p inv] new by simp
  obtain l where l: "log_column (vr_log v) s2 = (Inr l, s2)"
    using v(5) by (cases "vr_log v") (auto simp: log_column_def svc_simps)
  have row: "findById_md (md_id d) s2 = Some d" using s(3) w(4) by (simp add: findById_md_def)
  obtain s3 y where y: "markCredited_md (md_id d) (posted_id p) x (or_zero (vr_confirmations v)) (vr_from v) l s2 = (Inr 1, s3)"
    "findById_md (md_id d) s3 = Some y" "md_same d y" "md_status y = MD_CONFIRMED" "md_amount y = x"
    "ledger_tables s3 = ledger_tables s2"
    "map (\<lambda>r. (md_chain r, md_tx r, md_user r)) (master_deposits s3) = map (\<lambda>r. (md_chain r, md_tx r, md_user r)) (master_deposits s2)"
    by (rule md_mark_run [OF row s(4) master_stateD(2) [OF w(1)], where txn = "posted_id p" and a = x and
        c = "or_zero (vr_confirmations v)" and f = "vr_from v" and l = l])
  let ?ty = "if actor = None then ACTOR_SYSTEM else ACTOR_ADMIN"
  obtain t where t: "audit_md ?ty actor ''crypto_deposit.credited'' (md_id d) s3 = (Inr (), t)"
    "ledger_tables t = ledger_tables s3" "master_deposits t = master_deposits s3" by (rule audit_md_run)
  have fresh: "findById_md (md_id d) t = Some y" using y(2) t(3) by (simp add: findById_md_def)
  obtain c cs where a: "a = c # cs" using v(2) by (cases a) auto
  have "creditDeposit D d v actor s = (Inr y, t)"
    using v(1,3,4) p l y(1) t(1) fresh by (simp add: creditDeposit_def to_decimal_def whenS_def svc_simps a)
  then show thesis
    using that [of y t] y(3-5,7) moved bal_tables [OF t(2)] bal_tables [OF y(6)] t(3) w(4) by simp
qed

text \<open>
  C25.  The first submission takes the transfer: submitting the hash of a transfer with enough
  confirmations that nobody has claimed yet confirms the claim and pays its amount to the submitter,
  whoever sent the transfer, as long as twice the value stays below \<open>10 ^ 20\<close> base units (50 tokens of
  18 decimals; C26 says what can happen above); after that every other user who submits the hash is
  told it is a duplicate, and nothing changes.
\<close>

theorem first_submitter_credited:
  assumes "decimal_context D" and "master_state s" and "conflicts s = [] \<or> \<not> hd (conflicts s)"
    and "getNetwork cfg ch = Some n" and "isNetworkEnabled cfg n" and "0 \<le> net_decimals n"
    and "findByChainTxHash ch (normalizeTxHash ch h) s = None"
    and "vr_outcome (verifyTx rpc n (normalizeTxHash ch h)) = CONFIRMED"
    and "vr_amount (verifyTx rpc n (normalizeTxHash ch h)) = Some (formatUnits x (net_decimals n))"
    and "vr_log (verifyTx rpc n (normalizeTxHash ch h)) \<noteq> Not_A_Number" and "0 < x" and "2 * x < 10 ^ 20"
  shows "\<exists>dto t. submit D cfg rpc u ch h s = (Inr dto, t) \<and> mdd_status dto = ''confirmed'' \<and>
    mdd_amount dto = of_int x / 10 ^ nat (net_decimals n) \<and>
    bal t (Some u) DEPOSIT_ASSET USER_AVAILABLE = bal s (Some u) DEPOSIT_ASSET USER_AVAILABLE + of_int x / 10 ^ nat (net_decimals n) \<and>
    (\<forall>u' h'. u' \<noteq> u \<longrightarrow> normalizeTxHash ch h' = normalizeTxHash ch h \<longrightarrow>
      (\<exists>dup. submit D cfg rpc u' ch h' t = (Inr dup, t) \<and> mdd_status dup = ''duplicate''))"
proof -
  let ?h = "normalizeTxHash ch h" and ?v = "verifyTx rpc n (normalizeTxHash ch h)"
  let ?a = "of_int x / 10 ^ nat (net_decimals n) :: rat"
  obtain d s1 where d: "submit_check cfg u ch h s = (Inr (n, Inl d), s1)" "md_id d = next_uuid s" "md_user d = u"
    "md_chain d = ch" "md_tx d = ?h" "md_status d = MD_SUBMITTED" "master_deposits s1 = master_deposits s @ [d]"
    "ledger_tables s1 = ledger_tables s" "conflicts s1 = conflicts s"
    by (rule submit_new_run [OF assms(2,4,5,7)])
  note w = md.tripleD [OF submit_check_keeps assms(2) TrueI d(1)]
  have s1: "master_state s1" "md_known d s1" using w by auto
  have find: "findById_md (md_id d) s1 = Some d"
    using find_by_key [OF master_stateD(2) [OF s1(1)], of d] d(7) by (simp add: findById_md_def)
  have new: "\<not> md_credited (md_id d) s1"
    using master_stateD(4) [OF assms(2), of "next_uuid s"] md_credited_tables [OF d(8)] d(2) by auto
  have val: "decimal_value (formatUnits x (net_decimals n)) = Some ?a"
    using formatUnits_value assms(6,11) by simp
  then have ne: "formatUnits x (net_decimals n) \<noteq> []" by (auto simp: decimal_value_def digits_of_def)
  have pos: "0 < ?a" using assms(11) by simp
  have "amounts_fit (nat (net_decimals n)) [?a, ?a]"
  proof -
    have "of_int (2 * x) < (of_int (10 ^ 20) :: rat)" using assms(12) by (simp only: of_int_less_iff)
    then show ?thesis using assms(11) by (simp add: amounts_fit_def grid_def)
  qed
  note sweep = sweep_balanced [OF this pos, of d]
  have status: "md_status d \<noteq> MD_CONFIRMED" and calm: "conflicts s1 = [] \<or> \<not> hd (conflicts s1)"
    using d(6,9) assms(3) by simp_all
  obtain y t where y: "creditDeposit D d ?v None s1 = (Inr y, t)" "md_same d y" "md_status y = MD_CONFIRMED"
    "md_amount y = ?a" "\<forall>u b k. bal t u b k = bal s1 u b k + delta (post_lines (crypto_credit d ?a)) u b k"
    "map (\<lambda>r. (md_chain r, md_tx r, md_user r)) (master_deposits t) = map (\<lambda>r. (md_chain r, md_tx r, md_user r)) (master_deposits s1)"
    by (rule master_credit_run [OF s1 find status assms(1) sweep calm new assms(9) ne val pos assms(10), of None])
  have conf: "isNetworkConfigured n" using assms(5) by (simp add: isNetworkEnabled_def)
  have run: "submit D cfg rpc u ch h s = (Inr (toMasterDepositDto y (Some (net_confirmations n))), t)"
    using d(1,4-6) assms(4,8) conf y(1)
    by (simp add: submit_def verifyAndProcess_def process_result_def svc_simps)
  have paid: "bal t (Some u) DEPOSIT_ASSET USER_AVAILABLE = bal s (Some u) DEPOSIT_ASSET USER_AVAILABLE + ?a"
    using y(5) bal_tables [OF d(8)] d(3)
    by (simp add: crypto_credit_def delta_def line_delta_def signed_amount_def)
  have "map_option (\<lambda>r. (md_chain r, md_tx r, md_user r)) (findByChainTxHash ch ?h t) =
      map_option (\<lambda>r. (md_chain r, md_tx r, md_user r)) (findByChainTxHash ch ?h s1)"
    unfolding findByChainTxHash_def by (rule find_via_map [OF y(6), where Q = "\<lambda>(c, h, _). c = ch \<and> h = ?h"]) simp
  moreover have "findByChainTxHash ch ?h s1 = Some d"
    using assms(7) d(4,5,7) by (simp add: findByChainTxHash_def find_append)
  ultimately obtain r where r: "findByChainTxHash ch ?h t = Some r" "md_user r = u" using d(3) by auto
  have on: "cd_enabled cfg" "truthy (net_master n)"
    using assms(5) by (simp_all add: isNetworkEnabled_def isNetworkConfigured_def Let_def)
  have "\<exists>dup. submit D cfg rpc u' ch h' t = (Inr dup, t) \<and> mdd_status dup = ''duplicate''"
    if "u' \<noteq> u" "normalizeTxHash ch h' = ?h" for u' h'
    using that r on assms(4,5) by (simp add: submit_def submit_check_def handleExisting_check_def svc_simps Let_def)
  then show ?thesis using run paid y(3,4) by (auto simp: toMasterDepositDto_def)
qed

theorem first_submitter_credited_witness:
  "\<exists>dto t. submit exact bsc_config paid_rpc 8 ''BSC'' ''0xAA'' alice_db = (Inr dto, t) \<and>
     mdd_status dto = ''confirmed'' \<and> mdd_amount dto = 5 / 2 \<and>
     (\<exists>dup. submit exact bsc_config paid_rpc 7 ''BSC'' ''0xaa'' t = (Inr dup, t) \<and> mdd_status dup = ''duplicate'')"
proof -
  have none: "findByChainTxHash ''BSC'' (normalizeTxHash ''BSC'' ''0xAA'') alice_db = None"
    by (simp add: findByChainTxHash_def alice_db_empty)
  have calm: "conflicts alice_db = [] \<or> \<not> hd (conflicts alice_db)" by (simp add: alice_db_def empty_db_def)
  have lower: "normalizeTxHash ''BSC'' ''0xaa'' = normalizeTxHash ''BSC'' ''0xAA''" by code_simp
  have answer: "vr_outcome (verifyTx paid_rpc bsc (normalizeTxHash ''BSC'' ''0xAA'')) = CONFIRMED"
    "vr_amount (verifyTx paid_rpc bsc (normalizeTxHash ''BSC'' ''0xAA'')) = Some (formatUnits 25 (net_decimals bsc))"
    "vr_log (verifyTx paid_rpc bsc (normalizeTxHash ''BSC'' ''0xAA'')) \<noteq> Not_A_Number"
    using paid_answer by (simp_all add: bsc_network)
  have dec: "0 \<le> net_decimals bsc" by (simp add: bsc_network)
  from first_submitter_credited [OF decimal_context_exact alice_db_state calm bsc_network(1,2) dec none answer, of 8]
  show ?thesis using lower by (auto simp: bsc_network)
qed

section \<open>Amounts in text\<close>

text \<open>
  \<open>formatUnits\<close> is exact: the text it writes for a value with a number of decimals, read back
  as a decimal number, is the value divided by the power of ten, so two different values of a token
  never read the same.
\<close>

theorem formatUnits_roundtrip:
  assumes "0 \<le> v" and "0 \<le> w" and "0 \<le> d"
  shows "decimal_value (formatUnits v d) = Some (of_int v / 10 ^ nat d) \<and>
    (formatUnits v d = formatUnits w d \<longleftrightarrow> v = w)"
proof
  show "decimal_value (formatUnits v d) = Some (of_int v / 10 ^ nat d)" by (rule formatUnits_value [OF assms(1,3)])
  have "v = w" if "formatUnits v d = formatUnits w d"
  proof -
    have "of_int v / 10 ^ nat d = (of_int w / 10 ^ nat d :: rat)"
      using trans [OF formatUnits_value [OF assms(1,3), unfolded that, symmetric] formatUnits_value [OF assms(2,3)]]
      by (simp only: option.inject)
    then show ?thesis by simp
  qed
  then show "formatUnits v d = formatUnits w d \<longleftrightarrow> v = w" by blast
qed

theorem formatUnits_roundtrip_witness:
  "formatUnits 25 1 = ''2.5'' \<and> decimal_value ''2.5'' = Some (5 / 2) \<and> formatUnits 26 1 \<noteq> ''2.5''"
proof -
  have "formatUnits 25 1 = ''2.5''" by code_simp
  then show ?thesis using formatUnits_roundtrip [of 25 26 1] by (simp add: eq_commute [of "''2.5''"])
qed

end
