(* ===== verification/Totp.thy ===== *)
theory Totp
  imports Prelude "HOL-Library.Word"
begin

unbundle bit_operations_syntax

text \<open>
  One-time codes of an authenticator app: \<open>lib/totp.ts\<close>.  HMAC-SHA1 is a parameter \<open>hmac key
  message\<close>, which gives the twenty bytes of the digest.  Bytes are numbers below 256; the texts of
  0s and 1s the source builds are lists of truth values; times are milliseconds after 1970, at least
  one period.
\<close>

section \<open>Base32\<close>

definition BASE32_ALPHABET :: string where
  "BASE32_ALPHABET = ''ABCDEFGHIJKLMNOPQRSTUVWXYZ234567''"

text \<open>\<open>toString(2).padStart(w, '0')\<close> of a number below \<open>2 ^ w\<close>, and \<open>parseInt(bits, 2)\<close>.\<close>

fun bits_of :: "nat \<Rightarrow> nat \<Rightarrow> bool list" where
  "bits_of 0 n = []"
| "bits_of (Suc w) n = odd (n div 2 ^ w) # bits_of w n"

definition bits_value :: "bool list \<Rightarrow> nat" where
  "bits_value bs = foldl (\<lambda>acc b. 2 * acc + of_bool b) 0 bs"

fun base32_groups :: "bool list \<Rightarrow> string" where
  "base32_groups bits =
     (if 5 \<le> length bits then (BASE32_ALPHABET ! bits_value (take 5 bits)) # base32_groups (drop 5 bits)
      else if bits \<noteq> [] then [BASE32_ALPHABET ! bits_value (bits @ replicate (5 - length bits) False)]
      else [])"

definition base32Encode :: "nat list \<Rightarrow> string" where
  "base32Encode buf = base32_groups (concat (map (bits_of 8) buf))"

definition normalizeBase32 :: "string \<Rightarrow> string" where
  "normalizeBase32 input =
     map upperChar (filter (\<lambda>c. \<not> white_space c) (rev (dropWhile (\<lambda>c. c = CHR ''='') (rev input))))"

fun index_of :: "'a list \<Rightarrow> 'a \<Rightarrow> nat option" where
  "index_of [] x = None"
| "index_of (y # ys) x = (if y = x then Some 0 else map_option Suc (index_of ys x))"

text \<open>\<open>None\<close> at a character that is not in the alphabet.\<close>

fun base32_bits :: "string \<Rightarrow> bool list option" where
  "base32_bits [] = Some []"
| "base32_bits (c # cs) =
     (case index_of BASE32_ALPHABET c of None \<Rightarrow> None
      | Some v \<Rightarrow> map_option (\<lambda>bs. bits_of 5 v @ bs) (base32_bits cs))"

fun octets :: "bool list \<Rightarrow> nat list" where
  "octets bits = (if 8 \<le> length bits then bits_value (take 8 bits) # octets (drop 8 bits) else [])"

definition base32ToBuffer :: "string \<Rightarrow> nat list" where
  "base32ToBuffer input = (case base32_bits (normalizeBase32 input) of None \<Rightarrow> [] | Some bits \<Rightarrow> octets bits)"

declare base32_groups.simps [simp del] octets.simps [simp del]

section \<open>Codes\<close>

definition PERIOD_MS :: nat where "PERIOD_MS = 30000"
definition DIGITS :: nat where "DIGITS = 6"

type_synonym hmac = "nat list \<Rightarrow> nat list \<Rightarrow> nat list"

text \<open>\<open>generateTotpSecret\<close>, from the twenty random bytes of a call.\<close>

definition generateTotpSecret :: "nat list \<Rightarrow> string" where
  "generateTotpSecret random = base32Encode random"

text \<open>\<open>writeBigUInt64BE\<close>.\<close>

definition counter_bytes :: "nat \<Rightarrow> nat list" where
  "counter_bytes n = octets (bits_of 64 n)"

text \<open>The bit operations of JavaScript work on 32 bits and give a signed number.\<close>

definition truncated :: "nat list \<Rightarrow> 32 word" where
  "truncated digest =
     (let off = unat ((of_nat (last digest) :: 32 word) AND 0x0f);
          byte = (\<lambda>i. of_nat (digest ! (off + i)) :: 32 word)
      in push_bit 24 (byte 0 AND 0x7f) OR push_bit 16 (byte 1 AND 0xff) OR push_bit 8 (byte 2 AND 0xff) OR
         (byte 3 AND 0xff))"

definition totpCode :: "hmac \<Rightarrow> string \<Rightarrow> nat \<Rightarrow> string" where
  "totpCode hmac secretBase32 timestamp =
     (let secret = base32ToBuffer secretBase32
      in if secret = [] then []
         else padStart DIGITS (int_text (sint (truncated (hmac secret (counter_bytes (timestamp div PERIOD_MS))))
                mod 10 ^ DIGITS)))"

definition six_digits :: "string \<Rightarrow> bool" where
  "six_digits x \<longleftrightarrow> length x = 6 \<and> (\<forall>c \<in> set x. 48 \<le> (of_char c :: nat) \<and> (of_char c :: nat) \<le> 57)"

definition verifyTotp :: "hmac \<Rightarrow> string \<Rightarrow> string \<Rightarrow> nat \<Rightarrow> bool" where
  "verifyTotp hmac secretBase32 code timestamp \<longleftrightarrow>
     (let candidate = trim code
      in six_digits candidate \<and> base32ToBuffer secretBase32 \<noteq> [] \<and>
         (\<exists>t \<in> {timestamp - PERIOD_MS, timestamp, timestamp + PERIOD_MS}. totpCode hmac secretBase32 t = candidate))"

end
