(* ===== verification/Auth.thy ===== *)
theory Auth
  imports Database Encryption Totp
begin

text \<open>
  Accounts and sessions: the state of \<open>modules/auth\<close> and \<open>modules/user-security\<close>, their
  repositories, and \<open>lib/jwt.ts\<close>, \<open>lib/tokens.ts\<close>, \<open>lib/redis.ts\<close>.  The state holds the columns these
  modules use, the Redis keys they write with the time they vanish, the mails sent and the trail;
  times are whole milliseconds.  \<open>a_next\<close> numbers the random draws of a run: a UUID is the number of
  its draw, a token is what \<open>auth_lib\<close> makes of it.

  Code outside the repository is the record \<open>auth_lib\<close>: argon2, SHA-256, HMAC, the random
  generators, JSON Web Tokens, AES-GCM, and the exchange with Google, which gives a profile or an
  error.
\<close>

section \<open>Configuration and libraries\<close>

record auth_config =
  requireEmailVerification :: bool
  allowUnverifiedLogin :: bool
  requireLoginLocation :: bool
  emailVerificationTtlMs :: int
  passwordResetTtlMs :: int
  rbacCacheTtlSec :: int
  lockout_maxAttempts :: nat
  lockout_windowMs :: int
  accessTtl :: string
  refreshTtl :: string
  accessSecret :: string
  refreshSecret :: string
  otp_secret :: string
  otp_ttlMs :: int
  otp_maxAttempts :: nat
  otp_cooldownMs :: int
  otp_maxPerHour :: nat
  google_enabled :: bool

record jwt_claims =
  c_sub :: nat
  c_sid :: nat
  c_fid :: "nat option"
  c_jti :: "nat option"
  c_tier :: "nat option"
  c_purpose :: string
  c_iss :: string
  c_aud :: string

record google_profile =
  gp_sub :: string
  gp_email :: string
  gp_verified :: bool

record auth_lib =
  argon_hash :: "nat \<Rightarrow> string \<Rightarrow> string"
  argon_verify :: "string \<Rightarrow> string \<Rightarrow> bool"
  lib_sha256 :: "string \<Rightarrow> string"
  lib_opaque :: "nat \<Rightarrow> string"
  lib_bytes :: "nat \<Rightarrow> nat \<Rightarrow> nat list"
  lib_randomInt :: "nat \<Rightarrow> nat \<Rightarrow> nat"
  lib_mac :: "string \<Rightarrow> string \<Rightarrow> string"
  lib_hmac_sha1 :: hmac
  lib_gcm :: gcm
  jwt_sign :: "string \<Rightarrow> string \<Rightarrow> int \<Rightarrow> jwt_claims \<Rightarrow> string"
  jwt_verify :: "string \<Rightarrow> string \<Rightarrow> string \<Rightarrow> int \<Rightarrow> string \<Rightarrow> jwt_claims option"
  jwt_life :: "string \<Rightarrow> int"
  lib_challenge :: "string \<Rightarrow> string"
  buildAuthUrl :: "string \<Rightarrow> string \<Rightarrow> string"
  exchangeCode :: "string \<Rightarrow> string \<Rightarrow> err + google_profile"

text \<open>
  What the JWT package documents: verifying a signed token with the same secret gives its claims
  while it lives, counted in seconds, if issuer and audience agree.
\<close>

definition jwt_correct :: "auth_lib \<Rightarrow> bool" where
  "jwt_correct L \<longleftrightarrow> (\<forall>k ttl t0 c iss aud t. jwt_verify L k iss aud t (jwt_sign L k ttl t0 c) =
     (if c_iss c = iss \<and> c_aud c = aud \<and> t div 1000 < t0 div 1000 + jwt_life L ttl then Some c else None))"

text \<open>SHA-256 tells the refresh tokens of different claims apart.\<close>

definition hash_separates :: "auth_lib \<Rightarrow> bool" where
  "hash_separates L \<longleftrightarrow> (\<forall>k ttl t0 t1 c c'. lib_sha256 L (jwt_sign L k ttl t0 c) = lib_sha256 L (jwt_sign L k ttl t1 c')
     \<longrightarrow> c = c')"

section \<open>Rows\<close>

record auth_user =
  au_id :: nat
  au_email :: string
  au_phone :: "string option"
  au_password :: string
  au_status :: user_status
  au_verified :: "int option"
  au_kyc :: kyc_status
  au_tier :: nat
  au_totp_secret :: "nat list option"
  au_totp :: bool
  au_created :: int
  au_deleted :: "int option"

record stored_location =
  sl_lat :: rat
  sl_lng :: rat
  sl_accuracy :: "int option"
  sl_captured :: int

record auth_session =
  as_id :: nat
  as_user :: nat
  as_refresh :: string
  as_family :: nat
  as_ip :: "string option"
  as_agent :: "string option"
  as_location :: "stored_location option"
  as_expires :: int
  as_revoked :: "int option"
  as_seen :: "int option"
  as_created :: int

record login_attempt =
  la_user :: "nat option"
  la_email :: string
  la_ip :: "string option"
  la_success :: bool
  la_created :: int

record recovery_code =
  rv_user :: nat
  rv_hash :: string
  rv_used :: "int option"

datatype otp_purpose = OTP_LOGIN | OTP_SIGNUP | OTP_EMAIL_VERIFICATION

record email_otp =
  eo_id :: nat
  eo_email :: string
  eo_hash :: string
  eo_purpose :: otp_purpose
  eo_expires :: int
  eo_attempts :: nat
  eo_max :: nat
  eo_sent :: int
  eo_used :: "int option"
  eo_created :: int

record oauth_account =
  oa_user :: nat
  oa_provider :: string
  oa_account :: string
  oa_email :: "string option"

record role_grant =
  rg_user :: nat
  rg_role :: string
  rg_permissions :: "string list"

record public_user =
  pu_id :: nat
  pu_email :: string
  pu_phone :: "string option"
  pu_status :: user_status
  pu_kyc :: kyc_status
  pu_tier :: nat
  pu_verified :: "int option"
  pu_totp :: bool
  pu_created :: int

record token_pair =
  accessToken :: string
  refreshToken :: string

section \<open>The state\<close>

datatype redis_key =
    VERIFY_KEY string | RESET_KEY string | RBAC_KEY nat | OAUTH_STATE_KEY string | OAUTH_EXCHANGE_KEY string
  | REVOKED_KEY nat | CHALLENGE_KEY string | STEPUP_KEY string | SECOND_FACTOR_FAIL_KEY nat

datatype redis_value =
    R_User nat | R_Text string | R_Count nat | R_Permissions "string list" "string list" | R_Auth public_user token_pair

datatype mail = Verification_Mail string string | Reset_Mail string string | Otp_Mail string string otp_purpose

record auth_audit =
  aa_actor_type :: actor_type
  aa_actor :: "nat option"
  aa_action :: string
  aa_entity :: "nat option"
  aa_ip :: "string option"
  aa_at :: int

record auth_db =
  a_users :: "auth_user list"
  a_sessions :: "auth_session list"
  a_attempts :: "login_attempt list"
  a_recovery :: "recovery_code list"
  a_otps :: "email_otp list"
  a_oauth :: "oauth_account list"
  a_roles :: "role_grant list"
  a_redis :: "(redis_key \<times> redis_value \<times> int option) list"
  a_redis_down :: bool
  a_mails :: "mail list"
  a_mail_down :: bool
  a_audit :: "auth_audit list"
  a_notified :: "(nat \<times> string) list"
  a_now :: int
  a_next :: nat

record auth_context =
  cx_ip :: "string option"
  cx_agent :: "string option"

definition no_context :: auth_context where
  "no_context = \<lparr>cx_ip = None, cx_agent = None\<rparr>"

definition draw :: "(auth_db, nat) svc" where
  "draw = bindS (readS a_next) (\<lambda>n. bindS (writeS (\<lambda>s. s\<lparr>a_next := Suc (a_next s)\<rparr>)) (\<lambda>_. returnS n))"

definition audit_a :: "actor_type \<Rightarrow> nat option \<Rightarrow> string \<Rightarrow> nat option \<Rightarrow> string option \<Rightarrow> (auth_db, unit) svc" where
  "audit_a actorType actor action entity ip = writeS (\<lambda>s. s\<lparr>a_audit := a_audit s @
     [\<lparr>aa_actor_type = actorType, aa_actor = actor, aa_action = action, aa_entity = entity, aa_ip = ip, aa_at = a_now s\<rparr>]\<rparr>)"

definition notify_a :: "nat \<Rightarrow> string \<Rightarrow> (auth_db, unit) svc" where
  "notify_a userId type = writeS (\<lambda>s. s\<lparr>a_notified := a_notified s @ [(userId, type)]\<rparr>)"

definition send_mail :: "mail \<Rightarrow> (auth_db, unit) svc" where
  "send_mail x =
     bindS (readS a_mail_down) (\<lambda>down.
     if down then throwS (JsError ''MailError'') else writeS (\<lambda>s. s\<lparr>a_mails := a_mails s @ [x]\<rparr>))"

section \<open>Redis\<close>

definition redis_a :: "(auth_db, 'a) svc \<Rightarrow> (auth_db, 'a) svc" where
  "redis_a command =
     bindS (readS a_redis_down) (\<lambda>down. if down then throwS ServiceUnavailableError else command)"

definition redis_entry :: "redis_key \<Rightarrow> auth_db \<Rightarrow> (redis_value \<times> int option) option" where
  "redis_entry k s = (case map_of (a_redis s) k of None \<Rightarrow> None
     | Some (v, expiry) \<Rightarrow> (case expiry of None \<Rightarrow> Some (v, None) | Some t \<Rightarrow> if a_now s < t then Some (v, Some t) else None))"

definition redis_put :: "redis_key \<Rightarrow> redis_value \<Rightarrow> int option \<Rightarrow> auth_db \<Rightarrow> auth_db" where
  "redis_put k v expiry s = s\<lparr>a_redis := (k, v, expiry) # filter (\<lambda>e. fst e \<noteq> k) (a_redis s)\<rparr>"

definition redis_remove :: "redis_key \<Rightarrow> auth_db \<Rightarrow> auth_db" where
  "redis_remove k s = s\<lparr>a_redis := filter (\<lambda>e. fst e \<noteq> k) (a_redis s)\<rparr>"

definition authRedisGet_a :: "redis_key \<Rightarrow> (auth_db, redis_value option) svc" where
  "authRedisGet_a k = redis_a (readS (\<lambda>s. map_option fst (redis_entry k s)))"

definition authRedisGetDel_a :: "redis_key \<Rightarrow> (auth_db, redis_value option) svc" where
  "authRedisGetDel_a k =
     redis_a (bindS (readS (\<lambda>s. map_option fst (redis_entry k s))) (\<lambda>v.
     bindS (writeS (redis_remove k)) (\<lambda>_. returnS v)))"

definition authRedisSet_a :: "redis_key \<Rightarrow> redis_value \<Rightarrow> int \<Rightarrow> (auth_db, unit) svc" where
  "authRedisSet_a k v ttlMs = redis_a (writeS (\<lambda>s. redis_put k v (Some (a_now s + ttlMs)) s))"

definition authRedisDel_a :: "redis_key \<Rightarrow> (auth_db, unit) svc" where
  "authRedisDel_a k = redis_a (writeS (redis_remove k))"

text \<open>\<open>INCR\<close> keeps the time the key vanishes; \<open>PEXPIRE\<close> sets it.\<close>

definition redis_incr :: "redis_key \<Rightarrow> (auth_db, nat) svc" where
  "redis_incr k =
     redis_a (bindS (readS (redis_entry k)) (\<lambda>e.
     case e of
       None \<Rightarrow> bindS (writeS (redis_put k (R_Count 1) None)) (\<lambda>_. returnS 1)
     | Some (R_Count n, expiry) \<Rightarrow> bindS (writeS (redis_put k (R_Count (Suc n)) expiry)) (\<lambda>_. returnS (Suc n))
     | Some _ \<Rightarrow> throwS (JsError ''ReplyError'')))"

definition redis_pexpire :: "redis_key \<Rightarrow> int \<Rightarrow> (auth_db, unit) svc" where
  "redis_pexpire k ttlMs =
     redis_a (bindS (readS (redis_entry k)) (\<lambda>e.
     case e of
       None \<Rightarrow> returnS ()
     | Some (v, _) \<Rightarrow> writeS (\<lambda>s. redis_put k v (Some (a_now s + ttlMs)) s)))"

text \<open>\<open>m.catch(() => v)\<close>.\<close>

definition orElse :: "(auth_db, 'a) svc \<Rightarrow> 'a \<Rightarrow> (auth_db, 'a) svc" where
  "orElse m v = catchS m (\<lambda>_. returnS v)"

section \<open>Tokens\<close>

definition JWT_ISSUER :: string where "JWT_ISSUER = ''cex-api''"
definition ACCESS_AUDIENCE :: string where "ACCESS_AUDIENCE = ''cex-api:access''"
definition REFRESH_AUDIENCE :: string where "REFRESH_AUDIENCE = ''cex-api:refresh''"

definition signAccessToken :: "auth_lib \<Rightarrow> auth_config \<Rightarrow> nat \<Rightarrow> nat \<Rightarrow> nat \<Rightarrow> (auth_db, string) svc" where
  "signAccessToken L cfg sub sid tier = readS (\<lambda>s. jwt_sign L (accessSecret cfg) (accessTtl cfg) (a_now s)
     \<lparr>c_sub = sub, c_sid = sid, c_fid = None, c_jti = None, c_tier = Some tier, c_purpose = ''access'',
      c_iss = JWT_ISSUER, c_aud = ACCESS_AUDIENCE\<rparr>)"

definition verifyAccessToken :: "auth_lib \<Rightarrow> auth_config \<Rightarrow> string \<Rightarrow> (auth_db, jwt_claims) svc" where
  "verifyAccessToken L cfg token =
     bindS (readS (\<lambda>s. jwt_verify L (accessSecret cfg) JWT_ISSUER ACCESS_AUDIENCE (a_now s) token)) (\<lambda>payload.
     case payload of
       None \<Rightarrow> throwS (JsError ''JsonWebTokenError'')
     | Some c \<Rightarrow> if c_purpose c \<noteq> ''access'' then throwS (JsError ''JsonWebTokenError'') else returnS c)"

definition refresh_claims :: "nat \<Rightarrow> nat \<Rightarrow> nat \<Rightarrow> nat \<Rightarrow> jwt_claims" where
  "refresh_claims sub sid fid jti = \<lparr>c_sub = sub, c_sid = sid, c_fid = Some fid, c_jti = Some jti, c_tier = None,
     c_purpose = ''refresh'', c_iss = JWT_ISSUER, c_aud = REFRESH_AUDIENCE\<rparr>"

definition signRefreshToken :: "auth_lib \<Rightarrow> auth_config \<Rightarrow> nat \<Rightarrow> nat \<Rightarrow> nat \<Rightarrow> (auth_db, string) svc" where
  "signRefreshToken L cfg sub sid fid =
     bindS draw (\<lambda>jti.
     readS (\<lambda>s. jwt_sign L (refreshSecret cfg) (refreshTtl cfg) (a_now s) (refresh_claims sub sid fid jti)))"

definition verifyRefreshToken :: "auth_lib \<Rightarrow> auth_config \<Rightarrow> string \<Rightarrow> (auth_db, jwt_claims) svc" where
  "verifyRefreshToken L cfg token =
     bindS (readS (\<lambda>s. jwt_verify L (refreshSecret cfg) JWT_ISSUER REFRESH_AUDIENCE (a_now s) token)) (\<lambda>payload.
     case payload of
       None \<Rightarrow> throwS (JsError ''JsonWebTokenError'')
     | Some c \<Rightarrow>
         if c_purpose c \<noteq> ''refresh'' \<or> c_jti c = None then throwS (JsError ''JsonWebTokenError'') else returnS c)"

definition generateOpaqueToken :: "auth_lib \<Rightarrow> (auth_db, string) svc" where
  "generateOpaqueToken L = bindS draw (\<lambda>n. returnS (lib_opaque L n))"

definition hash_password :: "auth_lib \<Rightarrow> string \<Rightarrow> (auth_db, string) svc" where
  "hash_password L password = bindS draw (\<lambda>n. returnS (argon_hash L n password))"

definition ttlToMs :: "string \<Rightarrow> int" where
  "ttlToMs ttl =
     (if ttl = [] \<or> last ttl \<notin> set ''smhd'' then 30 * 24 * 60 * 60 * 1000
      else case digits_of 10 (butlast ttl) of
        None \<Rightarrow> 30 * 24 * 60 * 60 * 1000
      | Some value \<Rightarrow> int value *
          (if last ttl = CHR ''s'' then 1000 else if last ttl = CHR ''m'' then 60000
           else if last ttl = CHR ''h'' then 3600000 else 86400000))"

end
