(* ===== verification/Auth_Repository.thy ===== *)
theory Auth_Repository
  imports Auth
begin

text \<open>
  \<open>auth.repository.ts\<close>, \<open>user-security.repository.ts\<close> and \<open>auth.otp.repository.ts\<close>.  E-mail columns
  are CITEXT: they are compared without regard to case.
\<close>

definition same_email :: "string \<Rightarrow> string \<Rightarrow> bool" where
  "same_email a b \<longleftrightarrow> toLowerCase a = toLowerCase b"

section \<open>Users\<close>

definition findUserByEmail :: "string \<Rightarrow> auth_db \<Rightarrow> auth_user option" where
  "findUserByEmail email s = find (\<lambda>u. same_email (au_email u) email) (a_users s)"

definition findUserById :: "nat \<Rightarrow> auth_db \<Rightarrow> auth_user option" where
  "findUserById i s = find (\<lambda>u. au_id u = i) (a_users s)"

text \<open>\<open>user.create\<close> meets the unique e-mail and phone.\<close>

definition insert_user :: "string \<Rightarrow> string option \<Rightarrow> string \<Rightarrow> bool \<Rightarrow> (auth_db, auth_user) svc" where
  "insert_user email phone passwordHash verified =
     bindS (readS (\<lambda>s. \<exists>u \<in> set (a_users s). same_email (au_email u) email \<or> (phone \<noteq> None \<and> au_phone u = phone))) (\<lambda>taken.
     bindS (requireS (\<not> taken) (PrismaError ''P2002'')) (\<lambda>_.
     bindS draw (\<lambda>i.
     bindS (readS a_now) (\<lambda>t.
     let u = \<lparr>au_id = i, au_email = email, au_phone = phone, au_password = passwordHash, au_status = USER_ACTIVE,
              au_verified = (if verified then Some t else None), au_kyc = KYC_NOT_STARTED, au_tier = 0,
              au_totp_secret = None, au_totp = False, au_created = t, au_deleted = None\<rparr>
     in bindS (writeS (\<lambda>s. s\<lparr>a_users := a_users s @ [u]\<rparr>)) (\<lambda>_. returnS u)))))"

definition createUser :: "string \<Rightarrow> string option \<Rightarrow> string \<Rightarrow> (auth_db, auth_user) svc" where
  "createUser email phone passwordHash = insert_user email phone passwordHash False"

definition findOAuthAccountWithUser :: "string \<Rightarrow> string \<Rightarrow> auth_db \<Rightarrow> auth_user option" where
  "findOAuthAccountWithUser provider account s =
     (case find (\<lambda>o'. oa_provider o' = provider \<and> oa_account o' = account) (a_oauth s) of
        None \<Rightarrow> None | Some o' \<Rightarrow> findUserById (oa_user o') s)"

definition linkOAuthAccount :: "oauth_account \<Rightarrow> (auth_db, unit) svc" where
  "linkOAuthAccount acc =
     bindS (readS (\<lambda>s. \<exists>o' \<in> set (a_oauth s). oa_provider o' = oa_provider acc \<and> oa_account o' = oa_account acc)) (\<lambda>taken.
     bindS (requireS (\<not> taken) (PrismaError ''P2002'')) (\<lambda>_.
     writeS (\<lambda>s. s\<lparr>a_oauth := a_oauth s @ [acc]\<rparr>)))"

definition createUserWithOAuth :: "string \<Rightarrow> string \<Rightarrow> string \<Rightarrow> string \<Rightarrow> (auth_db, auth_user) svc" where
  "createUserWithOAuth email passwordHash provider account =
     transactionS (bindS (insert_user email None passwordHash True) (\<lambda>u.
       bindS (linkOAuthAccount \<lparr>oa_user = au_id u, oa_provider = provider, oa_account = account, oa_email = Some email\<rparr>)
         (\<lambda>_. returnS u)))"

definition update_user :: "nat \<Rightarrow> (auth_user \<Rightarrow> auth_user) \<Rightarrow> (auth_db, unit) svc" where
  "update_user i upd =
     bindS (readS (findUserById i)) (\<lambda>found.
     bindS (requireS (found \<noteq> None) (PrismaError ''P2025'')) (\<lambda>_.
     writeS (\<lambda>s. s\<lparr>a_users := map (\<lambda>u. if au_id u = i then upd u else u) (a_users s)\<rparr>)))"

definition setEmailVerified :: "nat \<Rightarrow> (auth_db, unit) svc" where
  "setEmailVerified i = writeS (\<lambda>s. s\<lparr>a_users := map (\<lambda>u. if au_id u = i \<and> au_verified u = None \<and> au_deleted u = None
     then u\<lparr>au_verified := Some (a_now s)\<rparr> else u) (a_users s)\<rparr>)"

definition updatePassword :: "nat \<Rightarrow> string \<Rightarrow> (auth_db, unit) svc" where
  "updatePassword i passwordHash = update_user i (\<lambda>u. u\<lparr>au_password := passwordHash\<rparr>)"

section \<open>Sessions\<close>

definition createSession :: "auth_session \<Rightarrow> (auth_db, unit) svc" where
  "createSession row = writeS (\<lambda>s. s\<lparr>a_sessions := a_sessions s @ [row]\<rparr>)"

definition countSessionsForUser :: "nat \<Rightarrow> auth_db \<Rightarrow> nat" where
  "countSessionsForUser u s = length (filter (\<lambda>r. as_user r = u) (a_sessions s))"

definition countSessionsForUserDevice :: "nat \<Rightarrow> string option \<Rightarrow> string option \<Rightarrow> auth_db \<Rightarrow> nat" where
  "countSessionsForUserDevice u ip agent s =
     (let given = (\<lambda>x. x \<noteq> None \<and> x \<noteq> Some [])
      in if \<not> given ip \<and> \<not> given agent then 1
         else length (filter (\<lambda>r. as_user r = u \<and> ((given ip \<and> as_ip r = ip) \<or> (given agent \<and> as_agent r = agent)))
           (a_sessions s)))"

text \<open>Not revoked and not expired.\<close>

definition live_session :: "int \<Rightarrow> auth_session \<Rightarrow> bool" where
  "live_session t r \<longleftrightarrow> as_revoked r = None \<and> t < as_expires r"

definition findOtherActiveSessions :: "nat \<Rightarrow> nat \<Rightarrow> auth_db \<Rightarrow> auth_session list" where
  "findOtherActiveSessions u except s =
     filter (\<lambda>r. as_user r = u \<and> as_id r \<noteq> except \<and> live_session (a_now s) r) (a_sessions s)"

text \<open>\<open>updateMany\<close> over the sessions that meet a condition; the number of rows.\<close>

definition update_sessions :: "(auth_session \<Rightarrow> bool) \<Rightarrow> (auth_session \<Rightarrow> auth_session) \<Rightarrow> (auth_db, nat) svc" where
  "update_sessions cond upd =
     bindS (readS (\<lambda>s. length (filter cond (a_sessions s)))) (\<lambda>count.
     bindS (writeS (\<lambda>s. s\<lparr>a_sessions := map (\<lambda>r. if cond r then upd r else r) (a_sessions s)\<rparr>)) (\<lambda>_.
     returnS count))"

definition revoke_sessions :: "(auth_session \<Rightarrow> bool) \<Rightarrow> (auth_db, nat) svc" where
  "revoke_sessions cond =
     bindS (readS a_now) (\<lambda>t. update_sessions (\<lambda>r. cond r \<and> as_revoked r = None) (\<lambda>r. r\<lparr>as_revoked := Some t\<rparr>))"

definition touchSession :: "nat \<Rightarrow> (auth_db, nat) svc" where
  "touchSession i =
     bindS (readS a_now) (\<lambda>t.
     update_sessions (\<lambda>r. as_id r = i \<and> as_revoked r = None \<and>
         (case as_seen r of None \<Rightarrow> True | Some x \<Rightarrow> x < t - 60000)) (\<lambda>r. r\<lparr>as_seen := Some t\<rparr>))"

definition findSessionById :: "nat \<Rightarrow> auth_db \<Rightarrow> auth_session option" where
  "findSessionById i s = find (\<lambda>r. as_id r = i) (a_sessions s)"

definition findActiveSessionsByUser :: "nat \<Rightarrow> auth_db \<Rightarrow> auth_session list" where
  "findActiveSessionsByUser u s =
     rev (sort_key as_created (filter (\<lambda>r. as_user r = u \<and> live_session (a_now s) r) (a_sessions s)))"

definition listUserAuditLogs :: "nat \<Rightarrow> nat \<Rightarrow> auth_db \<Rightarrow> auth_audit list" where
  "listUserAuditLogs u limit s = take limit (rev (filter (\<lambda>a. aa_actor a = Some u) (a_audit s)))"

definition revokeSessionForUser :: "nat \<Rightarrow> nat \<Rightarrow> (auth_db, nat) svc" where
  "revokeSessionForUser u i = revoke_sessions (\<lambda>r. as_id r = i \<and> as_user r = u)"

definition revokeAllSessionsForUser :: "nat \<Rightarrow> nat option \<Rightarrow> (auth_db, nat list) svc" where
  "revokeAllSessionsForUser u except =
     bindS (readS (\<lambda>s. map as_id (filter (\<lambda>r. as_user r = u \<and> as_revoked r = None \<and> Some (as_id r) \<noteq> except)
       (a_sessions s)))) (\<lambda>ids.
     if ids = [] then returnS []
     else bindS (readS a_now) (\<lambda>t.
          bindS (update_sessions (\<lambda>r. as_id r \<in> set ids) (\<lambda>r. r\<lparr>as_revoked := Some t\<rparr>)) (\<lambda>_.
          returnS ids)))"

definition rotateSessionAtomic :: "nat \<Rightarrow> string \<Rightarrow> string \<Rightarrow> int \<Rightarrow> (auth_db, nat) svc" where
  "rotateSessionAtomic i expectedHash newHash expiresAt =
     update_sessions (\<lambda>r. as_id r = i \<and> as_refresh r = expectedHash \<and> as_revoked r = None)
       (\<lambda>r. r\<lparr>as_refresh := newHash, as_expires := expiresAt\<rparr>)"

definition revokeSession_row :: "nat \<Rightarrow> (auth_db, nat) svc" where
  "revokeSession_row i = revoke_sessions (\<lambda>r. as_id r = i)"

text \<open>A condition on a missing value is no condition.\<close>

definition revokeFamily :: "nat option \<Rightarrow> (auth_db, nat) svc" where
  "revokeFamily fid = revoke_sessions (\<lambda>r. fid = None \<or> fid = Some (as_family r))"

section \<open>Login attempts\<close>

definition recordLoginAttempt :: "nat option \<Rightarrow> string \<Rightarrow> string option \<Rightarrow> bool \<Rightarrow> (auth_db, unit) svc" where
  "recordLoginAttempt u email ip success = writeS (\<lambda>s. s\<lparr>a_attempts := a_attempts s @
     [\<lparr>la_user = u, la_email = email, la_ip = ip, la_success = success, la_created = a_now s\<rparr>]\<rparr>)"

definition failed_since :: "int \<Rightarrow> login_attempt \<Rightarrow> bool" where
  "failed_since since a \<longleftrightarrow> \<not> la_success a \<and> since \<le> la_created a"

definition countByEmailIp :: "string \<Rightarrow> string option \<Rightarrow> int \<Rightarrow> auth_db \<Rightarrow> nat" where
  "countByEmailIp email ip since s = length (filter (\<lambda>a. same_email (la_email a) email \<and> (ip = None \<or> la_ip a = ip) \<and>
     failed_since since a) (a_attempts s))"

definition countByEmail :: "string \<Rightarrow> int \<Rightarrow> auth_db \<Rightarrow> nat" where
  "countByEmail email since s = length (filter (\<lambda>a. same_email (la_email a) email \<and> failed_since since a) (a_attempts s))"

definition countByIp :: "string option \<Rightarrow> int \<Rightarrow> auth_db \<Rightarrow> nat" where
  "countByIp ip since s = length (filter (\<lambda>a. (ip = None \<or> la_ip a = ip) \<and> failed_since since a) (a_attempts s))"

section \<open>Roles\<close>

definition getUserRolesAndPermissions :: "nat \<Rightarrow> auth_db \<Rightarrow> string list \<times> string list" where
  "getUserRolesAndPermissions u s =
     (let rows = filter (\<lambda>g. rg_user g = u) (a_roles s)
      in (map rg_role rows, rev (remdups (rev (concat (map rg_permissions rows))))))"

section \<open>Second factor\<close>

definition setTotpSecret :: "nat \<Rightarrow> nat list \<Rightarrow> (auth_db, unit) svc" where
  "setTotpSecret i enc = update_user i (\<lambda>u. u\<lparr>au_totp_secret := Some enc\<rparr>)"

definition enableTotp :: "nat \<Rightarrow> (auth_db, unit) svc" where
  "enableTotp i = update_user i (\<lambda>u. u\<lparr>au_totp := True\<rparr>)"

definition delete_codes :: "nat \<Rightarrow> (auth_db, unit) svc" where
  "delete_codes i = writeS (\<lambda>s. s\<lparr>a_recovery := filter (\<lambda>c. rv_user c \<noteq> i) (a_recovery s)\<rparr>)"

definition disableTotp :: "nat \<Rightarrow> (auth_db, unit) svc" where
  "disableTotp i = transactionS (bindS (delete_codes i) (\<lambda>_.
     update_user i (\<lambda>u. u\<lparr>au_totp := False, au_totp_secret := None\<rparr>)))"

definition replaceRecoveryCodes :: "nat \<Rightarrow> string list \<Rightarrow> (auth_db, unit) svc" where
  "replaceRecoveryCodes i hashes = transactionS (bindS (delete_codes i) (\<lambda>_.
     writeS (\<lambda>s. s\<lparr>a_recovery := a_recovery s @ map (\<lambda>h. \<lparr>rv_user = i, rv_hash = h, rv_used = None\<rparr>) hashes\<rparr>)))"

definition unused_code :: "nat \<Rightarrow> recovery_code \<Rightarrow> bool" where
  "unused_code i c \<longleftrightarrow> rv_user c = i \<and> rv_used c = None"

definition countUnusedRecoveryCodes :: "nat \<Rightarrow> auth_db \<Rightarrow> nat" where
  "countUnusedRecoveryCodes i s = length (filter (unused_code i) (a_recovery s))"

definition consumeRecoveryCode :: "nat \<Rightarrow> string \<Rightarrow> (auth_db, bool) svc" where
  "consumeRecoveryCode i h =
     bindS (readS (\<lambda>s. length (filter (\<lambda>c. unused_code i c \<and> rv_hash c = h) (a_recovery s)))) (\<lambda>count.
     bindS (writeS (\<lambda>s. s\<lparr>a_recovery := map (\<lambda>c. if unused_code i c \<and> rv_hash c = h then c\<lparr>rv_used := Some (a_now s)\<rparr> else c)
       (a_recovery s)\<rparr>)) (\<lambda>_. returnS (count = 1)))"

section \<open>One-time codes by e-mail\<close>

text \<open>The most recent row that meets a condition (\<open>orderBy: createdAt desc\<close>).\<close>

definition latest_otp :: "(email_otp \<Rightarrow> bool) \<Rightarrow> auth_db \<Rightarrow> email_otp option" where
  "latest_otp cond s =
     (case filter cond (rev (sort_key eo_created (a_otps s))) of [] \<Rightarrow> None | r # _ \<Rightarrow> Some r)"

definition otp_of :: "string \<Rightarrow> otp_purpose \<Rightarrow> email_otp \<Rightarrow> bool" where
  "otp_of email purpose r \<longleftrightarrow> same_email (eo_email r) email \<and> eo_purpose r = purpose"

definition findLatestActiveByEmail :: "string \<Rightarrow> otp_purpose \<Rightarrow> auth_db \<Rightarrow> email_otp option" where
  "findLatestActiveByEmail email purpose = latest_otp (\<lambda>r. otp_of email purpose r \<and> eo_used r = None)"

definition findLatestByEmail :: "string \<Rightarrow> otp_purpose \<Rightarrow> auth_db \<Rightarrow> email_otp option" where
  "findLatestByEmail email purpose = latest_otp (otp_of email purpose)"

definition countSentSince :: "string \<Rightarrow> otp_purpose \<Rightarrow> int \<Rightarrow> auth_db \<Rightarrow> nat" where
  "countSentSince email purpose since s = length (filter (\<lambda>r. otp_of email purpose r \<and> since \<le> eo_created r) (a_otps s))"

definition create_otp :: "string \<Rightarrow> string \<Rightarrow> otp_purpose \<Rightarrow> int \<Rightarrow> nat \<Rightarrow> (auth_db, email_otp) svc" where
  "create_otp email h purpose expires maxAttempts =
     bindS draw (\<lambda>i.
     bindS (readS a_now) (\<lambda>t.
     let r = \<lparr>eo_id = i, eo_email = email, eo_hash = h, eo_purpose = purpose, eo_expires = expires, eo_attempts = 0,
              eo_max = maxAttempts, eo_sent = t, eo_used = None, eo_created = t\<rparr>
     in bindS (writeS (\<lambda>s. s\<lparr>a_otps := a_otps s @ [r]\<rparr>)) (\<lambda>_. returnS r)))"

definition incrementAttempts :: "nat \<Rightarrow> (auth_db, email_otp) svc" where
  "incrementAttempts i =
     bindS (writeS (\<lambda>s. s\<lparr>a_otps := map (\<lambda>r. if eo_id r = i then r\<lparr>eo_attempts := Suc (eo_attempts r)\<rparr> else r) (a_otps s)\<rparr>)) (\<lambda>_.
     bindS (readS (\<lambda>s. find (\<lambda>r. eo_id r = i) (a_otps s))) (\<lambda>found.
     case found of None \<Rightarrow> throwS (PrismaError ''P2025'') | Some r \<Rightarrow> returnS r))"

definition markUsed :: "nat \<Rightarrow> (auth_db, unit) svc" where
  "markUsed i = writeS (\<lambda>s. s\<lparr>a_otps := map (\<lambda>r. if eo_id r = i then r\<lparr>eo_used := Some (a_now s)\<rparr> else r) (a_otps s)\<rparr>)"

definition invalidateActiveForEmail :: "string \<Rightarrow> otp_purpose \<Rightarrow> (auth_db, unit) svc" where
  "invalidateActiveForEmail email purpose = writeS (\<lambda>s. s\<lparr>a_otps := map (\<lambda>r. if otp_of email purpose r \<and> eo_used r = None
     then r\<lparr>eo_used := Some (a_now s)\<rparr> else r) (a_otps s)\<rparr>)"

end
