(* ===== verification/User_Security.thy ===== *)
theory User_Security
  imports Auth_Repository
begin

text \<open>
  The second factor: \<open>modules/user-security/user-security.service.ts\<close>.  Enrolling an authenticator
  app, backup codes, the challenge a login hands out when a second factor is due, and step-up tokens.
\<close>

section \<open>Constants\<close>

definition BACKUP_CODE_COUNT :: nat where "BACKUP_CODE_COUNT = 10"
definition LOGIN_CHALLENGE_TTL_MS :: int where "LOGIN_CHALLENGE_TTL_MS = 5 * 60 * 1000"
definition STEP_UP_TTL_MS :: int where "STEP_UP_TTL_MS = 5 * 60 * 1000"
definition SECOND_FACTOR_MAX_FAILS :: nat where "SECOND_FACTOR_MAX_FAILS = 5"
definition SECOND_FACTOR_WINDOW_MS :: int where "SECOND_FACTOR_WINDOW_MS = 15 * 60 * 1000"

section \<open>Secrets and codes\<close>

definition sealSecret :: "auth_lib \<Rightarrow> string \<Rightarrow> (auth_db, nat list) svc" where
  "sealSecret L base32 = bindS draw (\<lambda>n. returnS (encryptPII (lib_gcm L) (lib_bytes L n IV_LENGTH) base32))"

definition openSecret :: "auth_lib \<Rightarrow> nat list option \<Rightarrow> string" where
  "openSecret L enc =
     (case enc of None \<Rightarrow> [] | Some [] \<Rightarrow> []
      | Some (b # bs) \<Rightarrow> (case decryptPII (lib_gcm L) (b # bs) of None \<Rightarrow> [] | Some x \<Rightarrow> normalizeBase32 x))"

definition backup_alphabet :: string where
  "backup_alphabet = ''ABCDEFGHJKLMNPQRSTUVWXYZ23456789''"

definition backup_code :: "nat list \<Rightarrow> string" where
  "backup_code bytes =
     (let raw = map (\<lambda>b. backup_alphabet ! (b mod length backup_alphabet)) bytes
      in take 5 raw @ ''-'' @ take 5 (drop 5 raw))"

definition generateBackupCodes :: "auth_lib \<Rightarrow> (auth_db, string list) svc" where
  "generateBackupCodes L = mapS (\<lambda>_. bindS draw (\<lambda>n. returnS (backup_code (lib_bytes L n 10)))) [0..<BACKUP_CODE_COUNT]"

definition normalizeBackupCode :: "string \<Rightarrow> string" where
  "normalizeBackupCode code = map upperChar (filter (\<lambda>c. \<not> (white_space c \<or> c = CHR ''-'')) code)"

definition hashBackupCode :: "auth_lib \<Rightarrow> string \<Rightarrow> string" where
  "hashBackupCode L code = lib_sha256 L (normalizeBackupCode code)"

definition the_user :: "nat \<Rightarrow> err \<Rightarrow> (auth_db, auth_user) svc" where
  "the_user i e =
     bindS (readS (findUserById i)) (\<lambda>found. case found of None \<Rightarrow> throwS e | Some u \<Rightarrow> returnS u)"

section \<open>Verifying\<close>

definition assertSecondFactorNotLocked :: "nat \<Rightarrow> (auth_db, unit) svc" where
  "assertSecondFactorNotLocked i =
     bindS (orElse (authRedisGet_a (SECOND_FACTOR_FAIL_KEY i)) None) (\<lambda>raw.
     requireS (\<not> (case raw of Some (R_Count n) \<Rightarrow> SECOND_FACTOR_MAX_FAILS \<le> n | _ \<Rightarrow> False))
       (TooManyRequestsError ''TWO_FA_LOCKED''))"

definition recordSecondFactorFailure :: "nat \<Rightarrow> (auth_db, unit) svc" where
  "recordSecondFactorFailure i =
     bindS (orElse (redis_incr (SECOND_FACTOR_FAIL_KEY i)) 0) (\<lambda>count.
     whenS (count = 1) (orElse (redis_pexpire (SECOND_FACTOR_FAIL_KEY i) SECOND_FACTOR_WINDOW_MS) ()))"

definition clearSecondFactorFailures :: "nat \<Rightarrow> (auth_db, unit) svc" where
  "clearSecondFactorFailures i = orElse (authRedisDel_a (SECOND_FACTOR_FAIL_KEY i)) ()"

datatype factor = TOTP_FACTOR | BACKUP_FACTOR

text \<open>\<open>None\<close> when the code is wrong.\<close>

definition verifySecondFactor :: "auth_lib \<Rightarrow> nat \<Rightarrow> string \<Rightarrow> (auth_db, factor option) svc" where
  "verifySecondFactor L i code =
     bindS (assertSecondFactorNotLocked i) (\<lambda>_.
     bindS (readS (findUserById i)) (\<lambda>found.
     case found of
       None \<Rightarrow> returnS None
     | Some u \<Rightarrow>
         if \<not> au_totp u then returnS None
         else
           let secret = openSecret L (au_totp_secret u)
           in bindS (readS (\<lambda>s. secret \<noteq> [] \<and> verifyTotp (lib_hmac_sha1 L) secret code (nat (a_now s)))) (\<lambda>ok.
              if ok then bindS (clearSecondFactorFailures i) (\<lambda>_. returnS (Some TOTP_FACTOR))
              else
                let normalized = normalizeBackupCode code
                in bindS (if 8 \<le> length normalized then consumeRecoveryCode i (lib_sha256 L normalized) else returnS False)
                     (\<lambda>consumed.
                     if consumed
                     then bindS (clearSecondFactorFailures i) (\<lambda>_.
                          bindS (audit_a ACTOR_USER (Some i) ''BACKUP_CODE_USED'' (Some i) None) (\<lambda>_.
                          returnS (Some BACKUP_FACTOR)))
                     else bindS (recordSecondFactorFailure i) (\<lambda>_. returnS None)))))"

section \<open>Enrolling\<close>

definition status_2fa :: "nat \<Rightarrow> (auth_db, bool \<times> nat) svc" where
  "status_2fa i =
     bindS (the_user i not_found) (\<lambda>u.
     bindS (if au_totp u then readS (countUnusedRecoveryCodes i) else returnS 0) (\<lambda>n.
     returnS (au_totp u, n)))"

definition setup_2fa :: "auth_lib \<Rightarrow> nat \<Rightarrow> auth_context \<Rightarrow> (auth_db, string) svc" where
  "setup_2fa L i ctx =
     bindS (the_user i not_found) (\<lambda>u.
     bindS (requireS (\<not> au_totp u) (ConflictError ''TWO_FA_ALREADY_ENABLED'')) (\<lambda>_.
     bindS draw (\<lambda>n.
     let secret = generateTotpSecret (lib_bytes L n 20)
     in bindS (sealSecret L secret) (\<lambda>enc.
        bindS (setTotpSecret i enc) (\<lambda>_.
        bindS (audit_a ACTOR_USER (Some i) ''TWO_FA_SETUP_STARTED'' (Some i) (cx_ip ctx)) (\<lambda>_.
        returnS secret))))))"

definition new_backup_codes :: "auth_lib \<Rightarrow> nat \<Rightarrow> string \<Rightarrow> auth_context \<Rightarrow> (auth_db, string list) svc" where
  "new_backup_codes L i action ctx =
     bindS (generateBackupCodes L) (\<lambda>codes.
     bindS (replaceRecoveryCodes i (map (hashBackupCode L) codes)) (\<lambda>_.
     bindS (audit_a ACTOR_USER (Some i) action (Some i) (cx_ip ctx)) (\<lambda>_.
     returnS codes)))"

definition confirm_2fa :: "auth_lib \<Rightarrow> nat \<Rightarrow> string \<Rightarrow> auth_context \<Rightarrow> (auth_db, string list) svc" where
  "confirm_2fa L i code ctx =
     bindS (the_user i not_found) (\<lambda>u.
     bindS (requireS (\<not> au_totp u) (ConflictError ''TWO_FA_ALREADY_ENABLED'')) (\<lambda>_.
     let secret = openSecret L (au_totp_secret u)
     in bindS (requireS (secret \<noteq> []) BadRequestError) (\<lambda>_.
        bindS (readS (\<lambda>s. verifyTotp (lib_hmac_sha1 L) secret code (nat (a_now s)))) (\<lambda>ok.
        bindS (requireS ok (UnauthorizedError ''INVALID_TOTP'')) (\<lambda>_.
        bindS (enableTotp i) (\<lambda>_.
        new_backup_codes L i ''TWO_FA_ENABLED'' ctx))))))"

definition disable_2fa :: "auth_lib \<Rightarrow> nat \<Rightarrow> string \<Rightarrow> string \<Rightarrow> auth_context \<Rightarrow> (auth_db, unit) svc" where
  "disable_2fa L i password code ctx =
     bindS (the_user i not_found) (\<lambda>u.
     bindS (requireS (au_totp u) (ConflictError ''TWO_FA_NOT_ENABLED'')) (\<lambda>_.
     bindS (if argon_verify L (au_password u) password then verifySecondFactor L i code else returnS None) (\<lambda>factor.
     if factor = None
     then bindS (audit_a ACTOR_USER (Some i) ''TWO_FA_DISABLE_FAILED'' (Some i) (cx_ip ctx)) (\<lambda>_.
          throwS (UnauthorizedError ''TWO_FA_DISABLE_REJECTED''))
     else bindS (disableTotp i) (\<lambda>_.
          audit_a ACTOR_USER (Some i) ''TWO_FA_DISABLED'' (Some i) (cx_ip ctx)))))"

definition regenerateBackupCodes :: "auth_lib \<Rightarrow> nat \<Rightarrow> string \<Rightarrow> auth_context \<Rightarrow> (auth_db, string list) svc" where
  "regenerateBackupCodes L i code ctx =
     bindS (the_user i not_found) (\<lambda>u.
     bindS (requireS (au_totp u) (ConflictError ''TWO_FA_NOT_ENABLED'')) (\<lambda>_.
     bindS (verifySecondFactor L i code) (\<lambda>factor.
     bindS (requireS (factor \<noteq> None) (UnauthorizedError ''INVALID_TOTP'')) (\<lambda>_.
     new_backup_codes L i ''BACKUP_CODES_REGENERATED'' ctx))))"

section \<open>Challenges and step-up\<close>

definition issueLoginChallenge :: "auth_lib \<Rightarrow> nat \<Rightarrow> (auth_db, string) svc" where
  "issueLoginChallenge L i =
     bindS (generateOpaqueToken L) (\<lambda>token.
     bindS (authRedisSet_a (CHALLENGE_KEY (lib_sha256 L token)) (R_User i) LOGIN_CHALLENGE_TTL_MS) (\<lambda>_.
     returnS token))"

definition bound_user :: "redis_value option \<Rightarrow> nat option" where
  "bound_user v = (case v of Some (R_User i) \<Rightarrow> Some i | _ \<Rightarrow> None)"

definition consumeLoginChallenge :: "auth_lib \<Rightarrow> string \<Rightarrow> (auth_db, nat option) svc" where
  "consumeLoginChallenge L token =
     (if token = [] then returnS None
      else bindS (orElse (authRedisGetDel_a (CHALLENGE_KEY (lib_sha256 L token))) None) (\<lambda>v. returnS (bound_user v)))"

definition stepUp :: "auth_lib \<Rightarrow> nat \<Rightarrow> string option \<Rightarrow> string option \<Rightarrow> auth_context \<Rightarrow> (auth_db, string) svc" where
  "stepUp L i password code ctx =
     bindS (the_user i not_found) (\<lambda>u.
     bindS (if au_totp u
       then bindS (verifySecondFactor L i (case code of None \<Rightarrow> [] | Some c \<Rightarrow> c)) (\<lambda>factor. returnS (factor \<noteq> None))
       else returnS (argon_verify L (au_password u) (case password of None \<Rightarrow> [] | Some p \<Rightarrow> p))) (\<lambda>ok.
     if \<not> ok
     then bindS (audit_a ACTOR_USER (Some i) ''STEP_UP_FAILED'' (Some i) (cx_ip ctx)) (\<lambda>_.
          throwS (UnauthorizedError ''STEP_UP_REJECTED''))
     else bindS (generateOpaqueToken L) (\<lambda>token.
          bindS (authRedisSet_a (STEPUP_KEY (lib_sha256 L token)) (R_User i) STEP_UP_TTL_MS) (\<lambda>_.
          bindS (audit_a ACTOR_USER (Some i) ''STEP_UP_VERIFIED'' (Some i) (cx_ip ctx)) (\<lambda>_.
          returnS token)))))"

definition hasValidStepUp :: "auth_lib \<Rightarrow> nat \<Rightarrow> string option \<Rightarrow> (auth_db, bool) svc" where
  "hasValidStepUp L i token =
     (case token of None \<Rightarrow> returnS False | Some [] \<Rightarrow> returnS False
      | Some (c # cs) \<Rightarrow> bindS (orElse (authRedisGet_a (STEPUP_KEY (lib_sha256 L (c # cs)))) None) (\<lambda>v.
          returnS (bound_user v = Some i)))"

definition isTwoFaEnabled :: "nat \<Rightarrow> auth_db \<Rightarrow> bool" where
  "isTwoFaEnabled i s = (case findUserById i s of None \<Rightarrow> False | Some u \<Rightarrow> au_totp u)"

definition adminResetUser2fa :: "nat \<Rightarrow> (auth_db, unit) svc" where
  "adminResetUser2fa i = bindS (the_user i not_found) (\<lambda>_. disableTotp i)"

end
