(* ===== verification/Auth_Service.thy ===== *)
theory Auth_Service
  imports User_Security
begin

text \<open>
  \<open>auth.service.ts\<close> and the middleware \<open>authenticate.ts\<close>: registration, login, sessions and their
  refresh tokens, passwords.  A login and a refresh are split where another call can come in:
  between what they have checked and what they write.  Consents recorded at registration and the
  feature map of the profile belong to other modules and are left out.
\<close>

definition LOCKOUT_EMAIL_MULTIPLIER :: nat where "LOCKOUT_EMAIL_MULTIPLIER = 3"
definition LOCKOUT_IP_MULTIPLIER :: nat where "LOCKOUT_IP_MULTIPLIER = 10"
definition GOOGLE_PROVIDER :: string where "GOOGLE_PROVIDER = ''google''"
definition OAUTH_STATE_TTL_MS :: int where "OAUTH_STATE_TTL_MS = 10 * 60 * 1000"
definition OAUTH_EXCHANGE_TTL_MS :: int where "OAUTH_EXCHANGE_TTL_MS = 2 * 60 * 1000"

definition toPublicUser :: "auth_user \<Rightarrow> public_user" where
  "toPublicUser u = \<lparr>pu_id = au_id u, pu_email = au_email u, pu_phone = au_phone u, pu_status = au_status u,
     pu_kyc = au_kyc u, pu_tier = au_tier u, pu_verified = au_verified u, pu_totp = au_totp u, pu_created = au_created u\<rparr>"

section \<open>Locations\<close>

record login_location =
  ll_lat :: rat
  ll_lng :: rat
  ll_accuracy :: "rat option"

definition js_round :: "rat \<Rightarrow> int" where
  "js_round x = \<lfloor>x + 1 / 2\<rfloor>"

definition sanitizeLocation :: "login_location option \<Rightarrow> int \<Rightarrow> stored_location option" where
  "sanitizeLocation loc now' =
     (case loc of None \<Rightarrow> None
      | Some l \<Rightarrow>
          if ll_lat l < -90 \<or> 90 < ll_lat l \<or> ll_lng l < -180 \<or> 180 < ll_lng l then None
          else
            let round3 = (\<lambda>n. of_int (js_round (n * 1000)) / 1000)
            in Some \<lparr>sl_lat = round3 (ll_lat l), sl_lng = round3 (ll_lng l),
                 sl_accuracy = (case ll_accuracy l of None \<Rightarrow> None | Some a \<Rightarrow> if 0 \<le> a then Some (js_round a) else None),
                 sl_captured = now'\<rparr>)"

definition ensureLoginLocationIfRequired ::
  "auth_config \<Rightarrow> login_location option \<Rightarrow> (auth_db, stored_location option) svc" where
  "ensureLoginLocationIfRequired cfg loc =
     bindS (readS (\<lambda>s. sanitizeLocation loc (a_now s))) (\<lambda>stored.
     if requireLoginLocation cfg \<and> stored = None then throwS (AppError 400 ''LOCATION_REQUIRED'')
     else returnS stored)"

record session_dto =
  sd_id :: nat
  sd_ip :: "string option"
  sd_agent :: "string option"
  sd_location :: "stored_location option"
  sd_created :: int
  sd_seen :: "int option"
  sd_expires :: int
  sd_current :: bool

definition toSessionDto :: "auth_session \<Rightarrow> nat \<Rightarrow> session_dto" where
  "toSessionDto r current = \<lparr>sd_id = as_id r, sd_ip = as_ip r, sd_agent = as_agent r, sd_location = as_location r,
     sd_created = as_created r, sd_seen = as_seen r, sd_expires = as_expires r, sd_current = (as_id r = current)\<rparr>"

section \<open>Registration and verification of the e-mail\<close>

definition persistEmailVerificationToken :: "auth_lib \<Rightarrow> auth_config \<Rightarrow> auth_user \<Rightarrow> (auth_db, string) svc" where
  "persistEmailVerificationToken L cfg u =
     bindS (generateOpaqueToken L) (\<lambda>token.
     bindS (authRedisSet_a (VERIFY_KEY (lib_sha256 L token)) (R_User (au_id u)) (emailVerificationTtlMs cfg)) (\<lambda>_.
     returnS token))"

definition register ::
  "auth_lib \<Rightarrow> auth_config \<Rightarrow> string \<Rightarrow> string option \<Rightarrow> string \<Rightarrow> auth_context \<Rightarrow> (auth_db, public_user \<times> bool) svc" where
  "register L cfg email phone password ctx =
     bindS (readS (findUserByEmail email)) (\<lambda>existing.
     bindS (requireS (existing = None) (ConflictError ''EMAIL_TAKEN'')) (\<lambda>_.
     bindS (hash_password L password) (\<lambda>passwordHash.
     bindS (createUser email phone passwordHash) (\<lambda>u.
     bindS (persistEmailVerificationToken L cfg u) (\<lambda>token.
     bindS (orElse (send_mail (Verification_Mail (au_email u) token)) ()) (\<lambda>_.
     bindS (audit_a ACTOR_USER (Some (au_id u)) ''REGISTER'' (Some (au_id u)) (cx_ip ctx)) (\<lambda>_.
     returnS (toPublicUser u, requireEmailVerification cfg \<and> \<not> allowUnverifiedLogin cfg))))))))"

definition issueEmailVerification :: "auth_lib \<Rightarrow> auth_config \<Rightarrow> auth_user \<Rightarrow> (auth_db, unit) svc" where
  "issueEmailVerification L cfg u =
     bindS (persistEmailVerificationToken L cfg u) (\<lambda>token. send_mail (Verification_Mail (au_email u) token))"

definition verifyEmail :: "auth_lib \<Rightarrow> string \<Rightarrow> auth_context \<Rightarrow> (auth_db, public_user) svc" where
  "verifyEmail L token ctx =
     bindS (authRedisGetDel_a (VERIFY_KEY (lib_sha256 L token))) (\<lambda>v.
     case bound_user v of
       None \<Rightarrow> bindS (audit_a ACTOR_SYSTEM None ''EMAIL_VERIFICATION_INVALID'' None (cx_ip ctx)) (\<lambda>_. throwS BadRequestError)
     | Some i \<Rightarrow>
         bindS (setEmailVerified i) (\<lambda>_.
         bindS (the_user i not_found) (\<lambda>u.
         bindS (audit_a ACTOR_USER (Some i) ''EMAIL_VERIFIED'' (Some i) (cx_ip ctx)) (\<lambda>_.
         returnS (toPublicUser u)))))"

definition resendVerification :: "auth_lib \<Rightarrow> auth_config \<Rightarrow> string \<Rightarrow> auth_context \<Rightarrow> (auth_db, unit) svc" where
  "resendVerification L cfg email ctx =
     bindS (readS (findUserByEmail email)) (\<lambda>found.
     case found of
       None \<Rightarrow> returnS ()
     | Some u \<Rightarrow> whenS (au_verified u = None)
         (bindS (issueEmailVerification L cfg u) (\<lambda>_.
          audit_a ACTOR_USER (Some (au_id u)) ''EMAIL_VERIFICATION_RESENT'' (Some (au_id u)) (cx_ip ctx))))"

section \<open>Issuing a session\<close>

definition markSessionRevoked :: "auth_config \<Rightarrow> nat \<Rightarrow> string \<Rightarrow> (auth_db, unit) svc" where
  "markSessionRevoked cfg i reason = authRedisSet_a (REVOKED_KEY i) (R_Text reason) (ttlToMs (accessTtl cfg))"

definition enforceSingleActiveSession :: "auth_config \<Rightarrow> nat \<Rightarrow> nat \<Rightarrow> auth_context \<Rightarrow> (auth_db, unit) svc" where
  "enforceSingleActiveSession cfg u newId ctx =
     orElse
       (bindS (readS (findOtherActiveSessions u newId)) (\<lambda>others.
        if others = [] then returnS ()
        else
          bindS (revokeAllSessionsForUser u (Some newId)) (\<lambda>_.
          bindS (mapS (\<lambda>r. orElse (markSessionRevoked cfg (as_id r) ''NEW_LOGIN'') ()) others) (\<lambda>_.
          audit_a ACTOR_USER (Some u) ''PREVIOUS_SESSION_REVOKED'' (Some newId) (cx_ip ctx))))) ()"

text \<open>\<open>issueSession\<close> up to the row: its id, the tokens, and whether the device is new.\<close>

definition issue_create ::
  "auth_lib \<Rightarrow> auth_config \<Rightarrow> auth_user \<Rightarrow> auth_context \<Rightarrow> stored_location option \<Rightarrow> (auth_db, nat \<times> token_pair \<times> bool) svc" where
  "issue_create L cfg u ctx loc =
     bindS (readS (countSessionsForUser (au_id u))) (\<lambda>prior.
     bindS (readS (countSessionsForUserDevice (au_id u) (cx_ip ctx) (cx_agent ctx))) (\<lambda>same.
     bindS draw (\<lambda>sessionId.
     bindS draw (\<lambda>familyId.
     bindS (signAccessToken L cfg (au_id u) sessionId (au_tier u)) (\<lambda>access.
     bindS (signRefreshToken L cfg (au_id u) sessionId familyId) (\<lambda>refresh.
     bindS (readS a_now) (\<lambda>t.
     bindS (createSession \<lparr>as_id = sessionId, as_user = au_id u, as_refresh = lib_sha256 L refresh, as_family = familyId,
       as_ip = cx_ip ctx, as_agent = (if cx_agent ctx = Some [] then None else cx_agent ctx), as_location = loc,
       as_expires = t + ttlToMs (refreshTtl cfg), as_revoked = None, as_seen = Some t, as_created = t\<rparr>) (\<lambda>_.
     returnS (sessionId, \<lparr>accessToken = access, refreshToken = refresh\<rparr>, 0 < prior \<and> same = 0)))))))))"

definition issueSession ::
  "auth_lib \<Rightarrow> auth_config \<Rightarrow> auth_user \<Rightarrow> auth_context \<Rightarrow> stored_location option \<Rightarrow> (auth_db, token_pair) svc" where
  "issueSession L cfg u ctx loc =
     bindS (issue_create L cfg u ctx loc) (\<lambda>(sessionId, tokens, isNewDevice).
     bindS (enforceSingleActiveSession cfg (au_id u) sessionId ctx) (\<lambda>_.
     bindS (whenS isNewDevice (audit_a ACTOR_USER (Some (au_id u)) ''LOGIN_NEW_DEVICE'' (Some sessionId) (cx_ip ctx))) (\<lambda>_.
     returnS tokens)))"

section \<open>Login\<close>

record login_input =
  li_email :: string
  li_password :: string
  li_context :: auth_context
  li_location :: "login_location option"

datatype login_result = Logged_In public_user token_pair | Two_Factor_Required string

definition login_locked :: "auth_config \<Rightarrow> string \<Rightarrow> string option \<Rightarrow> auth_db \<Rightarrow> bool" where
  "login_locked cfg email ip s \<longleftrightarrow>
     (let since = a_now s - lockout_windowMs cfg; m = lockout_maxAttempts cfg
      in m \<le> countByEmailIp email ip since s \<or> m * LOCKOUT_EMAIL_MULTIPLIER \<le> countByEmail email since s \<or>
         m * LOCKOUT_IP_MULTIPLIER \<le> countByIp ip since s)"

text \<open>Up to the session: the user and location to issue it for, or the challenge for a second factor.\<close>

definition login_check ::
  "auth_lib \<Rightarrow> auth_config \<Rightarrow> login_input \<Rightarrow> (auth_db, (auth_user \<times> stored_location option) + string) svc" where
  "login_check L cfg inp =
     (let email = li_email inp; ip = cx_ip (li_context inp)
      in bindS (readS (login_locked cfg email ip)) (\<lambda>locked.
         if locked
         then bindS (audit_a ACTOR_SYSTEM None ''LOGIN_LOCKED'' None ip) (\<lambda>_.
              throwS (TooManyRequestsError ''ACCOUNT_LOCKED''))
         else
           bindS (readS (findUserByEmail email)) (\<lambda>found.
           let ok = (case found of None \<Rightarrow> False | Some u \<Rightarrow> argon_verify L (au_password u) (li_password inp))
           in bindS (recordLoginAttempt (map_option au_id found) email ip ok) (\<lambda>_.
              case found of
                None \<Rightarrow> bindS (audit_a ACTOR_SYSTEM None ''LOGIN_FAILED'' None ip) (\<lambda>_.
                  throwS (UnauthorizedError ''INVALID_CREDENTIALS''))
              | Some u \<Rightarrow>
                  if \<not> ok
                  then bindS (audit_a ACTOR_SYSTEM (Some (au_id u)) ''LOGIN_FAILED'' (Some (au_id u)) ip) (\<lambda>_.
                       throwS (UnauthorizedError ''INVALID_CREDENTIALS''))
                  else
                    bindS (requireS (au_deleted u = None) (ForbiddenError ''ACCOUNT_DISABLED'')) (\<lambda>_.
                    bindS (requireS (au_status u = USER_ACTIVE) (ForbiddenError ''ACCOUNT_NOT_ACTIVE'')) (\<lambda>_.
                    bindS (requireS (\<not> (requireEmailVerification cfg \<and> \<not> allowUnverifiedLogin cfg \<and> au_verified u = None))
                      (ForbiddenError ''EMAIL_NOT_VERIFIED'')) (\<lambda>_.
                    bindS (ensureLoginLocationIfRequired cfg (li_location inp)) (\<lambda>loc.
                    if au_totp u
                    then bindS (issueLoginChallenge L (au_id u)) (\<lambda>token.
                         bindS (audit_a ACTOR_USER (Some (au_id u)) ''TWO_FA_LOGIN_REQUIRED'' (Some (au_id u)) ip) (\<lambda>_.
                         returnS (Inr token)))
                    else returnS (Inl (u, loc))))))))))"

definition login_issue ::
  "auth_lib \<Rightarrow> auth_config \<Rightarrow> auth_user \<times> stored_location option \<Rightarrow> auth_context \<Rightarrow> (auth_db, login_result) svc" where
  "login_issue L cfg p ctx =
     bindS (issueSession L cfg (fst p) ctx (snd p)) (\<lambda>tokens.
     bindS (audit_a ACTOR_USER (Some (au_id (fst p))) ''LOGIN'' (Some (au_id (fst p))) (cx_ip ctx)) (\<lambda>_.
     returnS (Logged_In (toPublicUser (fst p)) tokens)))"

definition login :: "auth_lib \<Rightarrow> auth_config \<Rightarrow> login_input \<Rightarrow> (auth_db, login_result) svc" where
  "login L cfg inp =
     bindS (login_check L cfg inp) (\<lambda>res.
     case res of
       Inr token \<Rightarrow> returnS (Two_Factor_Required token)
     | Inl p \<Rightarrow> login_issue L cfg p (li_context inp))"

definition verify2fa ::
  "auth_lib \<Rightarrow> auth_config \<Rightarrow> string \<Rightarrow> string \<Rightarrow> auth_context \<Rightarrow> login_location option \<Rightarrow> (auth_db, login_result) svc" where
  "verify2fa L cfg challengeToken code ctx location =
     bindS (consumeLoginChallenge L challengeToken) (\<lambda>bound.
     case bound of
       None \<Rightarrow> throwS (UnauthorizedError ''TWO_FA_CHALLENGE_INVALID'')
     | Some i \<Rightarrow>
         bindS (readS (findUserById i)) (\<lambda>found.
         case found of
           None \<Rightarrow> throwS (ForbiddenError ''ACCOUNT_NOT_ACTIVE'')
         | Some u \<Rightarrow>
             bindS (requireS (au_deleted u = None) (ForbiddenError ''ACCOUNT_DISABLED'')) (\<lambda>_.
             bindS (requireS (au_status u = USER_ACTIVE) (ForbiddenError ''ACCOUNT_NOT_ACTIVE'')) (\<lambda>_.
             bindS (ensureLoginLocationIfRequired cfg location) (\<lambda>loc.
             bindS (verifySecondFactor L i code) (\<lambda>factor.
             if factor = None
             then bindS (audit_a ACTOR_USER (Some i) ''TWO_FA_LOGIN_FAILED'' (Some i) (cx_ip ctx)) (\<lambda>_.
                  throwS (UnauthorizedError ''INVALID_TOTP''))
             else bindS (issueSession L cfg u ctx loc) (\<lambda>tokens.
                  bindS (audit_a ACTOR_USER (Some i) ''TWO_FA_LOGIN_SUCCESS'' (Some i) (cx_ip ctx)) (\<lambda>_.
                  bindS (audit_a ACTOR_USER (Some i) ''LOGIN'' (Some i) (cx_ip ctx)) (\<lambda>_.
                  returnS (Logged_In (toPublicUser u) tokens))))))))))"

section \<open>Google\<close>

definition googleStart :: "auth_lib \<Rightarrow> auth_config \<Rightarrow> (auth_db, string) svc" where
  "googleStart L cfg =
     bindS (requireS (google_enabled cfg) (ForbiddenError ''OAUTH_DISABLED'')) (\<lambda>_.
     bindS (generateOpaqueToken L) (\<lambda>state.
     bindS (generateOpaqueToken L) (\<lambda>verifier.
     bindS (authRedisSet_a (OAUTH_STATE_KEY state) (R_Text verifier) OAUTH_STATE_TTL_MS) (\<lambda>_.
     returnS (buildAuthUrl L state (lib_challenge L verifier))))))"

definition resolveGoogleUser :: "auth_lib \<Rightarrow> google_profile \<Rightarrow> auth_context \<Rightarrow> (auth_db, auth_user) svc" where
  "resolveGoogleUser L profile ctx =
     bindS (readS (findOAuthAccountWithUser GOOGLE_PROVIDER (gp_sub profile))) (\<lambda>linked.
     case linked of
       Some u \<Rightarrow> returnS u
     | None \<Rightarrow>
         bindS (requireS (gp_verified profile) (ForbiddenError ''OAUTH_EMAIL_UNVERIFIED'')) (\<lambda>_.
         bindS (readS (findUserByEmail (gp_email profile))) (\<lambda>existing.
         case existing of
           Some u \<Rightarrow>
             bindS (requireS (au_verified u \<noteq> None) (ConflictError ''OAUTH_LOCAL_ACCOUNT_UNVERIFIED'')) (\<lambda>_.
             bindS (linkOAuthAccount \<lparr>oa_user = au_id u, oa_provider = GOOGLE_PROVIDER, oa_account = gp_sub profile,
               oa_email = Some (gp_email profile)\<rparr>) (\<lambda>_.
             bindS (audit_a ACTOR_USER (Some (au_id u)) ''LOGIN'' (Some (au_id u)) (cx_ip ctx)) (\<lambda>_.
             returnS u)))
         | None \<Rightarrow>
             bindS (generateOpaqueToken L) (\<lambda>random.
             bindS (hash_password L random) (\<lambda>unusable.
             bindS (createUserWithOAuth (gp_email profile) unusable GOOGLE_PROVIDER (gp_sub profile)) (\<lambda>u.
             bindS (audit_a ACTOR_USER (Some (au_id u)) ''REGISTER'' (Some (au_id u)) (cx_ip ctx)) (\<lambda>_.
             returnS u)))))))"

definition googleCallback ::
  "auth_lib \<Rightarrow> auth_config \<Rightarrow> string option \<Rightarrow> string option \<Rightarrow> auth_context \<Rightarrow> (auth_db, string) svc" where
  "googleCallback L cfg code state ctx =
     bindS (requireS (google_enabled cfg) (ForbiddenError ''OAUTH_DISABLED'')) (\<lambda>_.
     bindS (requireS (code \<notin> {None, Some []} \<and> state \<notin> {None, Some []}) BadRequestError) (\<lambda>_.
     bindS (authRedisGetDel_a (OAUTH_STATE_KEY (the state))) (\<lambda>v.
     case v of
       Some (R_Text verifier) \<Rightarrow>
         (case exchangeCode L (the code) verifier of
            Inl e \<Rightarrow> throwS e
          | Inr profile \<Rightarrow>
              bindS (resolveGoogleUser L profile ctx) (\<lambda>u.
              bindS (requireS (au_status u = USER_ACTIVE) (ForbiddenError ''ACCOUNT_NOT_ACTIVE'')) (\<lambda>_.
              bindS (issueSession L cfg u ctx None) (\<lambda>tokens.
              bindS (audit_a ACTOR_USER (Some (au_id u)) ''LOGIN'' (Some (au_id u)) (cx_ip ctx)) (\<lambda>_.
              bindS (generateOpaqueToken L) (\<lambda>once.
              bindS (authRedisSet_a (OAUTH_EXCHANGE_KEY (lib_sha256 L once)) (R_Auth (toPublicUser u) tokens)
                OAUTH_EXCHANGE_TTL_MS) (\<lambda>_.
              returnS once)))))))
     | _ \<Rightarrow> throwS (UnauthorizedError ''OAUTH_STATE_INVALID''))))"

definition oauthExchange :: "auth_lib \<Rightarrow> string \<Rightarrow> (auth_db, public_user \<times> token_pair) svc" where
  "oauthExchange L code =
     bindS (authRedisGetDel_a (OAUTH_EXCHANGE_KEY (lib_sha256 L code))) (\<lambda>v.
     case v of
       Some (R_Auth u tokens) \<Rightarrow> returnS (u, tokens)
     | _ \<Rightarrow> throwS (UnauthorizedError ''OAUTH_CODE_INVALID''))"

section \<open>Refresh\<close>

definition handleReuse :: "auth_config \<Rightarrow> nat option \<Rightarrow> nat \<Rightarrow> nat \<Rightarrow> auth_context \<Rightarrow> (auth_db, unit) svc" where
  "handleReuse cfg fid sid u ctx =
     bindS (revokeFamily fid) (\<lambda>_.
     bindS (markSessionRevoked cfg sid ''1'') (\<lambda>_.
     audit_a ACTOR_SYSTEM (Some u) ''TOKEN_REUSE_DETECTED'' fid (cx_ip ctx)))"

definition token_reused :: "auth_config \<Rightarrow> nat option \<Rightarrow> nat \<Rightarrow> nat \<Rightarrow> auth_context \<Rightarrow> (auth_db, 'a) svc" where
  "token_reused cfg fid sid u ctx =
     bindS (handleReuse cfg fid sid u ctx) (\<lambda>_. throwS (UnauthorizedError ''TOKEN_REUSE''))"

text \<open>Up to the swap: the session read, the user, and the hash that was presented.\<close>

definition refresh_check ::
  "auth_lib \<Rightarrow> auth_config \<Rightarrow> string \<Rightarrow> auth_context \<Rightarrow> (auth_db, auth_session \<times> auth_user \<times> string) svc" where
  "refresh_check L cfg token ctx =
     bindS (catchS (verifyRefreshToken L cfg token) (\<lambda>_.
       bindS (audit_a ACTOR_SYSTEM None ''INVALID_REFRESH'' None (cx_ip ctx)) (\<lambda>_.
       throwS (UnauthorizedError ''TOKEN_INVALID'')))) (\<lambda>payload.
     bindS (readS (findSessionById (c_sid payload))) (\<lambda>found.
     case found of
       None \<Rightarrow> token_reused cfg (c_fid payload) (c_sid payload) (c_sub payload) ctx
     | Some session \<Rightarrow>
         if as_revoked session \<noteq> None then token_reused cfg (c_fid payload) (c_sid payload) (c_sub payload) ctx
         else
           let presentedHash = lib_sha256 L token
           in if as_refresh session \<noteq> presentedHash
              then token_reused cfg (Some (as_family session)) (as_id session) (as_user session) ctx
              else
                bindS (readS (findUserById (as_user session))) (\<lambda>user.
                case user of
                  None \<Rightarrow> throwS (ForbiddenError ''ACCOUNT_NOT_ACTIVE'')
                | Some u \<Rightarrow>
                    if au_status u \<noteq> USER_ACTIVE then throwS (ForbiddenError ''ACCOUNT_NOT_ACTIVE'')
                    else returnS (session, u, presentedHash))))"

definition refresh_rotate ::
  "auth_lib \<Rightarrow> auth_config \<Rightarrow> auth_session \<times> auth_user \<times> string \<Rightarrow> auth_context \<Rightarrow> (auth_db, token_pair) svc" where
  "refresh_rotate L cfg p ctx =
     (case p of (session, u, presentedHash) \<Rightarrow>
        bindS (signAccessToken L cfg (au_id u) (as_id session) (au_tier u)) (\<lambda>newAccess.
        bindS (signRefreshToken L cfg (au_id u) (as_id session) (as_family session)) (\<lambda>newRefresh.
        bindS (readS a_now) (\<lambda>t.
        bindS (rotateSessionAtomic (as_id session) presentedHash (lib_sha256 L newRefresh) (t + ttlToMs (refreshTtl cfg))) (\<lambda>rotated.
        if rotated = 0
        then token_reused cfg (Some (as_family session)) (as_id session) (as_user session) ctx
        else returnS \<lparr>accessToken = newAccess, refreshToken = newRefresh\<rparr>)))))"

definition refresh :: "auth_lib \<Rightarrow> auth_config \<Rightarrow> string \<Rightarrow> auth_context \<Rightarrow> (auth_db, token_pair) svc" where
  "refresh L cfg token ctx = bindS (refresh_check L cfg token ctx) (\<lambda>p. refresh_rotate L cfg p ctx)"

section \<open>Logout and the list of sessions\<close>

definition logout :: "auth_config \<Rightarrow> nat \<Rightarrow> auth_context \<Rightarrow> (auth_db, unit) svc" where
  "logout cfg sid ctx =
     bindS (revokeSession_row sid) (\<lambda>_.
     bindS (markSessionRevoked cfg sid ''1'') (\<lambda>_.
     audit_a ACTOR_USER None ''LOGOUT'' (Some sid) (cx_ip ctx)))"

definition listSessions :: "nat \<Rightarrow> nat \<Rightarrow> auth_db \<Rightarrow> session_dto list" where
  "listSessions u current s = map (\<lambda>r. toSessionDto r current) (findActiveSessionsByUser u s)"

definition listActivity :: "nat \<Rightarrow> nat \<Rightarrow> auth_db \<Rightarrow> auth_audit list" where
  "listActivity u limit s = listUserAuditLogs u limit s"

definition revokeSession :: "auth_config \<Rightarrow> nat \<Rightarrow> nat \<Rightarrow> auth_context \<Rightarrow> (auth_db, unit) svc" where
  "revokeSession cfg u sid ctx =
     bindS (revokeSessionForUser u sid) (\<lambda>count.
     bindS (requireS (count \<noteq> 0) not_found) (\<lambda>_.
     bindS (markSessionRevoked cfg sid ''1'') (\<lambda>_.
     bindS (audit_a ACTOR_USER (Some u) ''SESSION_REVOKED'' (Some sid) (cx_ip ctx)) (\<lambda>_.
     notify_a u ''SECURITY_SESSION_REVOKED''))))"

section \<open>Passwords\<close>

definition revokeAllAndDenylist :: "auth_config \<Rightarrow> nat \<Rightarrow> nat option \<Rightarrow> auth_context \<Rightarrow> (auth_db, unit) svc" where
  "revokeAllAndDenylist cfg u except ctx =
     bindS (revokeAllSessionsForUser u except) (\<lambda>ids.
     bindS (mapS (\<lambda>i. orElse (markSessionRevoked cfg i ''1'') ()) ids) (\<lambda>_.
     whenS (ids \<noteq> []) (audit_a ACTOR_SYSTEM (Some u) ''SESSIONS_REVOKED_ALL'' (Some u) (cx_ip ctx))))"

definition forgotPassword :: "auth_lib \<Rightarrow> auth_config \<Rightarrow> string \<Rightarrow> auth_context \<Rightarrow> (auth_db, unit) svc" where
  "forgotPassword L cfg email ctx =
     bindS (readS (findUserByEmail email)) (\<lambda>found.
     case found of
       None \<Rightarrow> returnS ()
     | Some u \<Rightarrow>
         bindS (generateOpaqueToken L) (\<lambda>token.
         bindS (authRedisSet_a (RESET_KEY (lib_sha256 L token)) (R_User (au_id u)) (passwordResetTtlMs cfg)) (\<lambda>_.
         bindS (send_mail (Reset_Mail (au_email u) token)) (\<lambda>_.
         audit_a ACTOR_USER (Some (au_id u)) ''PASSWORD_RESET_REQUESTED'' (Some (au_id u)) (cx_ip ctx)))))"

definition resetPassword :: "auth_lib \<Rightarrow> auth_config \<Rightarrow> string \<Rightarrow> string \<Rightarrow> auth_context \<Rightarrow> (auth_db, unit) svc" where
  "resetPassword L cfg token newPassword ctx =
     bindS (authRedisGetDel_a (RESET_KEY (lib_sha256 L token))) (\<lambda>v.
     case bound_user v of
       None \<Rightarrow> bindS (audit_a ACTOR_SYSTEM None ''PASSWORD_RESET_INVALID'' None (cx_ip ctx)) (\<lambda>_. throwS BadRequestError)
     | Some i \<Rightarrow>
         bindS (hash_password L newPassword) (\<lambda>passwordHash.
         bindS (updatePassword i passwordHash) (\<lambda>_.
         bindS (revokeAllAndDenylist cfg i None ctx) (\<lambda>_.
         bindS (audit_a ACTOR_USER (Some i) ''PASSWORD_RESET'' (Some i) (cx_ip ctx)) (\<lambda>_.
         notify_a i ''PASSWORD_CHANGED'')))))"

definition changePassword ::
  "auth_lib \<Rightarrow> auth_config \<Rightarrow> nat \<Rightarrow> nat \<Rightarrow> string \<Rightarrow> string \<Rightarrow> auth_context \<Rightarrow> (auth_db, unit) svc" where
  "changePassword L cfg i currentSession currentPassword newPassword ctx =
     bindS (the_user i (UnauthorizedError ''UNAUTHORIZED'')) (\<lambda>u.
     if \<not> argon_verify L (au_password u) currentPassword
     then bindS (audit_a ACTOR_USER (Some i) ''PASSWORD_CHANGE_FAILED'' (Some i) (cx_ip ctx)) (\<lambda>_.
          throwS (UnauthorizedError ''INVALID_CREDENTIALS''))
     else
       bindS (hash_password L newPassword) (\<lambda>passwordHash.
       bindS (updatePassword i passwordHash) (\<lambda>_.
       bindS (revokeAllAndDenylist cfg i (Some currentSession) ctx) (\<lambda>_.
       bindS (audit_a ACTOR_USER (Some i) ''PASSWORD_CHANGED'' (Some i) (cx_ip ctx)) (\<lambda>_.
       notify_a i ''PASSWORD_CHANGED'')))))"

definition revokeAllSessionsForSecurityEvent :: "auth_config \<Rightarrow> nat \<Rightarrow> auth_context \<Rightarrow> (auth_db, unit) svc" where
  "revokeAllSessionsForSecurityEvent cfg u ctx = revokeAllAndDenylist cfg u None ctx"

section \<open>Permissions and the profile\<close>

definition getUserPermissions :: "auth_config \<Rightarrow> nat \<Rightarrow> (auth_db, string list \<times> string list) svc" where
  "getUserPermissions cfg u =
     bindS (orElse (authRedisGet_a (RBAC_KEY u)) None) (\<lambda>cached.
     case cached of
       Some (R_Permissions roles permissions) \<Rightarrow> returnS (roles, permissions)
     | _ \<Rightarrow>
         bindS (readS (getUserRolesAndPermissions u)) (\<lambda>result.
         bindS (orElse (authRedisSet_a (RBAC_KEY u) (R_Permissions (fst result) (snd result)) (rbacCacheTtlSec cfg * 1000)) ()) (\<lambda>_.
         returnS result)))"

definition invalidatePermissions :: "nat \<Rightarrow> (auth_db, unit) svc" where
  "invalidatePermissions u = authRedisDel_a (RBAC_KEY u)"

definition me :: "auth_config \<Rightarrow> nat \<Rightarrow> (auth_db, public_user \<times> (string list \<times> string list) \<times> bool) svc" where
  "me cfg i =
     bindS (the_user i (UnauthorizedError ''UNAUTHORIZED'')) (\<lambda>u.
     bindS (getUserPermissions cfg i) (\<lambda>p.
     returnS (toPublicUser u, p, allowUnverifiedLogin cfg)))"

section \<open>Authenticating a request\<close>

definition validateAccessSession :: "nat \<Rightarrow> nat \<Rightarrow> (auth_db, public_user) svc" where
  "validateAccessSession u sid =
     bindS (readS (\<lambda>s. case findSessionById sid s of None \<Rightarrow> None
       | Some r \<Rightarrow> (case findUserById (as_user r) s of None \<Rightarrow> None
         | Some x \<Rightarrow> if as_user r = u \<and> live_session (a_now s) r \<and> au_status x = USER_ACTIVE \<and> au_deleted x = None
             then Some x else None))) (\<lambda>found.
     case found of
       None \<Rightarrow> throwS (UnauthorizedError ''SESSION_INVALID'')
     | Some x \<Rightarrow> bindS (touchSession sid) (\<lambda>_. returnS (toPublicUser x)))"

record request_user =
  ru_id :: nat
  ru_session :: nat
  ru_tier :: nat

definition bearer :: "string option \<Rightarrow> string option" where
  "bearer header = (case header of None \<Rightarrow> None
     | Some h \<Rightarrow> if take 7 h = ''Bearer '' then Some (trim (drop 7 h)) else None)"

definition authenticate :: "auth_lib \<Rightarrow> auth_config \<Rightarrow> string option \<Rightarrow> (auth_db, request_user) svc" where
  "authenticate L cfg header =
     (case bearer header of
        None \<Rightarrow> throwS (UnauthorizedError ''UNAUTHORIZED'')
      | Some token \<Rightarrow>
          bindS (verifyAccessToken L cfg token) (\<lambda>payload.
          bindS (orElse (authRedisGet_a (REVOKED_KEY (c_sid payload))) None) (\<lambda>revoked.
          case revoked of
            Some reason \<Rightarrow> throwS (UnauthorizedError
              (if reason = R_Text ''NEW_LOGIN'' then ''SESSION_REVOKED_BY_NEW_LOGIN'' else ''SESSION_REVOKED''))
          | None \<Rightarrow>
              bindS (validateAccessSession (c_sub payload) (c_sid payload)) (\<lambda>u.
              returnS \<lparr>ru_id = pu_id u, ru_session = c_sid payload, ru_tier = pu_tier u\<rparr>))))"

end
