(* ===== verification/Auth_Otp.thy ===== *)
theory Auth_Otp
  imports Auth_Service
begin

text \<open>
  Codes by e-mail: \<open>auth.otp.service.ts\<close> (login and sign-up without a password),
  \<open>auth.email-verification.service.ts\<close> and \<open>lib/otp.ts\<close>.  Verifying is split where another call can
  come in, between reading the code and consuming it.
\<close>

definition generateOtpCode :: "auth_lib \<Rightarrow> (auth_db, string) svc" where
  "generateOtpCode L = bindS draw (\<lambda>n. returnS (padStart 6 (nat_text (lib_randomInt L n 1000000))))"

definition hashOtp :: "auth_lib \<Rightarrow> auth_config \<Rightarrow> string \<Rightarrow> string \<Rightarrow> string" where
  "hashOtp L cfg email code = lib_mac L (otp_secret cfg) (toLowerCase email @ '':'' @ code)"

definition verifyOtp_hash :: "auth_lib \<Rightarrow> auth_config \<Rightarrow> string \<Rightarrow> string \<Rightarrow> string \<Rightarrow> bool" where
  "verifyOtp_hash L cfg email code storedHash \<longleftrightarrow> hashOtp L cfg email code = storedHash"

definition normalized_email :: "string \<Rightarrow> string" where
  "normalized_email email = trim (toLowerCase email)"

section \<open>Issuing a code\<close>

definition otp_throttle :: "auth_config \<Rightarrow> string \<Rightarrow> otp_purpose \<Rightarrow> (auth_db, unit) svc" where
  "otp_throttle cfg email purpose =
     bindS (readS (findLatestByEmail email purpose)) (\<lambda>latest.
     bindS (readS a_now) (\<lambda>t.
     bindS (requireS (\<not> (case latest of None \<Rightarrow> False | Some r \<Rightarrow> t - eo_sent r < otp_cooldownMs cfg))
       (TooManyRequestsError ''OTP_COOLDOWN'')) (\<lambda>_.
     bindS (readS (countSentSince email purpose (t - 3600000))) (\<lambda>sent.
     requireS (\<not> otp_maxPerHour cfg \<le> sent) (TooManyRequestsError ''OTP_RATE_LIMITED'')))))"

definition send_otp :: "auth_lib \<Rightarrow> auth_config \<Rightarrow> string \<Rightarrow> otp_purpose \<Rightarrow> (auth_db, unit) svc" where
  "send_otp L cfg email purpose =
     bindS (otp_throttle cfg email purpose) (\<lambda>_.
     bindS (invalidateActiveForEmail email purpose) (\<lambda>_.
     bindS (generateOtpCode L) (\<lambda>code.
     bindS (readS a_now) (\<lambda>t.
     bindS (create_otp email (hashOtp L cfg email code) purpose (t + otp_ttlMs cfg) (otp_maxAttempts cfg)) (\<lambda>_.
     send_mail (Otp_Mail email code purpose))))))"

definition requestOtp :: "auth_lib \<Rightarrow> auth_config \<Rightarrow> string \<Rightarrow> auth_context \<Rightarrow> (auth_db, int \<times> int) svc" where
  "requestOtp L cfg email ctx =
     (let normalized = normalized_email email
      in bindS (readS (findUserByEmail normalized)) (\<lambda>user.
         let purpose = (if user = None then OTP_SIGNUP else OTP_LOGIN)
         in bindS (send_otp L cfg normalized purpose) (\<lambda>_.
            bindS (audit_a ACTOR_SYSTEM (map_option au_id user) ''OTP_REQUESTED'' None (cx_ip ctx)) (\<lambda>_.
            returnS (otp_ttlMs cfg div 1000, otp_cooldownMs cfg div 1000)))))"

definition resendOtp :: "auth_lib \<Rightarrow> auth_config \<Rightarrow> string \<Rightarrow> auth_context \<Rightarrow> (auth_db, int \<times> int) svc" where
  "resendOtp = requestOtp"

section \<open>Verifying a code\<close>

definition otp_fail :: "auth_context \<Rightarrow> err \<Rightarrow> (auth_db, 'a) svc" where
  "otp_fail ctx e = bindS (audit_a ACTOR_SYSTEM None ''OTP_FAILED'' None (cx_ip ctx)) (\<lambda>_. throwS e)"

definition otp_locked :: "auth_context \<Rightarrow> (auth_db, 'a) svc" where
  "otp_locked ctx = bindS (audit_a ACTOR_SYSTEM None ''OTP_LOCKED'' None (cx_ip ctx)) (\<lambda>_.
     throwS (TooManyRequestsError ''OTP_LOCKED''))"

text \<open>The code read: unused, not expired, with attempts left.\<close>

definition otp_read :: "string \<Rightarrow> otp_purpose \<Rightarrow> auth_context \<Rightarrow> (auth_db, email_otp) svc" where
  "otp_read email purpose ctx =
     bindS (readS (findLatestActiveByEmail email purpose)) (\<lambda>found.
     bindS (readS a_now) (\<lambda>t.
     case found of
       None \<Rightarrow> otp_fail ctx (UnauthorizedError ''OTP_INVALID'')
     | Some r \<Rightarrow>
         if eo_used r \<noteq> None then otp_fail ctx (UnauthorizedError ''OTP_INVALID'')
         else if eo_expires r \<le> t then otp_fail ctx (UnauthorizedError ''OTP_EXPIRED'')
         else if eo_max r \<le> eo_attempts r then otp_locked ctx
         else returnS r))"

text \<open>A wrong code counts; the login flow also records a failed attempt to log in.\<close>

definition otp_wrong :: "email_otp \<Rightarrow> (auth_db, unit) svc \<Rightarrow> auth_context \<Rightarrow> (auth_db, 'a) svc" where
  "otp_wrong r record_failure ctx =
     bindS (incrementAttempts (eo_id r)) (\<lambda>updated.
     bindS record_failure (\<lambda>_.
     if eo_max updated \<le> eo_attempts updated then otp_locked ctx
     else otp_fail ctx (UnauthorizedError ''OTP_INVALID'')))"

definition otp_match ::
  "auth_lib \<Rightarrow> auth_config \<Rightarrow> string \<Rightarrow> string \<Rightarrow> email_otp \<Rightarrow> (auth_db, unit) svc \<Rightarrow> auth_context \<Rightarrow> (auth_db, unit) svc" where
  "otp_match L cfg email code r record_failure ctx =
     (if \<not> verifyOtp_hash L cfg email code (eo_hash r) then otp_wrong r record_failure ctx
      else markUsed (eo_id r))"

text \<open>\<open>verifyOtp\<close> up to the code it read, and from there on.\<close>

definition verifyOtp_read ::
  "auth_config \<Rightarrow> string \<Rightarrow> auth_context \<Rightarrow> login_location option \<Rightarrow>
    (auth_db, auth_user option \<times> email_otp \<times> stored_location option) svc" where
  "verifyOtp_read cfg email ctx location =
     (let normalized = normalized_email email
      in bindS (ensureLoginLocationIfRequired cfg location) (\<lambda>loc.
         bindS (readS (findUserByEmail normalized)) (\<lambda>existing.
         bindS (otp_read normalized (if existing = None then OTP_SIGNUP else OTP_LOGIN) ctx) (\<lambda>r.
         returnS (existing, r, loc)))))"

definition otp_account ::
  "auth_lib \<Rightarrow> string \<Rightarrow> auth_user option \<Rightarrow> auth_context \<Rightarrow> (auth_db, auth_user \<times> bool) svc" where
  "otp_account L email existing ctx =
     (case existing of
        Some u \<Rightarrow>
          bindS (requireS (au_deleted u = None) (ForbiddenError ''ACCOUNT_DISABLED'')) (\<lambda>_.
          bindS (requireS (au_status u = USER_ACTIVE) (ForbiddenError ''ACCOUNT_NOT_ACTIVE'')) (\<lambda>_.
          bindS (whenS (au_verified u = None) (setEmailVerified (au_id u))) (\<lambda>_.
          returnS (u, False))))
      | None \<Rightarrow>
          bindS (generateOpaqueToken L) (\<lambda>random.
          bindS (hash_password L random) (\<lambda>unusable.
          bindS (createUser email None unusable) (\<lambda>u.
          bindS (setEmailVerified (au_id u)) (\<lambda>_.
          bindS (audit_a ACTOR_USER (Some (au_id u)) ''OTP_SIGNUP'' (Some (au_id u)) (cx_ip ctx)) (\<lambda>_.
          returnS (u, True)))))))"

definition verifyOtp_use ::
  "auth_lib \<Rightarrow> auth_config \<Rightarrow> string \<Rightarrow> string \<Rightarrow> auth_context \<Rightarrow>
    auth_user option \<times> email_otp \<times> stored_location option \<Rightarrow> (auth_db, public_user \<times> token_pair \<times> bool) svc" where
  "verifyOtp_use L cfg email code ctx p =
     (case p of (existing, r, loc) \<Rightarrow>
        let normalized = normalized_email email
        in bindS (otp_match L cfg normalized code r (recordLoginAttempt None normalized (cx_ip ctx) False) ctx) (\<lambda>_.
           bindS (otp_account L normalized existing ctx) (\<lambda>(u, isNewUser).
           bindS (recordLoginAttempt (Some (au_id u)) normalized (cx_ip ctx) True) (\<lambda>_.
           bindS (issueSession L cfg u ctx loc) (\<lambda>tokens.
           bindS (audit_a ACTOR_USER (Some (au_id u)) ''OTP_VERIFIED'' (Some (au_id u)) (cx_ip ctx)) (\<lambda>_.
           bindS (audit_a ACTOR_USER (Some (au_id u)) ''LOGIN'' (Some (au_id u)) (cx_ip ctx)) (\<lambda>_.
           returnS (toPublicUser u, tokens, isNewUser))))))))"

definition verifyOtp ::
  "auth_lib \<Rightarrow> auth_config \<Rightarrow> string \<Rightarrow> string \<Rightarrow> auth_context \<Rightarrow> login_location option \<Rightarrow>
    (auth_db, public_user \<times> token_pair \<times> bool) svc" where
  "verifyOtp L cfg email code ctx location =
     bindS (verifyOtp_read cfg email ctx location) (verifyOtp_use L cfg email code ctx)"

section \<open>Verifying the e-mail with a code\<close>

definition requestVerification ::
  "auth_lib \<Rightarrow> auth_config \<Rightarrow> string \<Rightarrow> auth_context \<Rightarrow> (auth_db, bool \<times> int \<times> int) svc" where
  "requestVerification L cfg email ctx =
     (let normalized = normalized_email email;
          answer = (\<lambda>already. returnS (already, otp_ttlMs cfg div 1000, otp_cooldownMs cfg div 1000))
      in bindS (readS (findUserByEmail normalized)) (\<lambda>user.
         case user of
           None \<Rightarrow> answer False
         | Some u \<Rightarrow>
             if au_deleted u \<noteq> None \<or> au_status u \<noteq> USER_ACTIVE then answer False
             else if au_verified u \<noteq> None then answer True
             else
               bindS (send_otp L cfg normalized OTP_EMAIL_VERIFICATION) (\<lambda>_.
               bindS (audit_a ACTOR_USER (Some (au_id u)) ''OTP_REQUESTED'' None (cx_ip ctx)) (\<lambda>_.
               answer False))))"

definition confirmVerification ::
  "auth_lib \<Rightarrow> auth_config \<Rightarrow> string \<Rightarrow> string \<Rightarrow> auth_context \<Rightarrow> (auth_db, bool) svc" where
  "confirmVerification L cfg email code ctx =
     (let normalized = normalized_email email
      in bindS (readS (findUserByEmail normalized)) (\<lambda>user.
         case user of
           None \<Rightarrow> otp_fail ctx (UnauthorizedError ''OTP_INVALID'')
         | Some u \<Rightarrow>
             if au_deleted u \<noteq> None then otp_fail ctx (UnauthorizedError ''OTP_INVALID'')
             else if au_verified u \<noteq> None then returnS True
             else
               bindS (otp_read normalized OTP_EMAIL_VERIFICATION ctx) (\<lambda>r.
               bindS (otp_match L cfg normalized code r (returnS ()) ctx) (\<lambda>_.
               bindS (setEmailVerified (au_id u)) (\<lambda>_.
               bindS (audit_a ACTOR_USER (Some (au_id u)) ''EMAIL_VERIFIED'' (Some (au_id u)) (cx_ip ctx)) (\<lambda>_.
               returnS False))))))"

end
