(* ===== verification/Auth_Laws.thy ===== *)
theory Auth_Laws
  imports Auth_Otp
begin

text \<open>
  What every call of the authentication services keeps: the hash stored with a session is that of
  the newest refresh token signed for it, a session stays what it is and a revoked one stays revoked,
  and a token once replaced is never the stored one again.
\<close>

section \<open>The invariant\<close>

definition issued :: "auth_lib \<Rightarrow> auth_config \<Rightarrow> auth_session \<Rightarrow> nat \<Rightarrow> bool" where
  "issued L cfg r jti \<longleftrightarrow> (\<exists>sub t0. as_refresh r =
     lib_sha256 L (jwt_sign L (refreshSecret cfg) (refreshTtl cfg) t0 (refresh_claims sub (as_id r) (as_family r) jti)))"

definition auth_inv :: "auth_lib \<Rightarrow> auth_config \<Rightarrow> auth_db \<Rightarrow> bool" where
  "auth_inv L cfg s \<longleftrightarrow> distinct (map as_id (a_sessions s)) \<and>
     (\<forall>r \<in> set (a_sessions s). as_id r < a_next s \<and> (\<exists>jti < a_next s. issued L cfg r jti))"

text \<open>What is left of a session in a later state; \<open>n\<close> is the number of the first draw after the earlier one.\<close>

definition session_later :: "auth_lib \<Rightarrow> auth_config \<Rightarrow> nat \<Rightarrow> auth_session \<Rightarrow> auth_session \<Rightarrow> bool" where
  "session_later L cfg n r r' \<longleftrightarrow> as_id r' = as_id r \<and> as_user r' = as_user r \<and> as_family r' = as_family r \<and>
     (as_revoked r \<noteq> None \<longrightarrow> as_revoked r' \<noteq> None) \<and>
     (as_refresh r' = as_refresh r \<or> (\<exists>jti \<ge> n. issued L cfg r' jti))"

definition auth_rel :: "auth_lib \<Rightarrow> auth_config \<Rightarrow> auth_db \<Rightarrow> auth_db \<Rightarrow> bool" where
  "auth_rel L cfg s t \<longleftrightarrow> a_next s \<le> a_next t \<and>
     (\<forall>r \<in> set (a_sessions s). \<exists>r' \<in> set (a_sessions t). session_later L cfg (a_next s) r r')"

lemma session_later_refl: "session_later L cfg n r r"
  by (simp add: session_later_def)

lemma issued_cong: "as_id r' = as_id r \<Longrightarrow> as_family r' = as_family r \<Longrightarrow> as_refresh r' = as_refresh r \<Longrightarrow>
    issued L cfg r' j = issued L cfg r j"
  by (simp add: issued_def)

lemma session_later_trans:
  assumes "session_later L cfg n r r'" and "session_later L cfg m r' r''" and "n \<le> m"
  shows "session_later L cfg n r r''"
proof -
  have "as_refresh r'' = as_refresh r \<or> (\<exists>jti \<ge> n. issued L cfg r'' jti)"
  proof (cases "as_refresh r'' = as_refresh r'")
    case True
    then show ?thesis using assms(1,2) issued_cong [of r'' r' L cfg] by (auto simp: session_later_def)
  next
    case False
    then show ?thesis using assms(2,3) unfolding session_later_def by (meson le_trans)
  qed
  then show ?thesis using assms(1,2) by (simp add: session_later_def)
qed

lemma auth_rel_refl: "auth_rel L cfg s s"
  by (auto simp: auth_rel_def intro: session_later_refl)

lemma auth_rel_trans: "auth_rel L cfg s t \<Longrightarrow> auth_rel L cfg t u \<Longrightarrow> auth_rel L cfg s u"
  unfolding auth_rel_def using session_later_trans by (meson le_trans)

interpretation au: kept_calls "auth_inv L cfg" "auth_rel L cfg" for L cfg
  by unfold_locales (auto intro: auth_rel_refl auth_rel_trans)

abbreviation kept :: "auth_lib \<Rightarrow> auth_config \<Rightarrow> (auth_db, 'a) svc \<Rightarrow> bool" where
  "kept L cfg m \<equiv> au.triple L cfg (\<lambda>_. True) m (\<lambda>_ _. True)"

section \<open>Taking calls apart\<close>

named_theorems kept_intros "the calls that keep the invariant"

lemma kept_return [kept_intros]: "kept L cfg (returnS x)" by (rule au.triple_return) simp
lemma kept_throw [kept_intros]: "kept L cfg (throwS e)" by (rule au.triple_throw)
lemma kept_read [kept_intros]: "kept L cfg (readS f)" by (rule au.triple_read) simp
lemma kept_require [kept_intros]: "kept L cfg (requireS b e)" by (rule au.triple_require) simp

lemma kept_bind [kept_intros]: "kept L cfg m \<Longrightarrow> (\<And>x. kept L cfg (f x)) \<Longrightarrow> kept L cfg (bindS m f)"
  by (rule au.triple_bind)

lemma kept_catch [kept_intros]: "kept L cfg m \<Longrightarrow> (\<And>e. kept L cfg (h e)) \<Longrightarrow> kept L cfg (catchS m h)"
  by (rule au.triple_catch)

lemma kept_when [kept_intros]: "kept L cfg m \<Longrightarrow> kept L cfg (whenS b m)"
  by (simp add: whenS_def kept_return)

lemma kept_if [kept_intros]: "kept L cfg m \<Longrightarrow> kept L cfg n \<Longrightarrow> kept L cfg (if b then m else n)"
  by simp

lemma kept_option [kept_intros]:
  "kept L cfg m \<Longrightarrow> (\<And>x. kept L cfg (f x)) \<Longrightarrow> kept L cfg (case a of None \<Rightarrow> m | Some x \<Rightarrow> f x)"
  by (cases a) auto

lemma kept_sum [kept_intros]:
  "(\<And>x. kept L cfg (f x)) \<Longrightarrow> (\<And>x. kept L cfg (g x)) \<Longrightarrow> kept L cfg (case a of Inl x \<Rightarrow> f x | Inr x \<Rightarrow> g x)"
  by (cases a) auto

lemma kept_prod [kept_intros]: "(\<And>x y. kept L cfg (f x y)) \<Longrightarrow> kept L cfg (case p of (x, y) \<Rightarrow> f x y)"
  by (cases p) auto

lemma kept_list [kept_intros]:
  "kept L cfg m \<Longrightarrow> (\<And>x xs. kept L cfg (f x xs)) \<Longrightarrow> kept L cfg (case a of [] \<Rightarrow> m | x # xs \<Rightarrow> f x xs)"
  by (cases a) auto

lemma kept_redis_value [kept_intros]:
  "(\<And>x. kept L cfg (f x)) \<Longrightarrow> (\<And>x. kept L cfg (g x)) \<Longrightarrow> (\<And>x. kept L cfg (h x)) \<Longrightarrow> (\<And>x y. kept L cfg (k x y)) \<Longrightarrow>
     (\<And>x y. kept L cfg (l x y)) \<Longrightarrow>
     kept L cfg (case v of R_User x \<Rightarrow> f x | R_Text x \<Rightarrow> g x | R_Count x \<Rightarrow> h x | R_Permissions x y \<Rightarrow> k x y | R_Auth x y \<Rightarrow> l x y)"
  by (cases v) auto

lemma kept_map [kept_intros]: "(\<And>x. kept L cfg (f x)) \<Longrightarrow> kept L cfg (mapS f xs)"
  by (induction xs) (auto intro!: kept_intros)

lemma kept_let [kept_intros]: "(\<And>x. kept L cfg (f x)) \<Longrightarrow> kept L cfg (let x = e in f x)"
  by (simp add: Let_def)

text \<open>Calls that do not touch the sessions.\<close>

lemma auth_quiet:
  assumes "auth_inv L cfg s" and "a_sessions t = a_sessions s" and "a_next s \<le> a_next t"
  shows "auth_inv L cfg t" and "auth_rel L cfg s t"
  using assms by (auto simp: auth_inv_def auth_rel_def intro: less_le_trans session_later_refl)

lemma kept_write: "(\<And>s. a_sessions (f s) = a_sessions s \<and> a_next s \<le> a_next (f s)) \<Longrightarrow> kept L cfg (writeS f)"
  using auth_quiet by (intro au.tripleI) (auto simp: svc_simps)

lemma kept_transaction [kept_intros]: "kept L cfg m \<Longrightarrow> kept L cfg (transactionS m)"
  by (rule au.tripleI) (auto simp: svc_simps auth_rel_refl dest: au.tripleD split: prod.splits sum.splits)

lemma kept_draw [kept_intros]: "kept L cfg draw"
  unfolding draw_def by (intro kept_intros kept_write) simp

lemmas quiet_writes = audit_a_def notify_a_def send_mail_def redis_a_def redis_put_def redis_remove_def authRedisGet_a_def
  authRedisGetDel_a_def authRedisSet_a_def authRedisDel_a_def redis_incr_def redis_pexpire_def

lemma kept_effects [kept_intros]:
  "kept L cfg (audit_a ty ac act i ip)" "kept L cfg (notify_a u n)" "kept L cfg (send_mail x)"
  "kept L cfg (authRedisGet_a k)" "kept L cfg (authRedisGetDel_a k)" "kept L cfg (authRedisSet_a k v ms)"
  "kept L cfg (authRedisDel_a k)" "kept L cfg (redis_incr k)" "kept L cfg (redis_pexpire k ms)"
  unfolding quiet_writes by (intro kept_intros kept_write; simp)+

lemma kept_orElse [kept_intros]: "kept L cfg m \<Longrightarrow> kept L cfg (orElse m v)"
  unfolding orElse_def by (intro kept_intros)


section \<open>Rows that are not sessions\<close>

lemma kept_users [kept_intros]:
  "kept L cfg (insert_user e ph pw v)" "kept L cfg (createUser e ph pw)" "kept L cfg (linkOAuthAccount acc)"
  "kept L cfg (createUserWithOAuth e pw pr ac)" "kept L cfg (update_user i upd)" "kept L cfg (setEmailVerified i)"
  "kept L cfg (updatePassword i pw)" "kept L cfg (the_user i err)" "kept L cfg (recordLoginAttempt ui e ip ok)"
  unfolding insert_user_def createUser_def linkOAuthAccount_def createUserWithOAuth_def update_user_def
    setEmailVerified_def updatePassword_def the_user_def recordLoginAttempt_def
  by (intro kept_intros kept_write; simp)+

lemma kept_second_factor_rows [kept_intros]:
  "kept L cfg (setTotpSecret i enc)" "kept L cfg (enableTotp i)" "kept L cfg (disableTotp i)"
  "kept L cfg (replaceRecoveryCodes i hs)" "kept L cfg (consumeRecoveryCode i h)"
  unfolding setTotpSecret_def enableTotp_def disableTotp_def delete_codes_def replaceRecoveryCodes_def
    consumeRecoveryCode_def
  by (intro kept_intros kept_write; simp)+

lemma kept_otp_rows [kept_intros]:
  "kept L cfg (create_otp e h pu ex n)" "kept L cfg (incrementAttempts i)" "kept L cfg (markUsed i)"
  "kept L cfg (invalidateActiveForEmail e pu)"
  unfolding create_otp_def incrementAttempts_def markUsed_def invalidateActiveForEmail_def
  by (intro kept_intros kept_write; simp)+

lemma kept_tokens [kept_intros]:
  "kept L cfg (generateOpaqueToken L')" "kept L cfg (hash_password L' pw)" "kept L cfg (signAccessToken L' cfg' u i ti)"
  "kept L cfg (verifyRefreshToken L' cfg' tok)" "kept L cfg (verifyAccessToken L' cfg' tok)"
  "kept L cfg (signRefreshToken L' cfg' u i fid)" "kept L cfg (markSessionRevoked cfg' i reason)"
  "kept L cfg (generateOtpCode L')"
  unfolding generateOpaqueToken_def hash_password_def signAccessToken_def verifyRefreshToken_def verifyAccessToken_def
    signRefreshToken_def markSessionRevoked_def generateOtpCode_def
  by (intro kept_intros)+

section \<open>The second factor\<close>

lemma kept_factor [kept_intros]: "kept L cfg (verifySecondFactor L i code)"
  unfolding verifySecondFactor_def assertSecondFactorNotLocked_def recordSecondFactorFailure_def
    clearSecondFactorFailures_def by (intro kept_intros)

lemma kept_second_factor [kept_intros]:
  "kept L cfg (status_2fa i)" "kept L cfg (setup_2fa L i ctx)" "kept L cfg (confirm_2fa L i code ctx)"
  "kept L cfg (disable_2fa L i pw code ctx)" "kept L cfg (regenerateBackupCodes L i code ctx)"
  "kept L cfg (issueLoginChallenge L i)" "kept L cfg (consumeLoginChallenge L tok)"
  "kept L cfg (stepUp L i opw oc ctx)" "kept L cfg (hasValidStepUp L i otok)" "kept L cfg (adminResetUser2fa i)"
  unfolding status_2fa_def setup_2fa_def confirm_2fa_def disable_2fa_def regenerateBackupCodes_def
    issueLoginChallenge_def consumeLoginChallenge_def stepUp_def hasValidStepUp_def adminResetUser2fa_def
    new_backup_codes_def generateBackupCodes_def sealSecret_def
  by (intro kept_intros)+

section \<open>Sessions\<close>

lemma sessions_rewritten:
  assumes inv: "auth_inv L cfg s"
    and upd: "\<And>r. r \<in> set (a_sessions s) \<Longrightarrow> as_id (upd r) = as_id r \<and> as_user (upd r) = as_user r \<and>
      as_family (upd r) = as_family r \<and> (as_revoked r \<noteq> None \<longrightarrow> as_revoked (upd r) \<noteq> None) \<and>
      (as_refresh (upd r) = as_refresh r \<or> (\<exists>jti. a_next s \<le> jti \<and> jti < a_next t \<and> issued L cfg (upd r) jti))"
    and t: "a_sessions t = map upd (a_sessions s)" "a_next s \<le> a_next t"
  shows "auth_inv L cfg t \<and> auth_rel L cfg s t"
proof -
  have ids: "map as_id (a_sessions t) = map as_id (a_sessions s)" using upd t by simp
  have row: "as_id (upd r) < a_next t \<and> (\<exists>jti < a_next t. issued L cfg (upd r) jti) \<and> session_later L cfg (a_next s) r (upd r)"
    if r: "r \<in> set (a_sessions s)" for r
  proof -
    obtain j where j: "as_id r < a_next s" "j < a_next s" "issued L cfg r j" using inv r by (auto simp: auth_inv_def)
    have "\<exists>jti < a_next t. issued L cfg (upd r) jti"
    proof (cases "as_refresh (upd r) = as_refresh r")
      case True
      then show ?thesis using upd [OF r] j t(2) issued_cong [of "upd r" r L cfg j] by (auto intro: less_le_trans)
    next
      case False
      then show ?thesis using upd [OF r] by blast
    qed
    then show ?thesis using upd [OF r] j(1) t(2) by (auto simp: session_later_def)
  qed
  have "distinct (map as_id (a_sessions t))" using inv ids by (simp add: auth_inv_def)
  then have "auth_inv L cfg t"
    unfolding auth_inv_def using row upd by (auto simp: t(1))
  moreover have "auth_rel L cfg s t"
    unfolding auth_rel_def using row t by auto
  ultimately show ?thesis ..
qed

lemma kept_update_sessions:
  assumes "\<And>r. cond r \<Longrightarrow> as_id (upd r) = as_id r \<and> as_user (upd r) = as_user r \<and> as_family (upd r) = as_family r \<and>
    (as_revoked r \<noteq> None \<longrightarrow> as_revoked (upd r) \<noteq> None) \<and> as_refresh (upd r) = as_refresh r"
  shows "kept L cfg (update_sessions cond upd)"
proof (rule au.tripleI)
  fix s r t assume s: "auth_inv L cfg s" and run: "update_sessions cond upd s = (r, t)"
  have "t = s\<lparr>a_sessions := map (\<lambda>r. if cond r then upd r else r) (a_sessions s)\<rparr>"
    using run by (auto simp: update_sessions_def svc_simps)
  then show "auth_inv L cfg t \<and> auth_rel L cfg s t \<and> (\<forall>x. r = Inr x \<longrightarrow> True)"
    using sessions_rewritten [OF s, of "\<lambda>r. if cond r then upd r else r" t] assms by simp
qed

lemma kept_sessions [kept_intros]:
  "kept L cfg (revoke_sessions cond)" "kept L cfg (touchSession i)" "kept L cfg (revokeSessionForUser u i)"
  "kept L cfg (revokeAllSessionsForUser u except)" "kept L cfg (revokeSession_row i)" "kept L cfg (revokeFamily fid)"
  unfolding revoke_sessions_def touchSession_def revokeSessionForUser_def revokeAllSessionsForUser_def
    revokeSession_row_def revokeFamily_def
  by (intro kept_intros kept_update_sessions; simp)+

text \<open>The row and the tokens \<open>issue_create\<close> makes of a state.\<close>

definition new_tokens :: "auth_lib \<Rightarrow> auth_config \<Rightarrow> auth_user \<Rightarrow> auth_db \<Rightarrow> token_pair" where
  "new_tokens L cfg u s = \<lparr>
     accessToken = jwt_sign L (accessSecret cfg) (accessTtl cfg) (a_now s)
       \<lparr>c_sub = au_id u, c_sid = a_next s, c_fid = None, c_jti = None, c_tier = Some (au_tier u), c_purpose = ''access'',
        c_iss = JWT_ISSUER, c_aud = ACCESS_AUDIENCE\<rparr>,
     refreshToken = jwt_sign L (refreshSecret cfg) (refreshTtl cfg) (a_now s)
       (refresh_claims (au_id u) (a_next s) (Suc (a_next s)) (Suc (Suc (a_next s))))\<rparr>"

definition new_session ::
  "auth_lib \<Rightarrow> auth_config \<Rightarrow> auth_user \<Rightarrow> auth_context \<Rightarrow> stored_location option \<Rightarrow> auth_db \<Rightarrow> auth_session" where
  "new_session L cfg u ctx loc s = \<lparr>as_id = a_next s, as_user = au_id u,
     as_refresh = lib_sha256 L (refreshToken (new_tokens L cfg u s)), as_family = Suc (a_next s), as_ip = cx_ip ctx,
     as_agent = (if cx_agent ctx = Some [] then None else cx_agent ctx), as_location = loc,
     as_expires = a_now s + ttlToMs (refreshTtl cfg), as_revoked = None, as_seen = Some (a_now s), as_created = a_now s\<rparr>"

lemma issue_create_run:
  "issue_create L cfg u ctx loc s = (Inr (a_next s, new_tokens L cfg u s, 0 < countSessionsForUser (au_id u) s \<and>
      countSessionsForUserDevice (au_id u) (cx_ip ctx) (cx_agent ctx) s = 0),
    s\<lparr>a_next := Suc (Suc (Suc (a_next s))), a_sessions := a_sessions s @ [new_session L cfg u ctx loc s]\<rparr>)"
  by (simp add: issue_create_def svc_simps draw_def signAccessToken_def signRefreshToken_def createSession_def
      new_session_def new_tokens_def)

lemma new_session_issued: "issued L cfg (new_session L cfg u ctx loc s) (Suc (Suc (a_next s)))"
  by (auto simp: issued_def new_session_def new_tokens_def)

lemma kept_issue_create [kept_intros]: "kept L cfg (issue_create L cfg u ctx loc)"
proof (rule au.tripleI)
  fix s r t assume s: "auth_inv L cfg s" and run: "issue_create L cfg u ctx loc s = (r, t)"
  have t: "a_sessions t = a_sessions s @ [new_session L cfg u ctx loc s]" "a_next t = Suc (Suc (Suc (a_next s)))"
    using run by (auto simp: issue_create_run)
  have id: "as_id (new_session L cfg u ctx loc s) = a_next s" by (simp add: new_session_def)
  have old: "as_id r < a_next s \<and> (\<exists>jti < a_next s. issued L cfg r jti)" if "r \<in> set (a_sessions s)" for r
    using s that by (simp add: auth_inv_def)
  have "as_id r < a_next t \<and> (\<exists>jti < a_next t. issued L cfg r jti)" if "r \<in> set (a_sessions t)" for r
    using that old [of r] new_session_issued [of L cfg u ctx loc s] id
    by (auto simp: t less_Suc_eq)
  moreover have "distinct (map as_id (a_sessions t))"
    using s old id by (fastforce simp: t auth_inv_def)
  moreover have "auth_rel L cfg s t"
    using t by (auto simp: auth_rel_def intro: session_later_refl)
  ultimately show "auth_inv L cfg t \<and> auth_rel L cfg s t \<and> (\<forall>x. r = Inr x \<longrightarrow> True)" by (simp add: auth_inv_def)
qed

lemma kept_issueSession [kept_intros]: "kept L cfg (issueSession L cfg u ctx loc)"
  unfolding issueSession_def enforceSingleActiveSession_def by (intro kept_intros)

section \<open>Refreshing\<close>

definition session_known :: "auth_session \<Rightarrow> auth_db \<Rightarrow> bool" where
  "session_known r s \<longleftrightarrow> (\<exists>x \<in> set (a_sessions s). as_id x = as_id r \<and> as_user x = as_user r \<and> as_family x = as_family r)"

lemma session_known_rel: "auth_rel L cfg s t \<Longrightarrow> session_known r s \<Longrightarrow> session_known r t"
  unfolding session_known_def auth_rel_def session_later_def by metis

lemma session_known_find: "findSessionById i s = Some r \<Longrightarrow> session_known r s"
  unfolding findSessionById_def session_known_def by (blast dest: find_SomeD)

lemma kept_reused [kept_intros]: "kept L cfg (token_reused cfg' fid sid u ctx)"
  unfolding token_reused_def handleReuse_def by (intro kept_intros)

lemma kept_frame: "kept L cfg m \<Longrightarrow> au.triple L cfg P m (\<lambda>_ _. True)"
  by (rule au.triple_weaken) auto

lemma refresh_check_keeps: "au.triple L cfg (\<lambda>_. True) (refresh_check L cfg token ctx) (\<lambda>p. session_known (fst p))"
  unfolding refresh_check_def Let_def
proof (rule au.triple_bind [where R = "\<lambda>_ _. True"], goal_cases)
  case 1
  show ?case by (intro kept_intros)
next
  case (2 payload)
  note reused = kept_reused [unfolded token_reused_def]
  have "au.triple L cfg P (token_reused cfg fid sid u ctx) Q" for P fid sid u and Q :: "auth_session \<times> auth_user \<times> string \<Rightarrow> auth_db \<Rightarrow> bool"
    unfolding token_reused_def
    by (rule au.triple_bind [OF kept_frame au.triple_throw]) (unfold handleReuse_def, intro kept_intros)
  then show ?case
    by (auto intro!: au.triple_intros session_known_find split: option.splits)
qed

text \<open>The swap: the row whose hash it replaces is the session that was read.\<close>

lemma kept_swap:
  "au.triple L cfg (session_known r)
     (bindS (signRefreshToken L cfg sub (as_id r) (as_family r)) (\<lambda>new. bindS (readS a_now) (\<lambda>t.
        bindS (rotateSessionAtomic (as_id r) h (lib_sha256 L new) (t + ms)) (\<lambda>n. f new n))))
     (\<lambda>_ _. True)" if f: "\<And>new n. kept L cfg (f new n)"
proof (rule au.tripleI)
  fix s x t assume s: "auth_inv L cfg s" "session_known r s" and run: "bindS (signRefreshToken L cfg sub (as_id r) (as_family r))
     (\<lambda>new. bindS (readS a_now) (\<lambda>t. bindS (rotateSessionAtomic (as_id r) h (lib_sha256 L new) (t + ms)) (\<lambda>n. f new n))) s = (x, t)"
  define new where "new = jwt_sign L (refreshSecret cfg) (refreshTtl cfg) (a_now s) (refresh_claims sub (as_id r) (as_family r) (a_next s))"
  define cond where "cond = (\<lambda>y :: auth_session. as_id y = as_id r \<and> as_refresh y = h \<and> as_revoked y = None)"
  define upd where "upd y = (if cond y then y\<lparr>as_refresh := lib_sha256 L new, as_expires := a_now s + ms\<rparr> else y)" for y :: auth_session
  define u where "u = s\<lparr>a_next := Suc (a_next s), a_sessions := map upd (a_sessions s)\<rparr>"
  have eq: "upd = (\<lambda>y. if as_id y = as_id r \<and> as_refresh y = h \<and> as_revoked y = None
      then y\<lparr>as_refresh := lib_sha256 L new, as_expires := a_now s + ms\<rparr> else y)"
    by (simp add: fun_eq_iff upd_def cond_def)
  have n: "f new (length (filter cond (a_sessions s))) u = (x, t)"
    using run unfolding u_def eq by (simp add: svc_simps signRefreshToken_def draw_def rotateSessionAtomic_def update_sessions_def
        new_def cond_def cong: if_cong)
  obtain z where z: "z \<in> set (a_sessions s)" "as_id z = as_id r" "as_family z = as_family r"
    using s(2) by (auto simp: session_known_def)
  have one: "y = z" if "y \<in> set (a_sessions s)" "as_id y = as_id r" for y
    using s(1) z that by (auto simp: auth_inv_def distinct_map inj_on_def)
  have "issued L cfg (upd y) (a_next s)" if "y \<in> set (a_sessions s)" "cond y" for y
    using one [OF that(1)] that(2) z by (auto simp: upd_def cond_def issued_def new_def)
  then have "auth_inv L cfg u \<and> auth_rel L cfg s u"
    by (intro sessions_rewritten [OF s(1), of upd]) (auto simp: u_def upd_def)
  then show "auth_inv L cfg t \<and> auth_rel L cfg s t \<and> (\<forall>a. x = Inr a \<longrightarrow> True)"
    using au.tripleD [OF f _ _ n] auth_rel_trans by blast
qed

lemma refresh_rotate_keeps: "au.triple L cfg (session_known (fst p)) (refresh_rotate L cfg p ctx) (\<lambda>_ _. True)"
proof (cases p)
  case (fields r u h)
  show ?thesis
    unfolding fields refresh_rotate_def signAccessToken_def prod.case fst_conv
    by (rule au.triple_bind [where R = "\<lambda>_. session_known r"], rule au.triple_read, simp, rule kept_swap)
      (intro kept_intros)
qed

lemma kept_refresh [kept_intros]: "kept L cfg (refresh L cfg token ctx)"
  unfolding refresh_def by (rule au.triple_bind [OF refresh_check_keeps refresh_rotate_keeps])

section \<open>The calls of the services\<close>

lemma kept_mail_tokens [kept_intros]:
  "kept L cfg (register L cfg e ph pw ctx)" "kept L cfg (verifyEmail L tok ctx)" "kept L cfg (resendVerification L cfg e ctx)"
  unfolding register_def verifyEmail_def resendVerification_def issueEmailVerification_def
    persistEmailVerificationToken_def by (intro kept_intros)+

lemma kept_location [kept_intros]: "kept L cfg (ensureLoginLocationIfRequired cfg loc)"
  unfolding ensureLoginLocationIfRequired_def by (intro kept_intros)

lemma kept_login_parts [kept_intros]:
  "kept L cfg (login_check L cfg inp)" "kept L cfg (login_issue L cfg p ctx)"
  unfolding login_check_def login_issue_def by (intro kept_intros)+

lemma kept_login [kept_intros]:
  "kept L cfg (login L cfg inp)" "kept L cfg (verify2fa L cfg tok code ctx loc)"
  unfolding login_def verify2fa_def by (intro kept_intros)+

lemma kept_google [kept_intros]:
  "kept L cfg (googleStart L cfg)" "kept L cfg (resolveGoogleUser L pf ctx)" "kept L cfg (oauthExchange L x)"
  unfolding googleStart_def resolveGoogleUser_def oauthExchange_def by (intro kept_intros)+

lemma kept_callback [kept_intros]: "kept L cfg (googleCallback L cfg code st ctx)"
  unfolding googleCallback_def by (intro kept_intros)

lemma kept_revoke_all [kept_intros]: "kept L cfg (revokeAllAndDenylist cfg u except ctx)"
  unfolding revokeAllAndDenylist_def by (intro kept_intros)

lemma kept_sign_out [kept_intros]:
  "kept L cfg (logout cfg i ctx)" "kept L cfg (revokeSession cfg u i ctx)"
  "kept L cfg (revokeAllSessionsForSecurityEvent cfg u ctx)"
  unfolding logout_def revokeSession_def revokeAllSessionsForSecurityEvent_def by (intro kept_intros)+

lemma kept_passwords [kept_intros]:
  "kept L cfg (forgotPassword L cfg e ctx)" "kept L cfg (resetPassword L cfg tok pw ctx)"
  "kept L cfg (changePassword L cfg u i old pw ctx)"
  unfolding forgotPassword_def resetPassword_def changePassword_def by (intro kept_intros)+

lemma kept_requests [kept_intros]:
  "kept L cfg (getUserPermissions cfg u)" "kept L cfg (invalidatePermissions u)" "kept L cfg (validateAccessSession u i)"
  unfolding getUserPermissions_def invalidatePermissions_def validateAccessSession_def by (intro kept_intros)+

lemma kept_authenticate [kept_intros]:
  "kept L cfg (me cfg u)" "kept L cfg (authenticate L cfg header)"
  unfolding me_def authenticate_def by (intro kept_intros)+

section \<open>Codes by e-mail\<close>

lemma kept_send_otp [kept_intros]: "kept L cfg (send_otp L cfg e pu)"
  unfolding send_otp_def otp_throttle_def by (intro kept_intros)

lemma kept_otp_parts [kept_intros]:
  "kept L cfg (otp_read e pu ctx)" "kept L cfg (otp_fail ctx err)"
  "kept L cfg m \<Longrightarrow> kept L cfg (otp_match L cfg e code r m ctx)" "kept L cfg (otp_account L e ou ctx)"
  unfolding otp_read_def otp_match_def otp_wrong_def otp_fail_def otp_locked_def otp_account_def
  by (intro kept_intros; assumption?)+

lemma kept_otp [kept_intros]:
  "kept L cfg (requestOtp L cfg e ctx)" "kept L cfg (verifyOtp_read cfg e ctx loc)" "kept L cfg (verifyOtp_use L cfg e code ctx p)"
  "kept L cfg (requestVerification L cfg e ctx)" "kept L cfg (confirmVerification L cfg e code ctx)"
  unfolding requestOtp_def verifyOtp_read_def verifyOtp_use_def requestVerification_def confirmVerification_def Let_def
  by (intro kept_intros)+

lemma kept_verifyOtp [kept_intros]: "kept L cfg (verifyOtp L cfg e code ctx loc)"
  unfolding verifyOtp_def by (intro kept_intros)

section \<open>Any sequence of calls\<close>

text \<open>
  A world is the state and the calls that wait between what they checked and what they write: a
  login whose password was right, a new session whose siblings are not yet signed out, a refresh
  whose token was current, a code by e-mail that was read.
\<close>

datatype waiting =
    Login_Checked "auth_user \<times> stored_location option" auth_context
  | Session_Created nat nat auth_context
  | Refresh_Checked "auth_session \<times> auth_user \<times> string" auth_context
  | Otp_Read string string auth_context "auth_user option \<times> email_otp \<times> stored_location option"

type_synonym auth_world = "auth_db \<times> waiting list"

inductive auth_call :: "auth_lib \<Rightarrow> auth_config \<Rightarrow> auth_db \<Rightarrow> auth_db \<Rightarrow> bool" for L cfg where
  "register L cfg e ph pw ctx s = (x, t) \<Longrightarrow> auth_call L cfg s t"
| "verifyEmail L tok ctx s = (x, t) \<Longrightarrow> auth_call L cfg s t"
| "resendVerification L cfg e ctx s = (x, t) \<Longrightarrow> auth_call L cfg s t"
| "login L cfg inp s = (x, t) \<Longrightarrow> auth_call L cfg s t"
| "verify2fa L cfg tok code ctx loc s = (x, t) \<Longrightarrow> auth_call L cfg s t"
| "googleStart L cfg s = (x, t) \<Longrightarrow> auth_call L cfg s t"
| "googleCallback L cfg ocode st ctx s = (x, t) \<Longrightarrow> auth_call L cfg s t"
| "oauthExchange L code s = (x, t) \<Longrightarrow> auth_call L cfg s t"
| "refresh L cfg tok ctx s = (x, t) \<Longrightarrow> auth_call L cfg s t"
| "logout cfg i ctx s = (x, t) \<Longrightarrow> auth_call L cfg s t"
| "revokeSession cfg u i ctx s = (x, t) \<Longrightarrow> auth_call L cfg s t"
| "revokeAllSessionsForSecurityEvent cfg u ctx s = (x, t) \<Longrightarrow> auth_call L cfg s t"
| "forgotPassword L cfg e ctx s = (x, t) \<Longrightarrow> auth_call L cfg s t"
| "resetPassword L cfg tok pw ctx s = (x, t) \<Longrightarrow> auth_call L cfg s t"
| "changePassword L cfg u i old pw ctx s = (x, t) \<Longrightarrow> auth_call L cfg s t"
| "me cfg u s = (x, t) \<Longrightarrow> auth_call L cfg s t"
| "invalidatePermissions u s = (x, t) \<Longrightarrow> auth_call L cfg s t"
| "authenticate L cfg header s = (x, t) \<Longrightarrow> auth_call L cfg s t"
| "requestOtp L cfg e ctx s = (x, t) \<Longrightarrow> auth_call L cfg s t"
| "verifyOtp L cfg e code ctx loc s = (x, t) \<Longrightarrow> auth_call L cfg s t"
| "requestVerification L cfg e ctx s = (x, t) \<Longrightarrow> auth_call L cfg s t"
| "confirmVerification L cfg e code ctx s = (x, t) \<Longrightarrow> auth_call L cfg s t"
| "setup_2fa L u ctx s = (x, t) \<Longrightarrow> auth_call L cfg s t"
| "confirm_2fa L u code ctx s = (x, t) \<Longrightarrow> auth_call L cfg s t"
| "disable_2fa L u pw code ctx s = (x, t) \<Longrightarrow> auth_call L cfg s t"
| "regenerateBackupCodes L u code ctx s = (x, t) \<Longrightarrow> auth_call L cfg s t"
| "stepUp L u opw ocode ctx s = (x, t) \<Longrightarrow> auth_call L cfg s t"
| "adminResetUser2fa u s = (x, t) \<Longrightarrow> auth_call L cfg s t"

inductive auth_step :: "auth_lib \<Rightarrow> auth_config \<Rightarrow> auth_world \<Rightarrow> auth_world \<Rightarrow> bool" for L cfg where
  step_call: "auth_call L cfg s t \<Longrightarrow> auth_step L cfg (s, ws) (t, ws)"
| step_login_check: "login_check L cfg inp s = (Inr (Inl p), t) \<Longrightarrow>
    auth_step L cfg (s, ws) (t, Login_Checked p (li_context inp) # ws)"
| step_login_issue: "Login_Checked p ctx \<in> set ws \<Longrightarrow> login_issue L cfg p ctx s = (x, t) \<Longrightarrow> auth_step L cfg (s, ws) (t, ws)"
| step_login_create: "Login_Checked p ctx \<in> set ws \<Longrightarrow> issue_create L cfg (fst p) ctx (snd p) s = (Inr (i, tokens, new), t) \<Longrightarrow>
    auth_step L cfg (s, ws) (t, Session_Created (au_id (fst p)) i ctx # ws)"
| step_enforce: "Session_Created u i ctx \<in> set ws \<Longrightarrow> enforceSingleActiveSession cfg u i ctx s = (x, t) \<Longrightarrow>
    auth_step L cfg (s, ws) (t, ws)"
| step_refresh_check: "refresh_check L cfg tok ctx s = (Inr p, t) \<Longrightarrow> auth_step L cfg (s, ws) (t, Refresh_Checked p ctx # ws)"
| step_refresh_rotate: "Refresh_Checked p ctx \<in> set ws \<Longrightarrow> refresh_rotate L cfg p ctx s = (x, t) \<Longrightarrow>
    auth_step L cfg (s, ws) (t, ws)"
| step_otp_read: "verifyOtp_read cfg e ctx loc s = (Inr p, t) \<Longrightarrow> auth_step L cfg (s, ws) (t, Otp_Read e code ctx p # ws)"
| step_otp_use: "Otp_Read e code ctx p \<in> set ws \<Longrightarrow> verifyOtp_use L cfg e code ctx p s = (x, t) \<Longrightarrow>
    auth_step L cfg (s, ws) (t, ws)"
| step_environment: "a_now s \<le> now' \<Longrightarrow>
    auth_step L cfg (s, ws) (s\<lparr>a_users := us, a_roles := roles, a_redis_down := down, a_mail_down := mdown, a_now := now'\<rparr>, ws)"

text \<open>From a service without sessions.\<close>

definition auth_reach :: "auth_lib \<Rightarrow> auth_config \<Rightarrow> auth_world \<Rightarrow> bool" where
  "auth_reach L cfg w \<longleftrightarrow> (\<exists>s. a_sessions s = [] \<and> (auth_step L cfg)\<^sup>*\<^sup>* (s, []) w)"

definition waiting_known :: "auth_db \<Rightarrow> waiting \<Rightarrow> bool" where
  "waiting_known s w \<longleftrightarrow> (case w of Refresh_Checked p ctx \<Rightarrow> session_known (fst p) s | _ \<Rightarrow> True)"

lemma kept_run: "kept L cfg m \<Longrightarrow> m s = (x, t) \<Longrightarrow> auth_inv L cfg s \<Longrightarrow> auth_inv L cfg t \<and> auth_rel L cfg s t"
  using au.tripleD by blast

lemma auth_call_keeps: "auth_call L cfg s t \<Longrightarrow> auth_inv L cfg s \<Longrightarrow> auth_inv L cfg t \<and> auth_rel L cfg s t"
  by (induction rule: auth_call.induct) (erule (1) kept_run [rotated], rule kept_intros)+

lemma kept_enforce [kept_intros]: "kept L cfg (enforceSingleActiveSession cfg u i ctx)"
  unfolding enforceSingleActiveSession_def by (intro kept_intros)

lemma auth_step_keeps:
  assumes "auth_step L cfg w w'" and "auth_inv L cfg (fst w)" and "\<forall>x \<in> set (snd w). waiting_known (fst w) x"
  shows "auth_inv L cfg (fst w') \<and> auth_rel L cfg (fst w) (fst w') \<and> (\<forall>x \<in> set (snd w'). waiting_known (fst w') x)"
proof -
  have "auth_inv L cfg (fst w') \<and> auth_rel L cfg (fst w) (fst w') \<and>
      (\<forall>x \<in> set (snd w'). x \<in> set (snd w) \<or> waiting_known (fst w') x)"
    using assms
  proof (induction rule: auth_step.induct)
    case (step_call s t ws)
    then show ?case using auth_call_keeps by auto
  next
    case (step_refresh_check tok ctx s p t ws)
    then show ?case using au.tripleD [OF refresh_check_keeps _ TrueI, of L cfg s tok ctx "Inr p" t] by (auto simp: waiting_known_def)
  next
    case (step_refresh_rotate p ctx ws s x t)
    then have "session_known (fst p) s" by (auto simp: waiting_known_def)
    then show ?case using au.tripleD [OF refresh_rotate_keeps _ _ step_refresh_rotate(2)] step_refresh_rotate by auto
  next
    case (step_environment s now' ws us roles down mdown)
    then show ?case using auth_quiet [of L cfg s] by auto
  qed (auto simp: waiting_known_def dest: kept_run [rotated] intro: kept_intros)
  moreover have "waiting_known (fst w') x" if "auth_rel L cfg (fst w) (fst w')" "waiting_known (fst w) x" for x
    using that session_known_rel by (auto simp: waiting_known_def split: waiting.splits)
  ultimately show ?thesis using assms(3) by blast
qed

lemma auth_steps_keep:
  assumes "(auth_step L cfg)\<^sup>*\<^sup>* w w'" and "auth_inv L cfg (fst w)" and "\<forall>x \<in> set (snd w). waiting_known (fst w) x"
  shows "auth_inv L cfg (fst w') \<and> auth_rel L cfg (fst w) (fst w') \<and> (\<forall>x \<in> set (snd w'). waiting_known (fst w') x)"
  using assms
proof (induction rule: rtranclp_induct)
  case base
  then show ?case by (simp add: auth_rel_refl)
next
  case (step y z)
  then show ?case using auth_step_keeps [OF step(2)] auth_rel_trans by blast
qed

lemma auth_reach_inv:
  assumes "auth_reach L cfg w"
  shows "auth_inv L cfg (fst w)" and "\<forall>x \<in> set (snd w). waiting_known (fst w) x"
proof -
  obtain s where s: "a_sessions s = []" "(auth_step L cfg)\<^sup>*\<^sup>* (s, []) w" using assms by (auto simp: auth_reach_def)
  then have "auth_inv L cfg (fst (s, [])) \<and> (\<forall>x \<in> set (snd (s, [])). waiting_known s x)" by (simp add: auth_inv_def)
  then show "auth_inv L cfg (fst w)" and "\<forall>x \<in> set (snd w). waiting_known (fst w) x"
    using auth_steps_keep [OF s(2)] by simp_all
qed

lemma auth_reach_later:
  assumes "auth_reach L cfg w" and "(auth_step L cfg)\<^sup>*\<^sup>* w w'"
  shows "auth_inv L cfg (fst w')" and "auth_rel L cfg (fst w) (fst w')"
  using auth_steps_keep [OF assms(2) auth_reach_inv [OF assms(1)]] by blast+

end
