(* ===== verification/Totp_Laws.thy ===== *)
theory Totp_Laws
  imports Totp
begin

text \<open>Base32 loses nothing, and what codes are accepted.\<close>

section \<open>Base32\<close>

lemma bits_of_length [simp]: "length (bits_of w n) = w"
  by (induction w) simp_all

lemma bits_value_append: "bits_value (xs @ [b]) = 2 * bits_value xs + of_bool b"
  by (simp add: bits_value_def)

lemma bits_value_bound: "bits_value bs < 2 ^ length bs"
proof (induction bs rule: rev_induct)
  case (snoc b bs)
  then have "bits_value (bs @ [b]) < 2 * 2 ^ length bs" by (cases b) (simp_all add: bits_value_append)
  then show ?case by simp
qed (simp add: bits_value_def)

lemma bits_of_Suc: "bits_of (Suc w) n = bits_of w (n div 2) @ [odd n]"
proof (induction w)
  case (Suc w)
  have "n div 2 div 2 ^ w = n div 2 ^ Suc w" by (simp add: div_mult2_eq)
  then show ?case using Suc by simp
qed simp

lemma bits_value_of: "bits_value (bits_of w n) = n mod 2 ^ w"
proof (induction w arbitrary: n)
  case (Suc w)
  have "n mod 2 ^ Suc w = 2 * (n div 2 mod 2 ^ w) + n mod 2" by (simp add: mod_mult2_eq)
  then show ?case using Suc by (simp add: bits_of_Suc bits_value_append mod2_eq_if del: bits_of.simps)
qed (simp add: bits_value_def)

lemma bits_of_value: "bits_of (length bs) (bits_value bs) = bs"
proof (induction bs rule: rev_induct)
  case (snoc b bs)
  have "(2 * bits_value bs + of_bool b) div 2 = bits_value bs" "odd (2 * bits_value bs + of_bool b) = b"
    by (cases b, simp_all)+
  then show ?case using snoc by (simp add: bits_value_append bits_of_Suc del: bits_of.simps)
qed simp

lemma alphabet_index: "v < 32 \<Longrightarrow> index_of BASE32_ALPHABET (BASE32_ALPHABET ! v) = Some v"
proof -
  have "\<forall>v \<in> set [0..<32]. index_of BASE32_ALPHABET (BASE32_ALPHABET ! v) = Some v" by code_simp
  then show "v < 32 \<Longrightarrow> index_of BASE32_ALPHABET (BASE32_ALPHABET ! v) = Some v" by auto
qed

lemma alphabet_plain:
  "v < 32 \<Longrightarrow> upperChar (BASE32_ALPHABET ! v) = BASE32_ALPHABET ! v \<and> \<not> white_space (BASE32_ALPHABET ! v) \<and>
     BASE32_ALPHABET ! v \<noteq> CHR ''=''"
proof -
  have "\<forall>v \<in> set [0..<32]. upperChar (BASE32_ALPHABET ! v) = BASE32_ALPHABET ! v \<and>
      \<not> white_space (BASE32_ALPHABET ! v) \<and> BASE32_ALPHABET ! v \<noteq> CHR ''=''" by code_simp
  then show "v < 32 \<Longrightarrow> upperChar (BASE32_ALPHABET ! v) = BASE32_ALPHABET ! v \<and> \<not> white_space (BASE32_ALPHABET ! v) \<and>
     BASE32_ALPHABET ! v \<noteq> CHR ''=''" by auto
qed

lemma group_bound: "length bs = 5 \<Longrightarrow> bits_value bs < 32"
  using bits_value_bound [of bs] by simp

lemma bits_of_group: "length bs = 5 \<Longrightarrow> bits_of 5 (bits_value bs) = bs"
  using bits_of_value [of bs] by simp

lemma groups_decode:
  "\<exists>k < 5. base32_bits (base32_groups bits) = Some (bits @ replicate k False)"
proof (induction bits rule: base32_groups.induct)
  case (1 bits)
  show ?case
  proof (cases "5 \<le> length bits")
    case True
    obtain k where k: "k < 5" "base32_bits (base32_groups (drop 5 bits)) = Some (drop 5 bits @ replicate k False)"
      using 1 True by auto
    have "bits_of 5 (bits_value (take 5 bits)) @ drop 5 bits = bits" using True by (simp add: bits_of_group)
    then show ?thesis
      using True k by (auto simp: base32_groups.simps [of bits] alphabet_index group_bound intro!: exI [of _ k])
  next
    case False
    let ?p = "bits @ replicate (5 - length bits) False"
    have p: "length ?p = 5" using False by simp
    show ?thesis
    proof (cases "bits = []")
      case True
      then show ?thesis by (auto simp: base32_groups.simps [of "[]"] intro!: exI [of _ 0])
    next
      case nonempty: False
      have "index_of BASE32_ALPHABET (BASE32_ALPHABET ! bits_value ?p) = Some (bits_value ?p)"
        by (rule alphabet_index [OF group_bound [OF p]])
      then show ?thesis using False nonempty bits_of_group [OF p]
        by (auto simp: base32_groups.simps [of bits] intro!: exI [of _ "5 - length bits"])
    qed
  qed
qed

lemma groups_chars: "c \<in> set (base32_groups bits) \<Longrightarrow> \<exists>v < 32. c = BASE32_ALPHABET ! v"
proof (induction bits rule: base32_groups.induct)
  case (1 bits)
  show ?case
  proof (cases "5 \<le> length bits")
    case True
    then have "c = BASE32_ALPHABET ! bits_value (take 5 bits) \<or> c \<in> set (base32_groups (drop 5 bits))"
      using 1(2) by (simp add: base32_groups.simps [of bits])
    then show ?thesis using 1(1) [OF True] group_bound [of "take 5 bits"] True by auto
  next
    case False
    then have "c = BASE32_ALPHABET ! bits_value (bits @ replicate (5 - length bits) False)"
      using 1(2) by (auto simp: base32_groups.simps [of bits] split: if_splits)
    then show ?thesis using group_bound [of "bits @ replicate (5 - length bits) False"] False by auto
  qed
qed

lemma normalize_plain:
  assumes "\<And>c. c \<in> set x \<Longrightarrow> upperChar c = c \<and> \<not> white_space c \<and> c \<noteq> CHR ''=''"
  shows "normalizeBase32 x = x"
proof -
  have "dropWhile (\<lambda>c. c = CHR ''='') (rev x) = rev x"
    using assms by (cases "rev x") (auto simp: dropWhile_eq_self_iff dest: arg_cong [of _ _ set])
  then show ?thesis using assms by (simp add: normalizeBase32_def map_idI)
qed

lemma octets_bytes:
  "\<forall>b \<in> set buf. b < 256 \<Longrightarrow> length rest < 8 \<Longrightarrow> octets (concat (map (bits_of 8) buf) @ rest) = buf"
proof (induction buf)
  case (Cons b buf)
  have "bits_value (bits_of 8 b) = b" using Cons.prems(1) by (simp add: bits_value_of)
  then show ?case using Cons by (simp add: octets.simps [of "bits_of 8 b @ xs" for xs])
qed (simp add: octets.simps)

lemma base32_decode:
  assumes "\<forall>b \<in> set buf. b < 256"
  shows "base32ToBuffer (base32Encode buf) = buf"
proof -
  let ?bits = "concat (map (bits_of 8) buf)"
  have "normalizeBase32 (base32_groups ?bits) = base32_groups ?bits"
  proof (rule normalize_plain)
    fix c assume "c \<in> set (base32_groups ?bits)"
    from groups_chars [OF this] obtain v where "v < 32" "c = BASE32_ALPHABET ! v" by blast
    then show "upperChar c = c \<and> \<not> white_space c \<and> c \<noteq> CHR ''=''" using alphabet_plain [of v] by simp
  qed
  moreover obtain k where "k < 5" "base32_bits (base32_groups ?bits) = Some (?bits @ replicate k False)"
    using groups_decode by blast
  ultimately show ?thesis
    using octets_bytes [OF assms, of "replicate k False"] by (simp add: base32ToBuffer_def base32Encode_def)
qed

section \<open>Codes\<close>

lemma nat_text_length: "0 < k \<Longrightarrow> n < 10 ^ k \<Longrightarrow> length (nat_text n) \<le> k"
proof (induction k arbitrary: n)
  case (Suc k)
  show ?case
  proof (cases "n < 10")
    case True
    then show ?thesis by (simp add: nat_text.simps [of n])
  next
    case False
    then have "0 < k" using Suc.prems by (cases k) auto
    have "n div 10 < 10 ^ k" using Suc.prems(2) by (simp add: less_mult_imp_div_less mult.commute)
    then show ?thesis using Suc.IH [OF \<open>0 < k\<close>] False by (simp add: nat_text.simps [of n])
  qed
qed simp

lemma nat_text_digits: "c \<in> set (nat_text n) \<Longrightarrow> 48 \<le> (of_char c :: nat) \<and> (of_char c :: nat) \<le> 57"
proof (induction n rule: nat_text.induct)
  case (1 n)
  have d: "48 \<le> (of_char (char_of (48 + m :: nat)) :: nat) \<and> (of_char (char_of (48 + m :: nat)) :: nat) \<le> 57" if "m < 10" for m
    using that by simp
  show ?case
  proof (cases "n < 10")
    case True
    then show ?thesis using "1.prems" d [of n] by (simp add: nat_text.simps [of n])
  next
    case False
    then have "c \<in> set (nat_text (n div 10)) \<or> c = char_of (48 + n mod 10)"
      using "1.prems" by (auto simp: nat_text.simps [of n])
    then show ?thesis using "1.IH" [OF False] d [of "n mod 10"] by auto
  qed
qed

lemma totpCode_six:
  assumes "base32ToBuffer secret \<noteq> []"
  shows "six_digits (totpCode hmac secret t)"
proof -
  define v where "v = sint (truncated (hmac (base32ToBuffer secret) (counter_bytes (t div PERIOD_MS)))) mod 10 ^ DIGITS"
  have v: "0 \<le> v" "v < 10 ^ 6" by (simp_all add: v_def DIGITS_def)
  then have len: "length (nat_text (nat v)) \<le> 6" by (intro nat_text_length) (simp_all add: nat_less_iff)
  have "totpCode hmac secret t = replicate (6 - length (nat_text (nat v))) (CHR ''0'') @ nat_text (nat v)"
    using assms v(1) unfolding totpCode_def Let_def v_def [symmetric] by (simp add: padStart_def int_text_def DIGITS_def)
  then show ?thesis using len nat_text_digits [of _ "nat v"] by (auto simp: six_digits_def)
qed

lemma six_trim: "six_digits x \<Longrightarrow> trim x = x"
proof -
  assume x: "six_digits x"
  have w: "\<not> white_space c" if "c \<in> set x" for c using x that by (auto simp: six_digits_def white_space_def)
  have d: "dropWhile white_space y = y" if "set y = set x" for y
    using w that by (cases y) auto
  show "trim x = x" using d [of x] d [of "rev x"] by (simp add: trim_def)
qed

lemma totp_counter: "t div PERIOD_MS = u div PERIOD_MS \<Longrightarrow> totpCode hmac secret t = totpCode hmac secret u"
  by (simp only: totpCode_def)

lemma period_shift:
  "PERIOD_MS \<le> t \<Longrightarrow> (t - PERIOD_MS) div PERIOD_MS = t div PERIOD_MS - 1"
  "(t + PERIOD_MS) div PERIOD_MS = t div PERIOD_MS + 1"
  by (simp_all add: PERIOD_MS_def le_div_geq)

text \<open>The code of a moment is accepted in its own period and in the two beside it.\<close>

lemma verifyTotp_near:
  assumes "base32ToBuffer secret \<noteq> []" and "PERIOD_MS \<le> now"
    and "t div PERIOD_MS = now div PERIOD_MS \<or> t div PERIOD_MS + 1 = now div PERIOD_MS \<or> t div PERIOD_MS = now div PERIOD_MS + 1"
  shows "verifyTotp hmac secret (totpCode hmac secret t) now"
proof -
  have "\<exists>u \<in> {now - PERIOD_MS, now, now + PERIOD_MS}. u div PERIOD_MS = t div PERIOD_MS"
    using assms(3) period_shift(1) [OF assms(2)] period_shift(2) [of now] by (elim disjE) auto
  then obtain u where u: "u \<in> {now - PERIOD_MS, now, now + PERIOD_MS}" "u div PERIOD_MS = t div PERIOD_MS" by blast
  note six = totpCode_six [OF assms(1), of hmac t]
  show ?thesis
    unfolding verifyTotp_def Let_def six_trim [OF six]
    using six u(1) totp_counter [OF u(2)] assms(1) by blast
qed

end
