(* ===== verification/Auth_Properties.thy ===== *)
theory Auth_Properties
  imports Auth_Laws Totp_Laws
begin

text \<open>
  The properties of accounts and sessions, with a library of tokens to try them on: a token that is
  the text of its claims, a hash that is the text itself.
\<close>

section \<open>A library of tokens\<close>

text \<open>Numbers in unary with an end mark, texts after their length: what is written can be read off.\<close>

definition put_nat :: "nat \<Rightarrow> string" where
  "put_nat n = replicate n CHR ''1'' @ ''0''"

definition get_nat :: "string \<Rightarrow> nat \<times> string" where
  "get_nat x = (let n = length (takeWhile (\<lambda>c. c = CHR ''1'') x) in (n, drop (Suc n) x))"

definition put_text :: "string \<Rightarrow> string" where
  "put_text x = put_nat (length x) @ x"

definition get_text :: "string \<Rightarrow> string \<times> string" where
  "get_text x = (case get_nat x of (n, y) \<Rightarrow> (take n y, drop n y))"

definition put_option :: "nat option \<Rightarrow> nat" where
  "put_option x = (case x of None \<Rightarrow> 0 | Some n \<Rightarrow> Suc n)"

definition get_option :: "nat \<Rightarrow> nat option" where
  "get_option n = (if n = 0 then None else Some (n - 1))"

definition put_int :: "int \<Rightarrow> nat" where
  "put_int i = (if i < 0 then 2 * nat (- i) + 1 else 2 * nat i)"

definition get_int :: "nat \<Rightarrow> int" where
  "get_int n = (if odd n then - int (n div 2) else int (n div 2))"

lemma get_put [simp]:
  "get_nat (put_nat n @ x) = (n, x)" "get_text (put_text y @ x) = (y, x)" "get_option (put_option z) = z"
  "get_int (put_int i) = i"
proof -
  have 1: "get_nat (put_nat n @ x) = (n, x)" for n x
    by (induction n) (simp_all add: get_nat_def put_nat_def Let_def)
  then show "get_nat (put_nat n @ x) = (n, x)" .
  show "get_text (put_text y @ x) = (y, x)" by (simp add: get_text_def put_text_def 1)
  show "get_option (put_option z) = z" by (cases z) (simp_all add: get_option_def put_option_def)
  show "get_int (put_int i) = i" by (auto simp: get_int_def put_int_def)
qed

definition put_claims :: "int \<Rightarrow> jwt_claims \<Rightarrow> string" where
  "put_claims expiry c = put_nat (put_int expiry) @ put_nat (c_sub c) @ put_nat (c_sid c) @ put_nat (put_option (c_fid c)) @
     put_nat (put_option (c_jti c)) @ put_nat (put_option (c_tier c)) @ put_text (c_purpose c) @ put_text (c_iss c) @
     put_text (c_aud c)"

definition get_claims :: "string \<Rightarrow> int \<times> jwt_claims" where
  "get_claims x =
     (case get_nat x of (expiry, x) \<Rightarrow> case get_nat x of (sub, x) \<Rightarrow> case get_nat x of (sid, x) \<Rightarrow>
      case get_nat x of (fid, x) \<Rightarrow> case get_nat x of (jti, x) \<Rightarrow> case get_nat x of (tier, x) \<Rightarrow>
      case get_text x of (purpose, x) \<Rightarrow> case get_text x of (iss, x) \<Rightarrow> case get_text x of (aud, x) \<Rightarrow>
        (get_int expiry, \<lparr>c_sub = sub, c_sid = sid, c_fid = get_option fid, c_jti = get_option jti,
           c_tier = get_option tier, c_purpose = purpose, c_iss = iss, c_aud = aud\<rparr>))"

lemma get_put_claims: "get_claims (put_claims i c) = (i, c)"
  using get_put(2) [of "c_aud c" "[]"] by (simp add: get_claims_def put_claims_def)

definition plain_lib :: auth_lib where
  "plain_lib = \<lparr>
     argon_hash = (\<lambda>n x. put_nat n @ x), argon_verify = (\<lambda>h x. snd (get_nat h) = x), lib_sha256 = (\<lambda>x. x),
     lib_opaque = (\<lambda>n. put_nat n), lib_bytes = (\<lambda>n k. replicate k (n mod 256)), lib_randomInt = (\<lambda>n m. n mod m),
     lib_mac = (\<lambda>k x. x), lib_hmac_sha1 = (\<lambda>k m. replicate 20 1),
     lib_gcm = mirror_cipher,
     jwt_sign = (\<lambda>k ttl t0 c. put_claims (t0 div 1000 + ttlToMs ttl div 1000) c),
     jwt_verify = (\<lambda>k iss aud t x. case get_claims x of (expiry, c) \<Rightarrow>
        if c_iss c = iss \<and> c_aud c = aud \<and> t div 1000 < expiry then Some c else None),
     jwt_life = (\<lambda>ttl. ttlToMs ttl div 1000), lib_challenge = (\<lambda>x. x), buildAuthUrl = (\<lambda>state x. state),
     exchangeCode = (\<lambda>code verifier. Inl BadRequestError)\<rparr>"

lemma plain_jwt: "jwt_correct plain_lib"
  by (simp add: jwt_correct_def plain_lib_def get_put_claims)

lemma plain_separates: "hash_separates plain_lib"
proof -
  have "c = c'" if "put_claims i c = put_claims j c'" for i j c c'
    using arg_cong [OF that, of get_claims] by (simp add: get_put_claims)
  then show ?thesis by (auto simp: hash_separates_def plain_lib_def)
qed

text \<open>Short lives, so that times stay small, and two users, the second with a second factor.\<close>

definition plain_cfg :: auth_config where
  "plain_cfg = \<lparr>requireEmailVerification = False, allowUnverifiedLogin = True, requireLoginLocation = False,
     emailVerificationTtlMs = 5000, passwordResetTtlMs = 5000, rbacCacheTtlSec = 1, lockout_maxAttempts = 1,
     lockout_windowMs = 100, accessTtl = ''2s'', refreshTtl = ''9s'', accessSecret = ''a'', refreshSecret = ''r'',
     otp_secret = ''o'', otp_ttlMs = 5000, otp_maxAttempts = 3, otp_cooldownMs = 10, otp_maxPerHour = 5,
     google_enabled = False\<rparr>"

definition some_user :: "nat \<Rightarrow> string \<Rightarrow> bool \<Rightarrow> auth_user" where
  "some_user i email totp = \<lparr>au_id = i, au_email = email, au_phone = None, au_password = put_nat 0 @ ''pw'',
     au_status = USER_ACTIVE, au_verified = Some 0, au_kyc = KYC_NOT_STARTED, au_tier = 0,
     au_totp_secret = (if totp then Some (encryptPII mirror_cipher (replicate IV_LENGTH 0) ''MFRGG'') else None), au_totp = totp, au_created = 0,
     au_deleted = None\<rparr>"

definition some_state :: auth_db where
  "some_state = \<lparr>a_users = [some_user 0 ''a'' False], a_sessions = [], a_attempts = [],
     a_recovery = [], a_otps = [], a_oauth = [], a_roles = [], a_redis = [], a_redis_down = False, a_mails = [],
     a_mail_down = False, a_audit = [], a_notified = [], a_now = 0, a_next = 2\<rparr>"

definition some_login :: "string \<Rightarrow> login_input" where
  "some_login email = \<lparr>li_email = email, li_password = ''pw'', li_context = \<lparr>cx_ip = Some ''i'', cx_agent = None\<rparr>,
     li_location = None\<rparr>"

definition logged_in :: auth_db where
  "logged_in = snd (login plain_lib plain_cfg (some_login ''a'') some_state)"

definition first_token :: string where
  "first_token = jwt_sign plain_lib (refreshSecret plain_cfg) (refreshTtl plain_cfg) 0 (refresh_claims 0 2 3 4)"

lemma logged_in_reach: "auth_reach plain_lib plain_cfg (logged_in, [])"
proof -
  have "auth_step plain_lib plain_cfg (some_state, []) (logged_in, [])"
    unfolding logged_in_def by (rule step_call, rule auth_call.intros(4), rule surjective_pairing)
  then show ?thesis unfolding auth_reach_def
    by (intro exI [of _ some_state] conjI r_into_rtranclp) (simp_all add: some_state_def)
qed

section \<open>Refresh tokens\<close>

lemma revoke_run:
  "revoke_sessions cond s = (Inr (length (filter (\<lambda>r. cond r \<and> as_revoked r = None) (a_sessions s))),
     s\<lparr>a_sessions := map (\<lambda>r. if cond r \<and> as_revoked r = None then r\<lparr>as_revoked := Some (a_now s)\<rparr> else r) (a_sessions s)\<rparr>)"
  by (simp add: revoke_sessions_def update_sessions_def svc_simps)

lemma sessions_kept [preserves_intros]:
  "preserves (\<lambda>s. I (a_sessions s)) (markSessionRevoked cfg i x)" "preserves (\<lambda>s. I (a_sessions s)) (audit_a ty ac act e ip)"
  by (auto simp: preserves_def markSessionRevoked_def authRedisSet_a_def redis_a_def redis_put_def audit_a_def svc_simps)

lemma token_reused_hoare:
  "hoare (\<lambda>_. True) (token_reused cfg fid sid u ctx) (\<lambda>_ _. False)
     (\<lambda>t. \<forall>r \<in> set (a_sessions t). fid = Some (as_family r) \<longrightarrow> as_revoked r \<noteq> None)" (is "hoare _ _ _ ?Q")
proof -
  have 1: "hoare (\<lambda>_. True) (revokeFamily fid) (\<lambda>_. ?Q) ?Q"
    by (rule hoareI) (auto simp: revokeFamily_def revoke_run)
  have 2: "preserves ?Q (bindS (markSessionRevoked cfg sid ''1'') (\<lambda>_.
     audit_a ACTOR_SYSTEM (Some u) ''TOKEN_REUSE_DETECTED'' fid (cx_ip ctx)))"
    by (intro preserves_intros)
  show ?thesis
    unfolding token_reused_def handleReuse_def
    by (rule hoare_bind [OF hoare_bind [OF 1 hoare_keep [OF 2]]]) (auto intro: hoare_throw)
qed

lemma token_reused_run:
  "\<exists>e t. (token_reused cfg fid sid u ctx :: (auth_db, 'a) svc) s = (Inl e, t) \<and>
     (\<forall>r \<in> set (a_sessions t). fid = Some (as_family r) \<longrightarrow> as_revoked r \<noteq> None)"
proof -
  obtain x :: "err + 'a" and t where run: "token_reused cfg fid sid u ctx s = (x, t)" by fastforce
  show ?thesis
  proof (cases x)
    case (Inl e)
    then show ?thesis using hoareD_error [OF token_reused_hoare TrueI run [unfolded Inl]] run by blast
  next
    case (Inr a)
    then show ?thesis using hoareD [OF token_reused_hoare TrueI run [unfolded Inr]] by blast
  qed
qed

lemma token_reused_never: "token_reused cfg fid sid u ctx s \<noteq> (Inr x, t)"
  by (rule notI) (rule hoareD [OF token_reused_hoare TrueI])

lemma verifyRefresh_run:
  "verifyRefreshToken L cfg tok s = (case jwt_verify L (refreshSecret cfg) JWT_ISSUER REFRESH_AUDIENCE (a_now s) tok of
     Some c \<Rightarrow> if c_purpose c = ''refresh'' \<and> c_jti c \<noteq> None then (Inr c, s) else (Inl (JsError ''JsonWebTokenError''), s)
   | None \<Rightarrow> (Inl (JsError ''JsonWebTokenError''), s))"
  by (auto simp: verifyRefreshToken_def svc_simps split: option.splits)

definition rotated_token :: "auth_lib \<Rightarrow> auth_config \<Rightarrow> auth_session \<Rightarrow> auth_user \<Rightarrow> auth_db \<Rightarrow> string" where
  "rotated_token L cfg r u s = jwt_sign L (refreshSecret cfg) (refreshTtl cfg) (a_now s)
     (refresh_claims (au_id u) (as_id r) (as_family r) (a_next s))"

definition swapped :: "auth_config \<Rightarrow> auth_session \<Rightarrow> string \<Rightarrow> string \<Rightarrow> auth_db \<Rightarrow> auth_db" where
  "swapped cfg r h new s = s\<lparr>a_next := Suc (a_next s),
     a_sessions := map (\<lambda>y. if as_id y = as_id r \<and> as_refresh y = h \<and> as_revoked y = None
       then y\<lparr>as_refresh := new, as_expires := a_now s + ttlToMs (refreshTtl cfg)\<rparr> else y) (a_sessions s)\<rparr>"

lemma refresh_rotate_run:
  "refresh_rotate L cfg (r, u, h) ctx s =
     (let new = rotated_token L cfg r u s; s' = swapped cfg r h (lib_sha256 L new) s
      in if filter (\<lambda>y. as_id y = as_id r \<and> as_refresh y = h \<and> as_revoked y = None) (a_sessions s) = []
         then token_reused cfg (Some (as_family r)) (as_id r) (as_user r) ctx s'
         else (Inr \<lparr>accessToken = jwt_sign L (accessSecret cfg) (accessTtl cfg) (a_now s)
             \<lparr>c_sub = au_id u, c_sid = as_id r, c_fid = None, c_jti = None, c_tier = Some (au_tier u), c_purpose = ''access'',
              c_iss = JWT_ISSUER, c_aud = ACCESS_AUDIENCE\<rparr>, refreshToken = new\<rparr>, s'))"
  by (simp add: refresh_rotate_def signAccessToken_def signRefreshToken_def draw_def rotateSessionAtomic_def
      update_sessions_def svc_simps rotated_token_def swapped_def Let_def cong: if_cong)

definition refresh_payload :: "auth_lib \<Rightarrow> auth_config \<Rightarrow> string \<Rightarrow> auth_db \<Rightarrow> jwt_claims option" where
  "refresh_payload L cfg tok s =
     (case jwt_verify L (refreshSecret cfg) JWT_ISSUER REFRESH_AUDIENCE (a_now s) tok of
        Some c \<Rightarrow> if c_purpose c = ''refresh'' \<and> c_jti c \<noteq> None then Some c else None
      | None \<Rightarrow> None)"

lemma refresh_check_run:
  "refresh_check L cfg tok ctx s = (case refresh_payload L cfg tok s of
     None \<Rightarrow> (Inl (UnauthorizedError ''TOKEN_INVALID''), snd (audit_a ACTOR_SYSTEM None ''INVALID_REFRESH'' None (cx_ip ctx) s))
   | Some c \<Rightarrow> (case findSessionById (c_sid c) s of
       None \<Rightarrow> token_reused cfg (c_fid c) (c_sid c) (c_sub c) ctx s
     | Some r \<Rightarrow>
         if as_revoked r \<noteq> None then token_reused cfg (c_fid c) (c_sid c) (c_sub c) ctx s
         else if as_refresh r \<noteq> lib_sha256 L tok then token_reused cfg (Some (as_family r)) (as_id r) (as_user r) ctx s
         else (case findUserById (as_user r) s of
             None \<Rightarrow> (Inl (ForbiddenError ''ACCOUNT_NOT_ACTIVE''), s)
           | Some u \<Rightarrow> if au_status u \<noteq> USER_ACTIVE then (Inl (ForbiddenError ''ACCOUNT_NOT_ACTIVE''), s)
               else (Inr (r, u, lib_sha256 L tok), s))))"
proof (cases "refresh_payload L cfg tok s")
  case None
  then have "\<exists>e. verifyRefreshToken L cfg tok s = (Inl e, s)"
    by (auto simp: refresh_payload_def verifyRefresh_run split: option.splits if_splits)
  then show ?thesis using None by (auto simp: refresh_check_def svc_simps audit_a_def)
next
  case (Some c)
  then have "verifyRefreshToken L cfg tok s = (Inr c, s)"
    by (auto simp: refresh_payload_def verifyRefresh_run split: option.splits if_splits)
  then show ?thesis using Some by (simp add: refresh_check_def svc_simps Let_def split: option.split)
qed

lemma refresh_check_Inr:
  assumes run: "refresh_check L cfg tok ctx s = (Inr (r, u, h), t)"
  shows "\<exists>c. refresh_payload L cfg tok s = Some c \<and> findSessionById (c_sid c) s = Some r \<and> as_revoked r = None \<and>
    as_refresh r = lib_sha256 L tok \<and> h = lib_sha256 L tok \<and> t = s"
proof (cases "refresh_payload L cfg tok s")
  case None
  then show ?thesis using run by (simp add: refresh_check_run)
next
  case c: (Some c)
  show ?thesis
  proof (cases "findSessionById (c_sid c) s")
    case None
    then show ?thesis using run by (simp add: refresh_check_run c token_reused_never)
  next
    case (Some x)
    then show ?thesis
      using run by (simp add: refresh_check_run c token_reused_never split: if_splits option.splits)
  qed
qed

lemma refresh_Inr:
  assumes "refresh L cfg tok ctx s = (Inr toks, t)"
  shows "\<exists>c r sub. refresh_payload L cfg tok s = Some c \<and>
     findSessionById (c_sid c) s = Some r \<and> as_revoked r = None \<and> as_refresh r = lib_sha256 L tok \<and>
     refreshToken toks = jwt_sign L (refreshSecret cfg) (refreshTtl cfg) (a_now s)
       (refresh_claims sub (as_id r) (as_family r) (a_next s)) \<and> a_next t = Suc (a_next s) \<and>
     (\<exists>r' \<in> set (a_sessions t). as_id r' = as_id r \<and> as_family r' = as_family r \<and>
        as_refresh r' = lib_sha256 L (refreshToken toks))"
proof -
  obtain p s1 where p: "refresh_check L cfg tok ctx s = (Inr p, s1)" "refresh_rotate L cfg p ctx s1 = (Inr toks, t)"
    using assms by (auto simp: refresh_def svc_simps split: prod.splits sum.splits)
  obtain r u h where split: "p = (r, u, h)" by (cases p)
  obtain c where c: "refresh_payload L cfg tok s = Some c"
      "findSessionById (c_sid c) s = Some r" "as_revoked r = None" "as_refresh r = lib_sha256 L tok" "h = lib_sha256 L tok" "s1 = s"
    using refresh_check_Inr [OF p(1) [unfolded split]] by blast
  define new where "new = rotated_token L cfg r u s"
  have moved: "refreshToken toks = new" "t = swapped cfg r h (lib_sha256 L new) s"
    using p(2) unfolding split c(6) by (auto simp: refresh_rotate_run token_reused_never Let_def new_def split: if_splits)
  have "r \<in> set (a_sessions s)" using c(2) by (auto simp: findSessionById_def dest: find_SomeD)
  then have "r\<lparr>as_refresh := lib_sha256 L new, as_expires := a_now s + ttlToMs (refreshTtl cfg)\<rparr> \<in> set (a_sessions t)" (is "?r \<in> _")
    using c(3-5) unfolding moved(2) swapped_def by (simp add: rev_image_eqI)
  then have "\<exists>r' \<in> set (a_sessions t). as_id r' = as_id r \<and> as_family r' = as_family r \<and> as_refresh r' = lib_sha256 L new"
    by (intro bexI [of _ ?r]) simp
  then show ?thesis using c moved by (auto simp: new_def rotated_token_def swapped_def)
qed

lemma refresh_accepted:
  assumes "refresh_payload L cfg tok s = Some c" and "findSessionById (c_sid c) s = Some r" and "as_revoked r = None"
    and "as_refresh r = lib_sha256 L tok" and "findUserById (as_user r) s = Some u" and "au_status u = USER_ACTIVE"
  shows "\<exists>toks. refresh L cfg tok ctx s = (Inr toks, swapped cfg r (lib_sha256 L tok) (lib_sha256 L (refreshToken toks)) s)"
proof -
  have "refresh_check L cfg tok ctx s = (Inr (r, u, lib_sha256 L tok), s)"
    using assms by (simp add: refresh_check_run)
  moreover have "filter (\<lambda>y. as_id y = as_id r \<and> as_refresh y = lib_sha256 L tok \<and> as_revoked y = None) (a_sessions s) \<noteq> []"
    using assms(2-4) by (auto simp: findSessionById_def filter_empty_conv dest!: find_SomeD)
  ultimately show ?thesis by (simp add: refresh_def svc_simps refresh_rotate_run Let_def)
qed

lemma refresh_refused:
  assumes "\<And>c r. refresh_payload L cfg tok s = Some c \<Longrightarrow> findSessionById (c_sid c) s = Some r \<Longrightarrow>
    as_revoked r \<noteq> None \<or> as_refresh r \<noteq> lib_sha256 L tok \<and> c_fid c = Some (as_family r)"
  shows "\<exists>e t. refresh L cfg tok ctx s = (Inl e, t) \<and> (\<forall>c. refresh_payload L cfg tok s = Some c \<longrightarrow>
       (\<forall>r \<in> set (a_sessions t). c_fid c = Some (as_family r) \<longrightarrow> as_revoked r \<noteq> None))"
proof (cases "refresh_payload L cfg tok s")
  case None
  then show ?thesis by (simp add: refresh_def refresh_check_run svc_simps audit_a_def)
next
  case (Some c)
  have "\<exists>sid u. refresh_check L cfg tok ctx s = token_reused cfg (c_fid c) sid u ctx s"
    using assms [OF Some] by (force simp: refresh_check_run Some split: option.split)
  then obtain sid u where run: "refresh_check L cfg tok ctx s = token_reused cfg (c_fid c) sid u ctx s" by blast
  then show ?thesis
    using token_reused_run [where 'a = "auth_session \<times> auth_user \<times> string", of cfg "c_fid c" sid u ctx s] Some
    by (auto simp: refresh_def svc_simps)
qed

lemma payload_signed:
  assumes "jwt_correct L"
  shows "refresh_payload L cfg (jwt_sign L (refreshSecret cfg) (refreshTtl cfg) t0 (refresh_claims sub sid fid jti)) s =
    (if a_now s div 1000 < t0 div 1000 + jwt_life L (refreshTtl cfg) then Some (refresh_claims sub sid fid jti) else None)"
  using assms by (simp add: refresh_payload_def jwt_correct_def refresh_claims_def)

lemma issued_signed:
  assumes "hash_separates L" and "issued L cfg r j"
    and "as_refresh r = lib_sha256 L (jwt_sign L (refreshSecret cfg) (refreshTtl cfg) t0 (refresh_claims sub sid fid jti))"
  shows "as_id r = sid" and "as_family r = fid" and "j = jti"
proof -
  obtain sub' t' where "lib_sha256 L (jwt_sign L (refreshSecret cfg) (refreshTtl cfg) t' (refresh_claims sub' (as_id r) (as_family r) j)) =
      lib_sha256 L (jwt_sign L (refreshSecret cfg) (refreshTtl cfg) t0 (refresh_claims sub sid fid jti))"
    using assms(2,3) by (auto simp: issued_def)
  then have "refresh_claims sub' (as_id r) (as_family r) j = refresh_claims sub sid fid jti"
    using assms(1) unfolding hash_separates_def by blast
  then show "as_id r = sid" and "as_family r = fid" and "j = jti" by (simp_all add: refresh_claims_def)
qed

lemma one_session: "auth_inv L cfg s \<Longrightarrow> r \<in> set (a_sessions s) \<Longrightarrow> x \<in> set (a_sessions s) \<Longrightarrow> as_id r = as_id x \<Longrightarrow> r = x"
  by (auto simp: auth_inv_def distinct_map inj_on_def)

lemma swapped_token_gone:
  assumes lib: "jwt_correct L" "hash_separates L" and inv: "auth_inv L cfg s" "auth_inv L cfg v" and later: "auth_rel L cfg t v"
    and tok: "tok = jwt_sign L (refreshSecret cfg) (refreshTtl cfg) t0 (refresh_claims sub sid fid jti)"
    and run: "refresh L cfg tok ctx s = (Inr toks, t)"
  shows "\<forall>y \<in> set (a_sessions v). as_refresh y \<noteq> lib_sha256 L tok"
    and "findSessionById sid v = Some y \<Longrightarrow> as_family y = fid"
proof -
  obtain c r sub' r' where c: "refresh_payload L cfg tok s = Some c" "findSessionById (c_sid c) s = Some r"
      "as_refresh r = lib_sha256 L tok"
    and new: "refreshToken toks = jwt_sign L (refreshSecret cfg) (refreshTtl cfg) (a_now s)
        (refresh_claims sub' (as_id r) (as_family r) (a_next s))" "a_next t = Suc (a_next s)"
      "r' \<in> set (a_sessions t)" "as_id r' = as_id r" "as_family r' = as_family r"
      "as_refresh r' = lib_sha256 L (refreshToken toks)"
    using refresh_Inr [OF run] by blast
  have r: "r \<in> set (a_sessions s)" using c(2) by (auto simp: findSessionById_def dest: find_SomeD)
  obtain j where j: "j < a_next s" "issued L cfg r j" using inv(1) r by (auto simp: auth_inv_def)
  note old = issued_signed [OF lib(2) j(2) c(3) [unfolded tok]]
  obtain z where z: "z \<in> set (a_sessions v)" "session_later L cfg (a_next t) r' z"
    using later new(3) by (auto simp: auth_rel_def)
  show gone: "\<forall>y \<in> set (a_sessions v). as_refresh y \<noteq> lib_sha256 L tok"
  proof (intro ballI notI)
    fix y assume y: "y \<in> set (a_sessions v)" "as_refresh y = lib_sha256 L tok"
    obtain jy where "issued L cfg y jy" using inv(2) y(1) by (auto simp: auth_inv_def)
    then have "as_id y = sid" using issued_signed(1) [OF lib(2) _ y(2) [unfolded tok]] by blast
    then have eq: "z = y" using one_session [OF inv(2) y(1) z(1)] z(2) new(4) old(1) by (simp add: session_later_def)
    from z(2) consider "as_refresh z = as_refresh r'" | jz where "a_next t \<le> jz" "issued L cfg z jz"
      by (auto simp: session_later_def)
    then show False
    proof cases
      case 1
      then have "as_refresh z = lib_sha256 L (jwt_sign L (refreshSecret cfg) (refreshTtl cfg) (a_now s)
          (refresh_claims sub' (as_id r) (as_family r) (a_next s)))" using new by simp
      moreover have "issued L cfg z (a_next s)"
        using calculation z(2) new by (auto simp: issued_def session_later_def)
      ultimately show False using issued_signed(3) [OF lib(2) _ y(2) [unfolded tok]] eq old(3) j(1) by blast
    next
      case 2
      then show False using issued_signed(3) [OF lib(2) _ y(2) [unfolded tok], of jz] eq old(3) j(1) new(2) by simp
    qed
  qed
  show "as_family y = fid" if y: "findSessionById sid v = Some y"
  proof -
    have "y \<in> set (a_sessions v)" "as_id y = sid" using y by (auto simp: findSessionById_def dest: find_SomeD)
    then have "y = z" using one_session [OF inv(2) _ z(1)] z(2) new(4) old(1) by (simp add: session_later_def)
    then show ?thesis using z(2) new(5) old(2) by (simp add: session_later_def)
  qed
qed

text \<open>
  C32. A refresh token that was exchanged is dead: whatever calls follow, in whatever order, and
  however their parts overlap, presenting it again is an error and, while the token itself has not
  expired, the error signs out every session of its family; a refresh that had checked it before the
  exchange is refused as well.
\<close>

theorem refreshed_token_dead:
  assumes "jwt_correct L" and "hash_separates L" and "auth_reach L cfg (s, ws)"
    and "tok = jwt_sign L (refreshSecret cfg) (refreshTtl cfg) t0 (refresh_claims sub sid fid jti)"
    and "refresh L cfg tok ctx s = (Inr toks, t)" and "(auth_step L cfg)\<^sup>*\<^sup>* (t, ws) (v, vs)"
  shows "(\<exists>e w. refresh L cfg tok ctx' v = (Inl e, w) \<and>
      (a_now v div 1000 < t0 div 1000 + jwt_life L (refreshTtl cfg) \<longrightarrow>
        (\<forall>r \<in> set (a_sessions w). as_family r = fid \<longrightarrow> as_revoked r \<noteq> None))) \<and>
    (\<exists>e w. refresh_rotate L cfg (r, u, lib_sha256 L tok) ctx' v = (Inl e, w))"
proof -
  have t: "auth_reach L cfg (t, ws)"
    using assms(3) step_call [OF auth_call.intros(9) [OF assms(5)]] unfolding auth_reach_def
    by (meson rtranclp.rtrancl_into_rtrancl)
  note inv = auth_reach_inv(1) [OF assms(3)] auth_reach_later [OF t assms(6)]
  note gone = swapped_token_gone [OF assms(1,2) inv [unfolded fst_conv] assms(4,5)]
  have payload: "refresh_payload L cfg tok v = (if a_now v div 1000 < t0 div 1000 + jwt_life L (refreshTtl cfg)
      then Some (refresh_claims sub sid fid jti) else None)"
    unfolding assms(4) by (rule payload_signed [OF assms(1)])
  have "as_revoked y \<noteq> None \<or> as_refresh y \<noteq> lib_sha256 L tok \<and> c_fid c = Some (as_family y)"
    if "refresh_payload L cfg tok v = Some c" "findSessionById (c_sid c) v = Some y" for c y
  proof -
    have c: "c = refresh_claims sub sid fid jti" using that(1) payload by (simp split: if_splits)
    then have "findSessionById sid v = Some y" using that(2) by (simp add: refresh_claims_def)
    then have "as_family y = fid" "y \<in> set (a_sessions v)"
      using gone(2) by (auto simp: findSessionById_def dest: find_SomeD)
    then show ?thesis using gone(1) c by (simp add: refresh_claims_def)
  qed
  from refresh_refused [OF this] obtain e w where w: "refresh L cfg tok ctx' v = (Inl e, w)"
    "\<forall>c. refresh_payload L cfg tok v = Some c \<longrightarrow> (\<forall>r \<in> set (a_sessions w). c_fid c = Some (as_family r) \<longrightarrow> as_revoked r \<noteq> None)"
    by blast
  have none: "filter (\<lambda>y. as_id y = as_id r \<and> as_refresh y = lib_sha256 L tok \<and> as_revoked y = None) (a_sessions v) = []"
    using gone(1) by (auto simp: filter_empty_conv)
  have "\<exists>e w. refresh_rotate L cfg (r, u, lib_sha256 L tok) ctx' v = (Inl e, w)"
    using token_reused_run unfolding refresh_rotate_run Let_def none by (metis (no_types))
  then show ?thesis using w payload by (auto simp: refresh_claims_def)
qed

lemma logged_in_facts:
  "let s = logged_in in a_now s = 0 \<and> map au_id (a_users s) = [0] \<and> au_status (hd (a_users s)) = USER_ACTIVE \<and>
     map as_id (a_sessions s) = [2] \<and> as_revoked (hd (a_sessions s)) = None \<and>
     as_refresh (hd (a_sessions s)) = lib_sha256 plain_lib first_token \<and> as_user (hd (a_sessions s)) = 0"
  by code_simp

lemma plain_life: "jwt_life plain_lib (refreshTtl plain_cfg) = 9"
  by code_simp

lemma plain_refresh: "ttlToMs (refreshTtl plain_cfg) = 9000"
  by code_simp

lemma first_refresh:
  "\<exists>toks. refresh plain_lib plain_cfg first_token no_context logged_in = (Inr toks,
     swapped plain_cfg (hd (a_sessions logged_in)) (lib_sha256 plain_lib first_token) (lib_sha256 plain_lib (refreshToken toks)) logged_in)"
proof (rule refresh_accepted)
  have now: "a_now logged_in = 0" and facts: "map as_id (a_sessions logged_in) = [2] \<and> as_revoked (hd (a_sessions logged_in)) = None \<and>
      as_refresh (hd (a_sessions logged_in)) = lib_sha256 plain_lib first_token \<and> as_user (hd (a_sessions logged_in)) = 0 \<and>
      map au_id (a_users logged_in) = [0] \<and> au_status (hd (a_users logged_in)) = USER_ACTIVE"
    using logged_in_facts by (simp_all add: Let_def)
  show "refresh_payload plain_lib plain_cfg first_token logged_in = Some (refresh_claims 0 2 3 4)"
    unfolding first_token_def by (subst payload_signed [OF plain_jwt]) (simp add: now plain_life)
  from facts show "findSessionById (c_sid (refresh_claims 0 2 3 4)) logged_in = Some (hd (a_sessions logged_in))"
    and "as_revoked (hd (a_sessions logged_in)) = None"
    and "as_refresh (hd (a_sessions logged_in)) = lib_sha256 plain_lib first_token"
    and "findUserById (as_user (hd (a_sessions logged_in))) logged_in = Some (hd (a_users logged_in))"
    and "au_status (hd (a_users logged_in)) = USER_ACTIVE"
    by (auto simp: findSessionById_def findUserById_def refresh_claims_def)
qed

theorem refreshed_token_dead_witness:
  "let t = snd (refresh plain_lib plain_cfg first_token no_context logged_in)
   in \<exists>e w. refresh plain_lib plain_cfg first_token no_context t = (Inl e, w) \<and>
        filter (\<lambda>r. as_family r = 3 \<and> as_revoked r = None) (a_sessions w) = []"
proof -
  obtain toks t where run: "refresh plain_lib plain_cfg first_token no_context logged_in = (Inr toks, t)" "a_now t = a_now logged_in"
    using first_refresh by (auto simp: swapped_def)
  then show ?thesis
    using logged_in_facts refreshed_token_dead [OF plain_jwt plain_separates logged_in_reach first_token_def run(1) rtranclp.rtrancl_refl,
        of no_context] by (auto simp: Let_def plain_life filter_empty_conv)
qed

section \<open>Revoked sessions\<close>

lemma redis_get_run: "orElse (authRedisGet_a k) None s = (Inr (if a_redis_down s then None else map_option fst (redis_entry k s)), s)"
  by (simp add: orElse_def authRedisGet_a_def redis_a_def svc_simps)

lemma authenticate_Inr:
  assumes "authenticate L cfg header s = (Inr ru, t)"
  shows "\<exists>r u. findSessionById (ru_session ru) s = Some r \<and> findUserById (as_user r) s = Some u \<and> as_user r = au_id u \<and>
    ru_id ru = au_id u \<and> live_session (a_now s) r \<and> au_status u = USER_ACTIVE \<and> au_deleted u = None"
proof -
  obtain token where token: "bearer header = Some token" using assms by (auto simp: authenticate_def svc_simps split: option.splits)
  obtain c where c: "verifyAccessToken L cfg token s = (Inr c, s)"
    "bindS (validateAccessSession (c_sub c) (c_sid c)) (\<lambda>u. returnS \<lparr>ru_id = pu_id u, ru_session = c_sid c, ru_tier = pu_tier u\<rparr>) s = (Inr ru, t)"
    using assms token unfolding authenticate_def
    by (auto simp: bindS_Inr_iff redis_get_run svc_simps verifyAccessToken_def split: option.splits if_splits)
  then obtain x where x: "validateAccessSession (c_sub c) (c_sid c) s = (Inr x, t)" "ru = \<lparr>ru_id = pu_id x, ru_session = c_sid c, ru_tier = pu_tier x\<rparr>"
    by (auto simp: bindS_Inr_iff returnS_def)
  then show ?thesis
    by (auto simp: validateAccessSession_def svc_simps toPublicUser_def findUserById_def dest: find_SomeD
        split: option.splits if_splits prod.splits sum.splits)
qed

lemma later_session:
  assumes "auth_reach L cfg (s, ws)" and "r \<in> set (a_sessions s)" and "(auth_step L cfg)\<^sup>*\<^sup>* (s, ws) (v, vs)"
  shows "\<exists>z. findSessionById (as_id r) v = Some z \<and> session_later L cfg (a_next s) r z"
proof -
  note v = auth_reach_later [OF assms(1,3)]
  obtain z where z: "z \<in> set (a_sessions v)" "session_later L cfg (a_next s) r z"
    using v(2) assms(2) by (auto simp: auth_rel_def)
  have "findSessionById (as_id r) v = Some z"
    unfolding findSessionById_def
    using one_session [OF v(1) [unfolded fst_conv]] z by (intro find_unique) (auto simp: session_later_def)
  then show ?thesis using z(2) by blast
qed

text \<open>
  C33. A session that was revoked stays shut: whatever calls follow, no access token of it
  authenticates a request and no refresh token of it is exchanged.  A request that is authenticated
  belongs to a live session of an active user.
\<close>

theorem revoked_session_dead:
  assumes "auth_reach L cfg (s, ws)" and "r \<in> set (a_sessions s)" and "as_revoked r \<noteq> None"
    and "(auth_step L cfg)\<^sup>*\<^sup>* (s, ws) (v, vs)"
  shows "(\<forall>header ru w. authenticate L cfg header v = (Inr ru, w) \<longrightarrow> ru_session ru \<noteq> as_id r \<and>
      (\<exists>x u. findSessionById (ru_session ru) v = Some x \<and> live_session (a_now v) x \<and>
         findUserById (as_user x) v = Some u \<and> ru_id ru = au_id u \<and> au_status u = USER_ACTIVE \<and> au_deleted u = None)) \<and>
    (\<forall>tok ctx toks w. refresh L cfg tok ctx v = (Inr toks, w) \<longrightarrow>
      (\<exists>c. refresh_payload L cfg tok v = Some c \<and> c_sid c \<noteq> as_id r))"
proof -
  obtain z where z: "findSessionById (as_id r) v = Some z" "as_revoked z \<noteq> None"
    using later_session [OF assms(1,2,4)] assms(3) by (auto simp: session_later_def)
  have "ru_session ru \<noteq> as_id r \<and>
      (\<exists>x u. findSessionById (ru_session ru) v = Some x \<and> live_session (a_now v) x \<and>
         findUserById (as_user x) v = Some u \<and> ru_id ru = au_id u \<and> au_status u = USER_ACTIVE \<and> au_deleted u = None)"
    if "authenticate L cfg header v = (Inr ru, w)" for header ru w
    using authenticate_Inr [OF that] z by (auto simp: live_session_def)
  moreover have "\<exists>c. refresh_payload L cfg tok v = Some c \<and> c_sid c \<noteq> as_id r"
    if "refresh L cfg tok ctx v = (Inr toks, w)" for tok ctx toks w
    using refresh_Inr [OF that] z by force
  ultimately show ?thesis by blast
qed

definition logged_out :: auth_db where
  "logged_out = snd (logout plain_cfg 2 no_context logged_in)"

theorem revoked_session_dead_witness:
  "\<not> (\<exists>header ru w. authenticate plain_lib plain_cfg header logged_out = (Inr ru, w) \<and> ru_session ru = 2) \<and>
   \<not> (\<exists>ctx toks w. refresh plain_lib plain_cfg first_token ctx logged_out = (Inr toks, w))"
proof -
  have out: "auth_step plain_lib plain_cfg (logged_in, []) (logged_out, [])"
    unfolding logged_out_def by (rule step_call, rule auth_call.intros(10), rule surjective_pairing)
  then have reach: "auth_reach plain_lib plain_cfg (logged_out, [])"
    using logged_in_reach unfolding auth_reach_def by (meson rtranclp.rtrancl_into_rtrancl)
  have facts: "let s = logged_out in length (a_sessions s) = 1 \<and> as_id (hd (a_sessions s)) = 2 \<and>
      as_revoked (hd (a_sessions s)) \<noteq> None" by code_simp
  then have "a_sessions logged_out \<noteq> []" by (auto simp: Let_def)
  then have row: "hd (a_sessions logged_out) \<in> set (a_sessions logged_out)"
    "as_id (hd (a_sessions logged_out)) = 2" "as_revoked (hd (a_sessions logged_out)) \<noteq> None"
    using facts by (simp_all add: Let_def)
  note dead = revoked_session_dead [OF reach row(1,3) rtranclp.rtrancl_refl, unfolded row(2)]
  have "c = refresh_claims 0 2 3 4" if "refresh_payload plain_lib plain_cfg first_token logged_out = Some c" for c
    using that unfolding first_token_def by (subst (asm) payload_signed [OF plain_jwt]) (simp split: if_splits)
  then show ?thesis using dead by (force simp: refresh_claims_def)
qed

section \<open>One session at a time\<close>

lemma markSession_state [preserves_intros]: "preserves (\<lambda>s. I (a_sessions s) (a_now s)) (markSessionRevoked cfg i x)"
  by (auto simp: preserves_def markSessionRevoked_def authRedisSet_a_def redis_a_def redis_put_def svc_simps)

lemma orElse_unit: "\<exists>t. orElse m () s = (Inr (), t)"
  by (cases "m s"; cases "fst (m s)") (auto simp: orElse_def svc_simps)

lemma mapS_orElse: "fst (mapS (\<lambda>x. orElse (f x) ()) xs s) = Inr (replicate (length xs) ())"
proof (induction xs arbitrary: s)
  case (Cons x xs)
  obtain t where t: "orElse (f x) () s = (Inr (), t)" using orElse_unit by blast
  show ?case
    using t Cons.IH [of t] by (cases "mapS (\<lambda>x. orElse (f x) ()) xs t") (simp add: svc_simps)
qed (simp add: svc_simps)

lemma filter_map_same:
  assumes "\<And>x. x \<in> set xs \<Longrightarrow> P (f x) = Q x" and "\<And>x. x \<in> set xs \<Longrightarrow> Q x \<Longrightarrow> f x = x"
  shows "filter P (map f xs) = filter Q xs"
  using assms by (induction xs) auto

lemma revokeAll_run:
  "revokeAllSessionsForUser u except s =
     (let ids = map as_id (filter (\<lambda>r. as_user r = u \<and> as_revoked r = None \<and> Some (as_id r) \<noteq> except) (a_sessions s))
      in (Inr ids, s\<lparr>a_sessions := map (\<lambda>r. if as_id r \<in> set ids then r\<lparr>as_revoked := Some (a_now s)\<rparr> else r) (a_sessions s)\<rparr>))"
proof (cases "filter (\<lambda>r. as_user r = u \<and> as_revoked r = None \<and> Some (as_id r) \<noteq> except) (a_sessions s)")
  case Nil
  then show ?thesis by (simp add: revokeAllSessionsForUser_def svc_simps)
next
  case (Cons r rs)
  then show ?thesis by (simp add: revokeAllSessionsForUser_def update_sessions_def svc_simps)
qed

text \<open>The sessions of a user but one are revoked when one of them is live.\<close>

lemma enforce_run:
  assumes "enforceSingleActiveSession cfg u new ctx s = (x, t)"
  shows "x = Inr ()" and "a_now t = a_now s"
    and "filter (\<lambda>r. as_user r = u \<and> live_session (a_now t) r) (a_sessions t) =
      filter (\<lambda>r. as_user r = u \<and> live_session (a_now s) r \<and> as_id r = new) (a_sessions s)"
proof -
  let ?others = "findOtherActiveSessions u new s"
  define ids where "ids = map as_id (filter (\<lambda>r. as_user r = u \<and> as_revoked r = None \<and> as_id r \<noteq> new) (a_sessions s))"
  define f where "f r = (if as_id r \<in> set ids then r\<lparr>as_revoked := Some (a_now s)\<rparr> else r)" for r :: auth_session
  have filtered: "filter (\<lambda>r. as_user r = u \<and> live_session (a_now s) r) (map f (a_sessions s)) =
      filter (\<lambda>r. as_user r = u \<and> live_session (a_now s) r \<and> as_id r = new) (a_sessions s)"
    by (rule filter_map_same) (auto simp: f_def ids_def live_session_def)
  have "x = Inr () \<and> a_now t = a_now s \<and> (a_sessions t = map f (a_sessions s) \<or> ?others = [] \<and> a_sessions t = a_sessions s)"
  proof (cases "?others = []")
    case True
    then show ?thesis using assms by (simp add: enforceSingleActiveSession_def orElse_def svc_simps)
  next
    case False
    define s1 where "s1 = s\<lparr>a_sessions := map f (a_sessions s)\<rparr>"
    have 1: "revokeAllSessionsForUser u (Some new) s = (Inr ids, s1)"
      by (simp add: revokeAll_run s1_def f_def ids_def Let_def cong: conj_cong)
    let ?marks = "mapS (\<lambda>r. orElse (markSessionRevoked cfg (as_id r) ''NEW_LOGIN'') ()) ?others"
    obtain ys s2 where 2: "?marks s1 = (Inr ys, s2)"
      using mapS_orElse [of "\<lambda>r. markSessionRevoked cfg (as_id r) ''NEW_LOGIN''" ?others s1] by (cases "?marks s1") auto
    have kept_now: "preserves (\<lambda>z. a_sessions z = map f (a_sessions s) \<and> a_now z = a_now s) ?marks"
      unfolding orElse_def by (intro preserves_intros)
    have 3: "a_sessions s2 = map f (a_sessions s) \<and> a_now s2 = a_now s"
      using preserves_run [OF kept_now _ 2] by (simp add: s1_def)
    show ?thesis
      using assms False 1 2 3 by (simp add: enforceSingleActiveSession_def orElse_def svc_simps audit_a_def) auto
  qed
  then have "x = Inr ()" and t: "a_now t = a_now s" and rows: "a_sessions t = map f (a_sessions s) \<or> ?others = [] \<and> a_sessions t = a_sessions s"
    by simp_all
  then show "x = Inr ()" and "a_now t = a_now s" by simp_all
  have alone: "filter (\<lambda>r. as_user r = u \<and> live_session (a_now s) r) (a_sessions s) =
      filter (\<lambda>r. as_user r = u \<and> live_session (a_now s) r \<and> as_id r = new) (a_sessions s)" if "?others = []"
    using that by (intro filter_cong) (auto simp: findOtherActiveSessions_def filter_empty_conv)
  show "filter (\<lambda>r. as_user r = u \<and> live_session (a_now t) r) (a_sessions t) =
      filter (\<lambda>r. as_user r = u \<and> live_session (a_now s) r \<and> as_id r = new) (a_sessions s)"
    using rows filtered alone unfolding t by (elim disjE conjE) simp_all
qed

lemmas result_simps = bindS_Inr_iff returnS_apply throwS_apply readS_apply writeS_apply requireS_apply run_if

lemma issueSession_run:
  assumes "issueSession L cfg u ctx loc s = (x, t)"
  shows "x = Inr (new_tokens L cfg u s)" and "a_now t = a_now s"
    and "auth_inv L cfg s \<Longrightarrow> 0 < ttlToMs (refreshTtl cfg) \<Longrightarrow>
      filter (\<lambda>r. as_user r = au_id u \<and> live_session (a_now t) r) (a_sessions t) = [new_session L cfg u ctx loc s]"
proof -
  let ?s = "s\<lparr>a_next := Suc (Suc (Suc (a_next s))), a_sessions := a_sessions s @ [new_session L cfg u ctx loc s]\<rparr>"
  obtain y s2 where 1: "enforceSingleActiveSession cfg (au_id u) (a_next s) ctx ?s = (y, s2)" by fastforce
  note e = enforce_run [OF 1]
  have t: "x = Inr (new_tokens L cfg u s) \<and> a_now t = a_now s2 \<and> a_sessions t = a_sessions s2"
    using assms 1 e(1) by (auto simp: issueSession_def issue_create_run svc_simps audit_a_def split: if_splits)
  then show "x = Inr (new_tokens L cfg u s)" and "a_now t = a_now s" using e(2) by simp_all
  assume inv: "auth_inv L cfg s" and ttl: "0 < ttlToMs (refreshTtl cfg)"
  have "filter (\<lambda>r. as_user r = au_id u \<and> live_session (a_now s) r \<and> as_id r = a_next s) (a_sessions s) = []"
    using inv by (auto simp: auth_inv_def filter_empty_conv)
  then show "filter (\<lambda>r. as_user r = au_id u \<and> live_session (a_now t) r) (a_sessions t) = [new_session L cfg u ctx loc s]"
    using t e(2,3) ttl by (simp add: new_session_def live_session_def)
qed

lemma login_check_Inl:
  assumes "login_check L cfg inp s = (Inr (Inl (u, loc)), t)"
  shows "\<not> login_locked cfg (li_email inp) (cx_ip (li_context inp)) s" and "findUserByEmail (li_email inp) s = Some u"
    and "argon_verify L (au_password u) (li_password inp)" and "au_deleted u = None" and "au_status u = USER_ACTIVE"
    and "\<not> au_totp u"
    and "\<not> (requireEmailVerification cfg \<and> \<not> allowUnverifiedLogin cfg \<and> au_verified u = None)"
    and "loc = sanitizeLocation (li_location inp) (a_now s)" and "requireLoginLocation cfg \<Longrightarrow> loc \<noteq> None"
  using assms by (auto simp: login_check_def result_simps Let_def ensureLoginLocationIfRequired_def
      recordLoginAttempt_def split: option.splits if_splits) metis+

lemma login_Logged_In:
  assumes "login L cfg inp s = (Inr (Logged_In pu toks), t)"
  shows "\<exists>u loc s1 s2. login_check L cfg inp s = (Inr (Inl (u, loc)), s1) \<and> pu = toPublicUser u \<and>
    issueSession L cfg u (li_context inp) loc s1 = (Inr toks, s2) \<and> a_now t = a_now s2 \<and> a_sessions t = a_sessions s2"
proof -
  obtain res s1 where res: "login_check L cfg inp s = (Inr res, s1)"
      "(case res of Inr token \<Rightarrow> returnS (Two_Factor_Required token) | Inl p \<Rightarrow> login_issue L cfg p (li_context inp)) s1 =
         (Inr (Logged_In pu toks), t)"
    using assms unfolding login_def by (rule bindS_Inr_elim)
  then obtain u loc where p: "res = Inl (u, loc)" by (cases res) (auto simp: returnS_apply)
  then have "login_issue L cfg (u, loc) (li_context inp) s1 = (Inr (Logged_In pu toks), t)" using res(2) by simp
  then show ?thesis using res(1) p by (auto simp: login_issue_def result_simps audit_a_def)
qed

text \<open>
  C34. A login with the password that needs no second factor is let in when the account is not
  locked, the password is the stored one, the user is active and not deleted, has verified the e-mail
  address where the settings ask for that, and sent a usable location where they ask for one; the
  session it makes is afterwards the only live session of the user, keeps that location, and its
  refresh token is the one handed out.
\<close>

theorem login_only_session:
  assumes "auth_reach L cfg (s, ws)" and "0 < ttlToMs (refreshTtl cfg)"
    and "login L cfg inp s = (Inr (Logged_In pu toks), t)"
  shows "\<exists>u r. findUserByEmail (li_email inp) s = Some u \<and> pu = toPublicUser u \<and>
    argon_verify L (au_password u) (li_password inp) \<and> au_status u = USER_ACTIVE \<and> au_deleted u = None \<and> \<not> au_totp u \<and>
    \<not> login_locked cfg (li_email inp) (cx_ip (li_context inp)) s \<and>
    \<not> (requireEmailVerification cfg \<and> \<not> allowUnverifiedLogin cfg \<and> au_verified u = None) \<and>
    (requireLoginLocation cfg \<longrightarrow> sanitizeLocation (li_location inp) (a_now s) \<noteq> None) \<and>
    filter (\<lambda>r. as_user r = pu_id pu \<and> live_session (a_now t) r) (a_sessions t) = [r] \<and>
    as_location r = sanitizeLocation (li_location inp) (a_now s) \<and>
    as_refresh r = lib_sha256 L (refreshToken toks)"
proof -
  obtain u loc s1 s2 where check: "login_check L cfg inp s = (Inr (Inl (u, loc)), s1)" and
    s2: "issueSession L cfg u (li_context inp) loc s1 = (Inr toks, s2)" "pu = toPublicUser u"
      "a_now t = a_now s2" "a_sessions t = a_sessions s2"
    using login_Logged_In [OF assms(3)] by blast
  have "auth_inv L cfg s1"
    using kept_run [OF kept_login_parts(1) check] auth_reach_inv(1) [OF assms(1)] by simp
  then have "filter (\<lambda>r. as_user r = au_id u \<and> live_session (a_now s2) r) (a_sessions s2) =
      [new_session L cfg u (li_context inp) loc s1]"
    by (rule issueSession_run(3) [OF s2(1) _ assms(2)])
  moreover have "as_refresh (new_session L cfg u (li_context inp) loc s1) = lib_sha256 L (refreshToken toks)"
    "as_location (new_session L cfg u (li_context inp) loc s1) = loc"
    using issueSession_run(1) [OF s2(1)] by (simp_all add: new_session_def)
  ultimately show ?thesis
    using s2(2-4) login_check_Inl [OF check] by (simp add: toPublicUser_def)
qed

theorem login_only_session_witness:
  "\<exists>r. filter (\<lambda>r. as_user r = 0 \<and> live_session (a_now logged_in) r) (a_sessions logged_in) = [r]"
proof -
  have reach: "auth_reach plain_lib plain_cfg (some_state, [])"
    unfolding auth_reach_def by (intro exI [of _ some_state]) (simp add: some_state_def)
  have "case fst (login plain_lib plain_cfg (some_login ''a'') some_state) of
      Inr (Logged_In pu toks) \<Rightarrow> pu_id pu = 0 | _ \<Rightarrow> False" by code_simp
  then obtain pu toks where run: "login plain_lib plain_cfg (some_login ''a'') some_state = (Inr (Logged_In pu toks), logged_in)" "pu_id pu = 0"
    unfolding logged_in_def by (cases "login plain_lib plain_cfg (some_login ''a'') some_state")
      (auto split: sum.splits login_result.splits)
  then show ?thesis
    using login_only_session [OF reach _ run(1)] run(2) by (auto simp: plain_refresh)
qed

text \<open>
  C36. Two logins of one user that overlap, each storing its session before either looks for the
  others, sign each other out: the user is left with no live session although both calls succeed.
\<close>

theorem overlapping_logins:
  assumes "issue_create L cfg u ctx loc s = (Inr (a, tokens_a, new_a), s1)"
    and "issue_create L cfg u ctx' loc' s1 = (Inr (b, tokens_b, new_b), s2)"
    and "enforceSingleActiveSession cfg (au_id u) a ctx s2 = (x, s3)"
    and "enforceSingleActiveSession cfg (au_id u) b ctx' s3 = (y, s4)"
  shows "x = Inr () \<and> y = Inr () \<and> filter (\<lambda>r. as_user r = au_id u \<and> live_session (a_now s4) r) (a_sessions s4) = []"
proof -
  note 3 = enforce_run [OF assms(3)] and 4 = enforce_run [OF assms(4)]
  have "a \<noteq> b" using assms(1,2) by (auto simp: issue_create_run)
  have "set (filter (\<lambda>r. as_user r = au_id u \<and> live_session (a_now s3) r \<and> as_id r = b) (a_sessions s3)) \<subseteq>
      set (filter (\<lambda>r. as_user r = au_id u \<and> live_session (a_now s3) r) (a_sessions s3)) \<inter> {r. as_id r = b}"
    by auto
  also have "\<dots> = {}" using \<open>a \<noteq> b\<close> by (auto simp: 3(3))
  finally show ?thesis using 3(1) 4 by simp
qed

theorem overlapping_logins_witness:
  "let u = some_user 0 ''a'' False; s2 = snd (issue_create plain_lib plain_cfg u no_context None
         (snd (issue_create plain_lib plain_cfg u no_context None some_state)));
       s4 = snd (enforceSingleActiveSession plain_cfg 0 5 no_context (snd (enforceSingleActiveSession plain_cfg 0 2 no_context s2)))
   in length (a_sessions s2) = 2 \<and> filter (\<lambda>r. as_user r = 0 \<and> live_session (a_now s4) r) (a_sessions s4) = []"
proof -
  let ?u = "some_user 0 ''a'' False"
  define s1 where "s1 = snd (issue_create plain_lib plain_cfg ?u no_context None some_state)"
  define s2 where "s2 = snd (issue_create plain_lib plain_cfg ?u no_context None s1)"
  have ids: "au_id ?u = 0" "a_next some_state = 2" "a_sessions some_state = []"
    by (simp_all add: some_user_def some_state_def)
  have s1: "a_next s1 = 5" by (simp add: s1_def issue_create_run ids)
  obtain x y where 1: "issue_create plain_lib plain_cfg ?u no_context None some_state = (Inr (2, x, y), s1)"
    by (simp add: s1_def issue_create_run ids)
  obtain x' y' where 2: "issue_create plain_lib plain_cfg ?u no_context None s1 = (Inr (5, x', y'), s2)"
    by (simp add: s2_def issue_create_run s1)
  have "length (a_sessions s2) = 2" by (simp add: s2_def s1_def issue_create_run ids)
  then show ?thesis
    using overlapping_logins [OF 1 2 surjective_pairing surjective_pairing] by (simp add: Let_def s1_def s2_def ids)
qed

section \<open>Locking out\<close>


lemma attempts_kept [preserves_intros]:
  "preserves (\<lambda>s. I (a_attempts s) (a_now s)) draw"
  "preserves (\<lambda>s. I (a_attempts s) (a_now s)) (audit_a ty ac act e ip)"
  "preserves (\<lambda>s. I (a_attempts s) (a_now s)) (authRedisSet_a k v ms)"
  "preserves (\<lambda>s. I (a_attempts s) (a_now s)) (createSession row)"
  "preserves (\<lambda>s. I (a_attempts s) (a_now s)) (update_sessions cond upd)"
  by (auto simp: preserves_def draw_def audit_a_def authRedisSet_a_def redis_a_def redis_put_def createSession_def
      update_sessions_def svc_simps)

lemma attempts_issued [preserves_intros]:
  "preserves (\<lambda>s. I (a_attempts s) (a_now s)) (issueSession L cfg u ctx loc)"
  "preserves (\<lambda>s. I (a_attempts s) (a_now s)) (issueLoginChallenge L i)"
  "preserves (\<lambda>s. I (a_attempts s) (a_now s)) (ensureLoginLocationIfRequired cfg oloc)"
  unfolding issueSession_def issue_create_def signAccessToken_def signRefreshToken_def enforceSingleActiveSession_def
    orElse_def markSessionRevoked_def revokeAllSessionsForUser_def issueLoginChallenge_def generateOpaqueToken_def
    ensureLoginLocationIfRequired_def
  by (intro preserves_intros)+












section \<open>Codes instead of the second factor\<close>

lemma issue_result:
  assumes "auth_inv L cfg s" and "0 < ttlToMs (refreshTtl cfg)"
  shows "\<exists>t. issueSession L cfg u ctx loc s = (Inr (new_tokens L cfg u s), t) \<and> a_now t = a_now s \<and>
    filter (\<lambda>r. as_user r = au_id u \<and> live_session (a_now t) r) (a_sessions t) = [new_session L cfg u ctx loc s]"
proof -
  obtain x t where run: "issueSession L cfg u ctx loc s = (x, t)" by fastforce
  show ?thesis using issueSession_run [OF run] assms run by auto
qed

lemma new_session_token: "as_refresh (new_session L cfg u ctx loc s) = lib_sha256 L (refreshToken (new_tokens L cfg u s))"
  by (simp add: new_session_def)

lemma latest_active: "findLatestActiveByEmail email purpose s = Some r \<Longrightarrow> eo_used r = None"
  by (auto simp: findLatestActiveByEmail_def latest_otp_def split: list.splits dest!: filter_eq_ConsD)

text \<open>
  C38. A code by e-mail signs a user in who has a second factor: with the right, current code the
  user gets a live session and is asked for nothing else, although no login with the password gives
  this user a session.
\<close>

theorem otp_login_without_second_factor:
  assumes "auth_reach L cfg (s, ws)" and "0 < ttlToMs (refreshTtl cfg)" and "\<not> requireLoginLocation cfg"
    and "findUserByEmail (normalized_email email) s = Some u" and "au_totp u"
    and "au_deleted u = None" and "au_status u = USER_ACTIVE"
    and "findLatestActiveByEmail (normalized_email email) OTP_LOGIN s = Some r" and "a_now s < eo_expires r"
    and "eo_attempts r < eo_max r" and "eo_hash r = hashOtp L cfg (normalized_email email) code"
  shows "(\<exists>toks t x. verifyOtp L cfg email code ctx loc s = (Inr (toPublicUser u, toks, False), t) \<and>
      filter (\<lambda>r. as_user r = au_id u \<and> live_session (a_now t) r) (a_sessions t) = [x] \<and>
      as_refresh x = lib_sha256 L (refreshToken toks)) \<and>
    (\<forall>inp pu toks t. li_email inp = normalized_email email \<longrightarrow> login L cfg inp s \<noteq> (Inr (Logged_In pu toks), t))"
proof
  let ?e = "normalized_email email"
  have read: "verifyOtp_read cfg email ctx loc s = (Inr (Some u, r, sanitizeLocation loc (a_now s)), s)"
    using assms(3,4,8,9,10) latest_active [OF assms(8)]
    by (simp add: verifyOtp_read_def ensureLoginLocationIfRequired_def otp_read_def svc_simps Let_def)
  define s1 where "s1 = snd (markUsed (eo_id r) s)"
  define s2 where "s2 = (if au_verified u = None then snd (setEmailVerified (au_id u) s1) else s1)"
  define s3 where "s3 = snd (recordLoginAttempt (Some (au_id u)) ?e (cx_ip ctx) True s2)"
  have same: "a_sessions s3 = a_sessions s" "a_next s3 = a_next s"
    by (simp_all add: s3_def s2_def s1_def recordLoginAttempt_def setEmailVerified_def markUsed_def svc_simps)
  then have "auth_inv L cfg s3" using auth_quiet(1) [OF auth_reach_inv(1) [OF assms(1)], of s3] by simp
  from issue_result [OF this assms(2)] obtain t where
    t: "issueSession L cfg u ctx (sanitizeLocation loc (a_now s)) s3 = (Inr (new_tokens L cfg u s3), t)"
    "filter (\<lambda>r. as_user r = au_id u \<and> live_session (a_now t) r) (a_sessions t) =
      [new_session L cfg u ctx (sanitizeLocation loc (a_now s)) s3]" by blast
  have run: "bindS (otp_match L cfg ?e code r m ctx) (\<lambda>_. bindS (otp_account L ?e (Some u) ctx) (\<lambda>(u, n). bindS (recordLoginAttempt (Some (au_id u)) ?e (cx_ip ctx) True) (\<lambda>_. f u n))) s
      = f u False s3" for m :: "(auth_db, unit) svc" and f :: "auth_user \<Rightarrow> bool \<Rightarrow> (auth_db, public_user \<times> token_pair \<times> bool) svc"
    using assms(6,7,11)
    by (simp add: otp_match_def verifyOtp_hash_def otp_account_def svc_simps s3_def s2_def s1_def markUsed_def
        setEmailVerified_def recordLoginAttempt_def split: if_splits)
  have "verifyOtp L cfg email code ctx loc s = verifyOtp_use L cfg email code ctx (Some u, r, sanitizeLocation loc (a_now s)) s"
    by (simp add: verifyOtp_def bindS_apply read)
  also have "\<dots> = bindS (issueSession L cfg u ctx (sanitizeLocation loc (a_now s))) (\<lambda>tokens.
      bindS (audit_a ACTOR_USER (Some (au_id u)) ''OTP_VERIFIED'' (Some (au_id u)) (cx_ip ctx)) (\<lambda>_.
      bindS (audit_a ACTOR_USER (Some (au_id u)) ''LOGIN'' (Some (au_id u)) (cx_ip ctx)) (\<lambda>_.
      returnS (toPublicUser u, tokens, False)))) s3"
    unfolding verifyOtp_use_def Let_def prod.case by (rule run)
  finally have "\<exists>t'. verifyOtp L cfg email code ctx loc s = (Inr (toPublicUser u, new_tokens L cfg u s3, False), t') \<and>
      a_sessions t' = a_sessions t \<and> a_now t' = a_now t"
    using t(1) by (simp add: svc_simps audit_a_def)
  then obtain t' where t': "verifyOtp L cfg email code ctx loc s = (Inr (toPublicUser u, new_tokens L cfg u s3, False), t')"
    "a_sessions t' = a_sessions t" "a_now t' = a_now t" by blast
  show "\<exists>toks t x. verifyOtp L cfg email code ctx loc s = (Inr (toPublicUser u, toks, False), t) \<and>
      filter (\<lambda>r. as_user r = au_id u \<and> live_session (a_now t) r) (a_sessions t) = [x] \<and>
      as_refresh x = lib_sha256 L (refreshToken toks)"
    by (rule exI [of _ "new_tokens L cfg u s3"], rule exI [of _ t'],
        rule exI [of _ "new_session L cfg u ctx (sanitizeLocation loc (a_now s)) s3"])
      (simp add: t' t(2) new_session_token)
  show "\<forall>inp pu toks t. li_email inp = normalized_email email \<longrightarrow> login L cfg inp s \<noteq> (Inr (Logged_In pu toks), t)"
  proof (intro allI impI notI)
    fix inp pu toks t assume inp: "li_email inp = ?e" and run: "login L cfg inp s = (Inr (Logged_In pu toks), t)"
    obtain u' loc' s' where "login_check L cfg inp s = (Inr (Inl (u', loc')), s')"
      using login_Logged_In [OF run] by blast
    from login_check_Inl(2,6) [OF this] show False using inp assms(4,5) by simp
  qed
qed

definition otp_state :: auth_db where
  "otp_state = some_state\<lparr>a_users := [some_user 1 ''b'' True],
     a_otps := [\<lparr>eo_id = 0, eo_email = ''b'', eo_hash = ''b:123456'', eo_purpose = OTP_LOGIN, eo_expires = 9, eo_attempts = 0,
       eo_max = 3, eo_sent = 0, eo_used = None, eo_created = 0\<rparr>]\<rparr>"

theorem otp_login_without_second_factor_witness:
  "\<exists>toks t. verifyOtp plain_lib plain_cfg ''b'' ''123456'' no_context None otp_state =
      (Inr (toPublicUser (some_user 1 ''b'' True), toks, False), t)"
proof -
  let ?e = "normalized_email ''b''"
  have reach: "auth_reach plain_lib plain_cfg (otp_state, [])"
    unfolding auth_reach_def by (intro exI [of _ otp_state]) (simp add: otp_state_def some_state_def)
  have e: "?e = ''b''" and same: "same_email ''b'' ''b''" and low: "toLowerCase ''b'' = ''b''" by code_simp+
  have u: "findUserByEmail ?e otp_state = Some (some_user 1 ''b'' True)"
    using same by (simp add: e findUserByEmail_def otp_state_def some_user_def)
  have r: "findLatestActiveByEmail ?e OTP_LOGIN otp_state = Some (hd (a_otps otp_state))"
    using same by (simp add: e findLatestActiveByEmail_def latest_otp_def otp_of_def otp_state_def)
  have "0 < ttlToMs (refreshTtl plain_cfg)" "\<not> requireLoginLocation plain_cfg" "au_totp (some_user 1 ''b'' True)"
    "au_deleted (some_user 1 ''b'' True) = None" "au_status (some_user 1 ''b'' True) = USER_ACTIVE"
    "a_now otp_state < eo_expires (hd (a_otps otp_state))" "eo_attempts (hd (a_otps otp_state)) < eo_max (hd (a_otps otp_state))"
    "eo_hash (hd (a_otps otp_state)) = hashOtp plain_lib plain_cfg ?e ''123456''"
    by (simp_all only: plain_refresh) (simp_all add: some_user_def otp_state_def some_state_def plain_cfg_def hashOtp_def plain_lib_def e low)
  from otp_login_without_second_factor [OF reach this(1,2) u this(3-5) r this(6-8), of no_context None]
  show ?thesis by blast
qed

section \<open>Passwords\<close>

text \<open>
  C37. A login that has passed the check of its password gets its session whatever happens before
  it goes on: the password may be reset, every session revoked and the account frozen in between.
\<close>

theorem checked_login_issued:
  assumes "auth_reach L cfg (s, ws)" and "0 < ttlToMs (refreshTtl cfg)"
    and "login_check L cfg inp s = (Inr (Inl (u, loc)), s1)"
    and "(auth_step L cfg)\<^sup>*\<^sup>* (s1, Login_Checked (u, loc) (li_context inp) # ws) (v, vs)"
    and "login_issue L cfg (u, loc) (li_context inp) v = (x, t)"
  shows "\<exists>toks r. x = Inr (Logged_In (toPublicUser u) toks) \<and>
    filter (\<lambda>r. as_user r = au_id u \<and> live_session (a_now t) r) (a_sessions t) = [r] \<and>
    as_refresh r = lib_sha256 L (refreshToken toks)"
proof -
  have "auth_reach L cfg (s1, Login_Checked (u, loc) (li_context inp) # ws)"
    using assms(1) step_login_check [OF assms(3)] unfolding auth_reach_def by (meson rtranclp.rtrancl_into_rtrancl)
  then have "auth_inv L cfg v" using auth_reach_later(1) [OF _ assms(4)] by simp
  from issue_result [OF this assms(2)] obtain t' where
    t': "issueSession L cfg u (li_context inp) loc v = (Inr (new_tokens L cfg u v), t')"
    "filter (\<lambda>r. as_user r = au_id u \<and> live_session (a_now t') r) (a_sessions t') = [new_session L cfg u (li_context inp) loc v]"
    by blast
  have "x = Inr (Logged_In (toPublicUser u) (new_tokens L cfg u v))" "a_sessions t = a_sessions t'" "a_now t = a_now t'"
    using assms(5) t'(1) by (auto simp: login_issue_def svc_simps audit_a_def)
  then show ?thesis using t'(2) new_session_token by simp
qed

theorem checked_login_issued_witness:
  "let u = some_user 0 ''a'' False; s = snd (login_check plain_lib plain_cfg (some_login ''a'') some_state);
       v = s\<lparr>a_users := [u\<lparr>au_password := ''other'', au_status := USER_FROZEN\<rparr>]\<rparr>
   in \<exists>toks. fst (login_issue plain_lib plain_cfg (u, None) (li_context (some_login ''a'')) v) = Inr (Logged_In (toPublicUser u) toks)"
proof -
  let ?u = "some_user 0 ''a'' False"
  let ?inp = "some_login ''a''"
  define s where "s = snd (login_check plain_lib plain_cfg ?inp some_state)"
  define v where "v = s\<lparr>a_users := [?u\<lparr>au_password := ''other'', au_status := USER_FROZEN\<rparr>]\<rparr>"
  have reach: "auth_reach plain_lib plain_cfg (some_state, [])"
    unfolding auth_reach_def by (intro exI [of _ some_state]) (simp add: some_state_def)
  have "fst (login_check plain_lib plain_cfg ?inp some_state) = Inr (Inl (?u, None))" by code_simp
  then have check: "login_check plain_lib plain_cfg ?inp some_state = (Inr (Inl (?u, None)), s)"
    by (simp add: s_def prod_eq_iff)
  have "(auth_step plain_lib plain_cfg)\<^sup>*\<^sup>* (s, ws) (v, ws)" for ws
    using r_into_rtranclp [of "auth_step plain_lib plain_cfg", OF step_environment [where s = s and now' = "a_now s" and us = "a_users v" and roles = "a_roles s" and down = "a_redis_down s"
      and mdown = "a_mail_down s"]]
    by (simp add: v_def)
  from checked_login_issued [OF reach _ check this surjective_pairing]
  show ?thesis by (auto simp: Let_def plain_refresh s_def v_def)
qed

lemma map_of_remove: "map_of (filter (\<lambda>e. fst e \<noteq> k) xs) k' = (if k' = k then None else map_of xs k')"
  by (induction xs) auto

lemma redis_entry_cong: "a_redis t = a_redis s \<Longrightarrow> a_now t = a_now s \<Longrightarrow> redis_entry k t = redis_entry k s"
  by (simp only: redis_entry_def)

lemma find_rewritten:
  "find (\<lambda>u. au_id u = i) us = Some u \<Longrightarrow> (\<And>u. au_id (f u) = au_id u) \<Longrightarrow>
     find (\<lambda>u. au_id u = i) (map (\<lambda>u. if au_id u = i then f u else u) us) = Some (f u)"
  by (induction us) (auto split: if_splits)

lemma redis_entry_put: "redis_entry k' (redis_put k v e s) = (if k' = k
    then (case e of None \<Rightarrow> Some (v, None) | Some t \<Rightarrow> if a_now s < t then Some (v, Some t) else None) else redis_entry k' s)"
  by (auto simp: redis_entry_def redis_put_def map_of_remove split: option.splits)

lemma redis_entry_remove: "redis_entry k' (redis_remove k s) = (if k' = k then None else redis_entry k' s)"
  by (auto simp: redis_entry_def redis_remove_def map_of_remove split: option.splits)

text \<open>What revoking sessions leaves alone.\<close>

definition same_accounts :: "auth_db \<Rightarrow> auth_db \<Rightarrow> bool" where
  "same_accounts s t \<longleftrightarrow> a_users t = a_users s \<and> a_redis_down t = a_redis_down s \<and> a_now t = a_now s \<and>
     (\<forall>k. redis_entry (RESET_KEY k) t = redis_entry (RESET_KEY k) s)"

lemma same_accounts_mark: "preserves (\<lambda>t. same_accounts s t \<and> I (a_sessions t)) (markSessionRevoked cfg i x)"
  by (auto simp: preserves_def markSessionRevoked_def authRedisSet_a_def redis_a_def svc_simps same_accounts_def
      redis_entry_put) (simp_all add: redis_put_def)

lemma revokeAllDeny_run:
  "\<exists>t. revokeAllAndDenylist cfg i except ctx s = (Inr (), t) \<and> same_accounts s t \<and>
     (\<forall>r \<in> set (a_sessions t). as_user r = i \<and> Some (as_id r) \<noteq> except \<longrightarrow> as_revoked r \<noteq> None)"
proof -
  define ids where "ids = map as_id (filter (\<lambda>r. as_user r = i \<and> as_revoked r = None \<and> Some (as_id r) \<noteq> except) (a_sessions s))"
  define s1 where "s1 = s\<lparr>a_sessions := map (\<lambda>r. if as_id r \<in> set ids then r\<lparr>as_revoked := Some (a_now s)\<rparr> else r) (a_sessions s)\<rparr>"
  have 1: "revokeAllSessionsForUser i except s = (Inr ids, s1)"
    unfolding revokeAll_run Let_def s1_def ids_def ..
  let ?I = "\<lambda>t. same_accounts s t \<and> (\<forall>r \<in> set (a_sessions t). as_user r = i \<and> Some (as_id r) \<noteq> except \<longrightarrow> as_revoked r \<noteq> None)"
  have "redis_entry k s1 = redis_entry k s" for k by (rule redis_entry_cong) (simp_all add: s1_def)
  then have s1: "?I s1" by (auto simp: s1_def ids_def same_accounts_def split: if_splits)
  let ?marks = "mapS (\<lambda>x. orElse (markSessionRevoked cfg x ''1'') ()) ids"
  obtain ys s2 where 2: "?marks s1 = (Inr ys, s2)"
    using mapS_orElse [of "\<lambda>x. markSessionRevoked cfg x ''1''" ids s1] by (cases "?marks s1") auto
  have "preserves ?I ?marks" unfolding orElse_def by (intro preserves_intros same_accounts_mark)
  then have 3: "?I s2" by (rule preserves_run [where I = ?I and m = ?marks, OF _ s1 2])
  define t where "t = (if ids = [] then s2 else snd (audit_a ACTOR_SYSTEM (Some i) ''SESSIONS_REVOKED_ALL'' (Some i) (cx_ip ctx) s2))"
  have same: "a_sessions t = a_sessions s2" "a_users t = a_users s2" "a_redis_down t = a_redis_down s2" "a_now t = a_now s2"
    "a_redis t = a_redis s2" by (simp_all add: t_def audit_a_def svc_simps)
  have "?I t" using 3 redis_entry_cong [OF same(5,4)] by (simp add: same_accounts_def same)
  moreover have "revokeAllAndDenylist cfg i except ctx s = (Inr (), t)"
    unfolding revokeAllAndDenylist_def bindS_apply 1 by (simp add: 2 t_def svc_simps audit_a_def)
  ultimately show ?thesis by blast
qed

text \<open>
  C39. With a token that Redis still holds, resetting the password sets the new password, revokes
  every session of the user and uses the token up: a second reset with it is refused.  Another token
  mailed to the same user before stays as good as it was.
\<close>

theorem resetPassword_effect:
  assumes "\<not> a_redis_down s" and "redis_entry (RESET_KEY (lib_sha256 L token)) s = Some (R_User i, expiry)"
    and "findUserById i s = Some u"
  shows "\<exists>t. resetPassword L cfg token pw ctx s = (Inr (), t) \<and>
    findUserById i t = Some (u\<lparr>au_password := argon_hash L (a_next s) pw\<rparr>) \<and>
    (\<forall>r \<in> set (a_sessions t). as_user r = i \<longrightarrow> as_revoked r \<noteq> None) \<and>
    (\<forall>pw' ctx'. fst (resetPassword L cfg token pw' ctx' t) = Inl BadRequestError) \<and>
    (\<forall>k. k \<noteq> lib_sha256 L token \<longrightarrow> redis_entry (RESET_KEY k) t = redis_entry (RESET_KEY k) s)"
proof -
  let ?k = "RESET_KEY (lib_sha256 L token)"
  define s1 where "s1 = (redis_remove ?k s)\<lparr>a_next := Suc (a_next s),
    a_users := map (\<lambda>u. if au_id u = i then u\<lparr>au_password := argon_hash L (a_next s) pw\<rparr> else u) (a_users s)\<rparr>"
  obtain s2 where s2: "revokeAllAndDenylist cfg i None ctx s1 = (Inr (), s2)" "same_accounts s1 s2"
    "\<forall>r \<in> set (a_sessions s2). as_user r = i \<longrightarrow> as_revoked r \<noteq> None"
    using revokeAllDeny_run [of cfg i None ctx s1] by auto
  define t where "t = snd (notify_a i ''PASSWORD_CHANGED'' (snd (audit_a ACTOR_USER (Some i) ''PASSWORD_RESET'' (Some i) (cx_ip ctx) s2)))"
  have found: "find (\<lambda>u. au_id u = i) (a_users s) = Some u" using assms(3) by (simp add: findUserById_def)
  have "findUserById i (s\<lparr>a_next := Suc (a_next s)\<rparr>) \<noteq> None" using assms(3) by (simp add: findUserById_def)
  have run: "resetPassword L cfg token pw ctx s = (Inr (), t)"
    using assms s2(1) found unfolding t_def s1_def
    by (simp add: resetPassword_def authRedisGetDel_a_def redis_a_def bound_user_def hash_password_def draw_def
        updatePassword_def update_user_def svc_simps audit_a_def notify_a_def findUserById_def redis_remove_def
        cong: if_cong)
  have same: "a_sessions t = a_sessions s2" "a_users t = a_users s1" "a_redis_down t = a_redis_down s"
    "a_redis t = a_redis s2" "a_now t = a_now s2"
    using s2(2) by (simp_all add: t_def audit_a_def notify_a_def svc_simps same_accounts_def s1_def redis_remove_def)
  have entry: "redis_entry (RESET_KEY k) t = redis_entry (RESET_KEY k) (redis_remove ?k s)" for k
  proof -
    have "redis_entry (RESET_KEY k) t = redis_entry (RESET_KEY k) s2" by (rule redis_entry_cong [OF same(4,5)])
    also have "\<dots> = redis_entry (RESET_KEY k) s1" using s2(2) by (simp add: same_accounts_def)
    also have "\<dots> = redis_entry (RESET_KEY k) (redis_remove ?k s)" by (rule redis_entry_cong) (simp_all add: s1_def redis_remove_def)
    finally show ?thesis .
  qed
  have "findUserById i t = Some (u\<lparr>au_password := argon_hash L (a_next s) pw\<rparr>)"
    using find_rewritten [OF found, of "\<lambda>u. u\<lparr>au_password := argon_hash L (a_next s) pw\<rparr>"]
    by (simp add: findUserById_def same(2) s1_def)
  moreover have "fst (resetPassword L cfg token pw' ctx' t) = Inl BadRequestError" for pw' ctx'
    using entry [of "lib_sha256 L token"] assms(1) same(3)
    by (simp add: resetPassword_def authRedisGetDel_a_def redis_a_def svc_simps redis_entry_remove bound_user_def audit_a_def)
  ultimately show ?thesis
    using run s2(3) same(1) entry by (auto simp: redis_entry_remove)
qed

theorem resetPassword_effect_witness:
  "let s = some_state\<lparr>a_redis := [(RESET_KEY ''t'', R_User 0, Some 9)]\<rparr>
   in \<exists>t. resetPassword plain_lib plain_cfg ''t'' ''new'' no_context s = (Inr (), t) \<and>
        fst (resetPassword plain_lib plain_cfg ''t'' ''again'' no_context t) = Inl BadRequestError"
proof -
  let ?s = "some_state\<lparr>a_redis := [(RESET_KEY ''t'', R_User 0, Some 9)]\<rparr>"
  have "\<not> a_redis_down ?s" "redis_entry (RESET_KEY (lib_sha256 plain_lib ''t'')) ?s = Some (R_User 0, Some 9)"
    "findUserById 0 ?s = Some (some_user 0 ''a'' False)"
    by (simp_all add: some_state_def redis_entry_def plain_lib_def findUserById_def some_user_def)
  from resetPassword_effect [OF this, of plain_cfg "''new''" no_context] show ?thesis by (auto simp: Let_def)
qed

section \<open>Authenticator apps\<close>

text \<open>
  The secret an authenticator app is given decodes to the bytes it was made of.\<close>

theorem base32_roundtrip:
  assumes "\<forall>b \<in> set buf. b < 256"
  shows "base32ToBuffer (base32Encode buf) = buf"
  by (rule base32_decode [OF assms])

theorem base32_roundtrip_witness: "base32ToBuffer (base32Encode [255, 0, 7]) = [255, 0, 7]"
  by (rule base32_roundtrip) simp

definition factor_locked :: "nat \<Rightarrow> auth_db \<Rightarrow> bool" where
  "factor_locked i s \<longleftrightarrow> \<not> a_redis_down s \<and>
     (case redis_entry (SECOND_FACTOR_FAIL_KEY i) s of Some (R_Count n, e) \<Rightarrow> SECOND_FACTOR_MAX_FAILS \<le> n | _ \<Rightarrow> False)"

lemma assertNotLocked_run: "assertSecondFactorNotLocked i s =
    (if factor_locked i s then (Inl (TooManyRequestsError ''TWO_FA_LOCKED''), s) else (Inr (), s))"
  by (auto simp: assertSecondFactorNotLocked_def factor_locked_def redis_get_run svc_simps
      split: option.splits prod.splits redis_value.splits)

lemma clear_run: "clearSecondFactorFailures i s =
    (Inr (), if a_redis_down s then s else redis_remove (SECOND_FACTOR_FAIL_KEY i) s)"
  by (simp add: clearSecondFactorFailures_def orElse_def authRedisDel_a_def redis_a_def svc_simps)

definition totp_accepted :: "auth_lib \<Rightarrow> nat \<Rightarrow> string \<Rightarrow> auth_db \<Rightarrow> bool" where
  "totp_accepted L i code s \<longleftrightarrow> \<not> factor_locked i s \<and> (\<exists>u. findUserById i s = Some u \<and> au_totp u \<and>
     openSecret L (au_totp_secret u) \<noteq> [] \<and>
     verifyTotp (lib_hmac_sha1 L) (openSecret L (au_totp_secret u)) code (nat (a_now s)))"

lemma factor_totp:
  assumes "totp_accepted L i code s"
  shows "verifySecondFactor L i code s = (Inr (Some TOTP_FACTOR), snd (clearSecondFactorFailures i s))"
  using assms by (auto simp: totp_accepted_def verifySecondFactor_def assertNotLocked_run clear_run svc_simps Let_def)

lemma factor_totp_only:
  assumes "verifySecondFactor L i code s = (Inr (Some TOTP_FACTOR), t)"
  shows "totp_accepted L i code s"
proof -
  have "\<not> factor_locked i s" using assms by (auto simp: verifySecondFactor_def assertNotLocked_run svc_simps)
  then show ?thesis
    using assms by (auto simp: totp_accepted_def verifySecondFactor_def assertNotLocked_run clear_run result_simps Let_def
        split: option.splits if_splits)
qed

lemma div_diff_period: "(t - PERIOD_MS) div PERIOD_MS = t div PERIOD_MS - 1"
  using period_shift(1) [of t] by (cases "PERIOD_MS \<le> t") simp_all

lemma verifyTotp_period:
  assumes "t div PERIOD_MS = u div PERIOD_MS"
  shows "verifyTotp hmac secret code t = verifyTotp hmac secret code u"
proof -
  have "(t - PERIOD_MS) div PERIOD_MS = (u - PERIOD_MS) div PERIOD_MS"
    using assms by (simp add: div_diff_period)
  then have "totpCode hmac secret (t - PERIOD_MS) = totpCode hmac secret (u - PERIOD_MS)"
      "totpCode hmac secret t = totpCode hmac secret u" "totpCode hmac secret (t + PERIOD_MS) = totpCode hmac secret (u + PERIOD_MS)"
    using assms period_shift(2) by (auto intro!: totp_counter)
  then show ?thesis by (simp add: verifyTotp_def)
qed

text \<open>
  C40. The code of an authenticator app that was accepted is accepted again as long as the clock is
  within its periods: nothing records that it was used.
\<close>

theorem totp_replay:
  assumes "verifySecondFactor L i code s = (Inr (Some TOTP_FACTOR), t)"
    and "0 \<le> a_now s" and "a_now s div 30000 = a_now t' div 30000"
    and "a_users t' = a_users t" and "a_redis t' = a_redis t" and "a_redis_down t' = a_redis_down t"
  shows "\<exists>v. verifySecondFactor L i code t' = (Inr (Some TOTP_FACTOR), v)"
proof -
  have acc: "totp_accepted L i code s" by (rule factor_totp_only [OF assms(1)])
  have t: "t = snd (clearSecondFactorFailures i s)" using factor_totp [OF acc] assms(1) by simp
  have "a_users t = a_users s" by (simp add: t clear_run redis_remove_def)
  moreover have "\<not> factor_locked i t'"
    using assms(5,6) acc
    by (auto simp: t clear_run factor_locked_def redis_remove_def redis_entry_def map_of_remove totp_accepted_def)
  moreover have "verifyTotp hmac x code (nat (a_now t')) = verifyTotp hmac x code (nat (a_now s))" for hmac x
  proof (rule verifyTotp_period)
    have "0 \<le> a_now t'" 
      using assms(2,3) pos_imp_zdiv_nonneg_iff [of 30000 "a_now s"] pos_imp_zdiv_nonneg_iff [of 30000 "a_now t'"] by simp
    then show "nat (a_now t') div PERIOD_MS = nat (a_now s) div PERIOD_MS"
      using assms(2,3) nat_div_distrib [of "a_now s" 30000] nat_div_distrib [of "a_now t'" 30000] by (simp add: PERIOD_MS_def)
  qed
  ultimately have "totp_accepted L i code t'"
    using acc assms(4) by (simp add: totp_accepted_def findUserById_def)
  then show ?thesis using factor_totp by blast
qed

theorem totp_replay_witness:
  "let s = some_state\<lparr>a_users := [some_user 1 ''b'' True], a_now := 60000\<rparr>;
       code = totpCode (lib_hmac_sha1 plain_lib) ''MFRGG'' 60000; t = snd (verifySecondFactor plain_lib 1 code s)
   in \<exists>v. verifySecondFactor plain_lib 1 code t = (Inr (Some TOTP_FACTOR), v)"
proof -
  let ?s = "some_state\<lparr>a_users := [some_user 1 ''b'' True], a_now := 60000\<rparr>"
  let ?code = "totpCode (lib_hmac_sha1 plain_lib) ''MFRGG'' 60000"
  have secret: "base32ToBuffer ''MFRGG'' \<noteq> []" "normalizeBase32 ''MFRGG'' = ''MFRGG''" by code_simp+
  have len: "length (replicate IV_LENGTH 0) = IV_LENGTH" by simp
  have "encryptPII mirror_cipher (replicate IV_LENGTH 0) ''MFRGG'' \<noteq> []"
    by (cases "gcm_encrypt mirror_cipher (replicate IV_LENGTH 0) ''MFRGG''") (simp add: encryptPII_def IV_LENGTH_def)
  then obtain b bs where enc: "encryptPII mirror_cipher (replicate IV_LENGTH 0) ''MFRGG'' = b # bs"
    by (auto simp: neq_Nil_conv)
  have "openSecret plain_lib (Some (b # bs)) = ''MFRGG''"
    using decrypt_encrypt [OF mirror_cipher_correct len, of "''MFRGG''"] secret(2) by (simp add: openSecret_def plain_lib_def enc)
  moreover have "verifyTotp (lib_hmac_sha1 plain_lib) ''MFRGG'' ?code 60000"
    by (rule verifyTotp_near [OF secret(1)]) (simp_all add: PERIOD_MS_def)
  ultimately have "totp_accepted plain_lib 1 ?code ?s"
    by (simp add: totp_accepted_def factor_locked_def redis_entry_def findUserById_def some_state_def some_user_def enc)
  note run = factor_totp [OF this]
  have "\<exists>v. verifySecondFactor plain_lib 1 ?code (snd (clearSecondFactorFailures 1 ?s)) = (Inr (Some TOTP_FACTOR), v)"
    by (rule totp_replay [OF run]) (simp_all add: clear_run redis_remove_def some_state_def)
  then show ?thesis by (simp only: Let_def run snd_conv)
qed

end
