(* ===== verification/Spec2Isabelle.thy ===== *)
theory Spec2Isabelle
  imports Ledger_Properties Trading_Properties Withdrawal_Properties Conversion_Properties Inr_Withdrawal_Properties Deposit_Properties Crypto_Deposit_Properties Auth_Properties
begin

text \<open>
  A model of the exchange backend (\<open>backend/src\<close>): everything that moves money, and the accounts
  and sessions of its users, with the theorems that make it correct.

  \<^bold>\<open>The program.\<close>  A Node/TypeScript service over PostgreSQL (Prisma) and Redis.  Every movement
  of money is a double-entry posting in the ledger.  Trading, conversions, deposits and withdrawals
  keep their own tables and move money only by asking the ledger to post, under a reference that is
  posted once; a row and its posting are separate transactions, so most of what can go wrong is
  what another call, or an error, does between the two.  Requests are authenticated by short-lived
  access tokens of a session, which refresh tokens that are good once keep alive.

  \<^bold>\<open>What they share.\<close>
  \<^item> \<open>Prelude\<close>: the error classes of \<open>lib/errors.ts\<close> and service calls, functions from a state to
    an error or a result together with the state reached; a throw keeps what was committed.  The
    locale \<open>kept_calls\<close> is a calculus of triples for calls that keep an invariant and relate the
    states before and after.
  \<^item> \<open>Decimals\<close>: \<open>Prisma.Decimal\<close>.  Values are rationals; arithmetic rounds to the 20
    significant digits of decimal.js through a parameter \<open>D\<close>, about which only
    \<open>decimal_context\<close> is assumed (the documented behaviour of the library).
  \<^item> \<open>Database\<close>: the tables of \<open>prisma/schema.prisma\<close> as a record of lists, serializable
    transactions with their write conflicts, the audit log and the events.
  \<^item> \<open>Tables\<close>: \<open>update\<close> and \<open>updateMany\<close> of the repositories; the locale \<open>table\<close> is what a
    component's table gives, interpreted on every table that is updated.
  \<^item> \<open>Paging\<close>: the cursor schemes of the listings.  \<open>Encryption\<close>: \<open>lib/encryption.ts\<close>.

  \<^bold>\<open>The components.\<close>
  \<^item> \<open>Ledger\<close> (\<open>modules/ledger\<close>): the locale \<open>ledger\<close> is the contract its clients rely on,
    interpreted on \<open>post\<close> and on the retried \<open>post\<close>: a posting keeps the ledger invariant, moves
    the balances by its lines once per reference, and marks its own reference only.
  \<^item> \<open>Trading_Engine\<close> (\<open>trading.engine.ts\<close>, \<open>trading.types.ts\<close>): matching, lock sizes and fees,
    with the declarative specification \<open>allocate\<close> the engine refines.  \<open>Trading\<close>
    (\<open>trading.service.ts\<close>, \<open>trading.repository.ts\<close>): placing, matching, settling, cancelling.
  \<^item> \<open>Withdrawal\<close> (\<open>modules/withdrawal\<close>): crypto withdrawals, from the request over two
    approvals to the broadcast and its confirmation.  \<open>Withdrawal_Laws\<close>: the invariant of its
    table under every sequence of calls, and the locale of a signer, interpreted on the mock.
  \<^item> \<open>Conversion\<close> (\<open>modules/conversion\<close>): quotes, their single use and their settlement.
  \<^item> \<open>Inr_Withdrawal\<close> (\<open>modules/inr-withdrawal\<close>): payouts to a bank account or UPI.
    \<open>Inr_Withdrawal_Laws\<close>: rows and ledger agree, and every call books what it moves.
  \<^item> \<open>Deposit\<close> (\<open>modules/deposit\<close>): gateway deposits with their webhooks and manual deposits with
    their approvals.  \<open>Deposit_Laws\<close>: the same for deposits, with an approval split at the point
    where another call can come in; \<open>Deposit_Csv\<close>: a reader of the exported text.
  \<^item> \<open>Evm_Verifier\<close> and \<open>Crypto_Deposit\<close> (\<open>modules/crypto-deposit\<close>): deposits of USDT to the
    master wallet, verified from the receipt of the transaction the user names.
    \<open>Crypto_Deposit_Laws\<close>: the table and the books under every sequence of calls, with the answers
    the chain gave collected, so that each credit is traced to one; \<open>Evm_Laws\<close>: what a confirmed
    answer says of the receipt and of the blocks of the chain.
  \<^item> \<open>Totp\<close> (\<open>lib/totp.ts\<close>), \<open>Auth\<close> (\<open>lib/jwt.ts\<close>, \<open>lib/tokens.ts\<close>, \<open>lib/redis.ts\<close> and the
    state), \<open>Auth_Repository\<close>, \<open>User_Security\<close> (\<open>modules/user-security\<close>), \<open>Auth_Service\<close> and
    \<open>Auth_Otp\<close> (\<open>modules/auth\<close>, \<open>middleware/authenticate.ts\<close>): accounts and sessions, over a state
    of their own, since they share no table with the components that move money.  \<open>Auth_Laws\<close>:
    sessions keep what they are and a refresh token once replaced is never the stored one again,
    whatever calls come in whatever order; the calls are taken apart with \<open>kept_calls\<close>.
  The properties of a component are in the theory \<open><component>_Properties\<close>, each followed by a run
  it applies to.  They are of four kinds: invariants of the tables over every sequence of calls;
  what a call does to rows and balances on each of its outcomes; equivalence with a reference
  (the matching specification, exact arithmetic, text that is read back); and the places where the
  code does not do what it means to, stated as what it does.

  \<^bold>\<open>Conventions.\<close>  UUIDs are numbers; amounts, which the source passes as decimal strings, are
  rationals, and \<open>toFixed\<close> rounds as the source's does; asset symbols are compared as written
  (the CITEXT columns hold upper case); messages and metadata are left out.  CHECK constraints,
  unique keys and the balance trigger of the migrations are part of the writes; foreign keys are not
  (an account for an unknown user or asset is created where the database rejects it), and amounts
  are stored exactly (the scale and overflow of the NUMERIC(38,18) columns are not modelled).  A service call is
  one step unless a property is about two calls at once: then it is split where it waits, between
  what it read and what it writes, and each part is a definition of its own.  Code outside the
  repository is a parameter: the rounding, AES-GCM, the hash functions, the signer, the payment
  provider, the JSON-RPC endpoint of a chain, and for the sessions \<open>auth_lib\<close>: argon2, JSON Web Tokens
  and the random generators, with \<open>jwt_correct\<close> and \<open>hash_separates\<close> as what is assumed of them; they
  hold of \<open>plain_lib\<close>, on which the properties are tried.  Amounts of rupees have two decimals where a request schema
  demands it (\<open>grid 2\<close>).

  \<^bold>\<open>Bounds and fuel.\<close>  \<open>postWithRetry\<close> counts its five attempts as the source does, \<open>crawl\<close> the
  pages a client asks for; all other recursion is
  structural, or on the length of a list (\<open>octets\<close>, \<open>base32_groups\<close>).  Where exactness needs it, \<open>fits20\<close>
  and \<open>amounts_fit\<close> state that amounts stay below twenty digits.

  \<^bold>\<open>Not modelled.\<close>  HTTP controllers, routes and request schemas; federated login through
  Firebase, the sign-in of administrators, KYC, compliance, tax, support, reports, feature switches, the administration screens, the
  chain scanner with the deposit addresses it watches, live payment and chain providers
  (network I/O), the listings of trading and the front ends.
\<close>

end
